(* ===== verification/Prelude.thy ===== *)
theory Prelude
  imports Main "HOL-Library.Word" "HOL-Library.Monad_Syntax"
begin

text \<open>
  The shared base of the development: the machine types of the native code, the
  collections of rewrite rules the component theories add to, and the generic lemmas on
  lists, options and words that several components use.
\<close>

unbundle bit_operations_syntax

section \<open>Machine types\<close>

type_synonym byte = "8 word"
type_synonym int32_t = "32 word"
type_synonym uint32_t = "32 word"
type_synonym uint16_t = "16 word"
type_synonym int64_t = "64 word"

text \<open>A C object address. The null pointer of a typed C pointer is \<open>None\<close>.\<close>

type_synonym loc = nat
type_synonym ptr = "nat option"

section \<open>Collections\<close>

text \<open>
  \<open>frame\<close>: what an operation leaves alone. \<open>reps\<close>: how a representation predicate
  unfolds. \<open>step_defs\<close>: the pieces of a handler that a step of a transition system runs.
\<close>

named_theorems frame
named_theorems reps
named_theorems step_defs

section \<open>Lists\<close>

lemma takeWhile_nz_append_zero [simp]:
  "0 \<notin> set xs \<Longrightarrow> takeWhile (\<lambda>b. b \<noteq> (0 :: 'a :: zero)) (xs @ 0 # ys) = xs"
  by (induction xs) auto

lemma takeWhile_stop: "\<not> P x \<Longrightarrow> takeWhile P (xs @ x # ys) = takeWhile P xs"
  by (induction xs) auto

lemma sorted_wrt_less_distinct:
  "sorted_wrt (<) (xs :: 'a :: linorder list) \<Longrightarrow> distinct xs"
  by (induction xs) auto

lemma map_of_eq_None_notin: "k \<notin> fst ` set m \<Longrightarrow> map_of m k = None"
  by (simp add: map_of_eq_None_iff)

section \<open>Options\<close>

lemma bind_eq_SomeD:
  "Option.bind x f = Some y \<Longrightarrow> \<exists>z. x = Some z \<and> f z = Some y"
  by (cases x) auto

end
