(* ===== verification/StdMap.thy ===== *)
theory StdMap
  imports Prelude
begin

text \<open>
  The C++ standard library's \<open>std::map\<close>, as far as the native code uses it: an
  association list with strictly increasing keys, which is also the order in which its
  iterators run. The operations are the ones \<open>rn-bridge.cpp\<close> (the listener pool) and
  \<open>v8-util.h\<close> (\<open>StdMapTraits\<close>) call. The locale \<open>ordered_map\<close> is the contract those
  clients rely on.
\<close>

type_synonym ('k, 'v) std_map = "('k \<times> 'v) list"

section \<open>Operations\<close>

text \<open>\<open>m[k] = v\<close>: insert the key at its place or overwrite the value there.\<close>

fun map_assign :: "('k::linorder, 'v) std_map \<Rightarrow> 'k \<Rightarrow> 'v \<Rightarrow> ('k, 'v) std_map" where
  "map_assign [] k v = [(k, v)]"
| "map_assign ((k', v') # m) k v =
     (if k < k' then (k, v) # (k', v') # m
      else if k = k' then (k, v) # m
      else (k', v') # map_assign m k v)"

text \<open>\<open>m.find(k)\<close>, with \<open>None\<close> for \<open>m.end()\<close>.\<close>

fun map_find :: "('k::linorder, 'v) std_map \<Rightarrow> 'k \<Rightarrow> 'v option" where
  "map_find [] k = None"
| "map_find ((k', v') # m) k =
     (if k < k' then None else if k = k' then Some v' else map_find m k)"

text \<open>
  \<open>m.insert(make_pair(k, v))\<close>: a key that is there already is kept with its value; the
  flag says whether the pair was inserted.
\<close>

definition map_insert :: "('k::linorder, 'v) std_map \<Rightarrow> 'k \<Rightarrow> 'v \<Rightarrow> ('k, 'v) std_map \<times> bool" where
  "map_insert m k v =
     (case map_find m k of Some _ \<Rightarrow> (m, False) | None \<Rightarrow> (map_assign m k v, True))"

text \<open>\<open>m.erase(m.find(k))\<close>.\<close>

fun map_erase :: "('k::linorder, 'v) std_map \<Rightarrow> 'k \<Rightarrow> ('k, 'v) std_map" where
  "map_erase [] k = []"
| "map_erase ((k', v') # m) k = (if k = k' then m else (k', v') # map_erase m k)"

definition map_ok :: "('k::linorder, 'v) std_map \<Rightarrow> bool" where
  "map_ok m \<longleftrightarrow> sorted_wrt (<) (map fst m)"

section \<open>Laws\<close>

lemma map_ok_Nil [simp]: "map_ok []"
  by (simp add: map_ok_def)

lemma map_ok_Cons: "map_ok ((k, v) # m) \<longleftrightarrow> (\<forall>k' \<in> fst ` set m. k < k') \<and> map_ok m"
  by (auto simp: map_ok_def)

lemma map_find_below: "\<forall>k' \<in> fst ` set m. k < k' \<Longrightarrow> map_find m k = None"
  by (cases m) auto

lemma map_find_map_of: "map_ok m \<Longrightarrow> map_find m k = map_of m k"
proof (induction m)
  case (Cons p m)
  obtain k' v' where p: "p = (k', v')" by (cases p)
  show ?case
  proof (cases "k < k'")
    case True
    with Cons.prems have "\<forall>k'' \<in> fst ` set m. k < k''"
      by (auto simp: p map_ok_Cons)
    then have "k \<notin> fst ` set m" by auto
    with True show ?thesis by (simp add: p map_of_eq_None_notin)
  next
    case False
    with Cons show ?thesis by (auto simp: p map_ok_Cons)
  qed
qed simp

lemma fst_set_map_assign: "fst ` set (map_assign m k v) = insert k (fst ` set m)"
  by (induction m k v rule: map_assign.induct) auto

lemma map_ok_assign: "map_ok m \<Longrightarrow> map_ok (map_assign m k v)"
  by (induction m k v rule: map_assign.induct)
     (auto simp: map_ok_Cons fst_set_map_assign intro: less_trans)

lemma map_of_assign: "map_ok m \<Longrightarrow> map_of (map_assign m k v) = (map_of m)(k \<mapsto> v)"
  by (induction m k v rule: map_assign.induct) (auto simp: map_ok_Cons fun_eq_iff)

lemma fst_set_map_erase: "fst ` set (map_erase m k) \<subseteq> fst ` set m"
  by (induction m k rule: map_erase.induct) auto

lemma map_ok_erase: "map_ok m \<Longrightarrow> map_ok (map_erase m k)"
  by (induction m k rule: map_erase.induct)
     (use fst_set_map_erase in \<open>fastforce simp: map_ok_Cons\<close>)+

lemma map_of_erase: "map_ok m \<Longrightarrow> map_of (map_erase m k) = (map_of m)(k := None)"
proof (induction m k rule: map_erase.induct)
  case (2 k' v' m k)
  then show ?case
    by (auto simp: map_ok_Cons fun_eq_iff map_of_eq_None_iff)
qed auto

lemma map_assign_append_max:
  "\<forall>k' \<in> fst ` set m. k' < k \<Longrightarrow> map_assign m k v = m @ [(k, v)]"
  by (induction m k v rule: map_assign.induct) auto

section \<open>The contract of an ordered map\<close>

locale ordered_map =
  fixes empty :: "'m"
    and assign :: "'m \<Rightarrow> 'k::linorder \<Rightarrow> 'v \<Rightarrow> 'm"
    and erase :: "'m \<Rightarrow> 'k \<Rightarrow> 'm"
    and find :: "'m \<Rightarrow> 'k \<Rightarrow> 'v option"
    and entries :: "'m \<Rightarrow> ('k \<times> 'v) list"
    and ok :: "'m \<Rightarrow> bool"
  assumes ok_empty: "ok empty"
    and ok_assign: "ok m \<Longrightarrow> ok (assign m k v)"
    and ok_erase: "ok m \<Longrightarrow> ok (erase m k)"
    and find_empty: "find empty k = None"
    and find_assign: "ok m \<Longrightarrow> find (assign m k v) k' = (if k' = k then Some v else find m k')"
    and find_erase: "ok m \<Longrightarrow> find (erase m k) k' = (if k' = k then None else find m k')"
    and entries_sorted: "ok m \<Longrightarrow> sorted_wrt (<) (map fst (entries m))"
    and entries_find: "ok m \<Longrightarrow> (k, v) \<in> set (entries m) \<longleftrightarrow> find m k = Some v"
begin

lemma entries_distinct: "ok m \<Longrightarrow> distinct (map fst (entries m))"
  by (rule sorted_wrt_less_distinct) (rule entries_sorted)

lemma keys_assign:
  "ok m \<Longrightarrow> fst ` set (entries (assign m k v)) = insert k (fst ` set (entries m))"
proof (rule set_eqI)
  fix x assume m: "ok m"
  have "x \<in> fst ` set (entries (assign m k v)) \<longleftrightarrow> (\<exists>w. find (assign m k v) x = Some w)"
    using entries_find [OF ok_assign [OF m]] by (force simp: image_iff)
  moreover have "x \<in> fst ` set (entries m) \<longleftrightarrow> (\<exists>w. find m x = Some w)"
    using entries_find [OF m] by (force simp: image_iff)
  ultimately show "x \<in> fst ` set (entries (assign m k v)) \<longleftrightarrow> x \<in> insert k (fst ` set (entries m))"
    by (simp add: find_assign [OF m])
qed

lemma erase_absent: "ok m \<Longrightarrow> find m k = None \<Longrightarrow> find (erase m k) k' = find m k'"
  by (simp add: find_erase)

lemma assign_twice: "ok m \<Longrightarrow> find (assign (assign m k v) k w) k' = find (assign m k w) k'"
  by (simp add: find_assign ok_assign)

end

interpretation sm: ordered_map "[]" map_assign map_erase map_find "\<lambda>m. m" map_ok
proof unfold_locales
  fix m :: "('a::linorder, 'b) std_map" and k k' v
  assume m: "map_ok m"
  show "map_find (map_assign m k v) k' = (if k' = k then Some v else map_find m k')"
    using m by (simp add: map_find_map_of map_ok_assign map_of_assign)
  show "map_find (map_erase m k) k' = (if k' = k then None else map_find m k')"
    using m by (simp add: map_find_map_of map_ok_erase map_of_erase)
  show "sorted_wrt (<) (map fst m)" using m by (simp add: map_ok_def)
  show "(k, v) \<in> set m \<longleftrightarrow> map_find m k = Some v"
    using m by (simp add: map_find_map_of map_ok_def sorted_wrt_less_distinct)
qed (simp_all add: map_ok_assign map_ok_erase)

end
