(* ===== verification/CString.thy ===== *)
theory CString
  imports Prelude
begin

text \<open>
  C strings and memory blocks. A block is the list of its bytes; a pointer into a block is
  an offset. The operations are the \<open>string.h\<close> and \<open>stdlib.h\<close> functions that
  \<open>rn-bridge.cpp\<close> and \<open>native-lib.cpp\<close> call. An access outside the block, which is
  undefined behaviour in C, is the result \<open>None\<close>.
\<close>

section \<open>Operations\<close>

text \<open>The C string that starts at offset \<open>p\<close>, without its terminating zero.\<close>

definition c_string :: "byte list \<Rightarrow> nat \<Rightarrow> byte list option" where
  "c_string buf p =
     (if 0 \<in> set (drop p buf) then Some (takeWhile (\<lambda>b. b \<noteq> 0) (drop p buf)) else None)"

definition strlen :: "byte list \<Rightarrow> nat \<Rightarrow> nat option" where
  "strlen buf p = map_option length (c_string buf p)"

text \<open>\<open>calloc(1, n)\<close>; a negative \<open>int\<close> becomes a huge \<open>size_t\<close>, and the call fails.\<close>

definition calloc :: "int \<Rightarrow> byte list option" where
  "calloc n = (if n < 0 then None else Some (replicate (nat n) 0))"

text \<open>
  \<open>strncpy(dst + p, src, n)\<close> writes exactly \<open>n\<close> bytes: the first \<open>n\<close> bytes of the
  source string, zeros where the source is shorter.
\<close>

definition strncpy :: "byte list \<Rightarrow> nat \<Rightarrow> byte list \<Rightarrow> int \<Rightarrow> byte list option" where
  "strncpy dst p src n =
     (if n < 0 \<or> length dst < p + nat n then None
      else Some (take p dst @ take (nat n) (src @ replicate (nat n) 0) @ drop (p + nat n) dst))"

text \<open>A \<open>size_t\<close> stored into an \<open>int\<close>.\<close>

definition to_int :: "nat \<Rightarrow> int" where
  "to_int n = sint (of_nat n :: int32_t)"

text \<open>Addition of two \<open>int\<close>s; a signed overflow is undefined.\<close>

definition int_add :: "int \<Rightarrow> int \<Rightarrow> int option" where
  "int_add a b = (if - (2 ^ 31) \<le> a + b \<and> a + b < 2 ^ 31 then Some (a + b) else None)"

section \<open>Laws\<close>

lemma c_string_at:
  "0 \<notin> set s \<Longrightarrow> length pre = p \<Longrightarrow> c_string (pre @ s @ 0 # post) p = Some s"
  by (simp add: c_string_def)

lemma c_string_nul [simp]: "0 \<notin> set s \<Longrightarrow> c_string (s @ [0]) 0 = Some s"
  using c_string_at [of s "[]" 0 "[]"] by simp

lemma c_string_no_nul: "c_string buf p = Some s \<Longrightarrow> 0 \<notin> set s"
  by (auto simp: c_string_def split: if_splits dest: set_takeWhileD)

lemma to_int_small: "n < 2 ^ 31 \<Longrightarrow> to_int n = int n"
  by (simp add: to_int_def signed_of_nat signed_take_bit_int_eq_self)

lemma to_int_range: "- (2 ^ 31) \<le> to_int n \<and> to_int n < 2 ^ 31"
  using sint_greater_eq [of "of_nat n :: int32_t"] sint_less [of "of_nat n :: int32_t"]
  by (simp add: to_int_def)

lemma strncpy_exact:
  assumes "length pre = p"
  shows "strncpy (pre @ replicate (length s) 0 @ post) p s (int (length s)) = Some (pre @ s @ post)"
  using assms by (simp add: strncpy_def)

text \<open>The idiom of both files: a zeroed block of \<open>strlen + 1\<close> bytes filled by \<open>strncpy\<close>.\<close>

lemma calloc_strncpy_copy:
  "Option.bind (calloc (int (length s) + 1)) (\<lambda>b. strncpy b 0 s (int (length s))) = Some (s @ [0])"
proof -
  have "replicate (nat (int (length s) + 1)) (0 :: byte) = [] @ replicate (length s) 0 @ [0]"
    by (simp add: nat_add_distrib replicate_append_same)
  then show ?thesis
    using strncpy_exact [of "[]" 0 s "[0]"] by (simp add: calloc_def)
qed

end
