(* ===== verification/Bridge.thy ===== *)
theory Bridge
  imports StdMap CString
begin

text \<open>
  The message bridge between the Java side and Node.js, \<open>FlowCrypt/src/main/cpp/rn-bridge.cpp\<close>.
  Its global variables are the record \<open>bridge\<close>; each function of the file is one
  definition, with its early returns and error paths. The N-API and the libuv functions
  are libraries: they are the fields of the records \<open>napi_api\<close> and \<open>uv_api\<close>, arguments of
  every handler that calls them. Undefined behaviour (a dangling pointer, a signed
  overflow, \<open>front()\<close> of an empty queue) is the result \<open>None\<close>. \<open>malloc\<close> and \<open>calloc\<close> are taken
  to find memory for a size that is not negative; the code does not test for their failure.
\<close>

section \<open>Types of the N-API\<close>

datatype napi_status =
    napi_ok | napi_invalid_arg | napi_object_expected | napi_string_expected
  | napi_name_expected | napi_function_expected | napi_number_expected
  | napi_boolean_expected | napi_array_expected | napi_generic_failure
  | napi_pending_exception | napi_cancelled | napi_escape_called_twice
  | napi_handle_scope_mismatch | napi_callback_scope_mismatch | napi_queue_full
  | napi_closing | napi_bigint_expected

datatype napi_valuetype =
    napi_undefined | napi_null | napi_boolean | napi_number | napi_string | napi_symbol
  | napi_object | napi_function | napi_external | napi_bigint

text \<open>The opaque pointers of the N-API.\<close>

type_synonym napi_env = nat
type_synonym napi_value = nat
type_synonym napi_ref = nat
type_synonym napi_callback_info = nat
type_synonym napi_handle_scope = nat

text \<open>
  A property of a native object. A function pointer to one of the two exported methods of the file is a value
  of \<open>napi_callback\<close>; attributes are a set of bits.
\<close>

datatype napi_callback = Send_message | Register_listener

definition napi_default :: nat where "napi_default = 0"
definition napi_writable :: nat where "napi_writable = 1"
definition napi_enumerable :: nat where "napi_enumerable = 2"
definition napi_configurable :: nat where "napi_configurable = 4"
definition napi_static :: nat where "napi_static = 1024"

record napi_property_descriptor =
  utf8name :: "string option"
  pd_name :: "napi_value option"
  pd_method :: "napi_callback option"
  pd_getter :: "napi_callback option"
  pd_setter :: "napi_callback option"
  pd_value :: "napi_value option"
  pd_attributes :: nat
  pd_data :: "nat option"

text \<open>
  The N-API functions the bridge calls, over the engine's state \<open>'js\<close>. Out parameters are
  part of the result. The two functions that can run JavaScript code
  (\<open>napi_call_function\<close>, and \<open>napi_coerce_to_string\<close> through \<open>toString\<close>) work on the
  whole state \<open>'s\<close> of the process, because that code may call back into the bridge.
\<close>

record ('js, 's) napi_api =
  napi_get_cb_info :: "napi_env \<Rightarrow> napi_callback_info \<Rightarrow> nat \<Rightarrow> 'js
    \<Rightarrow> napi_status \<times> (nat \<times> napi_value) \<times> 'js"
  napi_typeof :: "napi_env \<Rightarrow> napi_value \<Rightarrow> 'js \<Rightarrow> napi_status \<times> napi_valuetype \<times> 'js"
  napi_create_reference :: "napi_env \<Rightarrow> napi_value \<Rightarrow> nat \<Rightarrow> 'js \<Rightarrow> napi_status \<times> napi_ref \<times> 'js"
  napi_create_int32 :: "napi_env \<Rightarrow> int \<Rightarrow> 'js \<Rightarrow> napi_status \<times> napi_value \<times> 'js"
  napi_get_value_string_utf8 :: "napi_env \<Rightarrow> napi_value \<Rightarrow> nat option \<Rightarrow> 'js
    \<Rightarrow> napi_status \<times> (byte list \<times> nat) \<times> 'js"
  napi_get_last_error_message :: "napi_env \<Rightarrow> 'js \<Rightarrow> string option"
  napi_is_exception_pending :: "napi_env \<Rightarrow> 'js \<Rightarrow> bool"
  napi_throw_error :: "napi_env \<Rightarrow> string \<Rightarrow> 'js \<Rightarrow> 'js"
  napi_open_handle_scope :: "napi_env \<Rightarrow> 'js \<Rightarrow> napi_handle_scope \<times> 'js"
  napi_close_handle_scope :: "napi_env \<Rightarrow> napi_handle_scope \<Rightarrow> 'js \<Rightarrow> 'js"
  napi_get_reference_value :: "napi_env \<Rightarrow> napi_ref \<Rightarrow> 'js \<Rightarrow> napi_value \<times> 'js"
  napi_get_global :: "napi_env \<Rightarrow> 'js \<Rightarrow> napi_value \<times> 'js"
  napi_create_string_utf8 :: "napi_env \<Rightarrow> byte list \<Rightarrow> 'js \<Rightarrow> napi_value \<times> 'js"
  napi_define_properties :: "napi_env \<Rightarrow> napi_value \<Rightarrow> napi_property_descriptor list \<Rightarrow> 'js
    \<Rightarrow> napi_status \<times> 'js"
  napi_coerce_to_string :: "napi_env \<Rightarrow> napi_value \<Rightarrow> 's \<Rightarrow> napi_status \<times> napi_value \<times> 's"
  napi_call_function :: "napi_env \<Rightarrow> napi_value \<Rightarrow> napi_value \<Rightarrow> napi_value list \<Rightarrow> 's \<Rightarrow> 's"
  call_embedder :: "nat \<Rightarrow> byte list \<Rightarrow> 's \<Rightarrow> 's"

text \<open>
  The libuv functions, over the loop's state \<open>'l\<close>. The callbacks passed to
  \<open>uv_async_init\<close> are the two functions of the file that have that type; the one passed
  to \<open>uv_close\<close> is always \<open>close_cb\<close>.
\<close>

datatype uv_async_cb = Flush_message_queue | Do_registered_callbacks

record 'l uv_api =
  uv_async_init :: "loc \<Rightarrow> uv_async_cb \<Rightarrow> 'l \<Rightarrow> 'l"
  uv_async_send :: "loc \<Rightarrow> 'l \<Rightarrow> 'l"
  uv_close :: "loc \<Rightarrow> 'l \<Rightarrow> 'l"

section \<open>State\<close>

record QueuedFunc =
  qf_env :: napi_env
  qf_function :: napi_ref

text \<open>
  The global variables of the file, the heap blocks it allocates (\<open>cstrs\<close>: the message
  copies made by \<open>calloc\<close>; \<open>asyncs\<close>: the \<open>uv_async_t\<close> structs made by \<open>malloc\<close>, of which
  the code uses the \<open>data\<close> field), the next free address, the libuv loop and the engine.
\<close>

record ('l, 'js) bridge =
  pool :: "(int, QueuedFunc) std_map"
  my_little_pool_incrementer :: int
  embedder_callback :: "nat option"
  messageQueue :: "loc list"
  queue_uv_handle :: ptr
  cstrs :: "loc \<rightharpoonup> byte list"
  asyncs :: "loc \<rightharpoonup> ptr"
  next_addr :: loc
  uv :: 'l
  js :: 'js

section \<open>Operations\<close>

text \<open>The macros that throw a JavaScript exception.\<close>

definition GET_AND_THROW_LAST_ERROR :: "('js, 's) napi_api \<Rightarrow> napi_env \<Rightarrow> 'js \<Rightarrow> 'js" where
  "GET_AND_THROW_LAST_ERROR N env j =
     (if \<not> napi_is_exception_pending N env j
      then napi_throw_error N env
             (case napi_get_last_error_message N env j of
                Some m \<Rightarrow> m | None \<Rightarrow> ''empty error message'') j
      else j)"

definition assert_text :: "string \<Rightarrow> string \<Rightarrow> string" where
  "assert_text assertion message = ''assertion ('' @ assertion @ '') failed: '' @ message"

text \<open>\<open>NAPI_CALL\<close> and \<open>NAPI_ASSERT\<close> both leave the handler with \<open>NULL\<close>.\<close>

definition napi_call_failed ::
  "('js, 's) napi_api \<Rightarrow> napi_env \<Rightarrow> ('l, 'js, 'z) bridge_scheme
   \<Rightarrow> napi_value option \<times> ('l, 'js, 'z) bridge_scheme" where
  "napi_call_failed N env st = (None, st\<lparr>js := GET_AND_THROW_LAST_ERROR N env (js st)\<rparr>)"

definition napi_assert_failed ::
  "('js, 's) napi_api \<Rightarrow> napi_env \<Rightarrow> string \<Rightarrow> string \<Rightarrow> ('l, 'js, 'z) bridge_scheme
   \<Rightarrow> napi_value option \<times> ('l, 'js, 'z) bridge_scheme" where
  "napi_assert_failed N env assertion message st =
     (None, st\<lparr>js := napi_throw_error N env (assert_text assertion message) (js st)\<rparr>)"

text \<open>\<open>QueuedFunc::notify_message\<close>: none of the N-API results is looked at.\<close>

definition notify_message ::
  "('js, ('l, 'js, 'z) bridge_scheme) napi_api \<Rightarrow> QueuedFunc \<Rightarrow> loc
   \<Rightarrow> ('l, 'js, 'z) bridge_scheme \<Rightarrow> ('l, 'js, 'z) bridge_scheme option" where
  "notify_message N qf s st =
     (let original_env = qf_env qf;
          (scope, j1) = napi_open_handle_scope N original_env (js st);
          (callback, j2) = napi_get_reference_value N original_env (qf_function qf) j1;
          (global, j3) = napi_get_global N original_env j2
      in do {
        buf \<leftarrow> cstrs st s;
        text \<leftarrow> c_string buf 0;
        let (message, j4) = napi_create_string_utf8 N original_env text j3;
        let st1 = napi_call_function N original_env global callback [message] (st\<lparr>js := j4\<rparr>);
        Some (st1\<lparr>js := napi_close_handle_scope N original_env scope (js st1)\<rparr>)
      })"

definition rn_register_bridge_cb ::
  "nat option \<Rightarrow> ('l, 'js, 'z) bridge_scheme \<Rightarrow> ('l, 'js, 'z) bridge_scheme" where
  "rn_register_bridge_cb cb st = st\<lparr>embedder_callback := cb\<rparr>"

text \<open>\<open>free(p)\<close> of a message copy: a null pointer is ignored, a dangling one undefined.\<close>

definition free_cstr ::
  "ptr \<Rightarrow> ('l, 'js, 'z) bridge_scheme \<Rightarrow> ('l, 'js, 'z) bridge_scheme option" where
  "free_cstr p st =
     (case p of
        None \<Rightarrow> Some st
      | Some a \<Rightarrow> if a \<in> dom (cstrs st) then Some (st\<lparr>cstrs := (cstrs st)(a := None)\<rparr>) else None)"

definition close_cb ::
  "loc \<Rightarrow> ('l, 'js, 'z) bridge_scheme \<Rightarrow> ('l, 'js, 'z) bridge_scheme option" where
  "close_cb handle st = do {
     data \<leftarrow> asyncs st handle;
     st1 \<leftarrow> free_cstr data st;
     Some (st1\<lparr>asyncs := (asyncs st1)(handle := None)\<rparr>)
   }"

text \<open>The loop of \<open>doRegisteredCallbacks\<close> over the copied pool.\<close>

fun notify_pool ::
  "('js, ('l, 'js, 'z) bridge_scheme) napi_api \<Rightarrow> (int \<times> QueuedFunc) list \<Rightarrow> loc
   \<Rightarrow> ('l, 'js, 'z) bridge_scheme \<Rightarrow> ('l, 'js, 'z) bridge_scheme option" where
  "notify_pool N [] message st = Some st"
| "notify_pool N ((i, qf) # copiedPool) message st =
     Option.bind (notify_message N qf message st) (notify_pool N copiedPool message)"

definition doRegisteredCallbacks ::
  "'l uv_api \<Rightarrow> ('js, ('l, 'js, 'z) bridge_scheme) napi_api \<Rightarrow> loc
   \<Rightarrow> ('l, 'js, 'z) bridge_scheme \<Rightarrow> ('l, 'js, 'z) bridge_scheme option" where
  "doRegisteredCallbacks U N handle st = do {
     data \<leftarrow> asyncs st handle;
     message \<leftarrow> data;
     st1 \<leftarrow> notify_pool N (pool st) message st;
     Some (st1\<lparr>uv := uv_close U handle (uv st1)\<rparr>)
   }"

text \<open>
  One turn of the loop of \<open>flushMessageQueue\<close> after the message left the queue: a new
  \<open>uv_async_t\<close> that carries the message, initialised and sent.
\<close>

definition post_message ::
  "'l uv_api \<Rightarrow> loc \<Rightarrow> ('l, 'js, 'z) bridge_scheme \<Rightarrow> ('l, 'js, 'z) bridge_scheme" where
  "post_message U message st =
     (let handle = next_addr st
      in st\<lparr>next_addr := Suc handle,
            asyncs := (asyncs st)(handle \<mapsto> Some message),
            uv := uv_async_send U handle (uv_async_init U handle Do_registered_callbacks (uv st))\<rparr>)"

function flush_loop ::
  "'l uv_api \<Rightarrow> bool \<Rightarrow> ('l, 'js, 'z) bridge_scheme \<Rightarrow> ('l, 'js, 'z) bridge_scheme option" where
  "flush_loop U has_elements st =
     (if \<not> has_elements then Some st
      else case messageQueue st of
        [] \<Rightarrow> None
      | message # rest \<Rightarrow>
          flush_loop U (rest \<noteq> []) (post_message U message (st\<lparr>messageQueue := rest\<rparr>)))"
  by pat_completeness auto
termination
  by (relation "measure (\<lambda>(U, b, st). length (messageQueue st))")
     (auto simp: post_message_def Let_def)

declare flush_loop.simps [simp del]

definition flushMessageQueue ::
  "'l uv_api \<Rightarrow> ('l, 'js, 'z) bridge_scheme \<Rightarrow> ('l, 'js, 'z) bridge_scheme option" where
  "flushMessageQueue U st = flush_loop U (messageQueue st \<noteq> []) st"

definition init_queue_uv_handle ::
  "'l uv_api \<Rightarrow> ('l, 'js, 'z) bridge_scheme \<Rightarrow> ('l, 'js, 'z) bridge_scheme" where
  "init_queue_uv_handle U st =
     (let handle = next_addr st
      in st\<lparr>next_addr := Suc handle,
            asyncs := (asyncs st)(handle \<mapsto> None),
            queue_uv_handle := Some handle,
            uv := uv_async_send U handle (uv_async_init U handle Flush_message_queue (uv st))\<rparr>)"

text \<open>\<open>pool[my_little_pool_incrementer++] = af\<close>; the increment overflows at \<open>INT32_MAX\<close>.\<close>

definition pool_add ::
  "QueuedFunc \<Rightarrow> ('l, 'js, 'z) bridge_scheme \<Rightarrow> ('l, 'js, 'z) bridge_scheme option" where
  "pool_add af st =
     map_option
       (\<lambda>n. st\<lparr>pool := map_assign (pool st) (my_little_pool_incrementer st) af,
                my_little_pool_incrementer := n\<rparr>)
       (int_add (my_little_pool_incrementer st) 1)"

definition Method_RegisterListener ::
  "'l uv_api \<Rightarrow> ('js, 's) napi_api \<Rightarrow> napi_env \<Rightarrow> napi_callback_info
   \<Rightarrow> ('l, 'js, 'z) bridge_scheme \<Rightarrow> (napi_value option \<times> ('l, 'js, 'z) bridge_scheme) option" where
  "Method_RegisterListener U N env info st0 =
     (let st = (if queue_uv_handle st0 = None then init_queue_uv_handle U st0 else st0);
          (s1, (argc, arg0), j1) = napi_get_cb_info N env info 1 (js st)
      in if s1 \<noteq> napi_ok then Some (napi_call_failed N env (st\<lparr>js := j1\<rparr>))
      else if argc \<noteq> 1 then
        Some (napi_assert_failed N env ''argc == 1'' ''Wrong number of arguments'' (st\<lparr>js := j1\<rparr>))
      else let (s2, valuetype0, j2) = napi_typeof N env arg0 j1
      in if s2 \<noteq> napi_ok then Some (napi_call_failed N env (st\<lparr>js := j2\<rparr>))
      else if valuetype0 \<noteq> napi_function then
        Some (napi_assert_failed N env ''valuetype0 == napi_function'' ''Expected a function''
                (st\<lparr>js := j2\<rparr>))
      else let (s3, ref_to_function, j3) = napi_create_reference N env arg0 1 j2
      in if s3 \<noteq> napi_ok then Some (napi_call_failed N env (st\<lparr>js := j3\<rparr>))
      else let (s4, result, j4) = napi_create_int32 N env (my_little_pool_incrementer st) j3
      in if s4 \<noteq> napi_ok then Some (napi_call_failed N env (st\<lparr>js := j4\<rparr>))
      else map_option (\<lambda>st'. (Some result, st'))
             (pool_add \<lparr>qf_env = env, qf_function = ref_to_function\<rparr> (st\<lparr>js := j4\<rparr>)))"

text \<open>The end of \<open>Method_SendMessage\<close>, once the value is a string.\<close>

definition send_string ::
  "('js, ('l, 'js, 'z) bridge_scheme) napi_api \<Rightarrow> napi_env \<Rightarrow> napi_value
   \<Rightarrow> ('l, 'js, 'z) bridge_scheme \<Rightarrow> napi_value option \<times> ('l, 'js, 'z) bridge_scheme" where
  "send_string N env value_to_log st =
     (let (s1, (_, len), j1) = napi_get_value_string_utf8 N env value_to_log None (js st)
      in if s1 \<noteq> napi_ok then napi_call_failed N env (st\<lparr>js := j1\<rparr>)
      else let (s2, (buff, copied), j2) =
                 napi_get_value_string_utf8 N env value_to_log (Some (len + 1)) j1
      in if s2 \<noteq> napi_ok then napi_call_failed N env (st\<lparr>js := j2\<rparr>)
      else if copied \<noteq> len then
        napi_assert_failed N env ''copied == length'' ''Couldn't fully copy the message'' (st\<lparr>js := j2\<rparr>)
      else case embedder_callback st of
        None \<Rightarrow>
          napi_assert_failed N env ''embedder_callback''
            ''No callback is set in native code to receive the message'' (st\<lparr>js := j2\<rparr>)
      | Some cb \<Rightarrow> (None, call_embedder N cb buff (st\<lparr>js := j2\<rparr>)))"

definition Method_SendMessage ::
  "('js, ('l, 'js, 'z) bridge_scheme) napi_api \<Rightarrow> napi_env \<Rightarrow> napi_callback_info
   \<Rightarrow> ('l, 'js, 'z) bridge_scheme \<Rightarrow> napi_value option \<times> ('l, 'js, 'z) bridge_scheme" where
  "Method_SendMessage N env info st =
     (let (s1, (argc, arg0), j1) = napi_get_cb_info N env info 1 (js st)
      in if s1 \<noteq> napi_ok then napi_call_failed N env (st\<lparr>js := j1\<rparr>)
      else if argc \<noteq> 1 then
        napi_assert_failed N env ''argc == 1'' ''Wrong number of arguments'' (st\<lparr>js := j1\<rparr>)
      else let (s2, valuetype0, j2) = napi_typeof N env arg0 j1
      in if s2 \<noteq> napi_ok then napi_call_failed N env (st\<lparr>js := j2\<rparr>)
      else if valuetype0 \<noteq> napi_string then
        (let (s3, coerced, st3) = napi_coerce_to_string N env arg0 (st\<lparr>js := j2\<rparr>)
         in if s3 \<noteq> napi_ok then napi_call_failed N env st3
         else send_string N env coerced st3)
      else send_string N env arg0 (st\<lparr>js := j2\<rparr>))"

text \<open>\<open>Init\<close>: the status is cast to a pointer, so \<open>napi_ok\<close> (0) is returned as \<open>NULL\<close>.\<close>

fun status_code :: "napi_status \<Rightarrow> nat" where
  "status_code napi_ok = 0"
| "status_code napi_invalid_arg = 1"
| "status_code napi_object_expected = 2"
| "status_code napi_string_expected = 3"
| "status_code napi_name_expected = 4"
| "status_code napi_function_expected = 5"
| "status_code napi_number_expected = 6"
| "status_code napi_boolean_expected = 7"
| "status_code napi_array_expected = 8"
| "status_code napi_generic_failure = 9"
| "status_code napi_pending_exception = 10"
| "status_code napi_cancelled = 11"
| "status_code napi_escape_called_twice = 12"
| "status_code napi_handle_scope_mismatch = 13"
| "status_code napi_callback_scope_mismatch = 14"
| "status_code napi_queue_full = 15"
| "status_code napi_closing = 16"
| "status_code napi_bigint_expected = 17"

definition DECLARE_NAPI_METHOD :: "string \<Rightarrow> napi_callback \<Rightarrow> napi_property_descriptor" where
  "DECLARE_NAPI_METHOD name func =
     \<lparr>utf8name = Some name, pd_name = None, pd_method = Some func, pd_getter = None, pd_setter = None,
      pd_value = None, pd_attributes = napi_default, pd_data = None\<rparr>"

definition Init ::
  "('js, 's) napi_api \<Rightarrow> napi_env \<Rightarrow> napi_value \<Rightarrow> ('l, 'js, 'z) bridge_scheme
   \<Rightarrow> nat \<times> ('l, 'js, 'z) bridge_scheme" where
  "Init N env exports st =
     (let (status, j) = napi_define_properties N env exports
            [DECLARE_NAPI_METHOD ''sendMessage'' Send_message,
             DECLARE_NAPI_METHOD ''registerListener'' Register_listener] (js st)
      in (status_code status, st\<lparr>js := j\<rparr>))"

text \<open>
  \<open>rn_bridge_notify\<close>. The message is a C string, its bytes without the terminating zero;
  \<open>strlen\<close> is stored into an \<open>int\<close>. The copy, the push under the lock and the wake-up are
  separate definitions because other threads run between them.
\<close>

definition copy_message :: "byte list \<Rightarrow> byte list option" where
  "copy_message message =
     (let messageLength = to_int (length message)
      in do { size \<leftarrow> int_add messageLength 1;
              messageCopy \<leftarrow> calloc size;
              strncpy messageCopy 0 message messageLength })"

definition push_message ::
  "byte list \<Rightarrow> ('l, 'js, 'z) bridge_scheme \<Rightarrow> ('l, 'js, 'z) bridge_scheme" where
  "push_message messageCopy st =
     (let a = next_addr st
      in st\<lparr>next_addr := Suc a, cstrs := (cstrs st)(a \<mapsto> messageCopy),
            messageQueue := messageQueue st @ [a]\<rparr>)"

definition wake_queue ::
  "'l uv_api \<Rightarrow> ('l, 'js, 'z) bridge_scheme \<Rightarrow> ('l, 'js, 'z) bridge_scheme" where
  "wake_queue U st =
     (case queue_uv_handle st of
        Some handle \<Rightarrow> st\<lparr>uv := uv_async_send U handle (uv st)\<rparr>
      | None \<Rightarrow> st)"

definition rn_bridge_notify ::
  "'l uv_api \<Rightarrow> byte list \<Rightarrow> ('l, 'js, 'z) bridge_scheme \<Rightarrow> ('l, 'js, 'z) bridge_scheme option" where
  "rn_bridge_notify U message st =
     map_option (\<lambda>messageCopy. wake_queue U (push_message messageCopy st)) (copy_message message)"

text \<open>The initial values of the globals.\<close>

definition bridge_init :: "'l \<Rightarrow> 'js \<Rightarrow> ('l, 'js) bridge" where
  "bridge_init l j =
     \<lparr>pool = [], my_little_pool_incrementer = 1, embedder_callback = None,
      messageQueue = [], queue_uv_handle = None, cstrs = Map.empty, asyncs = Map.empty,
      next_addr = 1, uv = l, js = j\<rparr>"

section \<open>The queue is drained in order\<close>

lemma post_message_simps [simp]:
  "messageQueue (post_message U m st) = messageQueue st"
  "pool (post_message U m st) = pool st"
  "my_little_pool_incrementer (post_message U m st) = my_little_pool_incrementer st"
  "queue_uv_handle (post_message U m st) = queue_uv_handle st"
  "cstrs (post_message U m st) = cstrs st"
  "asyncs (post_message U m st) = (asyncs st)(next_addr st \<mapsto> Some m)"
  "next_addr (post_message U m st) = Suc (next_addr st)"
  "embedder_callback (post_message U m st) = embedder_callback st"
  "js (post_message U m st) = js st"
  by (simp_all add: post_message_def Let_def)

lemma post_message_queue_update:
  "post_message U m (st\<lparr>messageQueue := q\<rparr>) = (post_message U m st)\<lparr>messageQueue := q\<rparr>"
  by (simp add: post_message_def Let_def)

lemma flush_loop_fold:
  "flush_loop U (messageQueue st \<noteq> []) st =
     Some (fold (post_message U) (messageQueue st) (st\<lparr>messageQueue := []\<rparr>))"
proof (induction "messageQueue st" arbitrary: st)
  case Nil
  have "st\<lparr>messageQueue := []\<rparr> = st" by (simp add: Nil)
  with Nil show ?case by (simp add: flush_loop.simps)
next
  case (Cons m q)
  let ?st1 = "post_message U m (st\<lparr>messageQueue := q\<rparr>)"
  have "flush_loop U (messageQueue st \<noteq> []) st = flush_loop U (q \<noteq> []) ?st1"
    by (subst flush_loop.simps) (simp flip: Cons.hyps(2))
  also have "\<dots> = Some (fold (post_message U) q (?st1\<lparr>messageQueue := []\<rparr>))"
    using Cons.hyps(1) [of ?st1] by simp
  finally show ?case
    by (simp add: post_message_queue_update flip: Cons.hyps(2))
qed

lemma fold_post_message_frame:
  "messageQueue (fold (post_message U) ms st) = messageQueue st \<and>
   pool (fold (post_message U) ms st) = pool st \<and>
   my_little_pool_incrementer (fold (post_message U) ms st) = my_little_pool_incrementer st \<and>
   queue_uv_handle (fold (post_message U) ms st) = queue_uv_handle st \<and>
   cstrs (fold (post_message U) ms st) = cstrs st \<and>
   next_addr (fold (post_message U) ms st) = next_addr st + length ms"
  by (induction ms arbitrary: st) auto

lemma fold_post_message_asyncs:
  "asyncs (fold (post_message U) ms st) h =
     (if next_addr st \<le> h \<and> h < next_addr st + length ms
      then Some (Some (ms ! (h - next_addr st))) else asyncs st h)"
  by (induction ms arbitrary: st) (auto simp: nth_Cons' less_Suc_eq_le Suc_le_eq)

section \<open>The memory invariant\<close>

text \<open>
  Every allocated message copy is a terminated string owned by exactly one place: the
  queue, or the \<open>data\<close> field of one \<open>uv_async_t\<close>. Listener ids are positive and below the
  next id.
\<close>

definition data_ptrs :: "(loc \<rightharpoonup> ptr) \<Rightarrow> loc set" where
  "data_ptrs m = {p. Some p \<in> ran m}"

definition pool_ok :: "(int, QueuedFunc) std_map \<Rightarrow> int \<Rightarrow> bool" where
  "pool_ok m n \<longleftrightarrow> map_ok m \<and> (\<forall>k \<in> fst ` set m. 0 < k \<and> k < n) \<and> 1 \<le> n \<and> n \<le> 2147483647"

definition heap_ok :: "loc list \<Rightarrow> (loc \<rightharpoonup> byte list) \<Rightarrow> (loc \<rightharpoonup> ptr) \<Rightarrow> loc \<Rightarrow> ptr \<Rightarrow> bool" where
  "heap_ok q cs as n qh \<longleftrightarrow>
     distinct q \<and>
     (\<forall>h h' p. as h = Some (Some p) \<longrightarrow> as h' = Some (Some p) \<longrightarrow> h = h') \<and>
     data_ptrs as \<inter> set q = {} \<and>
     dom cs = set q \<union> data_ptrs as \<and>
     (\<forall>b \<in> ran cs. \<exists>s. 0 \<notin> set s \<and> b = s @ [0]) \<and>
     (\<forall>a \<in> dom cs. a < n) \<and> (\<forall>a \<in> dom as. a < n) \<and>
     (\<forall>h. qh = Some h \<longrightarrow> as h = Some None)"

definition bridge_ok :: "('l, 'js, 'z) bridge_scheme \<Rightarrow> bool" where
  "bridge_ok st \<longleftrightarrow>
     pool_ok (pool st) (my_little_pool_incrementer st) \<and>
     heap_ok (messageQueue st) (cstrs st) (asyncs st) (next_addr st) (queue_uv_handle st)"

lemma data_ptrs_simps [simp]:
  "data_ptrs Map.empty = {}"
  "as h = None \<Longrightarrow> data_ptrs (as(h \<mapsto> Some p)) = insert p (data_ptrs as)"
  "as h = None \<Longrightarrow> data_ptrs (as(h \<mapsto> None)) = data_ptrs as"
  by (auto simp: data_ptrs_def ran_map_upd)

lemma data_ptrs_iff: "p \<in> data_ptrs m \<longleftrightarrow> (\<exists>h. m h = Some (Some p))"
  by (simp add: data_ptrs_def ran_def)

lemma data_ptrs_remove:
  assumes h: "as h = Some (Some p)" and uniq: "\<And>h'. as h' = Some (Some p) \<Longrightarrow> h = h'"
  shows "data_ptrs (as(h := None)) = data_ptrs as - {p}"
proof (intro subset_antisym subsetI)
  fix x assume "x \<in> data_ptrs (as(h := None))"
  then obtain k where "k \<noteq> h" "as k = Some (Some x)" by (auto simp: data_ptrs_iff split: if_splits)
  with uniq [of k] show "x \<in> data_ptrs as - {p}" by (auto simp: data_ptrs_iff)
next
  fix x assume "x \<in> data_ptrs as - {p}"
  then obtain k where "x \<noteq> p" "as k = Some (Some x)" by (auto simp: data_ptrs_iff)
  with h have "(as(h := None)) k = Some (Some x)" by auto
  then show "x \<in> data_ptrs (as(h := None))" unfolding data_ptrs_iff ..
qed

lemma heap_ok_fresh:
  assumes "heap_ok q cs as n qh"
  shows "cs n = None" "as n = None" "n \<notin> set q" "n \<notin> data_ptrs as" "qh \<noteq> Some n"
    and "as h = Some (Some p) \<Longrightarrow> p < n" and "p \<in> set q \<Longrightarrow> p < n"
proof -
  have *: "\<forall>a \<in> dom cs. a < n" "\<forall>a \<in> dom as. a < n" "dom cs = set q \<union> data_ptrs as"
    "\<forall>h. qh = Some h \<longrightarrow> as h = Some None"
    using assms by (auto simp: heap_ok_def)
  show "cs n = None" using *(1) by (metis domIff less_irrefl)
  show "as n = None" using *(2) by (metis domIff less_irrefl)
  show "n \<notin> set q" "n \<notin> data_ptrs as" using *(1,3) by auto
  show "qh \<noteq> Some n" using *(2,4) by auto
  show "as h = Some (Some p) \<Longrightarrow> p < n" using *(1,3) by (auto simp: data_ptrs_iff)
  show "p \<in> set q \<Longrightarrow> p < n" using *(1,3) by auto
qed

lemma heap_ok_push:
  assumes ok: "heap_ok q cs as n qh" and s: "0 \<notin> set s"
  shows "heap_ok (q @ [n]) (cs(n \<mapsto> s @ [0])) as (Suc n) qh"
  unfolding heap_ok_def
proof (intro conjI)
  note f = heap_ok_fresh [OF ok]
  note ok' = ok [unfolded heap_ok_def]
  show "distinct (q @ [n])" using ok' f by simp
  show "data_ptrs as \<inter> set (q @ [n]) = {}" using ok' f by auto
  show "dom (cs(n \<mapsto> s @ [0])) = set (q @ [n]) \<union> data_ptrs as" using ok' by auto
  show "\<forall>b \<in> ran (cs(n \<mapsto> s @ [0])). \<exists>s. 0 \<notin> set s \<and> b = s @ [0]"
    using ok' s f(1) by (auto simp: ran_map_upd)
  show "\<forall>a \<in> dom (cs(n \<mapsto> s @ [0])). a < Suc n" "\<forall>a \<in> dom as. a < Suc n"
    using ok' by (auto simp: less_Suc_eq)
qed (use ok in \<open>simp_all add: heap_ok_def\<close>)

lemma heap_ok_queue_handle:
  assumes ok: "heap_ok q cs as n None"
  shows "heap_ok q cs (as(n \<mapsto> None)) (Suc n) (Some n)"
  using ok heap_ok_fresh [OF ok] unfolding heap_ok_def by (simp add: less_Suc_eq)

lemma heap_ok_post:
  assumes ok: "heap_ok (m # q) cs as n qh"
  shows "heap_ok q cs (as(n \<mapsto> Some m)) (Suc n) qh"
proof -
  note f = heap_ok_fresh [OF ok]
  have m: "m \<notin> data_ptrs as" using ok by (auto simp: heap_ok_def)
  then have "\<forall>h. as h \<noteq> Some (Some m)" by (auto simp: data_ptrs_iff)
  then show ?thesis
    using ok f unfolding heap_ok_def by (auto simp: less_Suc_eq)
qed

lemma heap_ok_close:
  assumes ok: "heap_ok q cs as n qh" and h: "as h = Some (Some p)"
  shows "heap_ok q (cs(p := None)) (as(h := None)) n qh"
proof -
  have rm: "data_ptrs (as(h := None)) = data_ptrs as - {p}"
    using ok h by (intro data_ptrs_remove) (auto simp: heap_ok_def)
  have p: "p \<in> data_ptrs as" using h by (auto simp: data_ptrs_iff)
  have "ran (cs(p := None)) \<subseteq> ran cs" by (auto simp: ran_def)
  with ok h p show ?thesis
    unfolding heap_ok_def rm by (auto simp: subset_iff)
qed

lemma bridge_ok_init: "bridge_ok (bridge_init l j)"
  by (simp add: bridge_ok_def bridge_init_def pool_ok_def heap_ok_def)

lemma bridge_ok_uv [simp]: "bridge_ok (st\<lparr>uv := l\<rparr>) = bridge_ok st"
  by (simp add: bridge_ok_def)

lemma bridge_ok_js [simp]: "bridge_ok (st\<lparr>js := j\<rparr>) = bridge_ok st"
  by (simp add: bridge_ok_def)

lemma bridge_ok_wake [simp]: "bridge_ok (wake_queue U st) = bridge_ok st"
  by (simp add: wake_queue_def split: option.split)

lemma bridge_ok_push:
  "bridge_ok st \<Longrightarrow> 0 \<notin> set s \<Longrightarrow> bridge_ok (push_message (s @ [0]) st)"
  by (simp add: bridge_ok_def push_message_def Let_def heap_ok_push)

lemma bridge_ok_init_queue:
  "bridge_ok st \<Longrightarrow> queue_uv_handle st = None \<Longrightarrow> bridge_ok (init_queue_uv_handle U st)"
  by (simp add: bridge_ok_def init_queue_uv_handle_def Let_def heap_ok_queue_handle)

lemma bridge_ok_post:
  "bridge_ok st \<Longrightarrow> messageQueue st = m # q \<Longrightarrow>
   bridge_ok (post_message U m (st\<lparr>messageQueue := q\<rparr>))"
  by (simp add: bridge_ok_def heap_ok_post)

lemma bridge_ok_flush_loop:
  "bridge_ok st \<Longrightarrow> flush_loop U b st = Some st' \<Longrightarrow> bridge_ok st'"
proof (induction U b st rule: flush_loop.induct)
  case (1 U b st)
  show ?case
  proof (cases "b \<and> messageQueue st \<noteq> []")
    case True
    then obtain m q where q: "messageQueue st = m # q" by (cases "messageQueue st") auto
    with True 1(3) have "flush_loop U (q \<noteq> []) (post_message U m (st\<lparr>messageQueue := q\<rparr>)) = Some st'"
      by (simp add: flush_loop.simps [of U True st])
    with 1(1,2) True q show ?thesis by (simp add: bridge_ok_post)
  next
    case False
    with 1 show ?thesis
      by (auto simp: flush_loop.simps [of U b st] split: if_splits)
  qed
qed

lemma pool_add_Some:
  assumes "bridge_ok st" and "pool_add af st = Some st'"
  shows "pool st' = pool st @ [(my_little_pool_incrementer st, af)]"
    and "my_little_pool_incrementer st' = my_little_pool_incrementer st + 1"
    and "bridge_ok st'"
proof -
  let ?n = "my_little_pool_incrementer st"
  have st': "?n < 2147483647"
    "st' = st\<lparr>pool := map_assign (pool st) ?n af, my_little_pool_incrementer := ?n + 1\<rparr>"
    using assms(2) by (auto simp: pool_add_def int_add_def split: if_splits)
  have ok: "pool_ok (pool st) ?n" using assms(1) by (simp add: bridge_ok_def)
  then have max: "\<forall>k \<in> fst ` set (pool st). k < ?n" by (simp add: pool_ok_def)
  show "pool st' = pool st @ [(?n, af)]"
    by (simp add: st' map_assign_append_max [OF max])
  show "my_little_pool_incrementer st' = ?n + 1" by (simp add: st')
  have "pool_ok (map_assign (pool st) ?n af) (?n + 1)"
    using ok st'(1) sm.ok_assign sm.keys_assign [of "pool st" ?n af]
    by (fastforce simp: pool_ok_def)
  with assms(1) show "bridge_ok st'" by (simp add: bridge_ok_def st')
qed

lemma close_cb_ok:
  assumes ok: "bridge_ok st" and h: "asyncs st h = Some (Some p)"
  shows "close_cb h st = Some (st\<lparr>cstrs := (cstrs st)(p := None), asyncs := (asyncs st)(h := None)\<rparr>)"
    and "bridge_ok (st\<lparr>cstrs := (cstrs st)(p := None), asyncs := (asyncs st)(h := None)\<rparr>)"
proof -
  have "p \<in> data_ptrs (asyncs st)" using h by (auto simp: data_ptrs_iff)
  then have "p \<in> dom (cstrs st)" using ok by (simp add: bridge_ok_def heap_ok_def)
  then show "close_cb h st = Some (st\<lparr>cstrs := (cstrs st)(p := None), asyncs := (asyncs st)(h := None)\<rparr>)"
    using h by (simp add: close_cb_def free_cstr_def)
  show "bridge_ok (st\<lparr>cstrs := (cstrs st)(p := None), asyncs := (asyncs st)(h := None)\<rparr>)"
    using ok h by (simp add: bridge_ok_def heap_ok_close)
qed

section \<open>Properties of the handlers\<close>

lemma copy_message_small:
  "length message < 2 ^ 31 - 1 \<Longrightarrow> copy_message message = Some (message @ [0])"
  using calloc_strncpy_copy [of message]
  by (simp add: copy_message_def to_int_small int_add_def Let_def)

text \<open>
  C29. \<open>rn_bridge_notify\<close> always succeeds for a message whose length fits an \<open>int\<close>: the queue
  grows by one pointer to a fresh copy that reads back as the message, the invariant is
  kept, and the event loop is woken exactly when the queue handle exists.
\<close>

theorem rn_bridge_notify_enqueues:
  assumes "bridge_ok st" and "length message < 2 ^ 31 - 1" and "0 \<notin> set message"
  shows "\<exists>st'. rn_bridge_notify U message st = Some st' \<and> bridge_ok st' \<and>
           messageQueue st' = messageQueue st @ [next_addr st] \<and>
           next_addr st \<notin> dom (cstrs st) \<and>
           Option.bind (cstrs st' (next_addr st)) (\<lambda>b. c_string b 0) = Some message \<and>
           uv st' = (case queue_uv_handle st of None \<Rightarrow> uv st | Some h \<Rightarrow> uv_async_send U h (uv st))"
proof -
  have fresh: "next_addr st \<notin> dom (cstrs st)"
    using assms(1) heap_ok_fresh(1) by (fastforce simp: bridge_ok_def)
  have "rn_bridge_notify U message st = Some (wake_queue U (push_message (message @ [0]) st))"
    using assms by (simp add: rn_bridge_notify_def copy_message_small)
  moreover have "bridge_ok (wake_queue U (push_message (message @ [0]) st))"
    using assms by (simp add: bridge_ok_push)
  ultimately show ?thesis
    using assms(3) fresh
    by (simp add: wake_queue_def push_message_def Let_def split: option.split)
qed

text \<open>
  C8. \<open>flushMessageQueue\<close> terminates without undefined behaviour and empties the queue: the
  \<open>i\<close>-th message ends in the \<open>data\<close> field of the \<open>i\<close>-th new \<open>uv_async_t\<close>, and the loop
  sees each new handle initialised and sent, in the order of the queue.
\<close>

theorem flushMessageQueue_drains:
  "\<exists>st'. flushMessageQueue U st = Some st' \<and> messageQueue st' = [] \<and>
     next_addr st' = next_addr st + length (messageQueue st) \<and>
     (\<forall>i < length (messageQueue st). asyncs st' (next_addr st + i) = Some (Some (messageQueue st ! i))) \<and>
     uv st' = fold (\<lambda>h l. uv_async_send U h (uv_async_init U h Do_registered_callbacks l))
                [next_addr st ..< next_addr st + length (messageQueue st)] (uv st) \<and>
     cstrs st' = cstrs st \<and> (bridge_ok st \<longrightarrow> bridge_ok st')"
proof -
  let ?st0 = "st\<lparr>messageQueue := []\<rparr>"
  let ?st' = "fold (post_message U) (messageQueue st) ?st0"
  have run: "flushMessageQueue U st = Some ?st'"
    by (simp add: flushMessageQueue_def flush_loop_fold)
  have uv: "uv (fold (post_message U) ms s) =
      fold (\<lambda>h l. uv_async_send U h (uv_async_init U h Do_registered_callbacks l))
        [next_addr s ..< next_addr s + length ms] (uv s)" for ms and s :: "('a, 'b, 'c) bridge_scheme"
  proof (induction ms arbitrary: s)
    case (Cons m ms)
    have "[next_addr s ..< next_addr s + length (m # ms)] =
        next_addr s # [Suc (next_addr s) ..< Suc (next_addr s) + length ms]"
      by (simp add: upt_conv_Cons del: upt_Suc)
    with Cons show ?case by (simp add: post_message_def Let_def)
  qed simp
  have "bridge_ok st \<longrightarrow> bridge_ok ?st'"
    using run bridge_ok_flush_loop by (fastforce simp: flushMessageQueue_def)
  with run show ?thesis
    using fold_post_message_frame [of U "messageQueue st" ?st0]
    by (auto simp: fold_post_message_asyncs uv)
qed


section \<open>Delivery to the listeners\<close>

text \<open>The effect of one \<open>notify_message\<close> when the message reads as \<open>body\<close>.\<close>

definition deliver ::
  "('js, ('l, 'js, 'z) bridge_scheme) napi_api \<Rightarrow> byte list \<Rightarrow> QueuedFunc
   \<Rightarrow> ('l, 'js, 'z) bridge_scheme \<Rightarrow> ('l, 'js, 'z) bridge_scheme" where
  "deliver N body qf st =
     (let (scope, j1) = napi_open_handle_scope N (qf_env qf) (js st);
          (callback, j2) = napi_get_reference_value N (qf_env qf) (qf_function qf) j1;
          (global, j3) = napi_get_global N (qf_env qf) j2;
          (message, j4) = napi_create_string_utf8 N (qf_env qf) body j3;
          st1 = napi_call_function N (qf_env qf) global callback [message] (st\<lparr>js := j4\<rparr>)
      in st1\<lparr>js := napi_close_handle_scope N (qf_env qf) scope (js st1)\<rparr>)"

text \<open>
  What the code relies on in a listener: it may call the exported methods again, but it
  frees and overwrites none of the message copies and none of the \<open>uv_async_t\<close> blocks
  (only \<open>close_cb\<close> frees them, and the event loop calls it, not a listener).
\<close>

definition keeps_blocks :: "('js, ('l, 'js, 'z) bridge_scheme) napi_api \<Rightarrow> bool" where
  "keeps_blocks N \<longleftrightarrow> (\<forall>env g f args st.
     cstrs st \<subseteq>\<^sub>m cstrs (napi_call_function N env g f args st) \<and>
     asyncs st \<subseteq>\<^sub>m asyncs (napi_call_function N env g f args st))"

lemma deliver_keeps:
  assumes "keeps_blocks N"
  shows "cstrs st \<subseteq>\<^sub>m cstrs (deliver N body qf st)" "asyncs st \<subseteq>\<^sub>m asyncs (deliver N body qf st)"
proof -
  have "cstrs (st\<lparr>js := j\<rparr>) \<subseteq>\<^sub>m cstrs (napi_call_function N env g f args (st\<lparr>js := j\<rparr>)) \<and>
    asyncs (st\<lparr>js := j\<rparr>) \<subseteq>\<^sub>m asyncs (napi_call_function N env g f args (st\<lparr>js := j\<rparr>))" for env g f args j
    using assms unfolding keeps_blocks_def by blast
  then show "cstrs st \<subseteq>\<^sub>m cstrs (deliver N body qf st)" "asyncs st \<subseteq>\<^sub>m asyncs (deliver N body qf st)"
    by (simp_all add: deliver_def Let_def split: prod.split)
qed

lemma notify_message_deliver:
  "cstrs st p = Some (body @ [0]) \<Longrightarrow> 0 \<notin> set body \<Longrightarrow>
   notify_message N qf p st = Some (deliver N body qf st)"
  by (simp add: notify_message_def deliver_def Let_def split: prod.split)

lemma notify_pool_deliver:
  assumes "keeps_blocks N" and "0 \<notin> set body"
  shows "cstrs st p = Some (body @ [0]) \<Longrightarrow>
    notify_pool N m p st = Some (fold (deliver N body) (map snd m) st) \<and>
    cstrs st \<subseteq>\<^sub>m cstrs (fold (deliver N body) (map snd m) st) \<and>
    asyncs st \<subseteq>\<^sub>m asyncs (fold (deliver N body) (map snd m) st)"
proof (induction m arbitrary: st)
  case (Cons e m)
  obtain i qf where e: "e = (i, qf)" by (cases e)
  let ?st1 = "deliver N body qf st"
  note keeps = deliver_keeps [OF assms(1), of st body qf]
  from Cons.prems keeps(1) have "cstrs ?st1 p = Some (body @ [0])"
    by (metis domI map_le_def)
  note IH = Cons.IH [OF this]
  show ?case
    using Cons.prems assms(2) IH keeps
    by (auto simp: e notify_message_deliver intro: map_le_trans)
qed simp

lemma doRegisteredCallbacks_run:
  assumes "keeps_blocks N" and "asyncs st h = Some (Some p)"
    and "cstrs st p = Some (body @ [0])" and "0 \<notin> set body"
  shows "doRegisteredCallbacks U N h st =
    (let st1 = fold (deliver N body) (map snd (pool st)) st in Some (st1\<lparr>uv := uv_close U h (uv st1)\<rparr>))"
  using notify_pool_deliver [OF assms(1,4,3), of "pool st"] assms(2)
  by (simp add: doRegisteredCallbacks_def Let_def)

text \<open>
  C9. When the handle of a queued message fires, every listener of the pool, in the order of
  its id and exactly once, is called with the text of that message, and then the handle is
  closed. The pool is the one at the start: listeners added meanwhile are not called.
\<close>

theorem doRegisteredCallbacks_delivers:
  assumes "keeps_blocks N" and "asyncs st h = Some (Some p)"
    and "cstrs st p = Some (body @ [0])" and "0 \<notin> set body"
  shows "doRegisteredCallbacks U N h st =
    (let st1 = fold (deliver N body) (map snd (pool st)) st in Some (st1\<lparr>uv := uv_close U h (uv st1)\<rparr>))"
  using doRegisteredCallbacks_run [OF assms] .

section \<open>What listeners may do\<close>

text \<open>
  JavaScript code reaches the state of this file only through the two exported methods: \<open>registerListener\<close>, and
  \<open>sendMessage\<close>, which calls the embedder; the embedder may send a message back on the same thread. Whatever else it does
  (the engine, timers and other handles of the loop, the rest of the process) leaves the globals and the blocks of this
  file alone.
\<close>

inductive js_effect ::
  "'l uv_api \<Rightarrow> ('js, ('l, 'js, 'z) bridge_scheme) napi_api
   \<Rightarrow> ('l, 'js, 'z) bridge_scheme \<Rightarrow> ('l, 'js, 'z) bridge_scheme \<Rightarrow> bool"
  for U :: "'l uv_api" and N :: "('js, ('l, 'js, 'z) bridge_scheme) napi_api"
where
  effect_outside:
    "pool st' = pool st \<Longrightarrow> my_little_pool_incrementer st' = my_little_pool_incrementer st \<Longrightarrow>
     messageQueue st' = messageQueue st \<Longrightarrow> queue_uv_handle st' = queue_uv_handle st \<Longrightarrow> cstrs st' = cstrs st \<Longrightarrow>
     asyncs st' = asyncs st \<Longrightarrow> next_addr st' = next_addr st \<Longrightarrow> js_effect U N st st'"
| effect_register: "Method_RegisterListener U N env info st = Some (r, st') \<Longrightarrow> js_effect U N st st'"
| effect_notify:
    "rn_bridge_notify U message st = Some st' \<Longrightarrow> length message < 2 ^ 31 - 1 \<Longrightarrow> 0 \<notin> set message \<Longrightarrow>
     js_effect U N st st'"
| effect_seq: "js_effect U N st st1 \<Longrightarrow> js_effect U N st1 st' \<Longrightarrow> js_effect U N st st'"

definition js_through_bridge :: "'l uv_api \<Rightarrow> ('js, ('l, 'js, 'z) bridge_scheme) napi_api \<Rightarrow> bool" where
  "js_through_bridge U N \<longleftrightarrow> (\<forall>env g f args st. js_effect U N st (napi_call_function N env g f args st))"

lemma effect_js: "js_effect U N st (st\<lparr>js := j\<rparr>)"
  by (rule effect_outside) simp_all

text \<open>\<open>sendMessage\<close> has no effect of its own on the bridge, whatever its N-API calls answer.\<close>

lemma effect_send_string:
  assumes "\<And>cb t st. js_effect U N st (call_embedder N cb t st)"
  shows "js_effect U N st (snd (send_string N env v st))"
proof -
  have "js_effect U N st (call_embedder N cb t (st\<lparr>js := j\<rparr>))" for cb t j
    by (rule effect_seq [OF effect_js assms])
  then show ?thesis
    by (auto simp: send_string_def Let_def napi_call_failed_def napi_assert_failed_def effect_js
        split: prod.split option.split)
qed

lemma effect_sendMessage:
  assumes "\<And>cb t st. js_effect U N st (call_embedder N cb t st)"
    and "\<And>v st. js_effect U N st (snd (snd (napi_coerce_to_string N env v st)))"
  shows "js_effect U N st (snd (Method_SendMessage N env info st))"
proof -
  have send: "js_effect U N st (snd (send_string N env v (st\<lparr>js := j\<rparr>)))" for v j
    by (rule effect_seq [OF effect_js effect_send_string [OF assms(1)]])
  have coerced: "js_effect U N st st3 \<and> js_effect U N st (st3\<lparr>js := j'\<rparr>) \<and> js_effect U N st (snd (send_string N env c st3))"
    if "napi_coerce_to_string N env v (st\<lparr>js := j\<rparr>) = (s, c, st3)" for v j s c st3 j'
    using effect_seq [OF effect_js [of U N st j] assms(2) [of "st\<lparr>js := j\<rparr>" v]] that
    by (auto intro: effect_seq [OF _ effect_js] effect_seq [OF _ effect_send_string [OF assms(1)]])
  show ?thesis
    by (auto simp: Method_SendMessage_def Let_def napi_call_failed_def napi_assert_failed_def effect_js send
        dest!: coerced split: prod.split)
qed

text \<open>What any of these effects keeps: the invariant, and every block there was.\<close>

lemma register_listener_keeps:
  assumes ok: "bridge_ok st" and run: "Method_RegisterListener U N env info st = Some (r, st')"
  shows "bridge_ok st' \<and> cstrs st' = cstrs st \<and> asyncs st \<subseteq>\<^sub>m asyncs st'"
proof -
  define st1 where "st1 = (if queue_uv_handle st = None then init_queue_uv_handle U st else st)"
  have heap: "heap_ok (messageQueue st) (cstrs st) (asyncs st) (next_addr st) (queue_uv_handle st)"
    using ok by (simp add: bridge_ok_def)
  have st1: "bridge_ok st1" "cstrs st1 = cstrs st" "asyncs st \<subseteq>\<^sub>m asyncs st1"
    using ok bridge_ok_init_queue [OF ok] heap_ok_fresh(2) [OF heap]
    by (auto simp: st1_def init_queue_uv_handle_def Let_def map_le_def)
  have add: "bridge_ok st2 \<and> cstrs st2 = cstrs st1 \<and> asyncs st2 = asyncs st1"
    if "pool_add af (st1\<lparr>js := j\<rparr>) = Some st2" for af j st2
    using pool_add_Some(3) [OF _ that] st1(1) that by (auto simp: pool_add_def)
  show ?thesis
    using run st1
    by (fastforce simp: Method_RegisterListener_def st1_def [symmetric] Let_def napi_call_failed_def
        napi_assert_failed_def dest!: add split: prod.splits if_splits)
qed

lemma notify_keeps:
  assumes ok: "bridge_ok st" and run: "rn_bridge_notify U message st = Some st'"
    and m: "length message < 2 ^ 31 - 1" "0 \<notin> set message"
  shows "bridge_ok st' \<and> cstrs st \<subseteq>\<^sub>m cstrs st' \<and> asyncs st' = asyncs st"
proof -
  have heap: "heap_ok (messageQueue st) (cstrs st) (asyncs st) (next_addr st) (queue_uv_handle st)"
    using ok by (simp add: bridge_ok_def)
  have st': "st' = wake_queue U (push_message (message @ [0]) st)"
    using run m by (simp add: rn_bridge_notify_def copy_message_small)
  show ?thesis
    using bridge_ok_push [OF ok m(2)] heap_ok_fresh(1) [OF heap]
    by (auto simp: st' wake_queue_def push_message_def Let_def map_le_def split: option.split)
qed

lemma js_effect_keeps:
  "js_effect U N st st' \<Longrightarrow> bridge_ok st \<Longrightarrow> bridge_ok st' \<and> cstrs st \<subseteq>\<^sub>m cstrs st' \<and> asyncs st \<subseteq>\<^sub>m asyncs st'"
proof (induction rule: js_effect.induct)
  case (effect_outside st' st)
  then show ?case by (simp add: bridge_ok_def)
next
  case (effect_register env info st r st')
  then show ?case using register_listener_keeps by fastforce
next
  case (effect_notify message st st')
  then show ?case using notify_keeps by fastforce
next
  case (effect_seq st st1 st')
  then show ?case by (meson map_le_trans)
qed

lemma deliver_through_bridge:
  assumes "js_through_bridge U N" and "bridge_ok st"
  shows "bridge_ok (deliver N body qf st) \<and> cstrs st \<subseteq>\<^sub>m cstrs (deliver N body qf st) \<and>
    asyncs st \<subseteq>\<^sub>m asyncs (deliver N body qf st)"
proof -
  have "bridge_ok (napi_call_function N env g f args (st\<lparr>js := j\<rparr>)) \<and>
    cstrs st \<subseteq>\<^sub>m cstrs (napi_call_function N env g f args (st\<lparr>js := j\<rparr>)) \<and>
    asyncs st \<subseteq>\<^sub>m asyncs (napi_call_function N env g f args (st\<lparr>js := j\<rparr>))" for env g f args j
    using js_effect_keeps [of U N "st\<lparr>js := j\<rparr>"] assms unfolding js_through_bridge_def by fastforce
  then show ?thesis by (simp add: deliver_def Let_def split: prod.split)
qed

lemma fold_deliver_through_bridge:
  assumes N: "js_through_bridge U N"
  shows "bridge_ok st \<Longrightarrow> bridge_ok (fold (deliver N body) qs st) \<and>
    cstrs st \<subseteq>\<^sub>m cstrs (fold (deliver N body) qs st) \<and> asyncs st \<subseteq>\<^sub>m asyncs (fold (deliver N body) qs st)"
proof (induction qs arbitrary: st)
  case (Cons qf qs)
  from Cons.IH [of "deliver N body qf st"] deliver_through_bridge [OF N Cons.prems, of body qf]
  show ?case by (auto intro: map_le_trans)
qed simp

lemma notify_pool_through_bridge:
  assumes N: "js_through_bridge U N" and "0 \<notin> set body"
  shows "bridge_ok st \<Longrightarrow> cstrs st p = Some (body @ [0]) \<Longrightarrow>
    notify_pool N m p st = Some (fold (deliver N body) (map snd m) st)"
proof (induction m arbitrary: st)
  case (Cons e m)
  obtain i qf where e: "e = (i, qf)" by (cases e)
  note keeps = deliver_through_bridge [OF N Cons.prems(1), of body qf]
  then have "cstrs (deliver N body qf st) p = Some (body @ [0])"
    using Cons.prems(2) by (metis domI map_le_def)
  with Cons.IH keeps Cons.prems(2) assms(2) show ?case by (simp add: e notify_message_deliver)
qed simp

text \<open>So the delivery of a message calls every listener of the pool, and the close callback that follows frees its blocks.\<close>

lemma delivery_through_bridge:
  assumes N: "js_through_bridge U N" and ok: "bridge_ok st" and h: "asyncs st h = Some (Some p)"
    and p: "cstrs st p = Some (body @ [0])" "0 \<notin> set body"
  defines "st1 \<equiv> fold (deliver N body) (map snd (pool st)) st"
  defines "st2 \<equiv> st1\<lparr>uv := uv_close U h (uv st1)\<rparr>"
  shows "doRegisteredCallbacks U N h st = Some st2" and "bridge_ok st2"
    and "cstrs st \<subseteq>\<^sub>m cstrs st2" and "asyncs st \<subseteq>\<^sub>m asyncs st2"
    and "close_cb h st2 = Some (st2\<lparr>cstrs := (cstrs st2)(p := None), asyncs := (asyncs st2)(h := None)\<rparr>)"
    and "bridge_ok (st2\<lparr>cstrs := (cstrs st2)(p := None), asyncs := (asyncs st2)(h := None)\<rparr>)"
proof -
  show "doRegisteredCallbacks U N h st = Some st2"
    using notify_pool_through_bridge [OF N p(2) ok p(1), of "pool st"] h
    by (simp add: doRegisteredCallbacks_def st1_def st2_def)
  show ok2: "bridge_ok st2" and "cstrs st \<subseteq>\<^sub>m cstrs st2" and as: "asyncs st \<subseteq>\<^sub>m asyncs st2"
    using fold_deliver_through_bridge [OF N ok, of body "map snd (pool st)"] by (simp_all add: st1_def st2_def)
  have "asyncs st2 h = Some (Some p)" using as h by (metis domI map_le_def)
  from close_cb_ok [OF ok2 this]
  show "close_cb h st2 = Some (st2\<lparr>cstrs := (cstrs st2)(p := None), asyncs := (asyncs st2)(h := None)\<rparr>)"
    "bridge_ok (st2\<lparr>cstrs := (cstrs st2)(p := None), asyncs := (asyncs st2)(h := None)\<rparr>)" .
qed

text \<open>The stronger assumption on listeners: they do not call the bridge at all.\<close>

definition js_only :: "('js, ('l, 'js, 'z) bridge_scheme) napi_api \<Rightarrow> bool" where
  "js_only N \<longleftrightarrow> (\<forall>env g f args st. \<exists>j. napi_call_function N env g f args st = st\<lparr>js := j\<rparr>)"

lemma js_only_keeps: assumes "js_only N" shows "keeps_blocks N"
  unfolding keeps_blocks_def
proof (intro allI)
  fix env g f args st
  obtain j where "napi_call_function N env g f args st = st\<lparr>js := j\<rparr>"
    using assms unfolding js_only_def by blast
  then show "cstrs st \<subseteq>\<^sub>m cstrs (napi_call_function N env g f args st) \<and>
      asyncs st \<subseteq>\<^sub>m asyncs (napi_call_function N env g f args st)"
    by simp
qed

lemma deliver_js_only: assumes "js_only N" shows "\<exists>j. deliver N body qf st = st\<lparr>js := j\<rparr>"
proof -
  obtain F where "\<forall>env g f args st. napi_call_function N env g f args st = st\<lparr>js := F env g f args st\<rparr>"
    using assms unfolding js_only_def by metis
  then show ?thesis by (auto simp: deliver_def Let_def split: prod.split)
qed

lemma fold_deliver_js_only:
  assumes "js_only N" shows "\<exists>j. fold (deliver N body) qs st = st\<lparr>js := j\<rparr>"
proof (induction qs arbitrary: st)
  case Nil
  have "fold (deliver N body) [] st = st\<lparr>js := js st\<rparr>" by simp
  then show ?case ..
next
  case (Cons qf qs)
  obtain j where "deliver N body qf st = st\<lparr>js := j\<rparr>" using deliver_js_only [OF assms] by blast
  with Cons.IH [of "st\<lparr>js := j\<rparr>"] show ?case by simp
qed

lemma doRegisteredCallbacks_js_only:
  assumes "js_only N" and "bridge_ok st" and "asyncs st h = Some (Some p)"
  shows "\<exists>j. doRegisteredCallbacks U N h st = Some (st\<lparr>js := j, uv := uv_close U h (uv st)\<rparr>)"
proof -
  have heap: "heap_ok (messageQueue st) (cstrs st) (asyncs st) (next_addr st) (queue_uv_handle st)"
    using assms(2) by (simp add: bridge_ok_def)
  have "p \<in> dom (cstrs st)" using heap assms(3) by (auto simp: heap_ok_def data_ptrs_iff)
  then obtain body where "cstrs st p = Some (body @ [0])" "0 \<notin> set body"
    using heap unfolding heap_ok_def by (metis domD ranI)
  moreover obtain j where "fold (deliver N body) (map snd (pool st)) st = st\<lparr>js := j\<rparr>"
    using fold_deliver_js_only [OF assms(1)] by blast
  ultimately show ?thesis
    using doRegisteredCallbacks_run [OF js_only_keeps [OF assms(1)] assms(3), of body U]
    by (auto simp: Let_def)
qed

lemma notify_flush:
  assumes ok: "bridge_ok st" and empty: "messageQueue st = []"
    and m: "length message < 2 ^ 31 - 1" "0 \<notin> set message"
  obtains st1 st2 where "rn_bridge_notify U message st = Some st1" "flushMessageQueue U st1 = Some st2"
    "bridge_ok st2" "messageQueue st2 = []" "next_addr st1 = Suc (next_addr st)"
    "cstrs st2 = (cstrs st)(next_addr st \<mapsto> message @ [0])"
    "asyncs st2 = (asyncs st)(Suc (next_addr st) \<mapsto> Some (next_addr st))"
proof -
  define st1 where "st1 = wake_queue U (push_message (message @ [0]) st)"
  define st2 where "st2 = post_message U (next_addr st) (st1\<lparr>messageQueue := []\<rparr>)"
  have 1: "rn_bridge_notify U message st = Some st1" "bridge_ok st1"
    using ok m by (simp_all add: rn_bridge_notify_def copy_message_small st1_def bridge_ok_push)
  have 2: "messageQueue st1 = [next_addr st]" "cstrs st1 = (cstrs st)(next_addr st \<mapsto> message @ [0])"
    "asyncs st1 = asyncs st" "next_addr st1 = Suc (next_addr st)"
    using empty by (auto simp: st1_def wake_queue_def push_message_def Let_def split: option.splits)
  have 3: "flushMessageQueue U st1 = Some st2" "bridge_ok st2"
    using 1 2(1) flush_loop_fold [of U st1]
    by (simp_all add: flushMessageQueue_def st2_def bridge_ok_post)
  show ?thesis by (rule that [OF 1(1) 3]) (simp_all add: st2_def 2)
qed

text \<open>
  The life of a message. From a state whose queue is empty, notifying, flushing the
  queue, running the new handle and its close callback succeeds, frees both blocks, and
  leaves no message copy behind that was not there before.
\<close>

theorem message_lifecycle_no_leak:
  assumes ok: "bridge_ok st" and empty: "messageQueue st = []"
    and m: "length message < 2 ^ 31 - 1" "0 \<notin> set message" and N: "js_only N"
  shows "\<exists>st'. do { st1 \<leftarrow> rn_bridge_notify U message st;
                     st2 \<leftarrow> flushMessageQueue U st1;
                     st3 \<leftarrow> doRegisteredCallbacks U N (next_addr st1) st2;
                     close_cb (next_addr st1) st3 } = Some st' \<and>
           bridge_ok st' \<and> messageQueue st' = [] \<and> cstrs st' = cstrs st \<and> asyncs st' = asyncs st"
proof -
  let ?a = "next_addr st"
  obtain st1 st2 where st1: "rn_bridge_notify U message st = Some st1" "flushMessageQueue U st1 = Some st2"
    and st2: "bridge_ok st2" "messageQueue st2 = []" "next_addr st1 = Suc ?a"
      "cstrs st2 = (cstrs st)(?a \<mapsto> message @ [0])" "asyncs st2 = (asyncs st)(Suc ?a \<mapsto> Some ?a)"
    using notify_flush [OF ok empty m] .
  have heap: "heap_ok (messageQueue st) (cstrs st) (asyncs st) ?a (queue_uv_handle st)"
    using ok by (simp add: bridge_ok_def)
  have "Suc ?a \<notin> dom (asyncs st)" using heap unfolding heap_ok_def by (metis Suc_n_not_le_n nat_less_le)
  then have fresh: "cstrs st ?a = None" "asyncs st (Suc ?a) = None"
    using heap_ok_fresh(1) [OF heap] by auto
  have h: "asyncs st2 (Suc ?a) = Some (Some ?a)" by (simp add: st2)
  obtain j where st3: "doRegisteredCallbacks U N (Suc ?a) st2 =
      Some (st2\<lparr>js := j, uv := uv_close U (Suc ?a) (uv st2)\<rparr>)"
    using doRegisteredCallbacks_js_only [OF N st2(1) h] by blast
  show ?thesis
    using close_cb_ok [of "st2\<lparr>js := j, uv := uv_close U (Suc ?a) (uv st2)\<rparr>" "Suc ?a" ?a] fresh st2
    by (simp add: st1 st3 fun_upd_idem)
qed

text \<open>
  C30. \<open>sendMessage\<close> hands the embedder callback exactly the bytes of the argument's string
  value, when the N-API reads strings as documented and a callback is registered; with no
  callback it throws and calls nothing.
\<close>

theorem Method_SendMessage_forwards:
  assumes "napi_get_cb_info N env info 1 (js st) = (napi_ok, (1, v), j1)"
    and "napi_typeof N env v j1 = (napi_ok, napi_string, j2)"
    and "napi_get_value_string_utf8 N env v None j2 = (napi_ok, ([], length body), j2)"
    and "napi_get_value_string_utf8 N env v (Some (length body + 1)) j2 = (napi_ok, (body, length body), j2)"
  shows "Method_SendMessage N env info st =
    (case embedder_callback st of
       Some cb \<Rightarrow> (None, call_embedder N cb body (st\<lparr>js := j2\<rparr>))
     | None \<Rightarrow> (None, st\<lparr>js := napi_throw_error N env
         ''assertion (embedder_callback) failed: No callback is set in native code to receive the message'' j2\<rparr>))"
  using assms
  by (simp add: Method_SendMessage_def send_string_def Let_def napi_assert_failed_def assert_text_def
      split: option.split)

text \<open>
  C31. A message that reaches its handle while no listener is registered is dropped: no
  listener runs, the handle is closed and the message freed. Since \<open>registerListener\<close>
  starts the queue before it checks its argument, a call with a wrong argument is enough to
  lose every message queued so far.
\<close>

theorem messages_dropped_without_listener:
  assumes "bridge_ok st" and "pool st = []" and "asyncs st h = Some (Some p)"
  shows "do { st1 \<leftarrow> doRegisteredCallbacks U N h st; close_cb h st1 } =
    Some (st\<lparr>uv := uv_close U h (uv st), cstrs := (cstrs st)(p := None), asyncs := (asyncs st)(h := None)\<rparr>)"
proof -
  have "doRegisteredCallbacks U N h st = Some (st\<lparr>uv := uv_close U h (uv st)\<rparr>)"
    using assms(2,3) by (simp add: doRegisteredCallbacks_def)
  moreover have "close_cb h (st\<lparr>uv := uv_close U h (uv st)\<rparr>) =
      Some (st\<lparr>uv := uv_close U h (uv st), cstrs := (cstrs st)(p := None), asyncs := (asyncs st)(h := None)\<rparr>)"
    using close_cb_ok(1) [of "st\<lparr>uv := uv_close U h (uv st)\<rparr>" h p] assms(1,3) by simp
  ultimately show ?thesis by simp
qed

section \<open>A concrete engine and loop\<close>

text \<open>
  An engine that keeps the strings it created, the calls of listeners and the errors thrown,
  and a loop that records the libuv calls: the properties above at concrete inputs.
\<close>

record log_js =
  strs :: "byte list list"
  calls :: "(napi_ref \<times> byte list) list"
  thrown :: "string list"

definition js0 :: log_js where
  "js0 = \<lparr>strs = [], calls = [], thrown = []\<rparr>"

datatype uv_call = InitCall loc uv_async_cb | SendCall loc | CloseCall loc

definition log_uv :: "uv_call list uv_api" where
  "log_uv = \<lparr>uv_async_init = \<lambda>h cb l. l @ [InitCall h cb], uv_async_send = \<lambda>h l. l @ [SendCall h],
             uv_close = \<lambda>h l. l @ [CloseCall h]\<rparr>"

definition log_napi :: "(log_js, ('l, log_js, 'z) bridge_scheme) napi_api" where
  "log_napi =
     \<lparr>napi_get_cb_info = \<lambda>env info n j. (napi_ok, (1, info), j),
      napi_typeof = \<lambda>env v j. (napi_ok, (if v < 10 then napi_string else napi_function), j),
      napi_create_reference = \<lambda>env v n j. (napi_ok, v + 100, j),
      napi_create_int32 = \<lambda>env i j. (napi_ok, nat i, j),
      napi_get_value_string_utf8 = \<lambda>env v n j.
        (napi_ok, (case n of None \<Rightarrow> ([], length (strs j ! v)) | Some m \<Rightarrow> (strs j ! v, length (strs j ! v))), j),
      napi_get_last_error_message = \<lambda>env j. None,
      napi_is_exception_pending = \<lambda>env j. False,
      napi_throw_error = \<lambda>env e j. j\<lparr>thrown := thrown j @ [e]\<rparr>,
      napi_open_handle_scope = \<lambda>env j. (0, j),
      napi_close_handle_scope = \<lambda>env sc j. j,
      napi_get_reference_value = \<lambda>env r j. (r, j),
      napi_get_global = \<lambda>env j. (0, j),
      napi_create_string_utf8 = \<lambda>env t j. (length (strs j), j\<lparr>strs := strs j @ [t]\<rparr>),
      napi_define_properties = \<lambda>env v ps j. (napi_ok, j),
      napi_coerce_to_string = \<lambda>env v st. (napi_ok, v, st),
      napi_call_function = \<lambda>env g f args st.
        st\<lparr>js := (js st)\<lparr>calls := calls (js st) @ map (\<lambda>a. (f, strs (js st) ! a)) args\<rparr>\<rparr>,
      call_embedder = \<lambda>cb t st. st\<lparr>js := (js st)\<lparr>calls := calls (js st) @ [(cb, t)]\<rparr>\<rparr>\<rparr>"

lemma js_only_log: "js_only log_napi"
  unfolding js_only_def log_napi_def by auto

definition state0 :: "(uv_call list, log_js) bridge" where
  "state0 = bridge_init [] js0"

lemma state0_ok: "bridge_ok state0"
  by (simp add: state0_def bridge_ok_init)

text \<open>Two listeners, and two messages in the queue.\<close>

definition state1 :: "(uv_call list, log_js) bridge" where
  "state1 = push_message [106, 0] (push_message [104, 105, 0] (state0\<lparr>
     pool := [(1, \<lparr>qf_env = 0, qf_function = 7\<rparr>), (2, \<lparr>qf_env = 0, qf_function = 8\<rparr>)],
     my_little_pool_incrementer := 3\<rparr>))"

lemmas sample_defs = state0_def state1_def bridge_init_def push_message_def Let_def log_uv_def log_napi_def js0_def

lemma state1_ok: "bridge_ok state1"
proof -
  have "bridge_ok (state0\<lparr>pool := [(1, \<lparr>qf_env = 0, qf_function = 7\<rparr>), (2, \<lparr>qf_env = 0, qf_function = 8\<rparr>)],
     my_little_pool_incrementer := 3\<rparr>)"
    using state0_ok by (simp add: bridge_ok_def pool_ok_def map_ok_def state0_def bridge_init_def)
  from bridge_ok_push [OF bridge_ok_push [OF this, of "[104, 105]"], of "[106]"]
  show ?thesis by (simp add: state1_def)
qed

theorem rn_bridge_notify_enqueues_witness:
  "\<exists>st'. rn_bridge_notify log_uv [104, 105] state0 = Some st' \<and> messageQueue st' = [1] \<and>
     Option.bind (cstrs st' 1) (\<lambda>b. c_string b 0) = Some [104, 105] \<and> uv st' = []"
  using rn_bridge_notify_enqueues [OF state0_ok, of "[104, 105]" log_uv]
  by (auto simp: sample_defs)

theorem flushMessageQueue_drains_witness:
  "\<exists>st'. flushMessageQueue log_uv state1 = Some st' \<and> messageQueue st' = [] \<and> bridge_ok st' \<and>
     asyncs st' 3 = Some (Some 1) \<and> asyncs st' 4 = Some (Some 2)"
proof -
  have s: "messageQueue state1 = [1, 2]" "next_addr state1 = 3" by (simp_all add: sample_defs)
  obtain st' where st': "flushMessageQueue log_uv state1 = Some st'" "messageQueue st' = []"
    "\<forall>i < length (messageQueue state1). asyncs st' (next_addr state1 + i) = Some (Some (messageQueue state1 ! i))"
    "bridge_ok state1 \<longrightarrow> bridge_ok st'"
    using flushMessageQueue_drains [of log_uv state1] by blast
  from st'(3) [rule_format, of 0] st'(3) [rule_format, of 1] st' state1_ok
  show ?thesis by (simp add: s)
qed


theorem doRegisteredCallbacks_delivers_witness:
  "\<exists>st'. doRegisteredCallbacks log_uv log_napi 3 (post_message log_uv 1 (state1\<lparr>messageQueue := [2]\<rparr>)) = Some st' \<and>
     calls (js st') = [(7, [104, 105]), (8, [104, 105])]"
proof -
  let ?st = "post_message log_uv 1 (state1\<lparr>messageQueue := [2]\<rparr>)"
  have "asyncs ?st 3 = Some (Some 1)" "cstrs ?st 1 = Some ([104, 105] @ [0])"
    by (simp_all add: sample_defs)
  from doRegisteredCallbacks_delivers [OF js_only_keeps [OF js_only_log] this, of log_uv]
  show ?thesis by (simp add: deliver_def post_message_def sample_defs)
qed

theorem message_lifecycle_no_leak_witness:
  "\<exists>st'. do { st1 \<leftarrow> rn_bridge_notify log_uv [104, 105] state0;
               st2 \<leftarrow> flushMessageQueue log_uv st1;
               st3 \<leftarrow> doRegisteredCallbacks log_uv log_napi (next_addr st1) st2;
               close_cb (next_addr st1) st3 } = Some st' \<and>
     bridge_ok st' \<and> messageQueue st' = [] \<and> cstrs st' = cstrs state0 \<and> asyncs st' = asyncs state0"
  by (rule message_lifecycle_no_leak [OF state0_ok _ _ _ js_only_log]) (simp_all add: sample_defs)

theorem Method_SendMessage_forwards_witness:
  "Method_SendMessage log_napi 0 0 (state0\<lparr>js := js0\<lparr>strs := [[104, 105]]\<rparr>, embedder_callback := Some 5\<rparr>) =
     (None, state0\<lparr>js := \<lparr>strs = [[104, 105]], calls = [(5, [104, 105])], thrown = []\<rparr>, embedder_callback := Some 5\<rparr>)"
  using Method_SendMessage_forwards [of log_napi 0 0
      "state0\<lparr>js := js0\<lparr>strs := [[104, 105]]\<rparr>, embedder_callback := Some 5\<rparr>" 0
      "js0\<lparr>strs := [[104, 105]]\<rparr>" "js0\<lparr>strs := [[104, 105]]\<rparr>" "[104, 105]"]
  by (simp add: sample_defs)

theorem messages_dropped_without_listener_witness:
  "\<exists>st'. do { st1 \<leftarrow> doRegisteredCallbacks log_uv log_napi 3 (post_message log_uv 1 (state1\<lparr>messageQueue := [2], pool := []\<rparr>));
               close_cb 3 st1 } = Some st' \<and> calls (js st') = [] \<and> cstrs st' 1 = None"
proof -
  let ?st = "post_message log_uv 1 (state1\<lparr>messageQueue := [2]\<rparr>)"
  have "bridge_ok ?st"
    by (rule bridge_ok_post [OF state1_ok]) (simp add: sample_defs)
  then have ok: "bridge_ok (?st\<lparr>pool := []\<rparr>)"
    by (simp add: bridge_ok_def pool_ok_def)
  have eq: "post_message log_uv 1 (state1\<lparr>messageQueue := [2], pool := []\<rparr>) = ?st\<lparr>pool := []\<rparr>"
    by (simp add: post_message_def Let_def)
  have h: "asyncs (?st\<lparr>pool := []\<rparr>) 3 = Some (Some 1)" by (simp add: sample_defs)
  show ?thesis
    using messages_dropped_without_listener [OF ok _ h, of log_uv log_napi]
    by (simp add: eq post_message_def sample_defs)
qed

end
