(* ===== verification/BridgeConc.thy ===== *)
theory BridgeConc
  imports Bridge
begin

text \<open>
  The bridge under concurrency. Any number of threads call \<open>rn_bridge_notify\<close> while one thread runs the event loop: its
  callbacks (\<open>flushMessageQueue\<close>, \<open>doRegisteredCallbacks\<close>, \<open>close_cb\<close>), the listeners they call and any other JavaScript
  code, which may call \<open>registerListener\<close>. A step is the code between two points where another thread, or JavaScript code
  called from here, can run: a critical section of \<open>queueLock\<close>, a read of \<open>queue_uv_handle\<close>, a libuv call on that handle,
  a call of one listener. What is done to a block no other thread can reach yet (the copy of a message, the new
  \<open>uv_async_t\<close> of \<open>flushMessageQueue\<close>) is part of the step that precedes it. The steps have the order of the source; an
  unsynchronised access to \<open>queue_uv_handle\<close> is taken to read the value last written.
\<close>

section \<open>The event loop\<close>

text \<open>
  What a handle is to the loop: active with its callback and a flag that says whether a
  wake-up is due, or waiting for its close callback.
\<close>

datatype uv_handle_state = Active uv_async_cb bool | Closing

text \<open>
  The loop itself is libuv's: \<open>handles\<close> reads its table of the handles of this file, \<open>begin_async\<close> is what
  it does when it starts the callback of a due handle, \<open>finish_close\<close> when it starts the
  close callback.
\<close>

record 'l uv_loop =
  handles :: "'l \<Rightarrow> loc \<Rightarrow> uv_handle_state option"
  begin_async :: "loc \<Rightarrow> 'l \<Rightarrow> 'l"
  finish_close :: "loc \<Rightarrow> 'l \<Rightarrow> 'l"

text \<open>
  The documented behaviour the bridge relies on: \<open>uv_async_init\<close> makes a block an active handle (the code ignores its
  result; it is taken to succeed), \<open>uv_async_send\<close> makes the callback of an active handle due, several sends before the
  callback runs are one, \<open>uv_close\<close> of an active handle makes its close callback due. Nothing is said of a call on a
  handle in another state, in particular of \<open>uv_async_send\<close> before \<open>uv_async_init\<close>.
\<close>

definition uv_contract :: "'l uv_api \<Rightarrow> 'l uv_loop \<Rightarrow> bool" where
  "uv_contract U L \<longleftrightarrow>
     (\<forall>h cb l. handles L l h = None \<longrightarrow>
        handles L (uv_async_init U h cb l) = (handles L l)(h \<mapsto> Active cb False)) \<and>
     (\<forall>h cb b l. handles L l h = Some (Active cb b) \<longrightarrow>
        handles L (uv_async_send U h l) = (handles L l)(h \<mapsto> Active cb True)) \<and>
     (\<forall>h cb b l. handles L l h = Some (Active cb b) \<longrightarrow>
        handles L (uv_close U h l) = (handles L l)(h \<mapsto> Closing)) \<and>
     (\<forall>h cb l. handles L l h = Some (Active cb True) \<longrightarrow>
        handles L (begin_async L h l) = (handles L l)(h \<mapsto> Active cb False)) \<and>
     (\<forall>h l. handles L l h = Some Closing \<longrightarrow>
        handles L (finish_close L h l) = (handles L l)(h := None))"

section \<open>States and steps\<close>

text \<open>An entry of the pool: the id of a listener and the listener.\<close>

type_synonym listener = "int \<times> QueuedFunc"

text \<open>
  A run of \<open>doRegisteredCallbacks\<close> that has called some listeners: its handle, the pointer to the message, and the
  entries of \<open>copiedPool\<close> that are still to be called.
\<close>

type_synonym delivery = "loc \<times> loc \<times> listener list"

text \<open>
  Where a notifying thread is in \<open>rn_bridge_notify\<close>: before the call, after the push, after the test of the handle.
\<close>

datatype notifier_pc = NIdle | NPushed | NSignal loc

text \<open>
  Where the thread of the loop is. \<open>LJs None\<close>: between two callbacks, or in JavaScript code that no callback of this file
  called. \<open>LJs (Some d)\<close>: in \<open>doRegisteredCallbacks\<close>, at the head of its loop or in the listener it called last.
  \<open>LReg1\<close>, \<open>LReg2\<close>: in \<open>init_queue_uv_handle\<close>, called from \<open>registerListener\<close>, before \<open>uv_async_init\<close> and before
  \<open>uv_async_send\<close>; \<open>LReg3\<close>: in \<open>registerListener\<close>, after it. \<open>LStart\<close>, \<open>LFlush has_elements\<close>: in \<open>flushMessageQueue\<close>,
  before and at the head of its loop.
\<close>

datatype loop_pc =
    LJs "delivery option" | LReg1 "delivery option" loc | LReg2 "delivery option" loc | LReg3 "delivery option"
  | LStart | LFlush bool

text \<open>
  Three fields record what has happened, for the statements below. \<open>sent\<close>: the messages pushed, each with the address
  of its copy, its text and the listeners registered at that time. \<open>called\<close>: the calls of listeners, each with the
  address of the message and the text the listener was given. \<open>uninit_send\<close>: whether a thread has called
  \<open>uv_async_send\<close> on a handle that \<open>uv_async_init\<close> had not seen.
\<close>

record ('l, 'js) conc =
  br :: "('l, 'js) bridge"
  notifiers :: "nat \<Rightarrow> notifier_pc"
  lpc :: loop_pc
  sent :: "(loc \<times> byte list \<times> listener list) list"
  called :: "(loc \<times> listener \<times> byte list) list"
  uninit_send :: bool

definition conc_init :: "'l \<Rightarrow> 'js \<Rightarrow> ('l, 'js) conc" where
  "conc_init l j =
     \<lparr>br = bridge_init l j, notifiers = (\<lambda>_. NIdle), lpc = LJs None, sent = [], called = [],
      uninit_send = False\<rparr>"

text \<open>The first of the three parts of \<open>init_queue_uv_handle\<close>.\<close>

definition alloc_queue_handle :: "('l, 'js, 'z) bridge_scheme \<Rightarrow> ('l, 'js, 'z) bridge_scheme" where
  "alloc_queue_handle b =
     b\<lparr>next_addr := Suc (next_addr b), asyncs := (asyncs b)(next_addr b \<mapsto> None),
       queue_uv_handle := Some (next_addr b)\<rparr>"

text \<open>\<open>rn_bridge_notify\<close> on the thread \<open>t\<close>.\<close>

inductive notify_step :: "'l uv_api \<Rightarrow> 'l uv_loop \<Rightarrow> ('l, 'js) conc \<Rightarrow> ('l, 'js) conc \<Rightarrow> bool"
  for U :: "'l uv_api" and L :: "'l uv_loop"
where
  notify_push:
    "notifiers c t = NIdle \<Longrightarrow> copy_message message = Some copy \<Longrightarrow> 0 \<notin> set message \<Longrightarrow>
     length message < 2 ^ 31 - 1 \<Longrightarrow>
     notify_step U L c (c\<lparr>br := push_message copy (br c), notifiers := (notifiers c)(t := NPushed),
                         sent := sent c @ [(next_addr (br c), message, pool (br c))]\<rparr>)"
| notify_no_handle:
    "notifiers c t = NPushed \<Longrightarrow> queue_uv_handle (br c) = None \<Longrightarrow>
     notify_step U L c (c\<lparr>notifiers := (notifiers c)(t := NIdle)\<rparr>)"
| notify_handle:
    "notifiers c t = NPushed \<Longrightarrow> queue_uv_handle (br c) = Some h \<Longrightarrow>
     notify_step U L c (c\<lparr>notifiers := (notifiers c)(t := NSignal h)\<rparr>)"
| notify_send:
    "notifiers c t = NSignal h \<Longrightarrow>
     notify_step U L c (c\<lparr>br := (br c)\<lparr>uv := uv_async_send U h (uv (br c))\<rparr>,
                         notifiers := (notifiers c)(t := NIdle),
                         uninit_send := (uninit_send c \<or> handles L (uv (br c)) h = None)\<rparr>)"

text \<open>
  JavaScript code on the thread of the loop, at top level or in a listener: it changes the engine in any way, and it may
  call \<open>registerListener\<close>. What \<open>sendMessage\<close> does is in the engine and in Java; a message that Java sends back on this
  thread is a call of \<open>rn_bridge_notify\<close> like those of the other threads.
\<close>

inductive js_step :: "('l, 'js) conc \<Rightarrow> ('l, 'js) conc \<Rightarrow> bool" where
  js_run:
    "lpc c = LJs ctx \<Longrightarrow> js_step c (c\<lparr>br := (br c)\<lparr>js := j\<rparr>\<rparr>)"
| register_alloc:
    "lpc c = LJs ctx \<Longrightarrow> queue_uv_handle (br c) = None \<Longrightarrow>
     js_step c (c\<lparr>br := alloc_queue_handle (br c), lpc := LReg1 ctx (next_addr (br c))\<rparr>)"
| register_call:
    "lpc c = LJs ctx \<Longrightarrow> queue_uv_handle (br c) \<noteq> None \<Longrightarrow> js_step c (c\<lparr>lpc := LReg3 ctx\<rparr>)"

text \<open>
  The native code on the thread of the loop: the rest of \<open>registerListener\<close>, which adds the listener or fails in a check
  or a call of the N-API, and the three callbacks. \<open>deliver_call\<close> is one turn of the loop of \<open>doRegisteredCallbacks\<close>:
  \<open>notify_message\<close> reads the string at the pointer and calls the listener, which leaves the engine in any state.
\<close>

inductive loop_step :: "'l uv_api \<Rightarrow> 'l uv_loop \<Rightarrow> ('l, 'js) conc \<Rightarrow> ('l, 'js) conc \<Rightarrow> bool"
  for U :: "'l uv_api" and L :: "'l uv_loop"
where
  register_init:
    "lpc c = LReg1 ctx h \<Longrightarrow>
     loop_step U L c (c\<lparr>br := (br c)\<lparr>uv := uv_async_init U h Flush_message_queue (uv (br c))\<rparr>,
                       lpc := LReg2 ctx h\<rparr>)"
| register_send:
    "lpc c = LReg2 ctx h \<Longrightarrow>
     loop_step U L c (c\<lparr>br := (br c)\<lparr>uv := uv_async_send U h (uv (br c))\<rparr>, lpc := LReg3 ctx\<rparr>)"
| register_add:
    "lpc c = LReg3 ctx \<Longrightarrow> pool_add af (br c) = Some b \<Longrightarrow> loop_step U L c (c\<lparr>br := b, lpc := LJs ctx\<rparr>)"
| register_fail:
    "lpc c = LReg3 ctx \<Longrightarrow> loop_step U L c (c\<lparr>lpc := LJs ctx\<rparr>)"
| flush_begin:
    "lpc c = LJs None \<Longrightarrow> handles L (uv (br c)) h = Some (Active Flush_message_queue True) \<Longrightarrow>
     loop_step U L c (c\<lparr>br := (br c)\<lparr>uv := begin_async L h (uv (br c))\<rparr>, lpc := LStart\<rparr>)"
| flush_check:
    "lpc c = LStart \<Longrightarrow> loop_step U L c (c\<lparr>lpc := LFlush (messageQueue (br c) \<noteq> [])\<rparr>)"
| flush_pop:
    "lpc c = LFlush True \<Longrightarrow> messageQueue (br c) = m # q \<Longrightarrow>
     loop_step U L c (c\<lparr>br := post_message U m ((br c)\<lparr>messageQueue := q\<rparr>), lpc := LFlush (q \<noteq> [])\<rparr>)"
| flush_end:
    "lpc c = LFlush False \<Longrightarrow> loop_step U L c (c\<lparr>lpc := LJs None\<rparr>)"
| deliver_start:
    "lpc c = LJs None \<Longrightarrow> handles L (uv (br c)) h = Some (Active Do_registered_callbacks True) \<Longrightarrow>
     asyncs (br c) h = Some (Some message) \<Longrightarrow>
     loop_step U L c (c\<lparr>br := (br c)\<lparr>uv := begin_async L h (uv (br c))\<rparr>,
                       lpc := LJs (Some (h, message, pool (br c)))\<rparr>)"
| deliver_call:
    "lpc c = LJs (Some (h, message, it # rest)) \<Longrightarrow> cstrs (br c) message = Some buf \<Longrightarrow>
     c_string buf 0 = Some text \<Longrightarrow>
     loop_step U L c (c\<lparr>br := (br c)\<lparr>js := j\<rparr>, lpc := LJs (Some (h, message, rest)),
                       called := called c @ [(message, it, text)]\<rparr>)"
| deliver_end:
    "lpc c = LJs (Some (h, message, [])) \<Longrightarrow>
     loop_step U L c (c\<lparr>br := (br c)\<lparr>uv := uv_close U h (uv (br c))\<rparr>, lpc := LJs None\<rparr>)"
| close_handle:
    "lpc c = LJs None \<Longrightarrow> handles L (uv (br c)) h = Some Closing \<Longrightarrow>
     close_cb h ((br c)\<lparr>uv := finish_close L h (uv (br c))\<rparr>) = Some b \<Longrightarrow>
     loop_step U L c (c\<lparr>br := b\<rparr>)"

inductive conc_step :: "'l uv_api \<Rightarrow> 'l uv_loop \<Rightarrow> ('l, 'js) conc \<Rightarrow> ('l, 'js) conc \<Rightarrow> bool"
  for U :: "'l uv_api" and L :: "'l uv_loop"
where
  notifier: "notify_step U L c d \<Longrightarrow> conc_step U L c d"
| javascript: "js_step c d \<Longrightarrow> conc_step U L c d"
| loop: "loop_step U L c d \<Longrightarrow> conc_step U L c d"

inductive conc_reach :: "'l uv_api \<Rightarrow> 'l uv_loop \<Rightarrow> ('l, 'js) conc \<Rightarrow> ('l, 'js) conc \<Rightarrow> bool"
  for U :: "'l uv_api" and L :: "'l uv_loop"
where
  reach_refl: "conc_reach U L c c"
| reach_step: "conc_reach U L c d \<Longrightarrow> conc_step U L d e \<Longrightarrow> conc_reach U L c e"

text \<open>No thread is inside a call of this file, and no callback of it is due.\<close>

definition quiescent :: "'l uv_loop \<Rightarrow> ('l, 'js) conc \<Rightarrow> bool" where
  "quiescent L c \<longleftrightarrow>
     lpc c = LJs None \<and> (\<forall>t. notifiers c t = NIdle) \<and>
     (\<forall>h cb. handles L (uv (br c)) h \<noteq> Some (Active cb True))"

section \<open>Invariant\<close>

fun delivery_of :: "loop_pc \<Rightarrow> delivery option" where
  "delivery_of (LJs ctx) = ctx"
| "delivery_of (LReg1 ctx h) = ctx"
| "delivery_of (LReg2 ctx h) = ctx"
| "delivery_of (LReg3 ctx) = ctx"
| "delivery_of LStart = None"
| "delivery_of (LFlush b) = None"

text \<open>The loop's table agrees with the blocks of the bridge.\<close>

definition table_ok :: "(loc \<rightharpoonup> ptr) \<Rightarrow> (loc \<rightharpoonup> uv_handle_state) \<Rightarrow> ptr \<Rightarrow> loop_pc \<Rightarrow> bool" where
  "table_ok as H qh pc \<longleftrightarrow>
     (\<forall>h p. as h = Some (Some p) \<longrightarrow>
        H h = Some (Active Do_registered_callbacks True) \<or> H h = Some Closing \<or>
        H h = Some (Active Do_registered_callbacks False) \<and> (\<exists>rest. delivery_of pc = Some (h, p, rest))) \<and>
     (\<forall>h s. H h = Some s \<longrightarrow> (\<exists>p. as h = Some (Some p)) \<or> qh = Some h) \<and>
     (\<forall>h. qh = Some h \<longrightarrow>
        ((\<exists>ctx. pc = LReg1 ctx h) \<and> H h = None) \<or> (\<exists>b. H h = Some (Active Flush_message_queue b))) \<and>
     (\<forall>ctx h. pc = LReg1 ctx h \<longrightarrow> qh = Some h \<and> H h = None) \<and>
     (\<forall>ctx h. pc = LReg2 ctx h \<longrightarrow> qh = Some h) \<and>
     (\<forall>h p rest. delivery_of pc = Some (h, p, rest) \<longrightarrow>
        as h = Some (Some p) \<and> H h = Some (Active Do_registered_callbacks False))"

text \<open>A message in the queue will be flushed: no wake-up is lost.\<close>

definition registering :: "loop_pc \<Rightarrow> bool" where
  "registering pc \<longleftrightarrow> (\<exists>ctx h. pc = LReg1 ctx h \<or> pc = LReg2 ctx h)"

definition wake_ok ::
  "loc list \<Rightarrow> (loc \<rightharpoonup> uv_handle_state) \<Rightarrow> ptr \<Rightarrow> loop_pc \<Rightarrow> (nat \<Rightarrow> notifier_pc) \<Rightarrow> bool" where
  "wake_ok q H qh pc ns \<longleftrightarrow>
     (q \<noteq> [] \<longrightarrow> qh = None \<or> registering pc \<or> pc = LStart \<or> pc = LFlush True \<or>
        (\<exists>h. qh = Some h \<and> H h = Some (Active Flush_message_queue True)) \<or> (\<exists>t. ns t \<noteq> NIdle)) \<and>
     (pc = LFlush True \<longrightarrow> q \<noteq> []) \<and>
     (\<forall>t h. ns t = NSignal h \<longrightarrow> qh = Some h)"

text \<open>The messages in due handles, and the calls of listeners that are still to be made.\<close>

definition due :: "(loc \<rightharpoonup> ptr) \<Rightarrow> (loc \<rightharpoonup> uv_handle_state) \<Rightarrow> loc set" where
  "due as H = {p. \<exists>h. as h = Some (Some p) \<and> H h = Some (Active Do_registered_callbacks True)}"

definition pending :: "loc list \<Rightarrow> loc set \<Rightarrow> delivery option \<Rightarrow> (loc \<times> listener) set" where
  "pending q D ctx =
     {(p, e). p \<in> set q \<or> p \<in> D \<or> (\<exists>h rest. ctx = Some (h, p, rest) \<and> e \<in> set rest)}"

text \<open>
  What was sent against what was called: the copy of a message that is still there reads as its text; the listeners it is
  meant for are registered, and each of them was called with the text or is still to be called; no call was made twice or
  is still to be made, and each was made for a message that was sent.
\<close>

definition log_ok ::
  "(loc \<times> byte list \<times> listener list) list \<Rightarrow> (loc \<times> listener \<times> byte list) list \<Rightarrow> (loc \<times> listener) set
   \<Rightarrow> (loc \<rightharpoonup> byte list) \<Rightarrow> listener list \<Rightarrow> loc \<Rightarrow> bool" where
  "log_ok snt cld pend cs pl n \<longleftrightarrow>
     distinct (map fst snt) \<and> dom cs \<subseteq> fst ` set snt \<and> distinct (map (\<lambda>(p, e, t). (p, e)) cld) \<and>
     (\<forall>p t P. (p, t, P) \<in> set snt \<longrightarrow> p < n \<and> (p \<in> dom cs \<longrightarrow> cs p = Some (t @ [0])) \<and> set P \<subseteq> set pl \<and>
        (\<forall>e \<in> set P. (p, e, t) \<in> set cld \<or> (p, e) \<in> pend)) \<and>
     (\<forall>p e t. (p, e, t) \<in> set cld \<longrightarrow> (p, e) \<notin> pend \<and> (\<exists>P. (p, t, P) \<in> set snt))"

definition conc_inv :: "'l uv_loop \<Rightarrow> ('l, 'js) conc \<Rightarrow> bool" where
  "conc_inv L c \<longleftrightarrow>
     bridge_ok (br c) \<and>
     table_ok (asyncs (br c)) (handles L (uv (br c))) (queue_uv_handle (br c)) (lpc c) \<and>
     wake_ok (messageQueue (br c)) (handles L (uv (br c))) (queue_uv_handle (br c)) (lpc c) (notifiers c) \<and>
     (\<forall>h p rest. delivery_of (lpc c) = Some (h, p, rest) \<longrightarrow> distinct rest) \<and>
     log_ok (sent c) (called c)
       (pending (messageQueue (br c)) (due (asyncs (br c)) (handles L (uv (br c)))) (delivery_of (lpc c)))
       (cstrs (br c)) (pool (br c)) (next_addr (br c))"

section \<open>What each action does to the log\<close>

lemma log_okD:
  assumes "log_ok snt cld pend cs pl n"
  shows "(p, t, P) \<in> set snt \<Longrightarrow> p < n" and "(p, t, P) \<in> set snt \<Longrightarrow> p \<in> dom cs \<Longrightarrow> cs p = Some (t @ [0])"
    and "(p, t, P) \<in> set snt \<Longrightarrow> e \<in> set P \<Longrightarrow> e \<in> set pl"
    and "(p, t, P) \<in> set snt \<Longrightarrow> e \<in> set P \<Longrightarrow> (p, e, t) \<in> set cld \<or> (p, e) \<in> pend"
    and "(p, e, t) \<in> set cld \<Longrightarrow> (p, e) \<notin> pend" and "(p, e, t) \<in> set cld \<Longrightarrow> \<exists>P. (p, t, P) \<in> set snt"
    and "p \<in> dom cs \<Longrightarrow> \<exists>t P. (p, t, P) \<in> set snt"
proof -
  note c = assms [unfolded log_ok_def]
  show "(p, t, P) \<in> set snt \<Longrightarrow> p < n" "(p, t, P) \<in> set snt \<Longrightarrow> p \<in> dom cs \<Longrightarrow> cs p = Some (t @ [0])"
    "(p, t, P) \<in> set snt \<Longrightarrow> e \<in> set P \<Longrightarrow> e \<in> set pl"
    "(p, t, P) \<in> set snt \<Longrightarrow> e \<in> set P \<Longrightarrow> (p, e, t) \<in> set cld \<or> (p, e) \<in> pend"
    using c by blast+
  show "(p, e, t) \<in> set cld \<Longrightarrow> (p, e) \<notin> pend" "(p, e, t) \<in> set cld \<Longrightarrow> \<exists>P. (p, t, P) \<in> set snt"
    using c by blast+
  show "p \<in> dom cs \<Longrightarrow> \<exists>t P. (p, t, P) \<in> set snt"
    using c by (metis (no_types, lifting) imageE prod.collapse subsetD)
qed

lemma log_mono: "log_ok snt cld pend cs pl n \<Longrightarrow> n \<le> n' \<Longrightarrow> set pl \<subseteq> set pl' \<Longrightarrow> log_ok snt cld pend cs pl' n'"
  unfolding log_ok_def by (meson less_le_trans order_trans)

lemma log_push:
  assumes ok: "log_ok snt cld pend cs pl n" and P: "set P \<subseteq> set pl"
  shows "log_ok (snt @ [(n, t, P)]) cld (pend \<union> {n} \<times> UNIV) (cs(n \<mapsto> t @ [0])) pl (Suc n)"
proof -
  have below: "\<And>p. p \<in> fst ` set snt \<Longrightarrow> p < n" using log_okD(1) [OF ok] by force
  have "\<And>p e t. (p, e, t) \<in> set cld \<Longrightarrow> p < n" using log_okD(1,6) [OF ok] by blast
  moreover have "\<And>p t P. (p, t, P) \<in> set snt \<Longrightarrow> p < n" by (rule log_okD(1) [OF ok])
  moreover have "n \<notin> fst ` set snt" using below by blast
  ultimately show ?thesis
    using ok P unfolding log_ok_def by (auto simp: less_Suc_eq) blast+
qed

lemma log_pending:
  assumes ok: "log_ok snt cld pend cs pl n" and "pend' \<subseteq> pend"
    and "\<And>p e. (p, e) \<in> pend \<Longrightarrow> e \<in> set pl \<Longrightarrow> (p, e) \<in> pend'"
  shows "log_ok snt cld pend' cs pl n"
  using assms unfolding log_ok_def by (meson in_mono)

lemma log_call:
  assumes ok: "log_ok snt cld pend cs pl n" and p: "(p, e) \<in> pend" "cs p = Some (t @ [0])"
    and pend': "pend' = pend - {(p, e)}"
  shows "log_ok snt (cld @ [(p, e, t)]) pend' cs pl n"
proof -
  obtain t' P where s: "(p, t', P) \<in> set snt" using log_okD(7) [OF ok] p(2) by blast
  then have "cs p = Some (t' @ [0])" using log_okD(2) [OF ok] p(2) by blast
  with p(2) s have s: "(p, t, P) \<in> set snt" by simp
  have uniq: "t'' = t" if "(p, t'', P'') \<in> set snt" for t'' P''
    using log_okD(2) [OF ok that] p(2) by auto
  have new: "(p, e) \<notin> (\<lambda>(p, e, t). (p, e)) ` set cld" using log_okD(5) [OF ok] p(1) by auto
  note c = ok [unfolded log_ok_def]
  show ?thesis
    unfolding log_ok_def
  proof (intro conjI)
    show "distinct (map (\<lambda>(p, e, t). (p, e)) (cld @ [(p, e, t)]))" using c new by simp
    show "\<forall>p' t' P. (p', t', P) \<in> set snt \<longrightarrow> p' < n \<and> (p' \<in> dom cs \<longrightarrow> cs p' = Some (t' @ [0])) \<and> set P \<subseteq> set pl \<and>
        (\<forall>e' \<in> set P. (p', e', t') \<in> set (cld @ [(p, e, t)]) \<or> (p', e') \<in> pend')"
      using c uniq unfolding pend' by (auto; blast)
    show "\<forall>p' e' t'. (p', e', t') \<in> set (cld @ [(p, e, t)]) \<longrightarrow> (p', e') \<notin> pend' \<and> (\<exists>P. (p', t', P) \<in> set snt)"
      using c s unfolding pend' by auto
  qed (use c in blast)+
qed

lemma log_close:
  assumes "log_ok snt cld pend cs pl n"
  shows "log_ok snt cld pend (cs(p := None)) pl n"
  using assms unfolding log_ok_def by (simp add: subset_iff)

section \<open>Handles and due messages\<close>

lemma uv_contractD:
  assumes "uv_contract U L"
  shows "handles L l h = None \<Longrightarrow> handles L (uv_async_init U h cb l) = (handles L l)(h \<mapsto> Active cb False)"
    and "handles L l h = Some (Active cb b) \<Longrightarrow> handles L (uv_async_send U h l) = (handles L l)(h \<mapsto> Active cb True)"
    and "handles L l h = Some (Active cb b) \<Longrightarrow> handles L (uv_close U h l) = (handles L l)(h \<mapsto> Closing)"
    and "handles L l h = Some (Active cb True) \<Longrightarrow> handles L (begin_async L h l) = (handles L l)(h \<mapsto> Active cb False)"
    and "handles L l h = Some Closing \<Longrightarrow> handles L (finish_close L h l) = (handles L l)(h := None)"
  using assms unfolding uv_contract_def by blast+

lemma due_frame: "(\<And>p. as h \<noteq> Some (Some p)) \<Longrightarrow> due as (H(h := s)) = due as H"
  unfolding due_def by (rule Collect_cong) (metis fun_upd_apply)

lemma due_alloc: "as n = None \<Longrightarrow> due (as(n \<mapsto> None)) H = due as H"
  by (auto simp: due_def) (metis option.distinct(1))

lemma due_post:
  assumes "as n = None"
  shows "due (as(n \<mapsto> Some m)) (H(n \<mapsto> Active Do_registered_callbacks True)) = insert m (due as H)"
proof (intro subset_antisym subsetI)
  fix x assume "x \<in> insert m (due as H)"
  then consider "x = m" | h where "h \<noteq> n" "as h = Some (Some x)" "H h = Some (Active Do_registered_callbacks True)"
    using assms by (auto simp: due_def) (metis option.distinct(1))
  then show "x \<in> due (as(n \<mapsto> Some m)) (H(n \<mapsto> Active Do_registered_callbacks True))"
    by cases (auto simp: due_def)
qed (auto simp: due_def split: if_splits)

lemma due_begin:
  assumes "as h = Some (Some p)" and uniq: "\<And>h'. as h' = Some (Some p) \<Longrightarrow> h = h'"
    and s: "s \<noteq> Some (Active Do_registered_callbacks True)"
  shows "due as (H(h := s)) = due as H - {p}"
proof (intro subset_antisym subsetI)
  fix x assume "x \<in> due as H - {p}"
  then obtain h' where h': "x \<noteq> p" "as h' = Some (Some x)" "H h' = Some (Active Do_registered_callbacks True)"
    by (auto simp: due_def)
  with assms(1) have "h' \<noteq> h" by auto
  with h' show "x \<in> due as (H(h := s))" by (auto simp: due_def)
qed (use uniq s in \<open>auto simp: due_def split: if_splits\<close>)

lemma due_close:
  assumes "H h = Some Closing"
  shows "due (as(h := None)) (H(h := None)) = due as H"
  using assms by (auto simp: due_def) (metis option.inject uv_handle_state.distinct(1))

lemma bridge_okD:
  assumes "bridge_ok b"
  shows "heap_ok (messageQueue b) (cstrs b) (asyncs b) (next_addr b) (queue_uv_handle b)"
    and "asyncs b (next_addr b) = None" and "queue_uv_handle b = Some h \<Longrightarrow> asyncs b h = Some None"
    and "asyncs b h = Some (Some p) \<Longrightarrow> asyncs b h' = Some (Some p) \<Longrightarrow> h = h'"
    and "asyncs b h = Some (Some p) \<Longrightarrow> p < next_addr b" and "p \<in> set (messageQueue b) \<Longrightarrow> p < next_addr b"
    and "asyncs b h = Some (Some p) \<Longrightarrow> p \<notin> set (messageQueue b)"
    and "asyncs b h = Some (Some p) \<Longrightarrow> \<exists>t. cstrs b p = Some (t @ [0]) \<and> 0 \<notin> set t"
    and "distinct (pool b)"
proof -
  show heap: "heap_ok (messageQueue b) (cstrs b) (asyncs b) (next_addr b) (queue_uv_handle b)"
    using assms by (simp add: bridge_ok_def)
  note fresh = heap_ok_fresh [OF heap]
  note h = heap [unfolded heap_ok_def]
  show "asyncs b (next_addr b) = None" by (rule fresh)
  show "queue_uv_handle b = Some h \<Longrightarrow> asyncs b h = Some None" using h by blast
  show "asyncs b h = Some (Some p) \<Longrightarrow> asyncs b h' = Some (Some p) \<Longrightarrow> h = h'" using h by blast
  show "asyncs b h = Some (Some p) \<Longrightarrow> p < next_addr b" by (rule fresh)
  show "p \<in> set (messageQueue b) \<Longrightarrow> p < next_addr b" by (rule fresh)
  show "asyncs b h = Some (Some p) \<Longrightarrow> p \<notin> set (messageQueue b)"
    using h by (metis data_ptrs_iff disjoint_iff)
  show "\<exists>t. cstrs b p = Some (t @ [0]) \<and> 0 \<notin> set t" if "asyncs b h = Some (Some p)"
  proof -
    have "p \<in> dom (cstrs b)" using h that by (auto simp: data_ptrs_iff)
    then show ?thesis using h by (metis domD ranI)
  qed
  show "distinct (pool b)"
    using assms by (auto simp: bridge_ok_def pool_ok_def map_ok_def distinct_map dest!: sorted_wrt_less_distinct)
qed

section \<open>Every step keeps the invariant\<close>

lemma conc_invD:
  assumes "conc_inv L c"
  shows "bridge_ok (br c)"
    and "table_ok (asyncs (br c)) (handles L (uv (br c))) (queue_uv_handle (br c)) (lpc c)"
    and "wake_ok (messageQueue (br c)) (handles L (uv (br c))) (queue_uv_handle (br c)) (lpc c) (notifiers c)"
    and "delivery_of (lpc c) = Some (h, p, rest) \<Longrightarrow> distinct rest"
    and "log_ok (sent c) (called c)
       (pending (messageQueue (br c)) (due (asyncs (br c)) (handles L (uv (br c)))) (delivery_of (lpc c)))
       (cstrs (br c)) (pool (br c)) (next_addr (br c))"
  using assms unfolding conc_inv_def by blast+

lemma table_okD:
  assumes "table_ok as H qh pc"
  shows "qh = Some h \<Longrightarrow> ((\<exists>ctx. pc = LReg1 ctx h) \<and> H h = None) \<or> (\<exists>b. H h = Some (Active Flush_message_queue b))"
    and "pc = LReg1 ctx h \<Longrightarrow> qh = Some h \<and> H h = None"
    and "pc = LReg2 ctx h \<Longrightarrow> qh = Some h \<and> (\<exists>b. H h = Some (Active Flush_message_queue b))"
    and "delivery_of pc = Some (h, p, rest) \<Longrightarrow>
           as h = Some (Some p) \<and> H h = Some (Active Do_registered_callbacks False)"
    and "as h = None \<Longrightarrow> qh \<noteq> Some h \<Longrightarrow> H h = None"
    and "qh \<noteq> Some h \<Longrightarrow> H h = Some s \<Longrightarrow> \<exists>p. as h = Some (Some p)"
    and "as h = Some (Some p) \<Longrightarrow> qh \<noteq> Some h \<Longrightarrow>
       H h = Some (Active Do_registered_callbacks True) \<or> H h = Some Closing \<or>
       H h = Some (Active Do_registered_callbacks False) \<and> (\<exists>rest. delivery_of pc = Some (h, p, rest))"
proof -
  note t = assms [unfolded table_ok_def]
  show "qh = Some h \<Longrightarrow> ((\<exists>ctx. pc = LReg1 ctx h) \<and> H h = None) \<or> (\<exists>b. H h = Some (Active Flush_message_queue b))"
    "pc = LReg1 ctx h \<Longrightarrow> qh = Some h \<and> H h = None"
    "delivery_of pc = Some (h, p, rest) \<Longrightarrow> as h = Some (Some p) \<and> H h = Some (Active Do_registered_callbacks False)"
    using t by blast+
  show "pc = LReg2 ctx h \<Longrightarrow> qh = Some h \<and> (\<exists>b. H h = Some (Active Flush_message_queue b))"
    using t by fastforce
  show "as h = None \<Longrightarrow> qh \<noteq> Some h \<Longrightarrow> H h = None"
    using t by (metis not_Some_eq)
  show "qh \<noteq> Some h \<Longrightarrow> H h = Some s \<Longrightarrow> \<exists>p. as h = Some (Some p)" using t by blast
  show "as h = Some (Some p) \<Longrightarrow> qh \<noteq> Some h \<Longrightarrow>
       H h = Some (Active Do_registered_callbacks True) \<or> H h = Some Closing \<or>
       H h = Some (Active Do_registered_callbacks False) \<and> (\<exists>rest. delivery_of pc = Some (h, p, rest))"
    using t by blast
qed

lemma table_okI:
  assumes "\<And>h p. as h = Some (Some p) \<Longrightarrow>
        H h = Some (Active Do_registered_callbacks True) \<or> H h = Some Closing \<or>
        H h = Some (Active Do_registered_callbacks False) \<and> (\<exists>rest. delivery_of pc = Some (h, p, rest))"
    and "\<And>h s. H h = Some s \<Longrightarrow> (\<exists>p. as h = Some (Some p)) \<or> qh = Some h"
    and "\<And>h. qh = Some h \<Longrightarrow>
        ((\<exists>ctx. pc = LReg1 ctx h) \<and> H h = None) \<or> (\<exists>b. H h = Some (Active Flush_message_queue b))"
    and "\<And>ctx h. pc = LReg1 ctx h \<Longrightarrow> qh = Some h \<and> H h = None"
    and "\<And>ctx h. pc = LReg2 ctx h \<Longrightarrow> qh = Some h"
    and "\<And>h p rest. delivery_of pc = Some (h, p, rest) \<Longrightarrow>
        as h = Some (Some p) \<and> H h = Some (Active Do_registered_callbacks False)"
  shows "table_ok as H qh pc"
  using assms unfolding table_ok_def by blast

text \<open>The program counter may change, if it neither enters nor leaves the initialisation of the queue handle.\<close>

lemma table_pc:
  assumes t: "table_ok as H qh pc" and "delivery_of pc' = delivery_of pc"
    and "\<And>ctx h. pc \<noteq> LReg1 ctx h" "\<And>ctx h. pc' \<noteq> LReg1 ctx h" "\<And>ctx h. pc' = LReg2 ctx h \<Longrightarrow> qh = Some h"
  shows "table_ok as H qh pc'"
  using t assms(2-5) unfolding table_ok_def by auto

text \<open>Which handle is whose.\<close>

lemma queue_handle:
  assumes "conc_inv L c" and "handles L (uv (br c)) h = Some (Active Flush_message_queue b)"
  shows "queue_uv_handle (br c) = Some h"
proof (rule ccontr)
  assume qh: "queue_uv_handle (br c) \<noteq> Some h"
  note t = conc_invD(2) [OF assms(1)]
  obtain p where "asyncs (br c) h = Some (Some p)" using table_okD(6) [OF t qh assms(2)] by blast
  from table_okD(7) [OF t this qh] assms(2) show False by simp
qed

lemma message_handle:
  assumes "conc_inv L c" and "handles L (uv (br c)) h = Some s" and "\<And>b. s \<noteq> Active Flush_message_queue b"
  shows "\<exists>p. asyncs (br c) h = Some (Some p)" and "queue_uv_handle (br c) \<noteq> Some h"
proof -
  show qh: "queue_uv_handle (br c) \<noteq> Some h"
    using table_okD(1) [OF conc_invD(2) [OF assms(1)]] assms(2,3) by fastforce
  show "\<exists>p. asyncs (br c) h = Some (Some p)"
    using table_okD(6) [OF conc_invD(2) [OF assms(1)] qh assms(2)] .
qed

lemma queue_handle_due:
  assumes "conc_inv L c" and "queue_uv_handle (br c) = Some h"
  shows "asyncs (br c) h = Some None" and "due (asyncs (br c)) (H(h := s)) = due (asyncs (br c)) H"
proof -
  show as: "asyncs (br c) h = Some None" using assms bridge_okD(3) conc_invD(1) by blast
  show "due (asyncs (br c)) (H(h := s)) = due (asyncs (br c)) H" by (rule due_frame) (simp add: as)
qed

text \<open>A libuv call on the queue handle changes its state only.\<close>

lemma inv_queue_call:
  assumes inv: "conc_inv L c" and qh: "queue_uv_handle (br c) = Some h"
    and l: "handles L l = (handles L (uv (br c)))(h \<mapsto> Active Flush_message_queue b)"
    and pc: "delivery_of pc = delivery_of (lpc c)" "\<And>ctx h. pc \<noteq> LReg1 ctx h" "\<And>ctx h'. pc = LReg2 ctx h' \<Longrightarrow> h' = h"
      "pc = LFlush True \<Longrightarrow> lpc c = LFlush True"
    and ns: "\<And>t h'. ns t = NSignal h' \<Longrightarrow> notifiers c t = NSignal h'"
    and wake: "b \<or> registering pc \<or> pc = LStart"
  shows "conc_inv L (c\<lparr>br := (br c)\<lparr>uv := l\<rparr>, lpc := pc, notifiers := ns, uninit_send := e\<rparr>)"
proof -
  note d = conc_invD [OF inv]
  have as: "asyncs (br c) h = Some None" by (rule queue_handle_due [OF inv qh])
  have "table_ok (asyncs (br c)) ((handles L (uv (br c)))(h \<mapsto> Active Flush_message_queue b)) (queue_uv_handle (br c)) pc"
  proof (rule table_okI)
    fix h' p assume "asyncs (br c) h' = Some (Some p)"
    with as table_okD(7) [OF d(2) this] qh pc(1)
    show "((handles L (uv (br c)))(h \<mapsto> Active Flush_message_queue b)) h' = Some (Active Do_registered_callbacks True) \<or>
      ((handles L (uv (br c)))(h \<mapsto> Active Flush_message_queue b)) h' = Some Closing \<or>
      ((handles L (uv (br c)))(h \<mapsto> Active Flush_message_queue b)) h' = Some (Active Do_registered_callbacks False) \<and>
        (\<exists>rest. delivery_of pc = Some (h', p, rest))" by auto
  next
    fix h' p rest assume "delivery_of pc = Some (h', p, rest)"
    with table_okD(4) [OF d(2), of h' p rest] as pc(1)
    show "asyncs (br c) h' = Some (Some p) \<and>
      ((handles L (uv (br c)))(h \<mapsto> Active Flush_message_queue b)) h' = Some (Active Do_registered_callbacks False)" by auto
  next
    fix h' s assume "((handles L (uv (br c)))(h \<mapsto> Active Flush_message_queue b)) h' = Some s"
    with table_okD(6) [OF d(2), of h' s] qh
    show "(\<exists>p. asyncs (br c) h' = Some (Some p)) \<or> queue_uv_handle (br c) = Some h'" by (auto split: if_splits)
  qed (use qh pc in auto)
  moreover have "wake_ok (messageQueue (br c)) ((handles L (uv (br c)))(h \<mapsto> Active Flush_message_queue b))
      (queue_uv_handle (br c)) pc ns"
    using d(3) qh ns wake pc(4) unfolding wake_ok_def by auto
  ultimately show ?thesis
    using d(1,4,5) by (simp add: conc_inv_def l pc(1) queue_handle_due(2) [OF inv qh])
qed

lemma inv_notify_push:
  assumes inv: "conc_inv L c" and "copy_message message = Some copy" and "0 \<notin> set message"
    and "length message < 2 ^ 31 - 1"
  shows "conc_inv L (c\<lparr>br := push_message copy (br c), notifiers := (notifiers c)(t := NPushed),
                      sent := sent c @ [(next_addr (br c), message, pool (br c))]\<rparr>)"
proof -
  note d = conc_invD [OF inv]
  have copy: "copy = message @ [0]" using assms(2,4) by (simp add: copy_message_small)
  have pend: "pending (messageQueue (br c) @ [n]) D ctx = pending (messageQueue (br c)) D ctx \<union> {n} \<times> UNIV" for n D ctx
    by (auto simp: pending_def)
  have "wake_ok (messageQueue (br c) @ [next_addr (br c)]) (handles L (uv (br c))) (queue_uv_handle (br c)) (lpc c)
      ((notifiers c)(t := NPushed))"
    using d(3) unfolding wake_ok_def by auto
  moreover have "bridge_ok (push_message copy (br c))" using d(1) assms(3) by (simp add: copy bridge_ok_push)
  ultimately show ?thesis
    using d(2,4) log_push [OF d(5), of "pool (br c)" message]
    unfolding conc_inv_def by (simp add: push_message_def Let_def pend copy)
qed

lemma inv_register_alloc:
  assumes inv: "conc_inv L c" and pc: "lpc c = LJs ctx" and qh: "queue_uv_handle (br c) = None"
  shows "conc_inv L (c\<lparr>br := alloc_queue_handle (br c), lpc := LReg1 ctx (next_addr (br c))\<rparr>)"
proof -
  let ?b = "br c" and ?n = "next_addr (br c)"
  note d = conc_invD [OF inv]
  have n: "asyncs ?b ?n = None" by (rule bridge_okD(2) [OF d(1)])
  have H: "handles L (uv ?b) ?n = None" using table_okD(5) [OF d(2) n] qh by simp
  have "bridge_ok (alloc_queue_handle ?b)"
    using d(1) qh by (simp add: bridge_ok_def alloc_queue_handle_def heap_ok_queue_handle)
  moreover have "table_ok ((asyncs ?b)(?n \<mapsto> None)) (handles L (uv ?b)) (Some ?n) (LReg1 ctx ?n)"
  proof (rule table_okI)
    fix h p assume "((asyncs ?b)(?n \<mapsto> None)) h = Some (Some p)"
    then have "asyncs ?b h = Some (Some p)" by (simp split: if_splits)
    from table_okD(7) [OF d(2) this] qh pc
    show "handles L (uv ?b) h = Some (Active Do_registered_callbacks True) \<or> handles L (uv ?b) h = Some Closing \<or>
      handles L (uv ?b) h = Some (Active Do_registered_callbacks False) \<and>
        (\<exists>rest. delivery_of (LReg1 ctx ?n) = Some (h, p, rest))" by simp
  next
    fix h p rest assume "delivery_of (LReg1 ctx ?n) = Some (h, p, rest)"
    with table_okD(4) [OF d(2), of h p rest] n pc
    show "((asyncs ?b)(?n \<mapsto> None)) h = Some (Some p) \<and> handles L (uv ?b) h = Some (Active Do_registered_callbacks False)"
      by auto
  next
    fix h s assume "handles L (uv ?b) h = Some s"
    with table_okD(6) [OF d(2), of h s] n qh
    show "(\<exists>p. ((asyncs ?b)(?n \<mapsto> None)) h = Some (Some p)) \<or> Some ?n = Some h" by auto
  qed (use H in auto)
  moreover have "wake_ok (messageQueue ?b) (handles L (uv ?b)) (Some ?n) (LReg1 ctx ?n) (notifiers c)"
    using d(3) qh unfolding wake_ok_def registering_def by auto
  ultimately show ?thesis
    using d(4) log_mono [OF d(5), of "Suc ?n" "pool ?b"] pc n
    unfolding conc_inv_def by (simp add: alloc_queue_handle_def due_alloc)
qed

lemma inv_pool_add:
  assumes inv: "conc_inv L c" and pc: "lpc c = LReg3 ctx" and b: "pool_add af (br c) = Some b"
  shows "conc_inv L (c\<lparr>br := b, lpc := LJs ctx\<rparr>)"
proof -
  note d = conc_invD [OF inv]
  note add = pool_add_Some [OF d(1) b]
  have frame: "asyncs b = asyncs (br c)" "uv b = uv (br c)" "queue_uv_handle b = queue_uv_handle (br c)"
    "messageQueue b = messageQueue (br c)" "cstrs b = cstrs (br c)" "next_addr b = next_addr (br c)"
    using b by (auto simp: pool_add_def)
  have "table_ok (asyncs (br c)) (handles L (uv (br c))) (queue_uv_handle (br c)) (LJs ctx)"
    using d(2) by (rule table_pc) (simp_all add: pc)
  moreover have "wake_ok (messageQueue (br c)) (handles L (uv (br c))) (queue_uv_handle (br c)) (LJs ctx) (notifiers c)"
    using d(3) pc unfolding wake_ok_def registering_def by auto
  moreover have "set (pool (br c)) \<subseteq> set (pool b)" by (simp add: add(1) subset_insertI)
  ultimately show ?thesis
    using d(4) log_mono [OF d(5) order_refl, of "pool b"] pc add(3) unfolding conc_inv_def by (simp add: frame)
qed

text \<open>A step that only moves the program counter or a notifying thread, outside the initialisation of the queue handle.\<close>

lemma inv_move:
  assumes inv: "conc_inv L c" and pc: "delivery_of pc = delivery_of (lpc c)" "\<And>ctx h. lpc c \<noteq> LReg1 ctx h"
      "\<And>ctx h. pc \<noteq> LReg1 ctx h" "\<And>ctx h. pc \<noteq> LReg2 ctx h"
    and wake: "wake_ok (messageQueue (br c)) (handles L (uv (br c))) (queue_uv_handle (br c)) pc (notifiers c)"
  shows "conc_inv L (c\<lparr>lpc := pc\<rparr>)"
proof -
  note d = conc_invD [OF inv]
  have "table_ok (asyncs (br c)) (handles L (uv (br c))) (queue_uv_handle (br c)) pc"
    using d(2) by (rule table_pc) (use pc in simp_all)
  then show ?thesis using d(1,4,5) wake by (simp add: conc_inv_def pc(1))
qed

lemma inv_js: "conc_inv L c \<Longrightarrow> conc_inv L (c\<lparr>br := (br c)\<lparr>js := j\<rparr>\<rparr>)"
  by (simp add: conc_inv_def)

lemma inv_flush_pop:
  assumes inv: "conc_inv L c" and U: "uv_contract U L"
    and pc: "lpc c = LFlush True" and q: "messageQueue (br c) = m # q"
  shows "conc_inv L (c\<lparr>br := post_message U m ((br c)\<lparr>messageQueue := q\<rparr>), lpc := LFlush (q \<noteq> [])\<rparr>)"
    and "handles L (uv (post_message U m ((br c)\<lparr>messageQueue := q\<rparr>))) =
       (handles L (uv (br c)))(next_addr (br c) \<mapsto> Active Do_registered_callbacks True)"
proof -
  let ?b = "br c" and ?n = "next_addr (br c)" and ?H = "handles L (uv (br c))"
  let ?l = "uv_async_send U ?n (uv_async_init U ?n Do_registered_callbacks (uv ?b))"
  note d = conc_invD [OF inv]
  have n: "asyncs ?b ?n = None" by (rule bridge_okD(2) [OF d(1)])
  then have qn: "queue_uv_handle ?b \<noteq> Some ?n" using bridge_okD(3) [OF d(1)] by fastforce
  have "?H ?n = None" by (rule table_okD(5) [OF d(2) n qn])
  note init = uv_contractD(1) [OF U this, of Do_registered_callbacks]
  have H: "handles L ?l = ?H(?n \<mapsto> Active Do_registered_callbacks True)"
    using uv_contractD(2) [OF U, of "uv_async_init U ?n Do_registered_callbacks (uv ?b)" ?n Do_registered_callbacks False]
    by (simp add: init)
  have uv: "uv (post_message U m (?b\<lparr>messageQueue := q\<rparr>)) = ?l"
    by (simp add: post_message_def Let_def)
  show "handles L (uv (post_message U m (?b\<lparr>messageQueue := q\<rparr>))) = ?H(?n \<mapsto> Active Do_registered_callbacks True)"
    by (simp add: uv H)
  have ok': "bridge_ok (post_message U m (?b\<lparr>messageQueue := q\<rparr>))"
    using d(1) q by (rule bridge_ok_post)
  have t: "table_ok ((asyncs ?b)(?n \<mapsto> Some m)) (?H(?n \<mapsto> Active Do_registered_callbacks True))
      (queue_uv_handle ?b) (LFlush (q \<noteq> []))"
  proof (rule table_okI)
    fix h p assume "((asyncs ?b)(?n \<mapsto> Some m)) h = Some (Some p)"
    then show "(?H(?n \<mapsto> Active Do_registered_callbacks True)) h = Some (Active Do_registered_callbacks True) \<or>
      (?H(?n \<mapsto> Active Do_registered_callbacks True)) h = Some Closing \<or>
      (?H(?n \<mapsto> Active Do_registered_callbacks True)) h = Some (Active Do_registered_callbacks False) \<and>
        (\<exists>rest. delivery_of (LFlush (q \<noteq> [])) = Some (h, p, rest))"
      using table_okD(7) [OF d(2), of h p] bridge_okD(3) [OF d(1), of h] pc by (auto split: if_splits)
  next
    fix h s assume "(?H(?n \<mapsto> Active Do_registered_callbacks True)) h = Some s"
    then show "(\<exists>p. ((asyncs ?b)(?n \<mapsto> Some m)) h = Some (Some p)) \<or> queue_uv_handle ?b = Some h"
      using table_okD(6) [OF d(2), of h s] by (auto split: if_splits)
  next
    fix h assume "queue_uv_handle ?b = Some h"
    then show "((\<exists>ctx. LFlush (q \<noteq> []) = LReg1 ctx h) \<and> (?H(?n \<mapsto> Active Do_registered_callbacks True)) h = None) \<or>
      (\<exists>b. (?H(?n \<mapsto> Active Do_registered_callbacks True)) h = Some (Active Flush_message_queue b))"
      using table_okD(1) [OF d(2), of h] qn pc by auto
  qed simp_all
  have w: "wake_ok q (?H(?n \<mapsto> Active Do_registered_callbacks True)) (queue_uv_handle ?b) (LFlush (q \<noteq> [])) (notifiers c)"
    using d(3) unfolding wake_ok_def by auto
  have "pending q (insert m D) None = pending (m # q) D None" for D by (auto simp: pending_def)
  then show "conc_inv L (c\<lparr>br := post_message U m (?b\<lparr>messageQueue := q\<rparr>), lpc := LFlush (q \<noteq> [])\<rparr>)"
    unfolding conc_inv_def using ok' t w log_mono [OF d(5), of "Suc ?n" "pool ?b"] pc q
    by (simp add: uv H due_post n)
qed

text \<open>A delivery begins, runs and ends.\<close>

lemma inv_deliver_start:
  assumes inv: "conc_inv L c" and U: "uv_contract U L" and pc: "lpc c = LJs None"
    and h: "handles L (uv (br c)) h = Some (Active Do_registered_callbacks True)"
    and p: "asyncs (br c) h = Some (Some p)"
  shows "conc_inv L (c\<lparr>br := (br c)\<lparr>uv := begin_async L h (uv (br c))\<rparr>, lpc := LJs (Some (h, p, pool (br c)))\<rparr>)"
    and "due (asyncs (br c)) (handles L (begin_async L h (uv (br c)))) = due (asyncs (br c)) (handles L (uv (br c))) - {p}"
    and "p \<in> due (asyncs (br c)) (handles L (uv (br c)))"
proof -
  let ?b = "br c" and ?H = "handles L (uv (br c))" and ?s = "Active Do_registered_callbacks False"
  note d = conc_invD [OF inv]
  have H: "handles L (begin_async L h (uv ?b)) = ?H(h \<mapsto> ?s)" by (rule uv_contractD(4) [OF U h])
  note uniq = bridge_okD(4) [OF d(1) p]
  have due: "due (asyncs ?b) (?H(h \<mapsto> ?s)) = due (asyncs ?b) ?H - {p}"
    using p uniq by (rule due_begin) simp_all
  then show "due (asyncs ?b) (handles L (begin_async L h (uv ?b))) = due (asyncs ?b) ?H - {p}" by (simp add: H)
  show "p \<in> due (asyncs ?b) ?H" using h p by (auto simp: due_def)
  have qh: "queue_uv_handle ?b \<noteq> Some h" by (rule message_handle(2) [OF inv h]) simp
  have t: "table_ok (asyncs ?b) (?H(h \<mapsto> ?s)) (queue_uv_handle ?b) (LJs (Some (h, p, pool ?b)))"
  proof (rule table_okI)
    fix h' p' assume a: "asyncs ?b h' = Some (Some p')"
    then show "(?H(h \<mapsto> ?s)) h' = Some (Active Do_registered_callbacks True) \<or> (?H(h \<mapsto> ?s)) h' = Some Closing \<or>
      (?H(h \<mapsto> ?s)) h' = Some ?s \<and> (\<exists>rest. delivery_of (LJs (Some (h, p, pool ?b))) = Some (h', p', rest))"
      using table_okD(7) [OF d(2) a] bridge_okD(3) [OF d(1), of h'] p pc by auto
  next
    fix h' s assume "(?H(h \<mapsto> ?s)) h' = Some s"
    then show "(\<exists>p. asyncs ?b h' = Some (Some p)) \<or> queue_uv_handle ?b = Some h'"
      using table_okD(6) [OF d(2), of h' s] p by (auto split: if_splits)
  next
    fix h' assume "queue_uv_handle ?b = Some h'"
    then show "((\<exists>ctx. LJs (Some (h, p, pool ?b)) = LReg1 ctx h') \<and> (?H(h \<mapsto> ?s)) h' = None) \<or>
      (\<exists>b. (?H(h \<mapsto> ?s)) h' = Some (Active Flush_message_queue b))"
      using table_okD(1) [OF d(2), of h'] qh pc by auto
  qed (use p in auto)
  have w: "wake_ok (messageQueue ?b) (?H(h \<mapsto> ?s)) (queue_uv_handle ?b) (LJs (Some (h, p, pool ?b))) (notifiers c)"
    using d(3) qh pc unfolding wake_ok_def registering_def by auto
  have pend: "log_ok (sent c) (called c)
      (pending (messageQueue ?b) (due (asyncs ?b) ?H - {p}) (Some (h, p, pool ?b))) (cstrs ?b) (pool ?b) (next_addr ?b)"
    using d(5) by (rule log_pending) (use h p pc in \<open>auto simp: pending_def due_def\<close>)
  show "conc_inv L (c\<lparr>br := ?b\<lparr>uv := begin_async L h (uv ?b)\<rparr>, lpc := LJs (Some (h, p, pool ?b))\<rparr>)"
    unfolding conc_inv_def using d(1) t w pend bridge_okD(9) [OF d(1)] by (simp add: H due)
qed

lemma delivering_not_due:
  assumes inv: "conc_inv L c" and "delivery_of (lpc c) = Some (h, p, rest)"
  shows "p \<notin> due (asyncs (br c)) (handles L (uv (br c)))"
proof
  assume "p \<in> due (asyncs (br c)) (handles L (uv (br c)))"
  then obtain h' where h': "asyncs (br c) h' = Some (Some p)" "handles L (uv (br c)) h' = Some (Active Do_registered_callbacks True)"
    by (auto simp: due_def)
  have h: "asyncs (br c) h = Some (Some p)" "handles L (uv (br c)) h = Some (Active Do_registered_callbacks False)"
    using table_okD(4) [OF conc_invD(2) [OF inv] assms(2)] by auto
  from bridge_okD(4) [OF conc_invD(1) [OF inv] h(1) h'(1)] h(2) h'(2) show False by simp
qed

lemma inv_deliver_call:
  assumes inv: "conc_inv L c" and pc: "lpc c = LJs (Some (h, p, it # rest))"
    and "cstrs (br c) p = Some buf" and "c_string buf 0 = Some text"
  shows "conc_inv L (c\<lparr>br := (br c)\<lparr>js := j\<rparr>, lpc := LJs (Some (h, p, rest)), called := called c @ [(p, it, text)]\<rparr>)"
proof -
  let ?b = "br c" and ?H = "handles L (uv (br c))"
  note d = conc_invD [OF inv]
  have h: "asyncs ?b h = Some (Some p)" "?H h = Some (Active Do_registered_callbacks False)"
    using table_okD(4) [OF d(2), of h p "it # rest"] pc by simp_all
  note uniq = bridge_okD(4) [OF d(1) h(1)]
  obtain t where "cstrs ?b p = Some (t @ [0])" "0 \<notin> set t" using bridge_okD(8) [OF d(1) h(1)] by blast
  then have str: "cstrs ?b p = Some (text @ [0])" using assms(3,4) by simp
  have nd: "p \<notin> due (asyncs ?b) ?H" by (rule delivering_not_due [OF inv]) (simp add: pc)
  have "it \<notin> set rest" using d(4) [of h p "it # rest"] pc by simp
  then have pend: "pending (messageQueue ?b) (due (asyncs ?b) ?H) (Some (h, p, rest)) =
      pending (messageQueue ?b) (due (asyncs ?b) ?H) (Some (h, p, it # rest)) - {(p, it)}"
    using nd bridge_okD(7) [OF d(1) h(1)] by (auto simp: pending_def)
  have mem: "(p, it) \<in> pending (messageQueue ?b) (due (asyncs ?b) ?H) (Some (h, p, it # rest))"
    by (auto simp: pending_def)
  have old: "log_ok (sent c) (called c) (pending (messageQueue ?b) (due (asyncs ?b) ?H) (Some (h, p, it # rest)))
      (cstrs ?b) (pool ?b) (next_addr ?b)"
    using d(5) pc by simp
  note log = log_call [OF old mem str pend]
  have t: "table_ok (asyncs ?b) ?H (queue_uv_handle ?b) (LJs (Some (h, p, rest)))"
    using d(2) h unfolding table_ok_def pc by fastforce
  have w: "wake_ok (messageQueue ?b) ?H (queue_uv_handle ?b) (LJs (Some (h, p, rest))) (notifiers c)"
    using d(3) pc unfolding wake_ok_def registering_def by auto
  show ?thesis
    unfolding conc_inv_def using d(1) d(4) [of h p "it # rest"] pc log t w by simp
qed

lemma inv_deliver_end:
  assumes inv: "conc_inv L c" and U: "uv_contract U L" and pc: "lpc c = LJs (Some (h, p, []))"
  shows "conc_inv L (c\<lparr>br := (br c)\<lparr>uv := uv_close U h (uv (br c))\<rparr>, lpc := LJs None\<rparr>)"
    and "due (asyncs (br c)) (handles L (uv_close U h (uv (br c)))) = due (asyncs (br c)) (handles L (uv (br c)))"
    and "handles L (uv_close U h (uv (br c))) = (handles L (uv (br c)))(h \<mapsto> Closing)"
proof -
  let ?b = "br c" and ?H = "handles L (uv (br c))"
  note d = conc_invD [OF inv]
  have h: "asyncs ?b h = Some (Some p)" "?H h = Some (Active Do_registered_callbacks False)"
    using table_okD(4) [OF d(2), of h p "[]"] pc by simp_all
  have H: "handles L (uv_close U h (uv ?b)) = ?H(h \<mapsto> Closing)" by (rule uv_contractD(3) [OF U h(2)])
  then show "handles L (uv_close U h (uv ?b)) = ?H(h \<mapsto> Closing)" .
  note uniq = bridge_okD(4) [OF d(1) h(1)]
  have "due (asyncs ?b) (?H(h \<mapsto> Closing)) = due (asyncs ?b) ?H - {p}"
    using h(1) uniq by (rule due_begin) simp_all
  moreover have "p \<notin> due (asyncs ?b) ?H" by (rule delivering_not_due [OF inv]) (simp add: pc)
  ultimately have due: "due (asyncs ?b) (?H(h \<mapsto> Closing)) = due (asyncs ?b) ?H" by blast
  then show "due (asyncs ?b) (handles L (uv_close U h (uv ?b))) = due (asyncs ?b) ?H" by (simp add: H)
  have qh: "queue_uv_handle ?b \<noteq> Some h" by (rule message_handle(2) [OF inv h(2)]) simp
  have t: "table_ok (asyncs ?b) (?H(h \<mapsto> Closing)) (queue_uv_handle ?b) (LJs None)"
  proof (rule table_okI)
    fix h' p' assume a: "asyncs ?b h' = Some (Some p')"
    then show "(?H(h \<mapsto> Closing)) h' = Some (Active Do_registered_callbacks True) \<or> (?H(h \<mapsto> Closing)) h' = Some Closing \<or>
      (?H(h \<mapsto> Closing)) h' = Some (Active Do_registered_callbacks False) \<and>
        (\<exists>rest. delivery_of (LJs None) = Some (h', p', rest))"
      using table_okD(7) [OF d(2) a] bridge_okD(3) [OF d(1), of h'] pc by auto
  next
    fix h' s assume "(?H(h \<mapsto> Closing)) h' = Some s"
    then show "(\<exists>p. asyncs ?b h' = Some (Some p)) \<or> queue_uv_handle ?b = Some h'"
      using table_okD(6) [OF d(2), of h' s] h(1) by (auto split: if_splits)
  next
    fix h' assume "queue_uv_handle ?b = Some h'"
    then show "((\<exists>ctx. LJs None = LReg1 ctx h') \<and> (?H(h \<mapsto> Closing)) h' = None) \<or>
      (\<exists>b. (?H(h \<mapsto> Closing)) h' = Some (Active Flush_message_queue b))"
      using table_okD(1) [OF d(2), of h'] qh pc by auto
  qed auto
  have w: "wake_ok (messageQueue ?b) (?H(h \<mapsto> Closing)) (queue_uv_handle ?b) (LJs None) (notifiers c)"
    using d(3) qh pc unfolding wake_ok_def registering_def by auto
  have "pending q D (Some (h, p, [])) = pending q D None" for q D by (auto simp: pending_def)
  then show "conc_inv L (c\<lparr>br := ?b\<lparr>uv := uv_close U h (uv ?b)\<rparr>, lpc := LJs None\<rparr>)"
    unfolding conc_inv_def using d(1,5) t w pc by (simp add: H due)
qed

lemma close_runs:
  assumes inv: "conc_inv L c" and h: "handles L (uv (br c)) h = Some Closing"
  obtains p where "asyncs (br c) h = Some (Some p)"
    "close_cb h ((br c)\<lparr>uv := l\<rparr>) =
       Some ((br c)\<lparr>uv := l, cstrs := (cstrs (br c))(p := None), asyncs := (asyncs (br c))(h := None)\<rparr>)"
proof -
  obtain p where p: "asyncs (br c) h = Some (Some p)" using message_handle(1) [OF inv h] by auto
  then show thesis using that close_cb_ok(1) [of "(br c)\<lparr>uv := l\<rparr>" h p] conc_invD(1) [OF inv] by simp
qed

lemma inv_close:
  assumes inv: "conc_inv L c" and U: "uv_contract U L" and pc: "lpc c = LJs None"
    and h: "handles L (uv (br c)) h = Some Closing"
    and b: "close_cb h ((br c)\<lparr>uv := finish_close L h (uv (br c))\<rparr>) = Some b"
  shows "conc_inv L (c\<lparr>br := b\<rparr>)"
proof -
  let ?l = "finish_close L h (uv (br c))" and ?H = "handles L (uv (br c))"
  note d = conc_invD [OF inv]
  obtain p where p: "asyncs (br c) h = Some (Some p)" and b': "b = (br c)\<lparr>uv := ?l, cstrs := (cstrs (br c))(p := None),
      asyncs := (asyncs (br c))(h := None)\<rparr>"
    using close_runs [OF inv h, of ?l] b by auto
  have H: "handles L ?l = ?H(h := None)" by (rule uv_contractD(5) [OF U h])
  have qh: "queue_uv_handle (br c) \<noteq> Some h" by (rule message_handle(2) [OF inv h]) simp
  have ok: "bridge_ok b" using close_cb_ok(2) [of "(br c)\<lparr>uv := ?l\<rparr>" h p] d(1) p by (simp add: b')
  have t: "table_ok ((asyncs (br c))(h := None)) (?H(h := None)) (queue_uv_handle (br c)) (LJs None)"
  proof (rule table_okI)
    fix h' p' assume a: "((asyncs (br c))(h := None)) h' = Some (Some p')"
    then show "(?H(h := None)) h' = Some (Active Do_registered_callbacks True) \<or> (?H(h := None)) h' = Some Closing \<or>
      (?H(h := None)) h' = Some (Active Do_registered_callbacks False) \<and>
        (\<exists>rest. delivery_of (LJs None) = Some (h', p', rest))"
      using table_okD(7) [OF d(2), of h' p'] bridge_okD(3) [OF d(1), of h'] pc by (auto split: if_splits)
  next
    fix h' s assume "(?H(h := None)) h' = Some s"
    then show "(\<exists>p. ((asyncs (br c))(h := None)) h' = Some (Some p)) \<or> queue_uv_handle (br c) = Some h'"
      using table_okD(6) [OF d(2), of h' s] by (auto split: if_splits)
  next
    fix h' assume "queue_uv_handle (br c) = Some h'"
    then show "((\<exists>ctx. LJs None = LReg1 ctx h') \<and> (?H(h := None)) h' = None) \<or>
      (\<exists>b. (?H(h := None)) h' = Some (Active Flush_message_queue b))"
      using table_okD(1) [OF d(2), of h'] qh pc by auto
  qed auto
  have w: "wake_ok (messageQueue (br c)) (?H(h := None)) (queue_uv_handle (br c)) (LJs None) (notifiers c)"
    using d(3) qh pc unfolding wake_ok_def registering_def by auto
  show ?thesis
    unfolding conc_inv_def using ok t w log_close [OF d(5)] pc
    by (simp add: b' H due_close [of ?H, OF h])
qed

lemma loop_step_inv:
  assumes "loop_step U L c d" and inv: "conc_inv L c" and U: "uv_contract U L"
  shows "conc_inv L d"
  using assms(1)
proof cases
  case (register_init ctx h)
  then have h: "queue_uv_handle (br c) = Some h" "handles L (uv (br c)) h = None"
    using table_okD(2) [OF conc_invD(2) [OF inv]] by auto
  from inv_queue_call [OF inv h(1) uv_contractD(1) [OF U h(2)], of "LReg2 ctx h" "notifiers c" "uninit_send c"]
  show ?thesis using register_init by (simp add: registering_def)
next
  case (register_send ctx h)
  then obtain b where h: "queue_uv_handle (br c) = Some h" "handles L (uv (br c)) h = Some (Active Flush_message_queue b)"
    using table_okD(3) [OF conc_invD(2) [OF inv]] by blast
  from inv_queue_call [OF inv h(1) uv_contractD(2) [OF U h(2)], of "LReg3 ctx" "notifiers c" "uninit_send c"]
  show ?thesis using register_send by simp
next
  case (register_add ctx af b)
  then show ?thesis using inv_pool_add [OF inv] by simp
next
  case (register_fail ctx)
  moreover have "wake_ok (messageQueue (br c)) (handles L (uv (br c))) (queue_uv_handle (br c)) (LJs ctx) (notifiers c)"
    using conc_invD(3) [OF inv] register_fail(2) unfolding wake_ok_def registering_def by auto
  ultimately show ?thesis using inv_move [OF inv, of "LJs ctx"] by simp
next
  case (flush_begin h)
  have h: "queue_uv_handle (br c) = Some h" by (rule queue_handle [OF inv flush_begin(3)])
  from inv_queue_call [OF inv h uv_contractD(4) [OF U flush_begin(3)], of LStart "notifiers c" "uninit_send c"]
  show ?thesis using flush_begin by simp
next
  case flush_check
  moreover have "wake_ok (messageQueue (br c)) (handles L (uv (br c))) (queue_uv_handle (br c))
      (LFlush (messageQueue (br c) \<noteq> [])) (notifiers c)"
    using conc_invD(3) [OF inv] unfolding wake_ok_def by auto
  ultimately show ?thesis using inv_move [OF inv, of "LFlush (messageQueue (br c) \<noteq> [])"] by simp
next
  case flush_end
  moreover have "wake_ok (messageQueue (br c)) (handles L (uv (br c))) (queue_uv_handle (br c)) (LJs None) (notifiers c)"
    using conc_invD(3) [OF inv] flush_end(2) unfolding wake_ok_def registering_def by auto
  ultimately show ?thesis using inv_move [OF inv, of "LJs None"] by simp
next
  case (flush_pop m q)
  then show ?thesis using inv_flush_pop(1) [OF inv U] by simp
next
  case (deliver_start h p)
  then show ?thesis using inv_deliver_start(1) [OF inv U] by simp
next
  case (deliver_call h p it rest buf t j)
  then show ?thesis using inv_deliver_call [OF inv] by simp
next
  case (deliver_end h p)
  then show ?thesis using inv_deliver_end(1) [OF inv U] by simp
next
  case (close_handle h b)
  then show ?thesis using inv_close [OF inv U] by simp
qed

lemma js_step_inv:
  assumes "js_step c d" and inv: "conc_inv L c"
  shows "conc_inv L d"
  using assms(1)
proof cases
  case (js_run ctx j)
  then show ?thesis using inv_js [OF inv] by simp
next
  case (register_alloc ctx)
  then show ?thesis using inv_register_alloc [OF inv] by simp
next
  case (register_call ctx)
  moreover have "wake_ok (messageQueue (br c)) (handles L (uv (br c))) (queue_uv_handle (br c)) (LReg3 ctx) (notifiers c)"
    using conc_invD(3) [OF inv] register_call(2) unfolding wake_ok_def registering_def by auto
  ultimately show ?thesis using inv_move [OF inv, of "LReg3 ctx"] by simp
qed

lemma notify_step_inv:
  assumes "notify_step U L c d" and inv: "conc_inv L c" and U: "uv_contract U L" and "\<not> uninit_send d"
  shows "conc_inv L d"
  using assms(1)
proof cases
  case (notify_push t message copy)
  then show ?thesis using inv_notify_push [OF inv] by simp
next
  case (notify_no_handle t)
  then show ?thesis using inv by (auto simp: conc_inv_def wake_ok_def)
next
  case (notify_handle t h)
  then show ?thesis using inv by (auto simp: conc_inv_def wake_ok_def)
next
  case (notify_send t h)
  then have qh: "queue_uv_handle (br c) = Some h" using conc_invD(3) [OF inv] unfolding wake_ok_def by blast
  moreover have "handles L (uv (br c)) h \<noteq> None" using notify_send assms(4) by simp
  ultimately obtain b where b: "handles L (uv (br c)) h = Some (Active Flush_message_queue b)"
    using table_okD(1) [OF conc_invD(2) [OF inv], of h] by auto
  moreover have "\<And>ctx h'. lpc c \<noteq> LReg1 ctx h'"
    using table_okD(2) [OF conc_invD(2) [OF inv]] qh b by fastforce
  moreover have "\<And>ctx h'. lpc c = LReg2 ctx h' \<Longrightarrow> h' = h"
    using table_okD(3) [OF conc_invD(2) [OF inv]] qh by fastforce
  ultimately have "conc_inv L (c\<lparr>br := (br c)\<lparr>uv := uv_async_send U h (uv (br c))\<rparr>, lpc := lpc c,
      notifiers := (notifiers c)(t := NIdle), uninit_send := uninit_send d\<rparr>)"
    by (intro inv_queue_call [OF inv qh uv_contractD(2) [OF U b]]) (auto split: if_splits)
  moreover have "d = c\<lparr>br := (br c)\<lparr>uv := uv_async_send U h (uv (br c))\<rparr>, lpc := lpc c,
      notifiers := (notifiers c)(t := NIdle), uninit_send := uninit_send d\<rparr>"
    by (simp add: notify_send(1))
  ultimately show ?thesis by simp
qed

lemma conc_step_inv:
  assumes "conc_step U L c d" and "conc_inv L c" and "uv_contract U L" and "\<not> uninit_send d"
  shows "conc_inv L d"
  using assms by (cases rule: conc_step.cases) (auto intro: notify_step_inv js_step_inv loop_step_inv)

text \<open>A call on an uninitialised handle is remembered.\<close>

lemma loop_step_frame:
  "loop_step U L c d \<Longrightarrow> uninit_send d = uninit_send c \<and> notifiers d = notifiers c \<and> sent d = sent c"
  by (cases rule: loop_step.cases) auto

lemma uninit_send_stays: "conc_step U L c d \<Longrightarrow> uninit_send c \<Longrightarrow> uninit_send d"
  by (cases rule: conc_step.cases) (auto elim: notify_step.cases js_step.cases dest: loop_step_frame)

lemma conc_inv_init:
  assumes "handles L l = Map.empty"
  shows "conc_inv L (conc_init l j)"
proof -
  have "table_ok Map.empty Map.empty None (LJs None)" by (simp add: table_ok_def)
  moreover have "log_ok [] [] (pending [] (due Map.empty Map.empty) None) Map.empty [] 1" by (simp add: log_ok_def)
  moreover have "wake_ok [] Map.empty None (LJs None) (\<lambda>_. NIdle)" by (simp add: wake_ok_def)
  ultimately show ?thesis
    using bridge_ok_init [of l j] assms by (simp add: conc_inv_def conc_init_def bridge_init_def)
qed

lemma conc_reach_inv:
  assumes "conc_reach U L c d" and "conc_inv L c" and "uv_contract U L" and "\<not> uninit_send d"
  shows "conc_inv L d"
  using assms
proof induction
  case (reach_step c d e)
  then show ?case using uninit_send_stays conc_step_inv by blast
qed simp

lemma reachable_inv:
  assumes "uv_contract U L" and "handles L l = Map.empty" and "conc_reach U L (conc_init l j) c" and "\<not> uninit_send c"
  shows "conc_inv L c"
  using conc_reach_inv [OF assms(3) conc_inv_init [OF assms(2)] assms(1,4)] .

section \<open>Nothing is lost\<close>

lemma quiescent_queue:
  assumes inv: "conc_inv L c" and q: "quiescent L c" and h: "queue_uv_handle (br c) \<noteq> None"
  shows "messageQueue (br c) = []" and "due (asyncs (br c)) (handles L (uv (br c))) = {}"
proof -
  show "messageQueue (br c) = []"
    using conc_invD(3) [OF inv] q h unfolding wake_ok_def quiescent_def registering_def by fastforce
  show "due (asyncs (br c)) (handles L (uv (br c))) = {}"
    using q by (auto simp: due_def quiescent_def)
qed

lemma quiescent_called:
  assumes inv: "conc_inv L c" and q: "quiescent L c" and h: "queue_uv_handle (br c) \<noteq> None"
  shows "distinct (map fst (sent c))" and "distinct (map (\<lambda>(p, e, text). (p, e)) (called c))"
    and "(p, t, ls) \<in> set (sent c) \<Longrightarrow> e \<in> set ls \<Longrightarrow> (p, e, t) \<in> set (called c)"
    and "(p, e, t) \<in> set (called c) \<Longrightarrow> \<exists>ls. (p, t, ls) \<in> set (sent c)"
proof -
  note log = conc_invD(5) [OF inv]
  have "pending (messageQueue (br c)) (due (asyncs (br c)) (handles L (uv (br c)))) (delivery_of (lpc c)) = {}"
    using quiescent_queue [OF assms] q by (auto simp: pending_def quiescent_def)
  then show "(p, t, ls) \<in> set (sent c) \<Longrightarrow> e \<in> set ls \<Longrightarrow> (p, e, t) \<in> set (called c)"
    using log_okD(4) [OF log] by blast
  show "(p, e, t) \<in> set (called c) \<Longrightarrow> \<exists>ls. (p, t, ls) \<in> set (sent c)" by (rule log_okD(6) [OF log])
  show "distinct (map fst (sent c))" "distinct (map (\<lambda>(p, e, text). (p, e)) (called c))"
    using log unfolding log_ok_def by blast+
qed

text \<open>
  C1. No message is lost and none is delivered twice. Take any interleaving of the notifying threads with the event loop,
  its callbacks and the JavaScript code, in which no \<open>uv_async_send\<close> met an uninitialised handle (the race shown at the end
  of this theory), and which has come to rest with the queue handle created. Then every listener that was registered when
  a message was queued has been called for that message, with the text of the message; no listener was called twice for
  one message; and no listener was called for anything else than a message that was sent, with its text.
\<close>

theorem no_message_lost:
  assumes "uv_contract U L" and "handles L l = Map.empty" and "conc_reach U L (conc_init l j) c"
    and "\<not> uninit_send c" and "quiescent L c" and "queue_uv_handle (br c) \<noteq> None"
  shows "distinct (map fst (sent c)) \<and>
    (\<forall>(message, text, listeners) \<in> set (sent c). \<forall>it \<in> set listeners. (message, it, text) \<in> set (called c)) \<and>
    distinct (map (\<lambda>(message, it, text). (message, it)) (called c)) \<and>
    (\<forall>(message, it, text) \<in> set (called c). \<exists>listeners. (message, text, listeners) \<in> set (sent c))"
  using quiescent_called [OF reachable_inv [OF assms(1-4)] assms(5,6)] by auto

text \<open>
  C3. The thread of the loop has no undefined behaviour, in every reachable state before a notifying thread has called
  \<open>uv_async_send\<close> on an uninitialised handle: \<open>front()\<close> is only called on a non-empty queue; the message of a due handle,
  and the message of a delivery that is under way, is a live, terminated copy; a handle that waits for its close callback
  owns two live blocks and freeing them is defined; each libuv call is made on a handle in the state it is documented
  for; the counter of the listeners overflows only at \<open>INT32_MAX\<close>.
\<close>

theorem loop_thread_safe:
  assumes "uv_contract U L" and "handles L l = Map.empty" and "conc_reach U L (conc_init l j) c" and "\<not> uninit_send c"
  shows "(lpc c = LFlush True \<longrightarrow> messageQueue (br c) \<noteq> [] \<and> handles L (uv (br c)) (next_addr (br c)) = None) \<and>
    (\<forall>h. handles L (uv (br c)) h = Some (Active Do_registered_callbacks True) \<longrightarrow>
       (\<exists>p text. asyncs (br c) h = Some (Some p) \<and> cstrs (br c) p = Some (text @ [0]) \<and> 0 \<notin> set text)) \<and>
    (\<forall>h p rest. lpc c = LJs (Some (h, p, rest)) \<longrightarrow>
       (\<exists>text. cstrs (br c) p = Some (text @ [0]) \<and> 0 \<notin> set text) \<and>
       handles L (uv (br c)) h = Some (Active Do_registered_callbacks False)) \<and>
    (\<forall>h. handles L (uv (br c)) h = Some Closing \<longrightarrow>
       (\<exists>b. close_cb h ((br c)\<lparr>uv := finish_close L h (uv (br c))\<rparr>) = Some b)) \<and>
    (\<forall>ctx h. lpc c = LReg1 ctx h \<longrightarrow> handles L (uv (br c)) h = None) \<and>
    (\<forall>ctx h. lpc c = LReg2 ctx h \<longrightarrow> (\<exists>b. handles L (uv (br c)) h = Some (Active Flush_message_queue b))) \<and>
    (\<forall>af. pool_add af (br c) = None \<longrightarrow> my_little_pool_incrementer (br c) = 2147483647)"
proof (intro conjI allI impI)
  have inv: "conc_inv L c" by (rule reachable_inv [OF assms])
  note d = conc_invD [OF inv]
  note t = table_okD [OF d(2)]
  show "messageQueue (br c) \<noteq> []" if "lpc c = LFlush True"
    using d(3) that unfolding wake_ok_def by blast
  show "handles L (uv (br c)) (next_addr (br c)) = None"
    by (rule t(5) [OF bridge_okD(2) [OF d(1)]]) (use bridge_okD(2,3) [OF d(1)] in fastforce)
  show "\<exists>p text. asyncs (br c) h = Some (Some p) \<and> cstrs (br c) p = Some (text @ [0]) \<and> 0 \<notin> set text"
    if "handles L (uv (br c)) h = Some (Active Do_registered_callbacks True)" for h
    using message_handle(1) [OF inv that] bridge_okD(8) [OF d(1)] by blast
  show "\<exists>text. cstrs (br c) p = Some (text @ [0]) \<and> 0 \<notin> set text"
    "handles L (uv (br c)) h = Some (Active Do_registered_callbacks False)" if "lpc c = LJs (Some (h, p, rest))" for h p rest
    using t(4) [of h p rest] bridge_okD(8) [OF d(1)] that by auto
  show "\<exists>b. close_cb h ((br c)\<lparr>uv := finish_close L h (uv (br c))\<rparr>) = Some b"
    if "handles L (uv (br c)) h = Some Closing" for h
    using close_runs [OF inv that, of "finish_close L h (uv (br c))"] by metis
  show "handles L (uv (br c)) h = None" if "lpc c = LReg1 ctx h" for ctx h using t(2) that by blast
  show "\<exists>b. handles L (uv (br c)) h = Some (Active Flush_message_queue b)" if "lpc c = LReg2 ctx h" for ctx h
    using t(3) that by blast
  show "my_little_pool_incrementer (br c) = 2147483647" if "pool_add af (br c) = None" for af
    using that d(1) by (auto simp: pool_add_def int_add_def bridge_ok_def pool_ok_def split: if_splits)
qed

section \<open>Progress\<close>

text \<open>
  The work the native code of the loop's thread still has, if no message and no registration is added: each of its steps
  lowers it. A queued message stands for the steps of its delivery to every listener, one more if a registration is
  under way.
\<close>

fun pc_work :: "loop_pc \<Rightarrow> nat" where
  "pc_work (LReg1 ctx h) = 6"
| "pc_work (LReg2 ctx h) = 5"
| "pc_work (LReg3 ctx) = 1"
| "pc_work LStart = 2"
| "pc_work (LFlush b) = 1"
| "pc_work (LJs ctx) = 0"

fun may_add :: "loop_pc \<Rightarrow> nat" where
  "may_add (LReg1 ctx h) = 1"
| "may_add (LReg2 ctx h) = 1"
| "may_add (LReg3 ctx) = 1"
| "may_add pc = 0"

fun delivery_work :: "delivery option \<Rightarrow> nat" where
  "delivery_work None = 0"
| "delivery_work (Some (h, p, rest)) = Suc (length rest)"

definition queue_due :: "'l uv_loop \<Rightarrow> ('l, 'js) conc \<Rightarrow> nat" where
  "queue_due L c =
     (case queue_uv_handle (br c) of
        None \<Rightarrow> 0
      | Some h \<Rightarrow> if handles L (uv (br c)) h = Some (Active Flush_message_queue True) then 3 else 0)"

definition work :: "'l uv_loop \<Rightarrow> ('l, 'js) conc \<Rightarrow> nat" where
  "work L c =
     (let k = length (pool (br c)) + may_add (lpc c) in
      (k + 4) * length (messageQueue (br c)) + (k + 2) * card (due (asyncs (br c)) (handles L (uv (br c))))
      + card (dom (asyncs (br c))) + delivery_work (delivery_of (lpc c)) + queue_due L c + pc_work (lpc c))"

lemma finite_due: "bridge_ok b \<Longrightarrow> finite (due (asyncs b) H)"
  by (rule finite_subset [of _ "{..< next_addr b}"]) (auto simp: due_def dest: bridge_okD(5))

lemma finite_asyncs:
  assumes "bridge_ok b"
  shows "finite (dom (asyncs b))"
proof (rule finite_subset)
  have "\<forall>a \<in> dom (asyncs b). a < next_addr b" using bridge_okD(1) [OF assms] unfolding heap_ok_def by blast
  then show "dom (asyncs b) \<subseteq> {..< next_addr b}" by blast
qed simp

lemma work_queue_call:
  assumes inv: "conc_inv L c" and h: "queue_uv_handle (br c) = Some h"
    and l: "handles L l = (handles L (uv (br c)))(h := s)"
    and pc: "delivery_of pc = delivery_of (lpc c)" "may_add pc = may_add (lpc c)"
    and less: "(if s = Some (Active Flush_message_queue True) then 3 else 0) + pc_work pc < queue_due L c + pc_work (lpc c)"
  shows "work L (c\<lparr>br := (br c)\<lparr>uv := l\<rparr>, lpc := pc\<rparr>) < work L c"
  using less queue_handle_due(2) [OF inv h, of "handles L (uv (br c))" s]
  by (simp add: work_def queue_due_def h l pc Let_def)

lemma work_flush_pop:
  assumes inv: "conc_inv L c" and U: "uv_contract U L" and pc: "lpc c = LFlush True" and q: "messageQueue (br c) = m # q"
  shows "work L (c\<lparr>br := post_message U m ((br c)\<lparr>messageQueue := q\<rparr>), lpc := LFlush (q \<noteq> [])\<rparr>) < work L c"
proof -
  let ?b = "br c" and ?n = "next_addr (br c)"
  note ok = conc_invD(1) [OF inv]
  have n: "asyncs ?b ?n = None" "queue_uv_handle ?b \<noteq> Some ?n" using bridge_okD(2,3) [OF ok] by fastforce+
  have "m \<notin> due (asyncs ?b) (handles L (uv ?b))" using bridge_okD(7) [OF ok] q by (fastforce simp: due_def)
  moreover have "card (insert ?n (dom (asyncs ?b))) = Suc (card (dom (asyncs ?b)))"
    using finite_asyncs [OF ok] n(1) by (simp add: domIff)
  ultimately show ?thesis
    using finite_due [OF ok] q pc n
    by (auto simp: work_def due_post queue_due_def inv_flush_pop(2) [OF inv U pc q] Let_def split: option.split)
qed

lemma work_deliver_start:
  assumes inv: "conc_inv L c" and U: "uv_contract U L" and pc: "lpc c = LJs None"
    and h: "handles L (uv (br c)) h = Some (Active Do_registered_callbacks True)" and p: "asyncs (br c) h = Some (Some p)"
  shows "work L (c\<lparr>br := (br c)\<lparr>uv := begin_async L h (uv (br c))\<rparr>, lpc := LJs (Some (h, p, pool (br c)))\<rparr>) < work L c"
proof -
  let ?D = "due (asyncs (br c)) (handles L (uv (br c)))"
  note start = inv_deliver_start(2,3) [OF assms]
  have "card ?D = Suc (card (?D - {p}))"
    using start(2) finite_due [OF conc_invD(1) [OF inv]] by (metis card.remove)
  moreover have "queue_uv_handle (br c) \<noteq> Some h" by (rule message_handle(2) [OF inv h]) simp
  then have "queue_due L (c\<lparr>br := (br c)\<lparr>uv := begin_async L h (uv (br c))\<rparr>, lpc := LJs (Some (h, p, pool (br c)))\<rparr>) =
      queue_due L c"
    by (auto simp: queue_due_def uv_contractD(4) [OF U h] split: option.split)
  ultimately show ?thesis
    using pc by (simp add: work_def start(1) Let_def)
qed

lemma loop_step_work:
  assumes "loop_step U L c d" and inv: "conc_inv L c" and U: "uv_contract U L"
  shows "work L d < work L c"
  using assms(1)
proof cases
  case (register_init ctx h)
  then have h: "queue_uv_handle (br c) = Some h" "handles L (uv (br c)) h = None"
    using table_okD(2) [OF conc_invD(2) [OF inv]] by auto
  have "queue_due L c = 0" using h by (simp add: queue_due_def)
  with work_queue_call [OF inv h(1) uv_contractD(1) [OF U h(2)], of "LReg2 ctx h"] register_init show ?thesis by simp
next
  case (register_send ctx h)
  then obtain b where h: "queue_uv_handle (br c) = Some h" "handles L (uv (br c)) h = Some (Active Flush_message_queue b)"
    using table_okD(3) [OF conc_invD(2) [OF inv]] by blast
  from work_queue_call [OF inv h(1) uv_contractD(2) [OF U h(2)], of "LReg3 ctx"] register_send
  show ?thesis by simp
next
  case (register_add ctx af b)
  have "pool b = pool (br c) @ [(my_little_pool_incrementer (br c), af)]"
    by (rule pool_add_Some(1) [OF conc_invD(1) [OF inv] register_add(3)])
  moreover have "asyncs b = asyncs (br c)" "uv b = uv (br c)" "queue_uv_handle b = queue_uv_handle (br c)"
    "messageQueue b = messageQueue (br c)"
    using register_add(3) by (auto simp: pool_add_def)
  ultimately show ?thesis using register_add by (simp add: work_def queue_due_def cong: option.case_cong)
next
  case (register_fail ctx)
  then show ?thesis by (simp add: work_def queue_due_def Let_def algebra_simps cong: option.case_cong)
next
  case (flush_begin h)
  have h: "queue_uv_handle (br c) = Some h" by (rule queue_handle [OF inv flush_begin(3)])
  have "queue_due L c = 3" using h flush_begin by (simp add: queue_due_def)
  with work_queue_call [OF inv h uv_contractD(4) [OF U flush_begin(3)], of LStart] flush_begin show ?thesis by simp
next
  case flush_check
  then show ?thesis by (simp add: work_def queue_due_def Let_def cong: option.case_cong)
next
  case flush_end
  then show ?thesis by (simp add: work_def queue_due_def Let_def cong: option.case_cong)
next
  case (flush_pop m q)
  then show ?thesis using work_flush_pop [OF inv U] by simp
next
  case (deliver_start h p)
  then show ?thesis using work_deliver_start [OF inv U] by simp
next
  case (deliver_call h p it rest buf t j)
  then show ?thesis by (simp add: work_def queue_due_def Let_def cong: option.case_cong)
next
  case (deliver_end h p)
  have "handles L (uv (br c)) h = Some (Active Do_registered_callbacks False)"
    using table_okD(4) [OF conc_invD(2) [OF inv], of h p "[]"] deliver_end by simp
  then have "queue_uv_handle (br c) \<noteq> Some h" by (rule message_handle(2) [OF inv]) simp
  then show ?thesis
    using deliver_end inv_deliver_end(2,3) [OF inv U deliver_end(2)]
    by (auto simp: work_def queue_due_def Let_def split: option.split)
next
  case (close_handle h b)
  let ?l = "finish_close L h (uv (br c))"
  obtain p where p: "asyncs (br c) h = Some (Some p)" and b: "b = (br c)\<lparr>uv := ?l, cstrs := (cstrs (br c))(p := None),
      asyncs := (asyncs (br c))(h := None)\<rparr>"
    using close_runs [OF inv close_handle(3), of ?l] close_handle(4) by auto
  have "card (dom (asyncs (br c)) - {h}) < card (dom (asyncs (br c)))"
    using finite_asyncs [OF conc_invD(1) [OF inv]] p by (intro card_Diff1_less) auto
  moreover have "queue_uv_handle (br c) \<noteq> Some h" by (rule message_handle(2) [OF inv close_handle(3)]) simp
  moreover have H: "handles L ?l = (handles L (uv (br c)))(h := None)" by (rule uv_contractD(5) [OF U close_handle(3)])
  ultimately show ?thesis
    using close_handle(1,2) due_close [of "handles L (uv (br c))" h "asyncs (br c)", OF close_handle(3)]
    by (auto simp: work_def queue_due_def b H Let_def simp del: card_Diff_insert split: option.split)
qed

lemma loop_step_queue_handle: "loop_step U L c d \<Longrightarrow> queue_uv_handle (br d) = queue_uv_handle (br c)"
  by (cases rule: loop_step.cases)
     (auto simp: pool_add_def close_cb_def free_cstr_def bind_eq_Some_conv split: option.splits if_splits)

text \<open>The loop has a step unless it has nothing to do.\<close>

lemma loop_progress:
  assumes inv: "conc_inv L c" and idle: "\<forall>t. notifiers c t = NIdle" and stuck: "\<nexists>d. loop_step U L c d"
  shows "quiescent L c" and "handles L (uv (br c)) h \<noteq> Some Closing"
proof -
  note d = conc_invD [OF inv]
  have pc: "lpc c = LJs None"
  proof (cases "lpc c")
    case (LJs ctx)
    show ?thesis
    proof (cases ctx)
      case (Some delivery)
      then obtain h p rest where ctx: "lpc c = LJs (Some (h, p, rest))" using LJs by (cases delivery) auto
      then have "asyncs (br c) h = Some (Some p)" using table_okD(4) [OF d(2), of h p rest] by simp
      then obtain t where t: "cstrs (br c) p = Some (t @ [0])" "0 \<notin> set t" using bridge_okD(8) [OF d(1)] by blast
      have "rest \<noteq> []" using stuck deliver_end [of c h p U L] ctx by auto
      then obtain it rest' where "lpc c = LJs (Some (h, p, it # rest'))" using ctx by (cases rest) auto
      from stuck deliver_call [OF this t(1) c_string_nul [OF t(2)]] show ?thesis by blast
    qed (use LJs in simp)
  next
    case (LFlush b)
    have "\<exists>m q. messageQueue (br c) = m # q" if "b"
      using d(3) LFlush that by (cases "messageQueue (br c)") (auto simp: wake_ok_def)
    then show ?thesis using stuck LFlush flush_pop [of c _ _ U L] flush_end [of c U L] by (cases b) auto
  qed (use stuck register_init register_send register_fail flush_check in blast)+
  have "handles L (uv (br c)) h \<noteq> Some (Active cb True)" for h cb
  proof (cases cb)
    case Flush_message_queue
    then show ?thesis using stuck flush_begin [OF pc] by blast
  next
    case Do_registered_callbacks
    show ?thesis
    proof
      assume h: "handles L (uv (br c)) h = Some (Active cb True)"
      have "\<exists>p. asyncs (br c) h = Some (Some p)"
        by (rule message_handle(1) [OF inv h]) (simp add: Do_registered_callbacks)
      with h stuck deliver_start [OF pc] Do_registered_callbacks show False by blast
    qed
  qed
  then show "quiescent L c" using pc idle by (simp add: quiescent_def)
  show "handles L (uv (br c)) h \<noteq> Some Closing"
    using close_runs [OF inv, of h "finish_close L h (uv (br c))"] stuck close_handle [OF pc] by metis
qed

text \<open>At rest, and with all handles closed, every copy of a message has been freed.\<close>

lemma quiescent_clean:
  assumes inv: "conc_inv L c" and q: "quiescent L c" and qh: "queue_uv_handle (br c) \<noteq> None"
    and closed: "\<And>h. handles L (uv (br c)) h \<noteq> Some Closing"
  shows "cstrs (br c) = Map.empty"
proof -
  note d = conc_invD [OF inv]
  have "asyncs (br c) h \<noteq> Some (Some p)" for h p
  proof
    assume h: "asyncs (br c) h = Some (Some p)"
    then have "queue_uv_handle (br c) \<noteq> Some h" using bridge_okD(3) [OF d(1), of h] by auto
    from table_okD(7) [OF d(2) h this] closed q show False by (auto simp: quiescent_def)
  qed
  then have "data_ptrs (asyncs (br c)) = {}" by (auto simp: data_ptrs_iff)
  then show ?thesis
    using quiescent_queue(1) [OF assms(1-3)] bridge_okD(1) [OF d(1)] by (simp add: heap_ok_def)
qed

lemma loop_run:
  assumes "rtranclp (loop_step U L) c d" and "conc_inv L c" and "uv_contract U L"
  shows "conc_inv L d \<and> sent d = sent c \<and> notifiers d = notifiers c \<and> uninit_send d = uninit_send c \<and>
    queue_uv_handle (br d) = queue_uv_handle (br c)"
  using assms
proof induction
  case (step d e)
  then show ?case using loop_step_inv loop_step_frame loop_step_queue_handle by metis
qed simp

lemma no_infinite_loop_run:
  assumes "conc_inv L (run 0)" and U: "uv_contract U L" and run: "\<And>n. loop_step U L (run n) (run (Suc n))"
  shows False
proof -
  have "conc_inv L (run n) \<and> work L (run n) + n \<le> work L (run 0)" for n
  proof (induction n)
    case (Suc n)
    then show ?case using loop_step_inv [OF run _ U] loop_step_work [OF run [of n] _ U] by fastforce
  qed (simp add: assms(1))
  from this [of "Suc (work L (run 0))"] show False by simp
qed

lemma loop_run_ends:
  assumes U: "uv_contract U L"
  shows "conc_inv L c \<Longrightarrow> \<exists>d. rtranclp (loop_step U L) c d \<and> (\<nexists>e. loop_step U L d e)"
proof (induction "work L c" arbitrary: c rule: less_induct)
  case less
  show ?case
  proof (cases "\<exists>d. loop_step U L c d")
    case True
    then obtain d where d: "loop_step U L c d" by blast
    from less.hyps [OF loop_step_work [OF d less.prems U] loop_step_inv [OF d less.prems U]] d
    show ?thesis by (meson converse_rtranclp_into_rtranclp)
  qed blast
qed

lemma loop_run_reach:
  assumes "rtranclp (loop_step U L) c d" and "conc_reach U L b c"
  shows "conc_reach U L b d"
  using assms by induction (auto intro: reach_step loop)

text \<open>
  C2. Delivery. From any reachable state in which no notifying thread is inside \<open>rn_bridge_notify\<close>, the queue handle
  exists and no thread has called \<open>uv_async_send\<close> on an uninitialised handle: if no further message, registration or
  other JavaScript code comes in between, the thread of the loop comes to rest, whatever the order in which libuv runs
  the due callbacks. It makes no infinite run, and wherever it stops, every listener that was registered when a message
  was queued has been called for it, with its text and only once, and every copy of a message has been freed.
\<close>

theorem messages_eventually_delivered:
  assumes "uv_contract U L" and "handles L l = Map.empty" and "conc_reach U L (conc_init l j) c"
    and "\<not> uninit_send c" and "\<forall>t. notifiers c t = NIdle" and "queue_uv_handle (br c) \<noteq> None"
  shows "(\<nexists>run. run 0 = c \<and> (\<forall>n. loop_step U L (run n) (run (Suc n)))) \<and>
    (\<forall>d. rtranclp (loop_step U L) c d \<and> (\<nexists>e. loop_step U L d e) \<longrightarrow>
       quiescent L d \<and> sent d = sent c \<and> cstrs (br d) = Map.empty \<and>
       (\<forall>(message, text, listeners) \<in> set (sent c). \<forall>it \<in> set listeners. (message, it, text) \<in> set (called d)) \<and>
       distinct (map (\<lambda>(message, it, text). (message, it)) (called d)))"
proof (intro conjI allI impI)
  have inv: "conc_inv L c" by (rule reachable_inv [OF assms(1-4)])
  show "\<nexists>run. run 0 = c \<and> (\<forall>n. loop_step U L (run n) (run (Suc n)))"
    using no_infinite_loop_run [OF _ assms(1)] inv by metis
  fix d assume stop: "rtranclp (loop_step U L) c d \<and> (\<nexists>e. loop_step U L d e)"
  note run = loop_run [OF conjunct1 [OF stop] inv assms(1)] and stuck = conjunct2 [OF stop]
  have d: "conc_inv L d" "sent d = sent c" "\<forall>t. notifiers d t = NIdle" "queue_uv_handle (br d) \<noteq> None"
    using run assms(5,6) by simp_all
  note rest = loop_progress [OF d(1,3) stuck]
  note all = quiescent_called [OF d(1) rest(1) d(4)]
  show "quiescent L d" "sent d = sent c" "cstrs (br d) = Map.empty"
    using rest(1) d(2) quiescent_clean [OF d(1) rest(1) d(4) rest(2)] by simp_all
  show "\<forall>(message, text, listeners) \<in> set (sent c). \<forall>it \<in> set listeners. (message, it, text) \<in> set (called d)"
    using all(3) d(2) by auto
  show "distinct (map (\<lambda>(message, it, text). (message, it)) (called d))" by (rule all(2))
qed

section \<open>A race\<close>

text \<open>
  C10. A race. \<open>init_queue_uv_handle\<close> publishes the pointer before \<open>uv_async_init\<close> has run,
  and \<open>rn_bridge_notify\<close> reads it without the lock: there is a run in which
  \<open>uv_async_send\<close> is called on the uninitialised handle.
\<close>

theorem send_before_init_reachable:
  assumes "uv_contract U L" and "handles L l = Map.empty"
  shows "\<exists>c. conc_reach U L (conc_init l j) c \<and> uninit_send c"
proof -
  let ?c0 = "conc_init l j"
  let ?c1 = "?c0\<lparr>br := push_message [0] (br ?c0), notifiers := (notifiers ?c0)(0 := NPushed),
               sent := sent ?c0 @ [(next_addr (br ?c0), [], pool (br ?c0))]\<rparr>"
  let ?c2 = "?c1\<lparr>br := alloc_queue_handle (br ?c1), lpc := LReg1 None (next_addr (br ?c1))\<rparr>"
  let ?c3 = "?c2\<lparr>notifiers := (notifiers ?c2)(0 := NSignal 2)\<rparr>"
  let ?c4 = "?c3\<lparr>br := (br ?c3)\<lparr>uv := uv_async_send U 2 (uv (br ?c3))\<rparr>,
               notifiers := (notifiers ?c3)(0 := NIdle),
               uninit_send := (uninit_send ?c3 \<or> handles L (uv (br ?c3)) 2 = None)\<rparr>"
  note simps = conc_init_def bridge_init_def push_message_def alloc_queue_handle_def Let_def
  have "notify_step U L ?c0 ?c1"
    by (rule notify_push [of _ _ "[]"]) (simp_all add: copy_message_small simps)
  moreover have "js_step ?c1 ?c2"
    by (rule register_alloc) (simp_all add: simps)
  moreover have "notify_step U L ?c2 ?c3"
    by (rule notify_handle) (simp_all add: simps)
  moreover have "notify_step U L ?c3 ?c4"
    by (rule notify_send) (simp_all add: simps)
  ultimately have "conc_reach U L ?c0 ?c4"
    by (meson reach_refl reach_step notifier javascript)
  moreover have "uninit_send ?c4" using assms(2) by (simp add: simps)
  ultimately show ?thesis by blast
qed

section \<open>The steps make up the handlers\<close>

text \<open>
  Run without interruption, the steps of a registration and of a notification are the operations of the sequential model.
\<close>

lemma init_queue_uv_handle_parts:
  "init_queue_uv_handle U b =
     (let b1 = alloc_queue_handle b; h = next_addr b;
          b2 = b1\<lparr>uv := uv_async_init U h Flush_message_queue (uv b1)\<rparr>
      in b2\<lparr>uv := uv_async_send U h (uv b2)\<rparr>)"
  by (simp add: init_queue_uv_handle_def alloc_queue_handle_def Let_def)

lemma rn_bridge_notify_parts:
  "rn_bridge_notify U message b =
     map_option (\<lambda>copy. let b1 = push_message copy b in
        case queue_uv_handle b1 of None \<Rightarrow> b1 | Some h \<Rightarrow> b1\<lparr>uv := uv_async_send U h (uv b1)\<rparr>)
       (copy_message message)"
  by (simp add: rn_bridge_notify_def wake_queue_def Let_def)

text \<open>So are the steps of \<open>flushMessageQueue\<close>, from its start to the head of its loop with no element left.\<close>

lemma flush_steps_run:
  assumes "lpc c = LFlush b" and "b = (messageQueue (br c) \<noteq> [])"
  shows "\<exists>d. rtranclp (loop_step U L) c d \<and> lpc d = LFlush False \<and> Some (br d) = flush_loop U b (br c)"
  using assms
proof (induction "messageQueue (br c)" arbitrary: b c)
  case Nil
  then show ?case by (auto simp: flush_loop.simps intro!: exI [of _ c])
next
  case (Cons m q)
  let ?c = "c\<lparr>br := post_message U m ((br c)\<lparr>messageQueue := q\<rparr>), lpc := LFlush (q \<noteq> [])\<rparr>"
  have b: "b" "messageQueue (br c) = m # q" using Cons by auto
  then have "loop_step U L c ?c" using Cons.prems by (auto intro: flush_pop)
  moreover obtain d where "rtranclp (loop_step U L) ?c d" "lpc d = LFlush False"
    "Some (br d) = flush_loop U (q \<noteq> []) (br ?c)"
    using Cons.hyps(1) [of ?c "q \<noteq> []"] by auto
  moreover have "flush_loop U b (br c) = flush_loop U (q \<noteq> []) (br ?c)"
    using b by (simp add: flush_loop.simps [of U True])
  ultimately show ?case by (metis converse_rtranclp_into_rtranclp)
qed

lemma flush_steps_flushMessageQueue:
  assumes "lpc c = LStart"
  shows "\<exists>d. rtranclp (loop_step U L) c d \<and> lpc d = LFlush False \<and> Some (br d) = flushMessageQueue U (br c)"
proof -
  let ?c = "c\<lparr>lpc := LFlush (messageQueue (br c) \<noteq> [])\<rparr>"
  obtain d where "rtranclp (loop_step U L) ?c d" "lpc d = LFlush False"
    "Some (br d) = flush_loop U (messageQueue (br c) \<noteq> []) (br c)"
    using flush_steps_run [of ?c "messageQueue (br c) \<noteq> []" U L] by auto
  with flush_check [OF assms, of U L] show ?thesis
    unfolding flushMessageQueue_def by (metis converse_rtranclp_into_rtranclp)
qed

section \<open>A concrete event loop\<close>

text \<open>The handle table itself is a loop that satisfies the contract.\<close>

type_synonym uv_table = "loc \<Rightarrow> uv_handle_state option"

fun send_state :: "uv_handle_state option \<Rightarrow> uv_handle_state option" where
  "send_state (Some (Active cb b)) = Some (Active cb True)"
| "send_state s = s"

fun begin_state :: "uv_handle_state option \<Rightarrow> uv_handle_state option" where
  "begin_state (Some (Active cb b)) = Some (Active cb False)"
| "begin_state s = s"

definition table_uv :: "uv_table uv_api" where
  "table_uv = \<lparr>uv_async_init = \<lambda>h cb T. T(h \<mapsto> Active cb False),
               uv_async_send = \<lambda>h T. T(h := send_state (T h)), uv_close = \<lambda>h T. T(h \<mapsto> Closing)\<rparr>"

definition table_loop :: "uv_table uv_loop" where
  "table_loop = \<lparr>handles = \<lambda>T. T, begin_async = \<lambda>h T. T(h := begin_state (T h)),
                 finish_close = \<lambda>h T. T(h := None)\<rparr>"

lemma table_contract: "uv_contract table_uv table_loop"
  by (simp add: uv_contract_def table_uv_def table_loop_def)

lemma handles_table [simp]: "handles table_loop T = T"
  by (simp add: table_loop_def)

definition conc0 :: "(uv_table, log_js) conc" where
  "conc0 = conc_init Map.empty js0"

text \<open>
  A listener with reference 42 is registered, and then the message \<open>h\<close> is sent: the queue handle is at address 1, the
  copy of the message at address 2.
\<close>

definition entry42 :: listener where
  "entry42 = (1, \<lparr>qf_env = 0, qf_function = 42\<rparr>)"

definition conc1 :: "(uv_table, log_js) conc" where
  "conc1 = conc0\<lparr>br := (br conc0)\<lparr>pool := [entry42], my_little_pool_incrementer := 2, next_addr := 3,
       queue_uv_handle := Some 1, asyncs := [1 \<mapsto> None], cstrs := [2 \<mapsto> [104, 0]], messageQueue := [2],
       uv := [1 \<mapsto> Active Flush_message_queue True]\<rparr>,
     sent := [(2, [104], [entry42])]\<rparr>"

lemmas conc_defs = conc0_def conc1_def conc_init_def bridge_init_def push_message_def alloc_queue_handle_def
  post_message_def Let_def

lemma conc1_reach: "conc_reach table_uv table_loop conc0 conc1"
proof -
  let ?af = "\<lparr>qf_env = 0, qf_function = 42\<rparr>"
  let ?c1 = "conc0\<lparr>br := alloc_queue_handle (br conc0), lpc := LReg1 None (next_addr (br conc0))\<rparr>"
  let ?c2 = "?c1\<lparr>br := (br ?c1)\<lparr>uv := uv_async_init table_uv 1 Flush_message_queue (uv (br ?c1))\<rparr>, lpc := LReg2 None 1\<rparr>"
  let ?c3 = "?c2\<lparr>br := (br ?c2)\<lparr>uv := uv_async_send table_uv 1 (uv (br ?c2))\<rparr>, lpc := LReg3 None\<rparr>"
  let ?c4 = "?c3\<lparr>br := (br ?c3)\<lparr>pool := [entry42], my_little_pool_incrementer := 2\<rparr>, lpc := LJs None\<rparr>"
  let ?c5 = "?c4\<lparr>br := push_message [104, 0] (br ?c4), notifiers := (notifiers ?c4)(0 := NPushed),
               sent := sent ?c4 @ [(next_addr (br ?c4), [104], pool (br ?c4))]\<rparr>"
  let ?c6 = "?c5\<lparr>notifiers := (notifiers ?c5)(0 := NSignal 1)\<rparr>"
  let ?c7 = "?c6\<lparr>br := (br ?c6)\<lparr>uv := uv_async_send table_uv 1 (uv (br ?c6))\<rparr>, notifiers := (notifiers ?c6)(0 := NIdle),
               uninit_send := (uninit_send ?c6 \<or> handles table_loop (uv (br ?c6)) 1 = None)\<rparr>"
  have "js_step conc0 ?c1"
    by (rule register_alloc) (simp_all add: conc_defs)
  moreover have "loop_step table_uv table_loop ?c1 ?c2"
    by (rule register_init) (simp add: conc_defs)
  moreover have "loop_step table_uv table_loop ?c2 ?c3"
    by (rule register_send) simp
  moreover have "loop_step table_uv table_loop ?c3 ?c4"
    by (rule register_add [of _ _ ?af]) (simp_all add: pool_add_def int_add_def conc_defs entry42_def)
  moreover have "notify_step table_uv table_loop ?c4 ?c5"
    by (rule notify_push [of _ _ "[104]"]) (simp_all add: copy_message_small conc_defs)
  moreover have "notify_step table_uv table_loop ?c5 ?c6"
    by (rule notify_handle) (simp_all add: conc_defs)
  moreover have "notify_step table_uv table_loop ?c6 ?c7"
    by (rule notify_send) simp
  ultimately have "conc_reach table_uv table_loop conc0 ?c7"
    by (intro reach_step [OF reach_step [OF reach_step [OF reach_step [OF reach_step [OF reach_step [OF reach_step [OF reach_refl
        javascript] loop] loop] loop] notifier] notifier] notifier])
  moreover have "?c7 = conc1"
    by (simp add: conc_defs table_uv_def fun_eq_iff numeral_2_eq_2 numeral_3_eq_3)
  ultimately show ?thesis by simp
qed

lemma conc1_simps:
  "\<not> uninit_send conc1" "\<forall>t. notifiers conc1 t = NIdle" "queue_uv_handle (br conc1) \<noteq> None"
  "sent conc1 = [(2, [104], [entry42])]"
  by (simp_all add: conc_defs)

lemma conc1_reachable: "conc_reach table_uv table_loop (conc_init Map.empty js0) conc1"
  using conc1_reach by (simp add: conc0_def)

lemma conc1_runs_out:
  obtains d where "rtranclp (loop_step table_uv table_loop) conc1 d" "\<nexists>e. loop_step table_uv table_loop d e"
    "conc_reach table_uv table_loop (conc_init Map.empty js0) d" "\<not> uninit_send d" "quiescent table_loop d"
    "queue_uv_handle (br d) \<noteq> None" "sent d = [(2, [104], [entry42])]"
proof -
  have inv: "conc_inv table_loop conc1"
    by (rule reachable_inv [OF table_contract handles_table conc1_reachable conc1_simps(1)])
  obtain d where d: "rtranclp (loop_step table_uv table_loop) conc1 d" "\<nexists>e. loop_step table_uv table_loop d e"
    using loop_run_ends [OF table_contract inv] by blast
  note run = loop_run [OF d(1) inv table_contract]
  have "quiescent table_loop d" using loop_progress(1) [OF _ _ d(2)] run conc1_simps(2) by simp
  with that [OF d loop_run_reach [OF d(1) conc1_reachable]] run conc1_simps show thesis by simp
qed

theorem no_message_lost_witness:
  "\<exists>d. conc_reach table_uv table_loop conc0 d \<and> sent d = [(2, [104], [entry42])] \<and> (2, entry42, [104]) \<in> set (called d) \<and>
     distinct (map (\<lambda>(message, it, text). (message, it)) (called d))"
proof -
  obtain d where d: "conc_reach table_uv table_loop (conc_init Map.empty js0) d" "\<not> uninit_send d" "quiescent table_loop d"
    "queue_uv_handle (br d) \<noteq> None" and sent: "sent d = [(2, [104], [entry42])]"
    using conc1_runs_out by metis
  show ?thesis
    using no_message_lost [OF table_contract handles_table d] d(1) sent by (intro exI [of _ d]) (simp add: conc0_def)
qed

theorem messages_eventually_delivered_witness:
  "\<exists>d. rtranclp (loop_step table_uv table_loop) conc1 d \<and> quiescent table_loop d \<and>
     (2, entry42, [104]) \<in> set (called d) \<and> cstrs (br d) = Map.empty"
proof -
  obtain d where d: "rtranclp (loop_step table_uv table_loop) conc1 d" "\<nexists>e. loop_step table_uv table_loop d e"
    using conc1_runs_out by metis
  from messages_eventually_delivered [OF table_contract handles_table conc1_reachable conc1_simps(1-3)]
  have "quiescent table_loop d \<and> sent d = sent conc1 \<and> cstrs (br d) = Map.empty \<and>
       (\<forall>(message, text, listeners) \<in> set (sent conc1). \<forall>it \<in> set listeners. (message, it, text) \<in> set (called d)) \<and>
       distinct (map (\<lambda>(message, it, text). (message, it)) (called d))"
    using d by blast
  with d(1) show ?thesis by (auto simp: conc1_simps(4))
qed

text \<open>The message of \<open>conc1\<close> in its own handle, due.\<close>

definition conc2 :: "(uv_table, log_js) conc" where
  "conc2 = conc1\<lparr>br := post_message table_uv 2
     ((br conc1)\<lparr>uv := begin_async table_loop 1 (uv (br conc1)), messageQueue := []\<rparr>), lpc := LFlush False\<rparr>"

lemma conc2_reach: "conc_reach table_uv table_loop (conc_init Map.empty js0) conc2"
proof -
  let ?c1 = "conc1\<lparr>br := (br conc1)\<lparr>uv := begin_async table_loop 1 (uv (br conc1))\<rparr>, lpc := LStart\<rparr>"
  let ?c2 = "?c1\<lparr>lpc := LFlush True\<rparr>"
  have "loop_step table_uv table_loop conc1 ?c1"
    by (rule flush_begin) (simp_all add: conc_defs)
  moreover have "loop_step table_uv table_loop ?c1 ?c2"
    using flush_check [of ?c1 table_uv table_loop] by (simp add: conc_defs)
  moreover have "loop_step table_uv table_loop ?c2 conc2"
    using flush_pop [of ?c2 2 "[]" table_uv table_loop] by (simp add: conc2_def conc_defs)
  ultimately show ?thesis using conc1_reachable by (meson reach_step loop)
qed

theorem loop_thread_safe_witness:
  "\<exists>p text. asyncs (br conc2) 3 = Some (Some p) \<and> cstrs (br conc2) p = Some (text @ [0]) \<and> 0 \<notin> set text"
proof -
  have "handles table_loop (uv (br conc2)) 3 = Some (Active Do_registered_callbacks True)"
    by (simp add: conc2_def conc_defs table_uv_def)
  moreover have "\<not> uninit_send conc2" by (simp add: conc2_def conc1_simps)
  ultimately show ?thesis
    using loop_thread_safe [OF table_contract handles_table conc2_reach] by blast
qed

theorem send_before_init_reachable_witness:
  "\<exists>c. conc_reach table_uv table_loop conc0 c \<and> uninit_send c"
  using send_before_init_reachable [OF table_contract, of Map.empty js0]
  by (simp add: conc0_def)

end
