(* ===== verification/Utf8.thy ===== *)
theory Utf8
  imports Prelude
begin

text \<open>
  The two encodings that meet in the native code. \<open>GetStringUTFChars\<close> and \<open>NewStringUTF\<close> of JNI use modified UTF-8,
  which encodes each 16-bit unit of a Java string on its own and the unit zero in two bytes; the N-API reads and
  writes standard UTF-8. \<open>modified_utf8\<close> is the encoding the JNI specification gives, \<open>utf8_decode\<close> the decoding of
  standard UTF-8, strict as RFC 3629 has it: overlong forms, surrogates and code points above \<open>10FFFF\<close> are errors.
\<close>

section \<open>Modified UTF-8\<close>

type_synonym jchar = "16 word"

definition unit_bytes :: "nat \<Rightarrow> nat list" where
  "unit_bytes n =
     (if n \<noteq> 0 \<and> n < 128 then [n]
      else if n < 2048 then [192 + n div 64, 128 + n mod 64]
      else [224 + n div 4096, 128 + n div 64 mod 64, 128 + n mod 64])"

definition modified_utf8 :: "jchar list \<Rightarrow> byte list" where
  "modified_utf8 s = concat (map (\<lambda>c. map of_nat (unit_bytes (unat c))) s)"

section \<open>Standard UTF-8\<close>

definition continuation :: "nat \<Rightarrow> bool" where
  "continuation b \<longleftrightarrow> 128 \<le> b \<and> b < 192"

definition surrogate :: "nat \<Rightarrow> bool" where
  "surrogate n \<longleftrightarrow> 55296 \<le> n \<and> n < 57344"

text \<open>One code point and the rest of the input.\<close>

fun utf8_next :: "nat list \<Rightarrow> (nat \<times> nat list) option" where
  "utf8_next [] = None"
| "utf8_next (a # bs) =
     (if a < 128 then Some (a, bs)
      else if 194 \<le> a \<and> a < 224 then
        (case bs of b # bs1 \<Rightarrow>
           if continuation b then Some ((a - 192) * 64 + (b - 128), bs1) else None
         | _ \<Rightarrow> None)
      else if 224 \<le> a \<and> a < 240 then
        (case bs of b # c # bs1 \<Rightarrow>
           (let n = (a - 224) * 4096 + (b - 128) * 64 + (c - 128)
            in if continuation b \<and> continuation c \<and> 2048 \<le> n \<and> \<not> surrogate n then Some (n, bs1) else None)
         | _ \<Rightarrow> None)
      else if 240 \<le> a \<and> a < 245 then
        (case bs of b # c # d # bs1 \<Rightarrow>
           (let n = (a - 240) * 262144 + (b - 128) * 4096 + (c - 128) * 64 + (d - 128)
            in if continuation b \<and> continuation c \<and> continuation d \<and> 65536 \<le> n \<and> n < 1114112
               then Some (n, bs1) else None)
         | _ \<Rightarrow> None)
      else None)"

lemma utf8_next_shorter: "utf8_next bs = Some (n, rest) \<Longrightarrow> length rest < length bs"
  by (cases bs rule: utf8_next.cases) (auto simp: Let_def split: if_splits list.splits)

function utf8_points :: "nat list \<Rightarrow> nat list option" where
  "utf8_points bs =
     (if bs = [] then Some []
      else case utf8_next bs of
        None \<Rightarrow> None
      | Some (n, rest) \<Rightarrow> map_option ((#) n) (utf8_points rest))"
  by pat_completeness auto
termination
  by (relation "measure length") (auto dest: utf8_next_shorter)

declare utf8_points.simps [simp del]

definition utf8_decode :: "byte list \<Rightarrow> nat list option" where
  "utf8_decode bs = utf8_points (map unat bs)"

definition valid_utf8 :: "byte list \<Rightarrow> bool" where
  "valid_utf8 bs \<longleftrightarrow> utf8_decode bs \<noteq> None"

section \<open>Where the two agree\<close>

text \<open>A unit that means the same in both: neither zero nor half of a surrogate pair.\<close>

definition plain :: "nat \<Rightarrow> bool" where
  "plain n \<longleftrightarrow> n \<noteq> 0 \<and> \<not> surrogate n"

lemma unit_bytes_range: "n < 65536 \<Longrightarrow> b \<in> set (unit_bytes n) \<Longrightarrow> 0 < b \<and> b < 256"
  by (auto simp: unit_bytes_def split: if_splits)

lemma unit_bytes_ne [simp]: "unit_bytes n \<noteq> []"
  by (simp add: unit_bytes_def)

lemma three_byte_value: "n div 4096 * 4096 + n div 64 mod 64 * 64 + n mod 64 = (n :: nat)"
proof -
  have "n = n div 64 * 64 + n mod 64" by simp
  moreover have "n div 64 = n div 64 div 64 * 64 + n div 64 mod 64" by simp
  moreover have "n div 64 div 64 = n div 4096" by (simp add: div_mult2_eq [symmetric])
  ultimately show ?thesis by linarith
qed

lemma utf8_next_unit_bytes:
  assumes "n < 65536"
  shows "utf8_next (unit_bytes n @ bs) = (if plain n then Some (n, bs) else None)"
proof -
  consider "n \<noteq> 0" "n < 128" | "n = 0" | "128 \<le> n" "n < 2048" | "2048 \<le> n" by linarith
  then show ?thesis
  proof cases
    case 3
    then have "2 \<le> n div 64" "n div 64 < 32" by auto
    then show ?thesis using 3
      by (simp add: unit_bytes_def plain_def surrogate_def continuation_def)
  next
    case 4
    then have "n div 4096 < 16" using assms by auto
    then show ?thesis using 4 three_byte_value [of n]
      by (simp add: unit_bytes_def plain_def continuation_def Let_def)
  qed (auto simp: unit_bytes_def plain_def surrogate_def)
qed

lemma utf8_points_units:
  assumes "\<forall>n \<in> set ns. n < 65536"
  shows "utf8_points (concat (map unit_bytes ns)) = (if \<forall>n \<in> set ns. plain n then Some ns else None)"
  using assms
proof (induction ns)
  case Nil
  then show ?case by (simp add: utf8_points.simps)
next
  case (Cons n ns)
  then show ?case
    by (subst utf8_points.simps) (simp add: utf8_next_unit_bytes)
qed

lemma modified_utf8_values:
  "map unat (modified_utf8 s) = concat (map unit_bytes (map unat s))"
proof (induction s)
  case (Cons c s)
  have "unat c < 65536" using unsigned_less [of c, where 'a = nat] by simp
  then have "map (unat \<circ> (of_nat :: nat \<Rightarrow> byte)) (unit_bytes (unat c)) = unit_bytes (unat c)"
    by (intro map_idI) (auto simp: unat_of_nat dest!: unit_bytes_range)
  with Cons show ?case by (simp add: modified_utf8_def)
qed (simp add: modified_utf8_def)

lemma unat_jchar: "\<forall>n \<in> set (map unat (s :: jchar list)). n < 65536"
  using unsigned_less [where 'a = nat and 'b = 16] by auto

text \<open>The bytes of a Java string are standard UTF-8 exactly when all of its units are plain, and then they
  decode to the string.\<close>

lemma utf8_decode_modified:
  "utf8_decode (modified_utf8 s) = (if \<forall>c \<in> set s. plain (unat c) then Some (map unat s) else None)"
  using utf8_points_units [OF unat_jchar [of s]] by (simp add: utf8_decode_def modified_utf8_values)

lemma valid_modified_iff: "valid_utf8 (modified_utf8 s) \<longleftrightarrow> (\<forall>c \<in> set s. plain (unat c))"
  by (simp add: valid_utf8_def utf8_decode_modified)

lemma modified_utf8_no_zero: "0 \<notin> set (modified_utf8 s)"
proof
  assume "0 \<in> set (modified_utf8 s)"
  then have "0 \<in> set (map unat (modified_utf8 s))" by force
  then show False using unat_jchar [of s] unit_bytes_range
    unfolding modified_utf8_values by fastforce
qed

section \<open>Decoding modified UTF-8\<close>

fun modified_units :: "nat list \<Rightarrow> nat list" where
  "modified_units [] = []"
| "modified_units (a # bs) =
     (if a < 128 then a # modified_units bs
      else case bs of
        [] \<Rightarrow> []
      | b # bs1 \<Rightarrow>
          if a < 224 then ((a - 192) * 64 + (b - 128)) # modified_units bs1
          else case bs1 of
            [] \<Rightarrow> []
          | c # bs2 \<Rightarrow> ((a - 224) * 4096 + (b - 128) * 64 + (c - 128)) # modified_units bs2)"

definition modified_decode :: "byte list \<Rightarrow> jchar list" where
  "modified_decode bs = map of_nat (modified_units (map unat bs))"

lemma modified_units_unit:
  assumes "n < 65536"
  shows "modified_units (unit_bytes n @ bs) = n # modified_units bs"
proof -
  consider "n \<noteq> 0" "n < 128" | "n = 0 \<or> 128 \<le> n" "n < 2048" | "2048 \<le> n" by linarith
  then show ?thesis
    by cases (use assms three_byte_value [of n] in \<open>auto simp: unit_bytes_def\<close>)
qed

lemma modified_decode_utf8 [simp]: "modified_decode (modified_utf8 w) = w"
proof -
  have "modified_units (concat (map unit_bytes ns)) = ns" if "\<forall>n \<in> set ns. n < 65536" for ns
    using that by (induction ns) (simp_all add: modified_units_unit)
  from this [OF unat_jchar [of w]] show ?thesis
    by (simp add: modified_decode_def modified_utf8_values map_idI)
qed

end
