(* ===== verification/KString.thy ===== *)
theory KString
  imports Utf8
begin

text \<open>
  What the Kotlin side of the bridge uses of its standard library: strings, as lists of 16-bit units, and \<open>BigInteger\<close>. An operation
  that throws for some arguments is partial here; the callers say which exception it is.
\<close>

section \<open>Strings\<close>

type_synonym jstr = "jchar list"

text \<open>A literal of the source, in ASCII.\<close>

definition lit :: "string \<Rightarrow> jstr" where "lit s = map of_char s"

definition startsWith :: "jstr \<Rightarrow> jstr \<Rightarrow> bool" where
  "startsWith s prefix \<longleftrightarrow> take (length prefix) s = prefix"

text \<open>\<open>substring\<close> and \<open>subSequence\<close> throw unless \<open>0 \<le> a \<le> b \<le> length\<close>.\<close>

definition substring :: "jstr \<Rightarrow> int \<Rightarrow> int \<Rightarrow> jstr option" where
  "substring s a b =
     (if 0 \<le> a \<and> a \<le> b \<and> b \<le> int (length s) then Some (take (nat b - nat a) (drop (nat a) s)) else None)"

text \<open>The first position from \<open>start\<close> on, or -1; a start outside the string is moved to its ends.\<close>

definition indexOf :: "jstr \<Rightarrow> jchar \<Rightarrow> int \<Rightarrow> int" where
  "indexOf s c start =
     (let n = nat start; k = length (takeWhile (\<lambda>x. x \<noteq> c) (drop n s))
      in if n + k < length s then int (n + k) else -1)"

text \<open>\<open>CharSequence.split\<close> on one character keeps empty parts, the last one too.\<close>

fun split_at :: "jchar \<Rightarrow> jstr \<Rightarrow> jstr list" where
  "split_at c [] = [[]]"
| "split_at c (x # xs) =
     (if x = c then [] # split_at c xs
      else (case split_at c xs of [] \<Rightarrow> [[x]] | p # ps \<Rightarrow> (x # p) # ps))"

lemma split_at_ne [simp]: "split_at c xs \<noteq> []"
  by (induction c xs rule: split_at.induct) (auto split: list.split)

lemma split_at_append [simp]: "c \<notin> set xs \<Longrightarrow> split_at c (xs @ c # ys) = xs # split_at c ys"
  by (induction xs) auto

lemma split_at_single [simp]: "c \<notin> set xs \<Longrightarrow> split_at c xs = [xs]"
  by (induction xs) auto

lemma startsWith_append [simp]: "startsWith (p @ s) p"
  by (simp add: startsWith_def)

lemma startsWith_iff: "startsWith s p \<longleftrightarrow> (\<exists>t. s = p @ t)"
  unfolding startsWith_def by (metis append_eq_conv_conj append_take_drop_id)

lemma takeWhile_not [simp]: "c \<notin> set xs \<Longrightarrow> takeWhile (\<lambda>x. x \<noteq> c) xs = xs"
  by (induction xs) auto

lemma indexOf_found: "drop n s = xs @ c # ys \<Longrightarrow> c \<notin> set xs \<Longrightarrow> indexOf s c (int n) = int (n + length xs)"
proof -
  assume s: "drop n s = xs @ c # ys" and nin: "c \<notin> set xs"
  have "length (drop n s) = length xs + Suc (length ys)" by (simp add: s)
  then have "n + length xs < length s" unfolding length_drop by linarith
  with s nin show ?thesis by (simp add: indexOf_def Let_def takeWhile_stop)
qed

lemma indexOf_cases:
  obtains "indexOf s c (int n) = - 1" | xs ys where "drop n s = xs @ c # ys" "c \<notin> set xs" "indexOf s c (int n) = int (n + length xs)"
proof (cases "c \<in> set (drop n s)")
  case True
  from split_list_first [OF this] show ?thesis using that(2) indexOf_found by blast
next
  case False
  then show ?thesis using that(1) by (simp add: indexOf_def Let_def)
qed

lemma substring_Some:
  "substring s (int a) (int b) = Some t \<longleftrightarrow> a \<le> b \<and> b \<le> length s \<and> t = take (b - a) (drop a s)"
  by (auto simp: substring_def)

section \<open>Decimal numbers\<close>

fun digits :: "nat \<Rightarrow> jstr" where
  "digits n = (if n < 10 then [48 + of_nat n] else digits (n div 10) @ [48 + of_nat (n mod 10)])"

declare digits.simps [simp del]

text \<open>\<open>toString(10)\<close>.\<close>

definition dec_string :: "int \<Rightarrow> jstr" where
  "dec_string n = (if n < 0 then 45 # digits (nat (- n)) else digits (nat n))"

text \<open>
  \<open>BigInteger(s, 10)\<close>: an optional sign and at least one digit. \<open>Character.digit\<close> also knows digits outside ASCII, which are the parameter \<open>u\<close>.
\<close>

definition digit_value :: "(jchar \<Rightarrow> nat option) \<Rightarrow> jchar \<Rightarrow> nat option" where
  "digit_value u c = (if 48 \<le> c \<and> c \<le> 57 then Some (unat c - 48) else if c < 128 then None else u c)"

fun digits_value :: "(jchar \<Rightarrow> nat option) \<Rightarrow> nat \<Rightarrow> jstr \<Rightarrow> nat option" where
  "digits_value u acc [] = Some acc"
| "digits_value u acc (c # cs) = Option.bind (digit_value u c) (\<lambda>d. digits_value u (acc * 10 + d) cs)"

definition BigInteger_parse :: "(jchar \<Rightarrow> nat option) \<Rightarrow> jstr \<Rightarrow> int option" where
  "BigInteger_parse u s =
     (let (negative, ds) = (case s of [] \<Rightarrow> (False, []) | c # cs \<Rightarrow> if c = 45 then (True, cs) else if c = 43 then (False, cs) else (False, s))
      in if ds = [] then None
         else map_option (\<lambda>n. if negative then - int n else int n) (digits_value u 0 ds))"

lemma unat_digit: "d < 10 \<Longrightarrow> unat (48 + of_nat d :: jchar) = 48 + d"
  by (simp add: unat_word_ariths unat_of_nat)

lemma digit_value_digit: "d < 10 \<Longrightarrow> digit_value u (48 + of_nat d) = Some d"
  by (simp add: digit_value_def word_le_nat_alt unat_digit)

lemma digits_value_append:
  "digits_value u acc (xs @ ys) = Option.bind (digits_value u acc xs) (\<lambda>a. digits_value u a ys)"
  by (induction u acc xs rule: digits_value.induct) (auto split: Option.bind_split)

lemma digits_value_digits: "digits_value u 0 (digits n) = Some n"
proof (induction n rule: digits.induct)
  case (1 n)
  then show ?case by (subst digits.simps) (simp add: digits_value_append digit_value_digit)
qed

lemma digits_range: "c \<in> set (digits n) \<Longrightarrow> 48 \<le> c \<and> c \<le> 57"
proof (induction n rule: digits.induct)
  case (1 n)
  have "48 \<le> (48 + of_nat d :: jchar) \<and> (48 + of_nat d :: jchar) \<le> 57" if "d < 10" for d
    using that by (simp add: word_le_nat_alt unat_digit)
  with 1 show ?case by (subst (asm) digits.simps) (auto split: if_splits)
qed

lemma digits_ne: "digits n \<noteq> []"
  by (subst digits.simps) simp

lemma dec_string_range: "c \<in> set (dec_string n) \<Longrightarrow> c = 45 \<or> (48 \<le> c \<and> c \<le> 57)"
  using digits_range by (auto simp: dec_string_def split: if_splits)

lemma BigInteger_parse_dec_string: "BigInteger_parse u (dec_string n) = Some n"
proof (cases "n < 0")
  case True
  then show ?thesis using digits_ne by (simp add: BigInteger_parse_def dec_string_def digits_value_digits)
next
  case False
  obtain c cs where ds: "digits (nat n) = c # cs" using digits_ne by (cases "digits (nat n)") auto
  have "c \<noteq> 45" "c \<noteq> 43" using digits_range [of c "nat n"] ds by (auto simp: word_le_nat_alt)
  then show ?thesis
    using False digits_value_digits [of u "nat n"] by (simp add: BigInteger_parse_def dec_string_def ds)
qed

section \<open>Modular arithmetic\<close>

text \<open>
  \<open>BigInteger.modInverse\<close> and \<open>modPow\<close>: an \<open>ArithmeticException\<close> for a modulus that is not positive, and for a negative exponent of a number
  that has no inverse.
\<close>

definition modInverse :: "int \<Rightarrow> int \<Rightarrow> int option" where
  "modInverse b m =
     (if m \<le> 0 then None
      else if gcd (b mod m) m \<noteq> 1 then None
      else Some (fst (bezw (nat (b mod m)) (nat m)) mod m))"

definition modPow :: "int \<Rightarrow> int \<Rightarrow> int \<Rightarrow> int option" where
  "modPow b e m =
     (if m \<le> 0 then None
      else if 0 \<le> e then Some (b ^ nat e mod m)
      else map_option (\<lambda>i. i ^ nat (- e) mod m) (modInverse b m))"

lemma modInverse_inverts:
  assumes "modInverse b m = Some i"
  shows "0 \<le> i \<and> i < m \<and> i * b mod m = 1 mod m"
proof -
  have m: "0 < m" "gcd (b mod m) m = 1" and i: "i = fst (bezw (nat (b mod m)) (nat m)) mod m"
    using assms by (auto simp: modInverse_def split: if_splits)
  let ?x = "fst (bezw (nat (b mod m)) (nat m))"
  have "int (gcd (nat (b mod m)) (nat m)) = 1" using m by (metis gcd_int_int_eq int_nat_eq less_imp_le pos_mod_sign)
  then have "1 = ?x * (b mod m) + snd (bezw (nat (b mod m)) (nat m)) * m"
    using bezw_aux [of "nat (b mod m)" "nat m"] m(1) by simp
  then have "1 mod m = ?x * (b mod m) mod m" by (metis mod_mult_self1)
  also have "\<dots> = i * b mod m" by (simp add: i mod_mult_eq mod_mult_left_eq mod_mult_right_eq)
  finally show ?thesis using m(1) by (simp add: i)
qed

end
