(* ===== verification/NodeHost.thy ===== *)
theory NodeHost
  imports KString
begin

text \<open>
  The Kotlin side of the bridge, without state: \<open>NodeHost.kt\<close>, which answers requests of the JavaScript code, and the format of
  requests and answers in \<open>NativeNode.kt\<close>. The cryptographic functions of the platform are parameters. An exception is the left value of a sum.
\<close>

section \<open>Exceptions\<close>

datatype kt_exception =
  StringIndexOutOfBounds | IndexOutOfBounds | NumberFormat | Arithmetic | IllegalArgument | PrivateKeyStrength | UnknownRequest jstr | NullPointer | Security nat

definition and_then :: "kt_exception + 'a \<Rightarrow> ('a \<Rightarrow> kt_exception + 'b) \<Rightarrow> kt_exception + 'b" where
  "and_then r f = (case r of Inl e \<Rightarrow> Inl e | Inr a \<Rightarrow> f a)"

definition or_throw :: "kt_exception \<Rightarrow> 'a option \<Rightarrow> kt_exception + 'a" where
  "or_throw e r = (case r of None \<Rightarrow> Inl e | Some a \<Rightarrow> Inr a)"

lemma and_then_simps [simp]: "and_then (Inl e) f = Inl e" "and_then (Inr a) f = f a"
  by (simp_all add: and_then_def)

lemma and_then_Inr: "and_then r f = Inr b \<longleftrightarrow> (\<exists>a. r = Inr a \<and> f a = Inr b)"
  by (cases r) auto

lemma or_throw_simps [simp]: "or_throw e None = Inl e" "or_throw e (Some a) = Inr a"
  by (simp_all add: or_throw_def)

lemma or_throw_Inr: "or_throw e r = Inr a \<longleftrightarrow> r = Some a"
  by (cases r) auto

section \<open>NodeHost\<close>

text \<open>Private keys are handles; \<open>unicode_digit\<close> is \<open>Character.digit\<close> outside ASCII.\<close>

record host_api =
  unicode_digit :: "jchar \<Rightarrow> nat option"
  Base64_decode :: "jstr \<Rightarrow> kt_exception + byte list"
  Base64_encode :: "byte list \<Rightarrow> jstr"
  generatePrivate :: "byte list \<Rightarrow> kt_exception + nat"
  doFinal_decrypt :: "nat \<Rightarrow> byte list \<Rightarrow> kt_exception + byte list"

definition decryptRsaNoPadding :: "host_api \<Rightarrow> jstr \<Rightarrow> jstr \<Rightarrow> kt_exception + jstr" where
  "decryptRsaNoPadding H derPrvBase64 encryptedBase64 =
     and_then (Base64_decode H encryptedBase64) (\<lambda>encryptedBytes.
     and_then (Base64_decode H derPrvBase64) (\<lambda>keyBytes.
     and_then (generatePrivate H keyBytes) (\<lambda>prv.
     and_then (doFinal_decrypt H prv encryptedBytes) (\<lambda>plain_bytes. Inr (Base64_encode H plain_bytes)))))"

definition verifyRsaModPow :: "host_api \<Rightarrow> jstr \<Rightarrow> jstr \<Rightarrow> jstr \<Rightarrow> kt_exception + jstr" where
  "verifyRsaModPow H baseStr exponentStr moduloStr =
     and_then (or_throw NumberFormat (BigInteger_parse (unicode_digit H) baseStr)) (\<lambda>base.
     and_then (or_throw NumberFormat (BigInteger_parse (unicode_digit H) exponentStr)) (\<lambda>exponent.
     and_then (or_throw NumberFormat (BigInteger_parse (unicode_digit H) moduloStr)) (\<lambda>modulo.
     and_then (or_throw Arithmetic (modPow base exponent modulo)) (\<lambda>result. Inr (dec_string result)))))"

text \<open>\<open>parts[i]\<close>.\<close>

definition part :: "jstr list \<Rightarrow> nat \<Rightarrow> kt_exception + jstr" where
  "part parts i = (if i < length parts then Inr (parts ! i) else Inl IndexOutOfBounds)"

definition nodeReqHandler :: "host_api \<Rightarrow> jstr \<Rightarrow> jstr \<Rightarrow> kt_exception + jstr" where
  "nodeReqHandler H name request =
     (let parts = split_at 44 request
      in if name = lit ''decryptRsaNoPadding'' then
           and_then (part parts 0) (\<lambda>a. and_then (part parts 1) (\<lambda>b. decryptRsaNoPadding H a b))
         else if name = lit ''verifyRsaModPow'' then
           and_then (part parts 0) (\<lambda>a. and_then (part parts 1) (\<lambda>b. and_then (part parts 2) (\<lambda>c. verifyRsaModPow H a b c)))
         else Inl (UnknownRequest name))"

section \<open>Messages of NativeNode\<close>

definition ASYNC_REQUEST_HEADER :: jstr where "ASYNC_REQUEST_HEADER = lit ''ASYNC_REQUEST|''"
definition ASYNC_RESPONSE_SUCCESS_HEADER :: jstr where "ASYNC_RESPONSE_SUCCESS_HEADER = lit ''ASYNC_RESPONSE|SUCCESS|''"
definition ASYNC_RESPONSE_ERROR_HEADER :: jstr where "ASYNC_RESPONSE_ERROR_HEADER = lit ''ASYNC_RESPONSE|ERROR|''"
definition ASYNC_REQUEST_ID_LEN :: int where "ASYNC_REQUEST_ID_LEN = 10"

text \<open>The identifier, the name and the body of a request.\<close>

definition parse_request :: "jstr \<Rightarrow> kt_exception + jstr \<times> jstr \<times> jstr" where
  "parse_request msg =
     (let header = int (length ASYNC_REQUEST_HEADER); idLen = 10
      in and_then (or_throw StringIndexOutOfBounds (substring msg header (header + idLen))) (\<lambda>rid.
         let nameEndSeparator = indexOf msg 124 (header + ASYNC_REQUEST_ID_LEN + 2)
         in and_then (or_throw StringIndexOutOfBounds
                        (substring msg (header + ASYNC_REQUEST_ID_LEN + 1) nameEndSeparator)) (\<lambda>name.
            and_then (or_throw StringIndexOutOfBounds
                        (substring msg (nameEndSeparator + 1) (int (length msg)))) (\<lambda>reqBody.
            Inr (rid, name, reqBody)))))"

text \<open>
  The \<open>try\<close> block of the source holds the concatenation of the answer, which does not throw; the call of the handler stands before it.
\<close>

definition response_for :: "jstr \<Rightarrow> jstr \<Rightarrow> jstr" where
  "response_for rid responseData = ASYNC_RESPONSE_SUCCESS_HEADER @ rid @ [124] @ responseData"

section \<open>Requests\<close>

text \<open>A request as the JavaScript side writes it.\<close>

definition request :: "jstr \<Rightarrow> jstr \<Rightarrow> jstr \<Rightarrow> jstr" where
  "request rid name body = ASYNC_REQUEST_HEADER @ rid @ [124] @ name @ [124] @ body"

lemma length_header [simp]: "length ASYNC_REQUEST_HEADER = 14"
  by (simp add: ASYNC_REQUEST_HEADER_def lit_def)

lemma request_not_listening: "startsWith (request rid name body) (lit ''listening on '') = False"
  by (simp add: startsWith_def request_def ASYNC_REQUEST_HEADER_def lit_def)

text \<open>
  The messages that parse. The unit between identifier and name is not looked at, and a separator as the first unit of the name belongs to the name.
\<close>

lemma parse_request_iff:
  "parse_request msg = Inr (rid, name, body) \<longleftrightarrow>
   (\<exists>hd sep c cs. msg = hd @ rid @ sep # name @ 124 # body \<and> length hd = 14 \<and> length rid = 10 \<and> name = c # cs \<and> 124 \<notin> set cs)"
  (is "?parsed \<longleftrightarrow> ?form")
proof
  assume ?form
  then obtain hd sep c cs where msg: "msg = hd @ rid @ sep # (c # cs) @ 124 # body" and f: "length hd = 14" "length rid = 10"
    "name = c # cs" "124 \<notin> set cs" by blast
  have d: "drop 26 msg = cs @ 124 # body" "drop 14 msg = rid @ sep # (c # cs) @ 124 # body" "drop 25 msg = (c # cs) @ 124 # body"
    "length msg = 27 + length cs + length body"
    using f by (simp_all add: msg)
  have "drop (27 + length cs) msg = drop (Suc (length cs)) (drop 26 msg)" by (simp add: add.commute)
  then have "drop (27 + length cs) msg = body" unfolding d(1) by simp
  then have "substring msg (int 14) (int 24) = Some rid" "substring msg (int 25) (int (26 + length cs)) = Some name"
    "substring msg (int (27 + length cs)) (int (length msg)) = Some body"
    using f d unfolding substring_Some by simp_all
  then show ?parsed using indexOf_found [OF d(1) f(4)] by (simp add: parse_request_def Let_def ASYNC_REQUEST_ID_LEN_def)
next
  assume ?parsed
  then have r: "substring msg (int 14) (int 24) = Some rid" "substring msg (int 25) (indexOf msg 124 (int 26)) = Some name"
    "substring msg (indexOf msg 124 (int 26) + 1) (int (length msg)) = Some body"
    by (auto simp: parse_request_def Let_def ASYNC_REQUEST_ID_LEN_def and_then_Inr or_throw_Inr)
  have "indexOf msg 124 (int 26) \<noteq> - 1" using r(2) by (auto simp: substring_def)
  then obtain cs b where t: "drop 26 msg = cs @ 124 # b" "124 \<notin> set cs" "indexOf msg 124 (int 26) = int (26 + length cs)"
    using indexOf_cases [of msg 124 26 thesis] by blast
  have len: "length msg = 27 + length cs + length b" using arg_cong [OF t(1), of length] by simp
  have d25: "drop 25 msg = msg ! 25 # cs @ 124 # b" using Cons_nth_drop_Suc [of 25 msg] len t(1) by simp
  have d24: "drop 24 msg = msg ! 24 # drop 25 msg" using Cons_nth_drop_Suc [of 24 msg] len by simp
  have "drop (27 + length cs) msg = drop (Suc (length cs)) (drop 26 msg)" by (simp add: add.commute)
  then have "drop (27 + length cs) msg = b" unfolding t(1) by simp
  moreover have "substring msg (int (27 + length cs)) (int (length msg)) = Some body" using r(3) [unfolded t(3)] by (simp add: add.assoc)
  ultimately have body: "body = b" unfolding substring_Some by (simp add: len)
  have rid: "rid = take 10 (drop 14 msg)" and name: "name = msg ! 25 # cs"
    using r(1,2) d25 unfolding t(3) substring_Some by simp_all
  have "take 24 msg = take 14 msg @ take 10 (drop 14 msg)" using take_add [of 14 10 msg] by simp
  from append_take_drop_id [of 24 msg, unfolded this]
  have "take 14 msg @ take 10 (drop 14 msg) @ drop 24 msg = msg" by (simp only: append_assoc)
  then have "take 14 msg @ rid @ msg ! 24 # name @ 124 # body = msg" by (simp add: d24 d25 rid name body)
  moreover have "length (take 14 msg) = 14" "length rid = 10" using len by (simp_all add: rid)
  ultimately show ?form using t(2) name by metis
qed

lemma parse_request_request:
  assumes "length rid = 10" and "name \<noteq> []" and "124 \<notin> set name"
  shows "parse_request (request rid name body) = Inr (rid, name, body)"
  using assms unfolding parse_request_iff
  by (intro exI [of _ ASYNC_REQUEST_HEADER] exI [of _ 124] exI [of _ "hd name"] exI [of _ "tl name"])
     (cases name; simp add: request_def)

section \<open>Arithmetic for signatures\<close>

text \<open>
  The request \<open>verifyRsaModPow\<close> computes modular powers. Given three numbers in decimal notation, joined by commas, with a positive modulus
  and an exponent that is not negative, the handler answers with the decimal notation of the power modulo the modulus.
\<close>

theorem verifyRsaModPow_correct:
  assumes "0 < m" and "0 \<le> e"
  shows "nodeReqHandler H (lit ''verifyRsaModPow'') (dec_string b @ [44] @ dec_string e @ [44] @ dec_string m) =
    Inr (dec_string (b ^ nat e mod m))"
proof -
  have "44 \<notin> set (dec_string n)" for n using dec_string_range [of 44 n] by (auto simp: word_le_nat_alt)
  then have "split_at 44 (dec_string b @ [44] @ dec_string e @ [44] @ dec_string m) = [dec_string b, dec_string e, dec_string m]" by simp
  moreover have "lit ''verifyRsaModPow'' \<noteq> lit ''decryptRsaNoPadding''" by (simp add: lit_def)
  ultimately show ?thesis
    using assms by (simp add: nodeReqHandler_def Let_def part_def verifyRsaModPow_def BigInteger_parse_dec_string modPow_def)
qed

definition sample_host :: host_api where
  "sample_host = \<lparr>unicode_digit = \<lambda>c. None, Base64_decode = \<lambda>s. Inl (Security 0), Base64_encode = \<lambda>b. [],
     generatePrivate = \<lambda>k. Inl (Security 0), doFinal_decrypt = \<lambda>k b. Inl (Security 0)\<rparr>"

theorem verifyRsaModPow_correct_witness:
  "nodeReqHandler sample_host (lit ''verifyRsaModPow'') (lit ''65,17,3233'') = Inr (lit ''2790'')"
proof -
  have "lit ''65,17,3233'' = dec_string 65 @ [44] @ dec_string 17 @ [44] @ dec_string 3233" "dec_string 2790 = lit ''2790''"
    by (simp_all add: dec_string_def digits.simps lit_def)
  then show ?thesis using verifyRsaModPow_correct [of 3233 17 sample_host 65] by simp
qed

text \<open>With a negative exponent the answer is a power of the inverse, or an exception when there is none.\<close>

lemma modPow_negative:
  assumes "e < 0" and "modPow b e m = Some r"
  shows "r * b ^ nat (- e) mod m = 1 mod m"
proof -
  obtain i where i: "modInverse b m = Some i" "r = i ^ nat (- e) mod m"
    using assms by (auto simp: modPow_def split: if_splits)
  have "r * b ^ nat (- e) mod m = (i * b) ^ nat (- e) mod m" by (simp add: i(2) mod_mult_left_eq power_mult_distrib)
  also have "\<dots> = (1 mod m) ^ nat (- e) mod m" using modInverse_inverts [OF i(1)] power_mod by metis
  finally show ?thesis by (simp add: power_mod)
qed

lemma nodeReqHandler_unknown:
  "name \<notin> {lit ''decryptRsaNoPadding'', lit ''verifyRsaModPow''} \<Longrightarrow> nodeReqHandler H name r = Inl (UnknownRequest name)"
  by (simp add: nodeReqHandler_def Let_def)

end
