(* ===== verification/NativeLib.thy ===== *)
theory NativeLib
  imports Bridge
begin

text \<open>
  The JNI layer, \<open>FlowCrypt/src/main/cpp/native-lib.cpp\<close>: the entry points the Kotlin class
  \<open>NativeNode\<close> declares, the callback that hands a message of Node.js to Java, the marshalling
  of the command line into one contiguous buffer, and the two threads that copy standard
  output and standard error to the Android log. JNI, the system calls and \<open>node::Start\<close> are
  parameters.
\<close>

section \<open>Types\<close>

type_synonym jstring = nat
type_synonym jobjectArray = nat
type_synonym jclass = nat
type_synonym jmethodID = nat
type_synonym JNIEnv = nat

text \<open>
  \<open>GetStringUTFChars\<close> yields the bytes of the string in modified UTF-8, without the
  terminating zero. A static Java method works on the whole state, since Java may call the
  native methods again.
\<close>

record 's jni_api =
  GetArrayLength :: "jobjectArray \<Rightarrow> nat"
  GetObjectArrayElement :: "jobjectArray \<Rightarrow> nat \<Rightarrow> jstring"
  GetStringUTFChars :: "jstring \<Rightarrow> byte list"
  NewStringUTF :: "byte list \<Rightarrow> jstring"
  FindClass :: "string \<Rightarrow> jclass option"
  GetStaticMethodID :: "jclass \<Rightarrow> string \<Rightarrow> string \<Rightarrow> jmethodID option"
  CallStaticVoidMethod :: "jclass \<Rightarrow> jmethodID \<Rightarrow> jstring \<Rightarrow> 's \<Rightarrow> 's"

datatype log_priority = ANDROID_LOG_INFO | ANDROID_LOG_ERROR

datatype thread_fn = Thread_stdout_func | Thread_stderr_func

text \<open>The system calls of \<open>start_redirecting_stdout_stderr\<close>, over the operating system's state.\<close>

record 'o sys_api =
  setvbuf_unbuffered :: "nat \<Rightarrow> 'o \<Rightarrow> 'o"
  sys_pipe :: "'o \<Rightarrow> (nat \<times> nat) \<times> 'o"
  dup2 :: "nat \<Rightarrow> nat \<Rightarrow> 'o \<Rightarrow> 'o"
  pthread_create :: "thread_fn \<Rightarrow> 'o \<Rightarrow> int \<times> nat \<times> 'o"
  pthread_detach :: "nat \<Rightarrow> 'o \<Rightarrow> 'o"

text \<open>
  The globals of the file beside those of the bridge. \<open>pinned\<close> lists the strings obtained by
  \<open>GetStringUTFChars\<close> and not released yet; \<open>logcat\<close> is what was written to the Android log.
\<close>

record ('l, 'js, 'o) native = "('l, 'js) bridge" +
  cacheEnvPointer :: "JNIEnv option"
  pipe_stdout :: "nat \<times> nat"
  pipe_stderr :: "nat \<times> nat"
  thread_stdout :: nat
  thread_stderr :: nat
  pinned :: "jstring list"
  logcat :: "(log_priority \<times> byte list) list"
  os :: 'o

section \<open>Messages\<close>

definition sendNativeMessageToNode ::
  "'s jni_api \<Rightarrow> 'l uv_api \<Rightarrow> jstring \<Rightarrow> ('l, 'js, 'o, 'z) native_scheme
   \<Rightarrow> ('l, 'js, 'o, 'z) native_scheme option" where
  "sendNativeMessageToNode J U msg st =
     (let nativeMessage = GetStringUTFChars J msg; st1 = st\<lparr>pinned := msg # pinned st\<rparr>
      in map_option (\<lambda>st2. st2\<lparr>pinned := remove1 msg (pinned st2)\<rparr>) (rn_bridge_notify U nativeMessage st1))"

text \<open>\<open>rcv_message\<close>: the argument is a C string, so \<open>NewStringUTF\<close> reads up to the first zero; it is taken to find memory for the string.\<close>

definition rcv_message ::
  "('l, 'js, 'o, 'z) native_scheme jni_api \<Rightarrow> byte list \<Rightarrow> ('l, 'js, 'o, 'z) native_scheme
   \<Rightarrow> ('l, 'js, 'o, 'z) native_scheme" where
  "rcv_message J msg st =
     (case cacheEnvPointer st of
        None \<Rightarrow> st
      | Some env \<Rightarrow>
          (case FindClass J ''com/flowcrypt/email/node/NativeNode'' of
             None \<Rightarrow> st
           | Some cls2 \<Rightarrow>
               (case GetStaticMethodID J cls2 ''receiveNativeMessageFromNode'' ''(Ljava/lang/String;)V'' of
                  None \<Rightarrow> st
                | Some m_sendMessage \<Rightarrow>
                    CallStaticVoidMethod J cls2 m_sendMessage
                      (NewStringUTF J (takeWhile (\<lambda>b. b \<noteq> 0) msg)) st)))"

definition stringFromJNI :: "'s jni_api \<Rightarrow> jstring" where
  "stringFromJNI J = NewStringUTF J [72, 101, 108, 108, 111, 32, 102, 114, 111, 109, 32, 67, 43, 43]"

section \<open>Redirection of the standard streams\<close>

text \<open>
  The loop of both thread functions. \<open>read_fd p n\<close> is the system call \<open>read\<close> on the pipe in
  state \<open>p\<close> for at most \<open>n\<close> bytes: its result and the bytes it stored. \<open>buf\<close> is the local
  array of 2048 bytes. The loop may run forever.
\<close>

partial_function (option) redirect_loop ::
  "('p \<Rightarrow> nat \<Rightarrow> int \<times> byte list \<times> 'p) \<Rightarrow> log_priority \<Rightarrow> byte list \<Rightarrow> 'p
   \<Rightarrow> (log_priority \<times> byte list) list \<Rightarrow> ('p \<times> (log_priority \<times> byte list) list) option" where
  "redirect_loop read_fd prio buf p log =
     (let (n, bytes, p') = read_fd p (length buf - 1)
      in if n \<le> 0 then Some (p', log)
         else let buf1 = bytes @ drop (length bytes) buf;
                  redirect_size = (if buf1 ! (nat n - 1) = 10 then nat n - 1 else nat n);
                  buf2 = buf1[redirect_size := 0]
              in Option.bind (c_string buf2 0)
                   (\<lambda>line. redirect_loop read_fd prio buf2 p' (log @ [(prio, line)])))"

definition thread_stdout_func ::
  "('p \<Rightarrow> nat \<Rightarrow> int \<times> byte list \<times> 'p) \<Rightarrow> byte list \<Rightarrow> 'p
   \<Rightarrow> (log_priority \<times> byte list) list \<Rightarrow> ('p \<times> (log_priority \<times> byte list) list) option" where
  "thread_stdout_func read_fd buf p log = redirect_loop read_fd ANDROID_LOG_INFO buf p log"

definition thread_stderr_func ::
  "('p \<Rightarrow> nat \<Rightarrow> int \<times> byte list \<times> 'p) \<Rightarrow> byte list \<Rightarrow> 'p
   \<Rightarrow> (log_priority \<times> byte list) list \<Rightarrow> ('p \<times> (log_priority \<times> byte list) list) option" where
  "thread_stderr_func read_fd buf p log = redirect_loop read_fd ANDROID_LOG_ERROR buf p log"

text \<open>\<open>STDOUT_FILENO\<close> is 1, \<open>STDERR_FILENO\<close> is 2.\<close>

definition start_redirecting_stdout_stderr ::
  "'o sys_api \<Rightarrow> ('l, 'js, 'o, 'z) native_scheme \<Rightarrow> int \<times> ('l, 'js, 'o, 'z) native_scheme" where
  "start_redirecting_stdout_stderr S st =
     (let o1 = setvbuf_unbuffered S 1 (os st);
          (po, o2) = sys_pipe S o1;
          o3 = dup2 S (snd po) 1 o2;
          o4 = setvbuf_unbuffered S 2 o3;
          (pe, o5) = sys_pipe S o4;
          o6 = dup2 S (snd pe) 2 o5;
          st1 = st\<lparr>pipe_stdout := po, pipe_stderr := pe\<rparr>;
          (r1, t1, o7) = pthread_create S Thread_stdout_func o6
      in if r1 = -1 then (-1, st1\<lparr>thread_stdout := t1, os := o7\<rparr>)
      else let o8 = pthread_detach S t1 o7;
               (r2, t2, o9) = pthread_create S Thread_stderr_func o8
      in if r2 = -1 then (-1, st1\<lparr>thread_stdout := t1, thread_stderr := t2, os := o9\<rparr>)
      else (0, st1\<lparr>thread_stdout := t1, thread_stderr := t2, os := pthread_detach S t2 o9\<rparr>))"

section \<open>Starting Node.js\<close>

text \<open>
  The size of the buffer. \<open>c_arguments_size += strlen(..)\<close> adds in \<open>size_t\<close> and converts back
  to \<open>int\<close>; \<open>c_arguments_size++\<close> is a signed increment.
\<close>

definition wrap_int :: "int \<Rightarrow> int" where
  "wrap_int x = sint (word_of_int x :: int32_t)"

fun args_size :: "byte list list \<Rightarrow> int \<Rightarrow> int option" where
  "args_size [] c_arguments_size = Some c_arguments_size"
| "args_size (arg # rest) c_arguments_size =
     Option.bind (int_add (wrap_int (c_arguments_size + int (length arg))) 1) (args_size rest)"

text \<open>The second loop: copy each argument to its position and record the position in \<open>argv\<close>.\<close>

fun populate_args :: "byte list list \<Rightarrow> byte list \<Rightarrow> nat \<Rightarrow> nat list \<Rightarrow> (byte list \<times> nat list) option" where
  "populate_args [] args_buffer pos argv = Some (args_buffer, argv)"
| "populate_args (arg # rest) args_buffer pos argv = do {
     buf \<leftarrow> strncpy args_buffer pos arg (int (length arg));
     n \<leftarrow> strlen buf pos;
     populate_args rest buf (pos + n + 1) (argv @ [pos])
   }"

definition marshal_args :: "byte list list \<Rightarrow> (byte list \<times> nat list) option" where
  "marshal_args args = do {
     c_arguments_size \<leftarrow> args_size args 0;
     args_buffer \<leftarrow> calloc c_arguments_size;
     populate_args args args_buffer 0 []
   }"

text \<open>
  \<open>startNodeWithArguments\<close>. Each loop calls \<open>GetStringUTFChars\<close> on every argument and none
  releases it. \<open>rcv\<close> is the address of \<open>rcv_message\<close>; \<open>node_start\<close> is \<open>node::Start\<close>, which
  \<open>callintoNode\<close> calls with \<open>argc\<close>, the buffer and the positions in it.
\<close>

definition callintoNode ::
  "(nat \<Rightarrow> byte list \<Rightarrow> nat list \<Rightarrow> 's \<Rightarrow> int \<times> 's) \<Rightarrow> nat \<Rightarrow> byte list \<Rightarrow> nat list \<Rightarrow> 's \<Rightarrow> int \<times> 's" where
  "callintoNode node_start argc buf argv st = node_start argc buf argv st"

definition couldnt_start :: "byte list" where
  "couldnt_start = map (of_nat \<circ> of_char)
     ''Couldn't start redirecting stdout and stderr to logcat.''"

definition startNodeWithArguments ::
  "'s jni_api \<Rightarrow> 'o sys_api \<Rightarrow> nat
   \<Rightarrow> (nat \<Rightarrow> byte list \<Rightarrow> nat list \<Rightarrow> ('l, 'js, 'o, 'z) native_scheme \<Rightarrow> int \<times> ('l, 'js, 'o, 'z) native_scheme)
   \<Rightarrow> JNIEnv \<Rightarrow> jobjectArray \<Rightarrow> ('l, 'js, 'o, 'z) native_scheme
   \<Rightarrow> (int \<times> ('l, 'js, 'o, 'z) native_scheme) option" where
  "startNodeWithArguments J S rcv node_start env arguments st =
     (let argument_count = GetArrayLength J arguments;
          strings = map (GetObjectArrayElement J arguments) [0..<argument_count];
          st1 = st\<lparr>pinned := strings @ strings @ pinned st\<rparr>
      in do {
        (args_buffer, argv) \<leftarrow> marshal_args (map (GetStringUTFChars J) strings);
        let (r, st2) = start_redirecting_stdout_stderr S st1;
        let st3 = (if r = -1 then st2\<lparr>logcat := logcat st2 @ [(ANDROID_LOG_ERROR, couldnt_start)]\<rparr> else st2);
        let st4 = rn_register_bridge_cb (Some rcv) st3;
        let st5 = st4\<lparr>cacheEnvPointer := Some env\<rparr>;
        Some (callintoNode node_start argument_count args_buffer argv st5)
      })"

section \<open>The argument buffer\<close>

lemma wrap_int_small: "0 \<le> x \<Longrightarrow> x < 2 ^ 31 \<Longrightarrow> wrap_int x = x"
  by (simp add: wrap_int_def signed_of_int signed_take_bit_int_eq_self)

abbreviation args_bytes :: "byte list list \<Rightarrow> byte list" where
  "args_bytes args \<equiv> concat (map (\<lambda>a. a @ [0]) args)"

lemma args_size_total:
  "0 \<le> c \<Longrightarrow> c + int (length (args_bytes args)) < 2 ^ 31 \<Longrightarrow>
   args_size args c = Some (c + int (length (args_bytes args)))"
proof (induction args arbitrary: c)
  case (Cons a args)
  then show ?case by (simp add: wrap_int_small int_add_def algebra_simps)
qed simp

text \<open>The positions of the arguments in the buffer.\<close>

fun arg_positions :: "byte list list \<Rightarrow> nat \<Rightarrow> nat list" where
  "arg_positions [] pos = []"
| "arg_positions (a # as) pos = pos # arg_positions as (pos + length a + 1)"

lemma length_arg_positions [simp]: "length (arg_positions args pos) = length args"
  by (induction args pos rule: arg_positions.induct) auto

lemma populate_args_total:
  assumes "\<forall>a \<in> set args. 0 \<notin> set a"
  shows "populate_args args (done @ replicate (length (args_bytes args)) 0) (length done) argv =
    Some (done @ args_bytes args, argv @ arg_positions args (length done))"
  using assms
proof (induction args arbitrary: "done" argv)
  case (Cons a args)
  let ?rest = "replicate (length (args_bytes args)) (0 :: byte)"
  have split: "replicate (length (args_bytes (a # args))) 0 = replicate (length a) 0 @ 0 # ?rest"
    by (simp add: replicate_add replicate_append_same)
  have nz: "0 \<notin> set a" using Cons.prems by simp
  have "c_string (done @ a @ 0 # ?rest) (length done) = Some a"
    by (rule c_string_at [OF nz refl])
  moreover have "strncpy (done @ replicate (length a) 0 @ 0 # ?rest) (length done) a (int (length a)) =
      Some (done @ a @ 0 # ?rest)"
    by (rule strncpy_exact) simp
  ultimately show ?case
    using Cons.IH [of "done @ a @ [0]" "argv @ [length done]"] Cons.prems
    unfolding split by (simp add: strlen_def)
qed simp

lemma c_string_arg_positions:
  assumes "\<forall>a \<in> set args. 0 \<notin> set a" and "i < length args"
  shows "c_string (done @ args_bytes args) (arg_positions args (length done) ! i) = Some (args ! i)"
  using assms
proof (induction args arbitrary: "done" i)
  case (Cons a args)
  show ?case
  proof (cases i)
    case 0
    then show ?thesis using Cons.prems c_string_at [of a "done" "length done"] by simp
  next
    case (Suc k)
    then show ?thesis using Cons.IH [of k "done @ a @ [0]"] Cons.prems by simp
  qed
qed simp

lemma marshal_args_total:
  assumes "\<forall>a \<in> set args. 0 \<notin> set a" and "length (args_bytes args) < 2 ^ 31"
  shows "marshal_args args = Some (args_bytes args, arg_positions args 0)"
  using args_size_total [of 0 args] populate_args_total [OF assms(1), of "[]" "[]"] assms(2)
  by (simp add: marshal_args_def calloc_def)

text \<open>
  C26. For arguments without zero bytes whose total size fits an \<open>int\<close>, the marshalling has no
  access outside the buffer, the buffer is exactly the terminated arguments one after the
  other, and \<open>argv[i]\<close> reads back as argument \<open>i\<close>.
\<close>

theorem marshal_args_roundtrip:
  assumes "\<forall>a \<in> set args. 0 \<notin> set a" and "length (args_bytes args) < 2 ^ 31"
  shows "\<exists>argv. marshal_args args = Some (args_bytes args, argv) \<and> length argv = length args \<and>
           (\<forall>i < length args. c_string (args_bytes args) (argv ! i) = Some (args ! i))"
  using marshal_args_total [OF assms] c_string_arg_positions [OF assms(1), of _ "[]"] by simp

text \<open>
  The size is computed in an \<open>int\<close>: a single argument of \<open>2\<^sup>3\<^sup>1 - 1\<close> to \<open>2\<^sup>3\<^sup>2 - 2\<close>
  bytes overflows it, and the marshalling is undefined.
\<close>

theorem marshal_args_overflow:
  assumes "2 ^ 31 - 1 \<le> length arg" and "length arg < 2 ^ 32 - 1"
  shows "marshal_args [arg] = None"
proof (cases "length arg = 2 ^ 31 - 1")
  case True
  then have "int_add (wrap_int (int (length arg))) 1 = None"
    by (simp add: wrap_int_small int_add_def)
  then show ?thesis by (simp add: marshal_args_def)
next
  case False
  let ?n = "int (length arg)"
  have range: "2 ^ 31 \<le> ?n" "?n < 2 ^ 32 - 1" using assms False by auto
  have "(?n + 2147483648) mod 4294967296 = ((?n - 2147483648) + 4294967296) mod 4294967296"
    by (simp add: algebra_simps)
  also have "\<dots> = ?n - 2147483648"
    using range by (subst mod_add_self2) (rule mod_pos_pos_trivial, auto)
  finally have "wrap_int ?n = ?n - 2 ^ 32"
    by (simp add: wrap_int_def signed_of_nat signed_take_bit_eq_take_bit_shift take_bit_eq_mod)
  then show ?thesis
    using range by (simp add: marshal_args_def int_add_def calloc_def)
qed

section \<open>Messages through JNI\<close>

lemma rn_bridge_notify_pinned:
  fixes st :: "('l, 'js, 'o, 'z) native_scheme"
  shows "rn_bridge_notify U m st = Some st' \<Longrightarrow> pinned st' = pinned st"
  by (auto simp: rn_bridge_notify_def wake_queue_def push_message_def Let_def split: option.splits)

text \<open>
  \<open>sendNativeMessageToNode\<close> queues the bytes of the Java string, wakes the loop, keeps the
  bridge's invariant, and releases the string it pinned.
\<close>

theorem sendNativeMessageToNode_queues:
  fixes st :: "('l, 'js, 'o, 'z) native_scheme"
  assumes "bridge_ok st" and "length (GetStringUTFChars J msg) < 2 ^ 31 - 1"
    and "0 \<notin> set (GetStringUTFChars J msg)"
  shows "\<exists>st'. sendNativeMessageToNode J U msg st = Some st' \<and> bridge_ok st' \<and> pinned st' = pinned st \<and>
           messageQueue st' = messageQueue st @ [next_addr st] \<and>
           Option.bind (cstrs st' (next_addr st)) (\<lambda>b. c_string b 0) = Some (GetStringUTFChars J msg)"
proof -
  let ?st = "st\<lparr>pinned := msg # pinned st\<rparr>"
  let ?m = "GetStringUTFChars J msg"
  have "bridge_ok ?st" using assms(1) by (simp add: bridge_ok_def)
  moreover define st1 where "st1 = wake_queue U (push_message (?m @ [0]) ?st)"
  ultimately have run: "rn_bridge_notify U ?m ?st = Some st1" and ok: "bridge_ok st1"
    using assms(2,3) by (simp_all add: rn_bridge_notify_def copy_message_small bridge_ok_push)
  have "bridge_ok (st1\<lparr>pinned := pinned st\<rparr>)" using ok by (simp add: bridge_ok_def)
  moreover have "messageQueue st1 = messageQueue st @ [next_addr st]"
    "cstrs st1 (next_addr st) = Some (?m @ [0])"
    by (simp_all add: st1_def wake_queue_def push_message_def Let_def split: option.split)
  ultimately show ?thesis
    using run rn_bridge_notify_pinned [OF run] assms(3)
    by (simp add: sendNativeMessageToNode_def)
qed

text \<open>
  \<open>startNodeWithArguments\<close> pins every argument twice and releases none of them: when
  Node.js returns (and itself leaves JNI alone), \<open>2 * argc\<close> strings are still pinned.
\<close>

theorem startNodeWithArguments_leaks:
  assumes "startNodeWithArguments J S rcv node_start env arguments st = Some (r, st')"
    and "\<And>argc buf argv s. pinned (snd (node_start argc buf argv s)) = pinned s"
  shows "length (pinned st') = length (pinned st) + 2 * GetArrayLength J arguments"
proof -
  have "pinned (snd (start_redirecting_stdout_stderr S s)) = pinned s" for s :: "('a, 'b, 'c, 'd) native_scheme"
    by (simp add: start_redirecting_stdout_stderr_def Let_def split: prod.split)
  note redirect = this
  obtain args_buffer argv where m: "marshal_args (map (GetStringUTFChars J)
      (map (GetObjectArrayElement J arguments) [0..<GetArrayLength J arguments])) = Some (args_buffer, argv)"
    using assms(1) by (auto simp: startNodeWithArguments_def Let_def dest!: bind_eq_SomeD)
  show ?thesis
    using assms(1) redirect [of "st\<lparr>pinned := map (GetObjectArrayElement J arguments) [0..<GetArrayLength J arguments] @
          map (GetObjectArrayElement J arguments) [0..<GetArrayLength J arguments] @ pinned st\<rparr>"]
      assms(2) [of "GetArrayLength J arguments" args_buffer argv]
    unfolding startNodeWithArguments_def m Let_def
    by (auto simp: callintoNode_def rn_register_bridge_cb_def split: prod.splits if_splits
        dest!: arg_cong [of _ _ snd])
qed

text \<open>
  A failure to create the redirection threads is never reported: \<open>pthread_create\<close> returns
  zero or a positive error number, and the code compares it with \<open>-1\<close>. It goes on to detach
  the thread that was not created.
\<close>

theorem redirect_failure_unreported:
  assumes "\<And>f s. 0 \<le> fst (pthread_create S f s)"
  shows "fst (start_redirecting_stdout_stderr S st) = 0"
proof -
  have "pthread_create S f s = (r, t, s') \<Longrightarrow> r \<noteq> -1" for f s r t s'
    using assms [of f s] by auto
  then show ?thesis
    by (auto simp: start_redirecting_stdout_stderr_def Let_def split: prod.split)
qed

section \<open>The log threads\<close>

text \<open>The line the log receives for a chunk that \<open>read\<close> returned.\<close>

definition log_line :: "byte list \<Rightarrow> byte list" where
  "log_line chunk = takeWhile (\<lambda>b. b \<noteq> 0) (if last chunk = 10 then butlast chunk else chunk)"

text \<open>\<open>feeds read_fd p cs p'\<close>: from \<open>p\<close> the calls of \<open>read\<close> return the chunks \<open>cs\<close> and then the end.\<close>

fun feeds :: "('p \<Rightarrow> nat \<Rightarrow> int \<times> byte list \<times> 'p) \<Rightarrow> 'p \<Rightarrow> byte list list \<Rightarrow> 'p \<Rightarrow> bool" where
  "feeds read_fd p [] p' = (\<exists>n bs. read_fd p 2047 = (n, bs, p') \<and> n \<le> 0)"
| "feeds read_fd p (c # cs) p' =
     (\<exists>q. read_fd p 2047 = (int (length c), c, q) \<and> 1 \<le> length c \<and> length c \<le> 2047 \<and> feeds read_fd q cs p')"

lemma redirect_line:
  assumes "1 \<le> length c" "length c \<le> 2047" "length buf = 2048"
    and "buf1 = c @ drop (length c) buf"
    and "k = (if buf1 ! (length c - 1) = 10 then length c - 1 else length c)"
  shows "c_string (buf1[k := 0]) 0 = Some (log_line c)" and "length (buf1[k := 0]) = 2048"
proof -
  have "buf1 ! (length c - 1) = last c"
    using assms(1,4) by (cases c) (auto simp: nth_append last_conv_nth)
  then have k: "take k buf1 = (if last c = 10 then butlast c else c)" "k < length buf1"
    using assms by (auto simp: butlast_conv_take)
  then have "buf1[k := 0] = take k buf1 @ 0 # drop (Suc k) buf1"
    by (simp add: upd_conv_take_nth_drop)
  then have "takeWhile (\<lambda>b. b \<noteq> 0) (buf1[k := 0]) = takeWhile (\<lambda>b. b \<noteq> 0) (take k buf1)" "0 \<in> set (buf1[k := 0])"
    by (auto simp: takeWhile_stop)
  then show "c_string (buf1[k := 0]) 0 = Some (log_line c)"
    by (simp add: c_string_def log_line_def k)
  show "length (buf1[k := 0]) = 2048" using assms by simp
qed

lemma redirect_loop_feeds:
  "feeds read_fd p cs p' \<Longrightarrow> length buf = 2048 \<Longrightarrow>
   redirect_loop read_fd prio buf p log = Some (p', log @ map (\<lambda>c. (prio, log_line c)) cs)"
proof (induction cs arbitrary: p buf log)
  case Nil
  then show ?case by (subst redirect_loop.simps) auto
next
  case (Cons c cs)
  then obtain q where q: "read_fd p 2047 = (int (length c), c, q)" "1 \<le> length c" "length c \<le> 2047"
    "feeds read_fd q cs p'" by auto
  define buf1 where "buf1 = c @ drop (length c) buf"
  define k where "k = (if buf1 ! (length c - 1) = 10 then length c - 1 else length c)"
  note line = redirect_line [OF q(2,3) Cons.prems(2) buf1_def k_def]
  have "c \<noteq> []" using q(2) by auto
  then have "redirect_loop read_fd prio buf p log =
      Option.bind (c_string (buf1[k := 0]) 0)
        (\<lambda>line. redirect_loop read_fd prio (buf1[k := 0]) q (log @ [(prio, line)]))"
    by (subst redirect_loop.simps) (simp add: q Cons.prems(2) Let_def buf1_def k_def)
  then have "redirect_loop read_fd prio buf p log = redirect_loop read_fd prio (buf1[k := 0]) q (log @ [(prio, log_line c)])"
    using line(1) by simp
  then show ?case using Cons.IH [OF q(4) line(2)] by simp
qed

text \<open>
  The log threads never write outside their 2048-byte array: for every sequence of chunks
  of at most 2047 bytes, the thread ends with the pipe and has written one line per chunk, the
  chunk without its final newline, cut at the first zero byte.
\<close>

theorem thread_stderr_func_logs:
  assumes "feeds read_fd p cs p'" and "length buf = 2048"
  shows "thread_stderr_func read_fd buf p log = Some (p', log @ map (\<lambda>c. (ANDROID_LOG_ERROR, log_line c)) cs)
    \<and> thread_stdout_func read_fd buf p log = Some (p', log @ map (\<lambda>c. (ANDROID_LOG_INFO, log_line c)) cs)"
  using redirect_loop_feeds [OF assms] by (simp add: thread_stderr_func_def thread_stdout_func_def)

section \<open>From JavaScript to Java\<close>

text \<open>
  C33. \<open>sendMessage\<close> called from JavaScript, with the callback \<open>startNodeWithArguments\<close>
  registers, ends in one call of \<open>NativeNode.receiveNativeMessageFromNode\<close> with the string
  made of the message's bytes up to its first zero byte.
\<close>

theorem js_message_reaches_java:
  assumes "napi_get_cb_info N env info 1 (js st) = (napi_ok, (1, v), j1)"
    and "napi_typeof N env v j1 = (napi_ok, napi_string, j2)"
    and "napi_get_value_string_utf8 N env v None j2 = (napi_ok, ([], length body), j2)"
    and "napi_get_value_string_utf8 N env v (Some (length body + 1)) j2 = (napi_ok, (body, length body), j2)"
    and "embedder_callback st = Some rcv" and "call_embedder N rcv = rcv_message J"
    and "cacheEnvPointer st = Some jenv"
    and "FindClass J ''com/flowcrypt/email/node/NativeNode'' = Some cls"
    and "GetStaticMethodID J cls ''receiveNativeMessageFromNode'' ''(Ljava/lang/String;)V'' = Some mid"
  shows "Method_SendMessage N env info st =
    (None, CallStaticVoidMethod J cls mid (NewStringUTF J (takeWhile (\<lambda>b. b \<noteq> 0) body)) (st\<lparr>js := j2\<rparr>))"
  using assms
  by (simp add: Method_SendMessage_def send_string_def Let_def rcv_message_def)

section \<open>Concrete instances\<close>

definition native0 :: "(uv_call list, log_js, thread_fn list) native" where
  "native0 =
     \<lparr>pool = [], my_little_pool_incrementer = 1, embedder_callback = None, messageQueue = [],
      queue_uv_handle = None, cstrs = Map.empty, asyncs = Map.empty, next_addr = 1, uv = [],
      js = \<lparr>strs = [[104, 105, 0, 33]], calls = [], thrown = []\<rparr>,
      cacheEnvPointer = None, pipe_stdout = (0, 0), pipe_stderr = (0, 0), thread_stdout = 0,
      thread_stderr = 0, pinned = [], logcat = [], os = []\<rparr>"

lemma native0_ok: "bridge_ok native0"
  by (simp add: bridge_ok_def pool_ok_def heap_ok_def native0_def)

text \<open>A Java side that writes what it receives to the log.\<close>

definition log_jni :: "(uv_call list, log_js, thread_fn list) native jni_api" where
  "log_jni =
     \<lparr>GetArrayLength = \<lambda>a. 2, GetObjectArrayElement = \<lambda>a i. i, GetStringUTFChars = \<lambda>s. [104, 105],
      NewStringUTF = \<lambda>bs. length bs, FindClass = \<lambda>n. Some 3, GetStaticMethodID = \<lambda>c n s. Some 4,
      CallStaticVoidMethod = \<lambda>c m s st. st\<lparr>logcat := logcat st @ [(ANDROID_LOG_INFO, [of_nat s])]\<rparr>\<rparr>"

text \<open>An operating system in which no thread can be created (\<open>EAGAIN\<close> is 11).\<close>

definition failing_sys :: "thread_fn list sys_api" where
  "failing_sys =
     \<lparr>setvbuf_unbuffered = \<lambda>n s. s, sys_pipe = \<lambda>s. ((5, 6), s), dup2 = \<lambda>a b s. s,
      pthread_create = \<lambda>f s. (11, 0, s), pthread_detach = \<lambda>t s. s\<rparr>"

theorem marshal_args_roundtrip_witness:
  "\<exists>argv. marshal_args [[110], [45, 101]] = Some ([110, 0, 45, 101, 0], argv) \<and>
     c_string [110, 0, 45, 101, 0] (argv ! 1) = Some [45, 101]"
  using marshal_args_roundtrip [of "[[110], [45, 101]]"] by auto

theorem marshal_args_overflow_witness: "marshal_args [replicate 2147483648 1] = None"
  by (rule marshal_args_overflow) (simp_all only: length_replicate, simp_all)

theorem sendNativeMessageToNode_queues_witness:
  "\<exists>st'. sendNativeMessageToNode log_jni log_uv 9 native0 = Some st' \<and> pinned st' = [] \<and>
     messageQueue st' = [1] \<and> Option.bind (cstrs st' 1) (\<lambda>b. c_string b 0) = Some [104, 105]"
  using sendNativeMessageToNode_queues [OF native0_ok, of log_jni 9 log_uv]
  by (auto simp: log_jni_def native0_def)

theorem startNodeWithArguments_leaks_witness:
  "\<exists>r st'. startNodeWithArguments log_jni failing_sys 5 (\<lambda>argc buf argv s. (0, s)) 7 8 native0 = Some (r, st') \<and>
     length (pinned st') = 4"
proof -
  let ?run = "startNodeWithArguments log_jni failing_sys 5 (\<lambda>argc buf argv s. (0, s)) 7 8 native0"
  have "map (GetStringUTFChars log_jni) (map (GetObjectArrayElement log_jni 8) [0..<GetArrayLength log_jni 8]) =
      [[104, 105], [104, 105]]"
    by (simp add: log_jni_def upt_rec)
  then have "?run \<noteq> None"
    using marshal_args_total [of "[[104, 105], [104, 105]]"]
    by (simp add: startNodeWithArguments_def Let_def split: prod.split)
  then obtain r st' where run: "?run = Some (r, st')" by auto
  from startNodeWithArguments_leaks [OF run] run show ?thesis
    by (auto simp: log_jni_def native0_def)
qed

theorem redirect_failure_unreported_witness:
  "fst (start_redirecting_stdout_stderr failing_sys native0) = 0"
  by (rule redirect_failure_unreported) (simp add: failing_sys_def)

theorem thread_stderr_func_logs_witness:
  "thread_stderr_func (\<lambda>p n. case p of [] \<Rightarrow> (0, [], []) | c # q \<Rightarrow> (int (length c), c, q))
     (replicate 2048 0) [[104, 105, 10], [33]] [] =
   Some ([], [(ANDROID_LOG_ERROR, [104, 105]), (ANDROID_LOG_ERROR, [33])])"
proof -
  let ?read = "\<lambda>(p :: byte list list) (n :: nat). case p of [] \<Rightarrow> (0, [], []) | c # q \<Rightarrow> (int (length c), c, q)"
  have "feeds ?read [[104, 105, 10], [33]] [[104, 105, 10], [33]] []" by simp
  from thread_stderr_func_logs [OF this, of "replicate 2048 0" "[]"] show ?thesis
    by (simp add: log_line_def)
qed

theorem js_message_reaches_java_witness:
  "\<exists>st'. Method_SendMessage (log_napi\<lparr>call_embedder := \<lambda>a. rcv_message log_jni\<rparr>) 0 0
     (native0\<lparr>embedder_callback := Some 5, cacheEnvPointer := Some 7\<rparr>) = (None, st') \<and>
     logcat st' = [(ANDROID_LOG_INFO, [2])]"
proof -
  let ?N = "log_napi\<lparr>call_embedder := \<lambda>a. rcv_message log_jni\<rparr>"
  let ?st = "native0\<lparr>embedder_callback := Some 5, cacheEnvPointer := Some 7\<rparr>"
  let ?j = "\<lparr>strs = [[104, 105, 0, 33]], calls = [], thrown = []\<rparr>"
  have "Method_SendMessage ?N 0 0 ?st =
      (None, CallStaticVoidMethod log_jni 3 4 (NewStringUTF log_jni (takeWhile (\<lambda>b. b \<noteq> 0) [104, 105, 0, 33])) (?st\<lparr>js := ?j\<rparr>))"
    by (rule js_message_reaches_java [where v = 0 and ?j1.0 = ?j and rcv = 5 and jenv = 7])
       (simp_all add: log_napi_def native0_def log_jni_def)
  then show ?thesis by (simp add: log_jni_def native0_def)
qed

end
