(* ===== verification/EndToEnd.thy ===== *)
theory EndToEnd
  imports Utf8 NativeLib
begin

text \<open>
  The bridge and the JNI layer together: a message from Java to the JavaScript listeners and back, on the one state the two
  C++ files share, and what the different string encodings of JNI and the N-API do to it.
\<close>

section \<open>From Java to the listeners\<close>

lemma wake_queue_frame:
  fixes st :: "('l, 'js, 'o, 'z) native_scheme"
  shows "messageQueue (wake_queue U st) = messageQueue st" "pool (wake_queue U st) = pool st"
    "embedder_callback (wake_queue U st) = embedder_callback st" "cstrs (wake_queue U st) = cstrs st"
    "asyncs (wake_queue U st) = asyncs st" "next_addr (wake_queue U st) = next_addr st"
    "js (wake_queue U st) = js st" "cacheEnvPointer (wake_queue U st) = cacheEnvPointer st"
    "pinned (wake_queue U st) = pinned st" "queue_uv_handle (wake_queue U st) = queue_uv_handle st"
    "my_little_pool_incrementer (wake_queue U st) = my_little_pool_incrementer st"
  by (simp_all add: wake_queue_def split: option.split)

lemma bridge_ok_pinned [simp]: "bridge_ok (st\<lparr>pinned := ps\<rparr>) = bridge_ok st"
  by (simp add: bridge_ok_def)

text \<open>What a Java message has become when the loop has moved it into a handle.\<close>

lemma send_flush:
  fixes st :: "('l, 'js, 'o, 'z) native_scheme"
  assumes ok: "bridge_ok st" and empty: "messageQueue st = []"
    and m: "length (GetStringUTFChars J msg) < 2 ^ 31 - 1" "0 \<notin> set (GetStringUTFChars J msg)"
  obtains st1 st2 where "sendNativeMessageToNode J U msg st = Some st1" "flushMessageQueue U st1 = Some st2"
    "bridge_ok st2" "messageQueue st2 = []" "next_addr st1 = Suc (next_addr st)"
    "cstrs st2 = (cstrs st)(next_addr st \<mapsto> GetStringUTFChars J msg @ [0])"
    "asyncs st2 = (asyncs st)(Suc (next_addr st) \<mapsto> Some (next_addr st))"
    "pool st2 = pool st" "embedder_callback st2 = embedder_callback st" "js st2 = js st"
    "cacheEnvPointer st2 = cacheEnvPointer st" "pinned st2 = pinned st"
    "my_little_pool_incrementer st2 = my_little_pool_incrementer st"
proof -
  let ?m = "GetStringUTFChars J msg" and ?st = "st\<lparr>pinned := msg # pinned st\<rparr>"
  define st1 where "st1 = (wake_queue U (push_message (?m @ [0]) ?st))\<lparr>pinned := pinned st\<rparr>"
  define st2 where "st2 = post_message U (next_addr st) (st1\<lparr>messageQueue := []\<rparr>)"
  have ok1: "bridge_ok st1" using bridge_ok_push [of ?st ?m] ok m(2) by (simp add: st1_def)
  have send: "sendNativeMessageToNode J U msg st = Some st1"
    using m(1) unfolding sendNativeMessageToNode_def st1_def
    by (simp add: Let_def rn_bridge_notify_def copy_message_small wake_queue_frame push_message_def)
  have 1: "messageQueue st1 = [next_addr st]" "cstrs st1 = (cstrs st)(next_addr st \<mapsto> ?m @ [0])"
    "asyncs st1 = asyncs st" "next_addr st1 = Suc (next_addr st)" "pool st1 = pool st" "js st1 = js st"
    "embedder_callback st1 = embedder_callback st" "cacheEnvPointer st1 = cacheEnvPointer st" "pinned st1 = pinned st"
    "my_little_pool_incrementer st1 = my_little_pool_incrementer st"
    using empty unfolding st1_def push_message_def Let_def by (simp_all add: wake_queue_frame)
  have flush: "flushMessageQueue U st1 = Some st2" "bridge_ok st2"
    using ok1 1(1) flush_loop_fold [of U st1] by (simp_all add: flushMessageQueue_def st2_def bridge_ok_post)
  have "cacheEnvPointer st2 = cacheEnvPointer st" "pinned st2 = pinned st"
    unfolding st2_def post_message_def Let_def by (simp_all add: 1)
  then show thesis by (intro that [OF send flush]) (simp_all add: st2_def 1)
qed

lemma java_message_delivered:
  fixes st :: "('l, 'js, 'o, 'z) native_scheme"
  assumes ok: "bridge_ok st" and empty: "messageQueue st = []"
    and m: "length (GetStringUTFChars J msg) < 2 ^ 31 - 1" "0 \<notin> set (GetStringUTFChars J msg)"
    and N: "js_through_bridge U N"
  shows "\<exists>st1 st2 st3 st4. sendNativeMessageToNode J U msg st = Some st1 \<and> flushMessageQueue U st1 = Some st2 \<and>
    pinned st2 = pinned st \<and> js st2 = js st \<and> pool st2 = pool st \<and>
    doRegisteredCallbacks U N (next_addr st1) st2 = Some st3 \<and>
    st3 = (let s = fold (deliver N (GetStringUTFChars J msg)) (map snd (pool st)) st2
           in s\<lparr>uv := uv_close U (next_addr st1) (uv s)\<rparr>) \<and>
    close_cb (next_addr st1) st3 = Some st4 \<and>
    st4 = st3\<lparr>cstrs := (cstrs st3)(next_addr st := None), asyncs := (asyncs st3)(next_addr st1 := None)\<rparr> \<and>
    cstrs st \<subseteq>\<^sub>m cstrs st4 \<and> asyncs st \<subseteq>\<^sub>m asyncs st4 \<and> bridge_ok st4"
proof -
  let ?a = "next_addr st" and ?m = "GetStringUTFChars J msg"
  obtain st1 st2 where run: "sendNativeMessageToNode J U msg st = Some st1" "flushMessageQueue U st1 = Some st2"
    and st2: "bridge_ok st2" "next_addr st1 = Suc ?a" "cstrs st2 = (cstrs st)(?a \<mapsto> ?m @ [0])"
      "asyncs st2 = (asyncs st)(Suc ?a \<mapsto> Some ?a)" "pool st2 = pool st" "js st2 = js st" "pinned st2 = pinned st"
    using send_flush [OF ok empty m, of U] by metis
  have heap: "heap_ok (messageQueue st) (cstrs st) (asyncs st) ?a (queue_uv_handle st)"
    using ok by (simp add: bridge_ok_def)
  then have fresh: "cstrs st ?a = None" "asyncs st (Suc ?a) = None"
    using heap_ok_fresh(1) [OF heap] unfolding heap_ok_def
    by (auto, metis Suc_n_not_le_n domI nat_less_le option.exhaust)
  have h: "asyncs st2 (Suc ?a) = Some (Some ?a)" and p: "cstrs st2 ?a = Some (?m @ [0])" by (simp_all add: st2)
  note delivery = delivery_through_bridge [OF N st2(1) h p m(2), unfolded st2(5)]
  have old: "cstrs st \<subseteq>\<^sub>m (f(?a := None))" if "cstrs st2 \<subseteq>\<^sub>m f" for f
    using that fresh(1) unfolding st2(3) map_le_def by (metis (no_types, lifting) domIff fun_upd_apply)
  have old': "asyncs st \<subseteq>\<^sub>m (f(Suc ?a := None))" if "asyncs st2 \<subseteq>\<^sub>m f" for f
    using that fresh(2) unfolding st2(4) map_le_def by (metis (no_types, lifting) domIff fun_upd_apply)
  show ?thesis
    using run st2(2,5-7) delivery(1,5,6) old [OF delivery(3)] old' [OF delivery(4)] by (simp add: Let_def)
qed

text \<open>
  C4. From Java to JavaScript. In every state that satisfies the bridge's invariant and has an empty queue, a message that Java
  sends, then flushed by the loop thread, is handed to each registered listener once, in the order of registration,
  with exactly the bytes JNI gave for the string; the state after the delivery is that of these calls alone and of
  \<open>uv_close\<close>; then the close callback frees the two blocks of the message and nothing else, every block there was
  before is still there, and the invariant holds again. The listeners may register others, send messages and have Java
  send some back; what is assumed of them is that they reach the globals of the bridge only in these ways
  (\<open>js_through_bridge\<close>). The string is pinned no longer once it is queued.
\<close>

theorem java_message_reaches_listeners:
  fixes st :: "('l, 'js, 'o, 'z) native_scheme"
  assumes ok: "bridge_ok st" and empty: "messageQueue st = []"
    and m: "length (GetStringUTFChars J msg) < 2 ^ 31 - 1" "0 \<notin> set (GetStringUTFChars J msg)"
    and N: "js_through_bridge U N"
  shows "\<exists>st1 st2 st3 st4. sendNativeMessageToNode J U msg st = Some st1 \<and> flushMessageQueue U st1 = Some st2 \<and>
    pinned st2 = pinned st \<and> js st2 = js st \<and> pool st2 = pool st \<and>
    doRegisteredCallbacks U N (next_addr st1) st2 = Some st3 \<and>
    st3 = (let s = fold (deliver N (GetStringUTFChars J msg)) (map snd (pool st)) st2
           in s\<lparr>uv := uv_close U (next_addr st1) (uv s)\<rparr>) \<and>
    close_cb (next_addr st1) st3 = Some st4 \<and>
    st4 = st3\<lparr>cstrs := (cstrs st3)(next_addr st := None), asyncs := (asyncs st3)(next_addr st1 := None)\<rparr> \<and>
    cstrs st \<subseteq>\<^sub>m cstrs st4 \<and> asyncs st \<subseteq>\<^sub>m asyncs st4 \<and> bridge_ok st4"
  using java_message_delivered [OF assms] .

section \<open>There and back\<close>

text \<open>
  What is documented of strings. JNI converts between Java strings, lists of 16-bit units \<open>chars s\<close>, and modified UTF-8. The
  N-API makes a string of valid UTF-8, a value of type \<open>napi_string\<close> that reads back as the same bytes.
\<close>

definition jni_strings :: "'s jni_api \<Rightarrow> (jstring \<Rightarrow> jchar list) \<Rightarrow> bool" where
  "jni_strings J chars \<longleftrightarrow>
     (\<forall>s. GetStringUTFChars J s = modified_utf8 (chars s)) \<and> (\<forall>w. chars (NewStringUTF J (modified_utf8 w)) = w)"

definition napi_strings :: "('js, 's) napi_api \<Rightarrow> bool" where
  "napi_strings N \<longleftrightarrow> (\<forall>env text j v j'. valid_utf8 text \<longrightarrow> napi_create_string_utf8 N env text j = (v, j') \<longrightarrow>
     napi_typeof N env v j' = (napi_ok, napi_string, j') \<and>
     napi_get_value_string_utf8 N env v None j' = (napi_ok, ([], length text), j') \<and>
     napi_get_value_string_utf8 N env v (Some (length text + 1)) j' = (napi_ok, (text, length text), j'))"

text \<open>A JavaScript function that passes its argument to \<open>sendMessage\<close>.\<close>

definition echo_function :: "('js, ('l, 'js, 'z) bridge_scheme) napi_api \<Rightarrow> napi_value \<Rightarrow> bool" where
  "echo_function N f \<longleftrightarrow> (\<forall>env g v st. \<exists>info. napi_get_cb_info N env info 1 (js st) = (napi_ok, (1, v), js st) \<and>
     napi_call_function N env g f [v] st = snd (Method_SendMessage N env info st))"

text \<open>The state in which \<open>startNodeWithArguments\<close> runs Node, and what JNI finds there.\<close>

definition java_attached ::
  "('js, ('l, 'js, 'o, 'z) native_scheme) napi_api \<Rightarrow> ('l, 'js, 'o, 'z) native_scheme jni_api
   \<Rightarrow> jclass \<Rightarrow> jmethodID \<Rightarrow> ('l, 'js, 'o, 'z) native_scheme \<Rightarrow> bool" where
  "java_attached N J cls mid st \<longleftrightarrow>
     (\<exists>rcv. embedder_callback st = Some rcv \<and> call_embedder N rcv = rcv_message J) \<and> cacheEnvPointer st \<noteq> None \<and>
     FindClass J ''com/flowcrypt/email/node/NativeNode'' = Some cls \<and>
     GetStaticMethodID J cls ''receiveNativeMessageFromNode'' ''(Ljava/lang/String;)V'' = Some mid"

lemma echo_to_java:
  assumes "java_attached N J cls mid st" and "napi_strings N" and "echo_function N f"
    and "valid_utf8 body" and "0 \<notin> set body" and "napi_create_string_utf8 N env body j = (v, j')"
  shows "napi_call_function N env g f [v] (st\<lparr>js := j'\<rparr>) =
    CallStaticVoidMethod J cls mid (NewStringUTF J body) (st\<lparr>js := j'\<rparr>)"
proof -
  obtain rcv e where rcv: "embedder_callback st = Some rcv" "call_embedder N rcv = rcv_message J"
      "cacheEnvPointer st = Some e" "FindClass J ''com/flowcrypt/email/node/NativeNode'' = Some cls"
      "GetStaticMethodID J cls ''receiveNativeMessageFromNode'' ''(Ljava/lang/String;)V'' = Some mid"
    using assms(1) by (auto simp: java_attached_def)
  obtain info where info: "napi_get_cb_info N env info 1 j' = (napi_ok, (1, v), j')"
      "napi_call_function N env g f [v] (st\<lparr>js := j'\<rparr>) = snd (Method_SendMessage N env info (st\<lparr>js := j'\<rparr>))"
    using assms(3) [unfolded echo_function_def, rule_format, of env "st\<lparr>js := j'\<rparr>" v g] by auto
  have "napi_typeof N env v j' = (napi_ok, napi_string, j')"
    "napi_get_value_string_utf8 N env v None j' = (napi_ok, ([], length body), j')"
    "napi_get_value_string_utf8 N env v (Some (Suc (length body))) j' = (napi_ok, (body, length body), j')"
    using assms(2,4,6) unfolding napi_strings_def by (metis Suc_eq_plus1)+
  moreover have same: "takeWhile (\<lambda>b. b \<noteq> 0) body = body" unfolding takeWhile_eq_all_conv using assms(5) by blast
  ultimately show ?thesis
    using rcv info by (simp add: Method_SendMessage_def send_string_def Let_def rcv_message_def same)
qed

text \<open>
  C5. There and back. With one listener that answers every message with the message itself, a Java string without zero and
  surrogate units that Java sends is flushed, delivered, sent back and handed to
  \<open>receiveNativeMessageFromNode\<close> as a string with the same characters.
\<close>

theorem echo_roundtrip:
  fixes st :: "('l, 'js, 'o, 'z) native_scheme"
  assumes "bridge_ok st" and "messageQueue st = []" and "pool st = [(i, qf)]" and "java_attached N J cls mid st"
    and "jni_strings J chars" and "napi_strings N" and "echo_function N f"
    and "\<forall>j. fst (napi_get_reference_value N (qf_env qf) (qf_function qf) j) = f"
    and "\<forall>c \<in> set (chars msg). plain (unat c)" and "length (modified_utf8 (chars msg)) < 2 ^ 31 - 1"
  shows "\<exists>st1 st2 s st3 j scope. sendNativeMessageToNode J U msg st = Some st1 \<and> flushMessageQueue U st1 = Some st2 \<and>
    chars s = chars msg \<and> st3 = CallStaticVoidMethod J cls mid s (st2\<lparr>js := j\<rparr>) \<and>
    doRegisteredCallbacks U N (next_addr st1) st2 =
      Some (st3\<lparr>js := napi_close_handle_scope N (qf_env qf) scope (js st3), uv := uv_close U (next_addr st1) (uv st3)\<rparr>)"
proof -
  let ?m = "modified_utf8 (chars msg)" and ?env = "qf_env qf"
  have m: "GetStringUTFChars J msg = ?m" "chars (NewStringUTF J ?m) = chars msg"
    using assms(5) by (simp_all add: jni_strings_def)
  note nz = modified_utf8_no_zero [of "chars msg"]
  obtain st1 st2 where run: "sendNativeMessageToNode J U msg st = Some st1" "flushMessageQueue U st1 = Some st2"
    and st2: "next_addr st1 = Suc (next_addr st)" "cstrs st2 = (cstrs st)(next_addr st \<mapsto> ?m @ [0])"
      "asyncs st2 = (asyncs st)(Suc (next_addr st) \<mapsto> Some (next_addr st))" "pool st2 = pool st"
      "embedder_callback st2 = embedder_callback st" "cacheEnvPointer st2 = cacheEnvPointer st"
    using send_flush [OF assms(1,2), of J msg U thesis] assms(10) nz unfolding m by blast
  have attached: "java_attached N J cls mid st2" using assms(4) st2 by (simp add: java_attached_def)
  have valid: "valid_utf8 ?m" using assms(9) by (simp add: valid_modified_iff)
  obtain scope j1 j2 g j3 v j4 where N: "napi_open_handle_scope N ?env (js st2) = (scope, j1)"
    "napi_get_reference_value N ?env (qf_function qf) j1 = (f, j2)" "napi_get_global N ?env j2 = (g, j3)"
    "napi_create_string_utf8 N ?env ?m j3 = (v, j4)"
    using assms(8) by (metis prod.collapse)
  define st3 where "st3 = CallStaticVoidMethod J cls mid (NewStringUTF J ?m) (st2\<lparr>js := j4\<rparr>)"
  have call: "napi_call_function N ?env g f [v] (st2\<lparr>js := j4\<rparr>) = st3"
    using echo_to_java [OF attached assms(6,7) valid nz N(4)] by (simp add: st3_def)
  have "deliver N ?m qf st2 = st3\<lparr>js := napi_close_handle_scope N ?env scope (js st3)\<rparr>"
    by (simp add: deliver_def N call)
  then have "notify_message N qf (next_addr st) st2 = Some (st3\<lparr>js := napi_close_handle_scope N ?env scope (js st3)\<rparr>)"
    using notify_message_deliver [of st2 "next_addr st" ?m N qf] nz st2(2) by simp
  then have "doRegisteredCallbacks U N (next_addr st1) st2 =
      Some (st3\<lparr>js := napi_close_handle_scope N ?env scope (js st3), uv := uv_close U (next_addr st1) (uv st3)\<rparr>)"
    using st2 assms(3) by (simp add: doRegisteredCallbacks_def)
  then show ?thesis using run m(2) st3_def by blast
qed

text \<open>
  C11. The encodings differ. The bytes a Java message leaves in the queue, which the listeners' strings are made of, are
  valid UTF-8 if and only if no unit of the string is zero or half of a surrogate pair: a message with a
  character outside the basic plane reaches \<open>napi_create_string_utf8\<close> in an encoding the function does not accept.
\<close>

theorem java_message_utf8_iff:
  fixes st :: "('l, 'js, 'o, 'z) native_scheme"
  assumes "bridge_ok st" and "messageQueue st = []" and "jni_strings J chars"
    and "length (modified_utf8 (chars msg)) < 2 ^ 31 - 1"
  shows "\<exists>st1 text. sendNativeMessageToNode J U msg st = Some st1 \<and>
    Option.bind (cstrs st1 (next_addr st)) (\<lambda>b. c_string b 0) = Some text \<and>
    (valid_utf8 text \<longleftrightarrow> (\<forall>c \<in> set (chars msg). unat c \<noteq> 0 \<and> \<not> surrogate (unat c)))"
proof -
  let ?m = "modified_utf8 (chars msg)"
  have m: "GetStringUTFChars J msg = ?m" using assms(3) by (simp add: jni_strings_def)
  have "\<exists>st1. sendNativeMessageToNode J U msg st = Some st1 \<and> cstrs st1 (next_addr st) = Some (?m @ [0])"
    using assms(4)
    by (simp add: m sendNativeMessageToNode_def Let_def rn_bridge_notify_def copy_message_small wake_queue_frame
        push_message_def)
  then show ?thesis
    using valid_modified_iff [of "chars msg"] modified_utf8_no_zero [of "chars msg"] by (auto simp: plain_def)
qed

section \<open>A concrete pair of runtimes\<close>

text \<open>A Java side whose strings are numbers in base 65537, with one digit per unit.\<close>

fun string_number :: "jchar list \<Rightarrow> nat" where
  "string_number [] = 0"
| "string_number (c # s) = Suc (unat c) + 65537 * string_number s"

fun number_string :: "nat \<Rightarrow> jchar list" where
  "number_string n = (if n = 0 then [] else of_nat (n mod 65537 - 1) # number_string (n div 65537))"

declare number_string.simps [simp del]

lemma number_string_number [simp]: "number_string (string_number w) = w"
proof (induction w)
  case (Cons c w)
  have "unat c < 65536" using unsigned_less [of c, where 'a = nat] by simp
  then have "string_number (c # w) mod 65537 = Suc (unat c)" "string_number (c # w) div 65537 = string_number w"
    by simp_all
  with Cons show ?case by (subst number_string.simps) simp
qed (simp add: number_string.simps)

definition string_jni :: "(uv_call list, log_js, thread_fn list) native jni_api" where
  "string_jni = log_jni\<lparr>GetStringUTFChars := \<lambda>s. modified_utf8 (number_string s),
     NewStringUTF := \<lambda>bs. string_number (modified_decode bs),
     CallStaticVoidMethod := \<lambda>c m s st. st\<lparr>logcat := logcat st @ [(ANDROID_LOG_INFO, modified_utf8 (number_string s))]\<rparr>\<rparr>"

lemma string_jni_strings: "jni_strings string_jni number_string"
  by (simp add: jni_strings_def string_jni_def)

text \<open>An engine whose only function answers with its argument.\<close>

definition string_napi :: "(log_js, (uv_call list, log_js, thread_fn list) native) napi_api" where
  "string_napi = log_napi\<lparr>napi_typeof := \<lambda>env v j. (napi_ok, napi_string, j), call_embedder := \<lambda>cb. rcv_message string_jni\<rparr>"

definition echo_napi :: "(log_js, (uv_call list, log_js, thread_fn list) native) napi_api" where
  "echo_napi = string_napi\<lparr>napi_call_function := \<lambda>env g f args st. snd (Method_SendMessage string_napi env (hd args) st)\<rparr>"

lemma echo_napi_strings: "napi_strings echo_napi"
  by (auto simp: napi_strings_def echo_napi_def string_napi_def log_napi_def)

lemma send_ignores_call_function:
  "napi_call_failed (N\<lparr>napi_call_function := F\<rparr>) = napi_call_failed N"
  "napi_assert_failed (N\<lparr>napi_call_function := F\<rparr>) = napi_assert_failed N"
  "send_string (N\<lparr>napi_call_function := F\<rparr>) = send_string N"
  "Method_SendMessage (N\<lparr>napi_call_function := F\<rparr>) = Method_SendMessage N"
proof -
  show failed: "napi_call_failed (N\<lparr>napi_call_function := F\<rparr>) = napi_call_failed N"
    "napi_assert_failed (N\<lparr>napi_call_function := F\<rparr>) = napi_assert_failed N"
    by (simp_all add: fun_eq_iff napi_call_failed_def napi_assert_failed_def GET_AND_THROW_LAST_ERROR_def)
  show send: "send_string (N\<lparr>napi_call_function := F\<rparr>) = send_string N"
    by (simp add: fun_eq_iff send_string_def failed Let_def split: prod.split option.split)
  show "Method_SendMessage (N\<lparr>napi_call_function := F\<rparr>) = Method_SendMessage N"
    by (simp add: fun_eq_iff Method_SendMessage_def failed send Let_def split: prod.split)
qed

lemma echo_napi_echoes: "echo_function echo_napi f"
  unfolding echo_function_def
proof (intro allI)
  fix env g v and st :: "(uv_call list, log_js, thread_fn list) native"
  have "napi_get_cb_info echo_napi env v 1 (js st) = (napi_ok, (1, v), js st)"
    by (simp add: echo_napi_def string_napi_def log_napi_def)
  moreover have "napi_call_function echo_napi env g f [v] st = snd (Method_SendMessage echo_napi env v st)"
    by (simp add: echo_napi_def send_ignores_call_function)
  ultimately show "\<exists>info. napi_get_cb_info echo_napi env info 1 (js st) = (napi_ok, (1, v), js st) \<and>
      napi_call_function echo_napi env g f [v] st = snd (Method_SendMessage echo_napi env info st)" by blast
qed

definition echo_state :: "(uv_call list, log_js, thread_fn list) native" where
  "echo_state = native0\<lparr>pool := [(1, \<lparr>qf_env = 0, qf_function = 42\<rparr>)], my_little_pool_incrementer := 2,
     embedder_callback := Some 5, cacheEnvPointer := Some 7\<rparr>"

lemma echo_state_ok: "bridge_ok echo_state" "messageQueue echo_state = []"
  by (simp_all add: bridge_ok_def pool_ok_def map_ok_def heap_ok_def native0_def echo_state_def)

lemma echo_state_attached: "java_attached echo_napi string_jni 3 4 echo_state"
  by (simp add: java_attached_def echo_state_def echo_napi_def string_napi_def log_napi_def string_jni_def log_jni_def)

lemma native_length_small: "length w < 1000 \<Longrightarrow> length (modified_utf8 w) < 2 ^ 31 - 1"
proof -
  have "length (modified_utf8 w) \<le> 3 * length w"
    by (induction w) (auto simp: modified_utf8_def unit_bytes_def)
  then show "length w < 1000 \<Longrightarrow> length (modified_utf8 w) < 2 ^ 31 - 1" by simp
qed

text \<open>A listener that registers another listener whenever it is called.\<close>

definition log_host :: "(log_js, (uv_call list, log_js, thread_fn list) native) napi_api" where
  "log_host = log_napi"

definition register_napi :: "(log_js, (uv_call list, log_js, thread_fn list) native) napi_api" where
  "register_napi = log_host\<lparr>napi_call_function := \<lambda>env g f args st.
     (case Method_RegisterListener log_uv log_host env f (napi_call_function log_host env g f args st) of
        Some (r, st') \<Rightarrow> st' | None \<Rightarrow> st)\<rparr>"

lemma register_ignores_call_function:
  "Method_RegisterListener U (N\<lparr>napi_call_function := F\<rparr>) = Method_RegisterListener U N"
proof -
  have same: "napi_get_cb_info (N\<lparr>napi_call_function := F\<rparr>) = napi_get_cb_info N"
    "napi_typeof (N\<lparr>napi_call_function := F\<rparr>) = napi_typeof N"
    "napi_create_reference (N\<lparr>napi_call_function := F\<rparr>) = napi_create_reference N"
    "napi_create_int32 (N\<lparr>napi_call_function := F\<rparr>) = napi_create_int32 N" by simp_all
  have failed: "napi_call_failed (N\<lparr>napi_call_function := F\<rparr>) = napi_call_failed N"
    "napi_assert_failed (N\<lparr>napi_call_function := F\<rparr>) = napi_assert_failed N"
    by (simp_all add: fun_eq_iff napi_call_failed_def napi_assert_failed_def GET_AND_THROW_LAST_ERROR_def)
  show ?thesis
    unfolding fun_eq_iff Method_RegisterListener_def failed same by (intro allI refl)
qed

lemma register_napi_through: "js_through_bridge log_uv register_napi"
  unfolding js_through_bridge_def
proof (intro allI)
  fix env g f args and st :: "(uv_call list, log_js, thread_fn list) native"
  let ?st = "napi_call_function log_host env g f args st"
  have log: "js_effect log_uv register_napi st ?st" by (simp add: log_host_def log_napi_def effect_js)
  show "js_effect log_uv register_napi st (napi_call_function register_napi env g f args st)"
  proof (cases "Method_RegisterListener log_uv log_host env f ?st")
    case None
    have "js_effect log_uv register_napi st st" by (rule effect_outside) simp_all
    with None show ?thesis by (simp add: register_napi_def)
  next
    case (Some p)
    obtain r st' where p: "p = (r, st')" by (cases p)
    have "Method_RegisterListener log_uv register_napi env f ?st = Some (r, st')"
      using Some by (simp add: register_napi_def register_ignores_call_function p)
    from effect_seq [OF log effect_register [OF this]] Some p
    show ?thesis by (simp add: register_napi_def)
  qed
qed

theorem java_message_reaches_listeners_witness:
  "\<exists>st1 st2 st3. sendNativeMessageToNode log_jni log_uv 9 echo_state = Some st1 \<and>
     flushMessageQueue log_uv st1 = Some st2 \<and> doRegisteredCallbacks log_uv register_napi (next_addr st1) st2 = Some st3 \<and>
     calls (js st3) = [(42, [104, 105])] \<and> length (pool st3) = 2"
proof -
  have m: "length (GetStringUTFChars log_jni 9) < 2 ^ 31 - 1" "0 \<notin> set (GetStringUTFChars log_jni 9)"
    by (simp_all add: log_jni_def)
  from java_message_reaches_listeners [OF echo_state_ok m register_napi_through]
  obtain st1 st2 st3 where run: "sendNativeMessageToNode log_jni log_uv 9 echo_state = Some st1"
    "flushMessageQueue log_uv st1 = Some st2" "doRegisteredCallbacks log_uv register_napi (next_addr st1) st2 = Some st3"
    and st2: "js st2 = js echo_state" "pool st2 = pool echo_state"
    and st3: "st3 = (let s = fold (deliver register_napi (GetStringUTFChars log_jni 9)) (map snd (pool echo_state)) st2
       in s\<lparr>uv := uv_close log_uv (next_addr st1) (uv s)\<rparr>)" by blast
  have inc: "my_little_pool_incrementer st2 = 2"
    using run(1,2) by (rule_tac send_flush [OF echo_state_ok m, of log_uv]) (simp add: echo_state_def)
  have "calls (js st3) = [(42, [104, 105])] \<and> length (pool st3) = 2"
    using st2 inc unfolding st3
    by (simp add: deliver_def register_napi_def log_host_def Method_RegisterListener_def log_napi_def pool_add_def int_add_def
        log_jni_def echo_state_def native0_def js0_def init_queue_uv_handle_def Let_def)
  with run show ?thesis by blast
qed

theorem echo_roundtrip_witness:
  "\<exists>st1 st2 st3. sendNativeMessageToNode string_jni log_uv (string_number [233, 8364]) echo_state = Some st1 \<and>
     flushMessageQueue log_uv st1 = Some st2 \<and> doRegisteredCallbacks log_uv echo_napi (next_addr st1) st2 = Some st3 \<and>
     logcat st3 = logcat st2 @ [(ANDROID_LOG_INFO, [195, 169, 226, 130, 172])]"
proof -
  let ?s = "string_number [233, 8364]"
  have pool: "pool echo_state = [(1, \<lparr>qf_env = 0, qf_function = 42\<rparr>)]" by (simp add: echo_state_def)
  have ref: "\<forall>j. fst (napi_get_reference_value echo_napi (qf_env \<lparr>qf_env = 0, qf_function = 42\<rparr>)
      (qf_function \<lparr>qf_env = 0, qf_function = 42\<rparr>) j) = 42"
    by (simp add: echo_napi_def string_napi_def log_napi_def)
  have chars: "\<forall>c \<in> set (number_string ?s). plain (unat c)"
    unfolding number_string_number by (simp add: plain_def surrogate_def)
  have len: "length (modified_utf8 (number_string ?s)) < 2 ^ 31 - 1"
    unfolding number_string_number by (rule native_length_small) simp
  obtain st1 st2 s st3 j scope where run: "sendNativeMessageToNode string_jni log_uv ?s echo_state = Some st1"
    "flushMessageQueue log_uv st1 = Some st2" "number_string s = number_string ?s"
    "st3 = CallStaticVoidMethod string_jni 3 4 s (st2\<lparr>js := j\<rparr>)"
    "doRegisteredCallbacks log_uv echo_napi (next_addr st1) st2 = Some (st3\<lparr>js := napi_close_handle_scope echo_napi 0 scope (js st3),
      uv := uv_close log_uv (next_addr st1) (uv st3)\<rparr>)"
    using echo_roundtrip [OF echo_state_ok pool echo_state_attached string_jni_strings echo_napi_strings echo_napi_echoes
        ref chars len, of log_uv] by auto
  have "logcat st3 = logcat st2 @ [(ANDROID_LOG_INFO, modified_utf8 (number_string ?s))]"
    unfolding run(4) by (simp add: string_jni_def run(3))
  also have "modified_utf8 (number_string ?s) = [195, 169, 226, 130, 172]"
    unfolding number_string_number by (simp add: modified_utf8_def unit_bytes_def)
  finally show ?thesis using run by auto
qed

text \<open>The two halves of U+1F600.\<close>

theorem java_message_utf8_iff_witness:
  "\<exists>st1 text. sendNativeMessageToNode string_jni log_uv (string_number [55357, 56832]) echo_state = Some st1 \<and>
     Option.bind (cstrs st1 1) (\<lambda>b. c_string b 0) = Some text \<and> \<not> valid_utf8 text"
proof -
  let ?s = "string_number [55357, 56832]"
  have len: "length (modified_utf8 (number_string ?s)) < 2 ^ 31 - 1"
    unfolding number_string_number by (rule native_length_small) simp
  have "next_addr echo_state = 1" by (simp add: echo_state_def native0_def)
  with java_message_utf8_iff [OF echo_state_ok string_jni_strings len, of log_uv]
  show ?thesis unfolding number_string_number by (auto simp: surrogate_def)
qed

end
