(* ===== verification/NativeNode.thy ===== *)
theory NativeNode
  imports NodeHost EndToEnd
begin

text \<open>
  \<open>NativeNode.kt\<close>: what happens to a message that the bridge hands to Java, the source text Node is started with, and the composition
  with the native code: a request of the JavaScript code and its answer.
\<close>

section \<open>Messages from Node\<close>

text \<open>
  The companion object of \<open>NativeNode\<close> beside the native globals: whether \<open>INSTANCE\<close> is set, \<open>isReady\<close>, and what debug builds
  printed. \<open>send\<close> is the external function \<open>sendNativeMessageToNode\<close> on a Kotlin string.
\<close>

record ('l, 'js, 'o) app = "('l, 'js, 'o) native" +
  INSTANCE_set :: bool
  isReady :: bool
  printed :: "jstr list"

datatype 's outcome = Returns 's | Throws kt_exception 's | Undefined

definition receiveNativeMessageFromNode ::
  "host_api \<Rightarrow> bool \<Rightarrow> (jstr \<Rightarrow> ('l, 'js, 'o, 'z) app_scheme \<Rightarrow> ('l, 'js, 'o, 'z) app_scheme option)
   \<Rightarrow> jstr \<Rightarrow> ('l, 'js, 'o, 'z) app_scheme \<Rightarrow> ('l, 'js, 'o, 'z) app_scheme outcome" where
  "receiveNativeMessageFromNode H isDebugBuild send msg st =
     (let st1 = (if startsWith msg (lit ''listening on '') then st\<lparr>isReady := True\<rparr> else st)
      in if startsWith msg ASYNC_REQUEST_HEADER then
           (case parse_request msg of
              Inl e \<Rightarrow> Throws e st1
            | Inr (rid, name, reqBody) \<Rightarrow>
                (case nodeReqHandler H name reqBody of
                   Inl e \<Rightarrow> Throws e st1
                 | Inr responseData \<Rightarrow>
                     if \<not> INSTANCE_set st1 then Throws NullPointer st1
                     else (case send (response_for rid responseData) st1 of None \<Rightarrow> Undefined | Some st2 \<Rightarrow> Returns st2)))
         else if isDebugBuild then
           Returns (st1\<lparr>printed := printed st1 @ [lit ''NODEJS-NATIVE-MSG['' @ msg @ lit '']'']\<rparr>)
         else Returns st1)"


section \<open>Requests and answers\<close>

lemma request_not_ready: "startsWith msg ASYNC_REQUEST_HEADER \<Longrightarrow> \<not> startsWith msg (lit ''listening on '')"
  by (auto simp: startsWith_iff ASYNC_REQUEST_HEADER_def lit_def)

lemma receive_request:
  assumes "parse_request msg = Inr (rid, name, body)" and "startsWith msg ASYNC_REQUEST_HEADER"
    and "nodeReqHandler H name body = Inr data" and "INSTANCE_set st"
  shows "receiveNativeMessageFromNode H d send msg st =
    (case send (response_for rid data) st of None \<Rightarrow> Undefined | Some st' \<Rightarrow> Returns st')"
  using assms request_not_ready [OF assms(2)] by (simp add: receiveNativeMessageFromNode_def)

text \<open>
  C12. A request that fails is not answered. Whatever the handler throws, for a request that does not parse or for one it does not
  accept, leaves \<open>receiveNativeMessageFromNode\<close> without a message to Node; and for no message at all does it matter what sending an answer
  with the error header would do, since none is ever sent.
\<close>

theorem failed_request_unanswered:
  "(startsWith msg ASYNC_REQUEST_HEADER \<and>
    and_then (parse_request msg) (\<lambda>(rid, name, body). nodeReqHandler H name body) = Inl e \<longrightarrow>
    (\<forall>send. receiveNativeMessageFromNode H d send msg st = Throws e st)) \<and>
   receiveNativeMessageFromNode H d (\<lambda>r. if startsWith r ASYNC_RESPONSE_ERROR_HEADER then bad r else send r) msg st =
   receiveNativeMessageFromNode H d send msg st"
proof (intro conjI impI allI)
  fix send :: "jstr \<Rightarrow> ('a, 'b, 'c, 'd) app_scheme \<Rightarrow> ('a, 'b, 'c, 'd) app_scheme option"
  assume "startsWith msg ASYNC_REQUEST_HEADER \<and> and_then (parse_request msg) (\<lambda>(rid, name, body). nodeReqHandler H name body) = Inl e"
  then show "receiveNativeMessageFromNode H d send msg st = Throws e st"
    using request_not_ready [of msg] by (auto simp: receiveNativeMessageFromNode_def and_then_def split: sum.splits)
next
  have success: "startsWith (response_for rid data) ASYNC_RESPONSE_ERROR_HEADER = False" for rid data
    by (simp add: startsWith_def response_for_def ASYNC_RESPONSE_SUCCESS_HEADER_def ASYNC_RESPONSE_ERROR_HEADER_def lit_def)
  show "receiveNativeMessageFromNode H d (\<lambda>r. if startsWith r ASYNC_RESPONSE_ERROR_HEADER then bad r else send r) msg st =
    receiveNativeMessageFromNode H d send msg st"
    unfolding receiveNativeMessageFromNode_def success if_False ..
qed

section \<open>The whole way of a request\<close>

text \<open>
  The Java runtime behind JNI: the static method the bridge calls is \<open>receiveNativeMessageFromNode\<close>, whose external function is the native one.
  \<open>string_of\<close> makes a Java string of its units.
\<close>

definition kotlin_attached ::
  "host_api \<Rightarrow> bool \<Rightarrow> ('l, 'js, 'o, 'z) app_scheme jni_api \<Rightarrow> 'l uv_api \<Rightarrow> jclass \<Rightarrow> jmethodID \<Rightarrow> (jstring \<Rightarrow> jstr)
   \<Rightarrow> (jstr \<Rightarrow> jstring) \<Rightarrow> bool" where
  "kotlin_attached H d J U cls mid chars string_of \<longleftrightarrow> (\<forall>w. chars (string_of w) = w) \<and>
     (\<forall>s st st'. receiveNativeMessageFromNode H d (\<lambda>r. sendNativeMessageToNode J U (string_of r)) (chars s) st = Returns st' \<longrightarrow>
        CallStaticVoidMethod J cls mid s st = st')"

text \<open>
  C6. From a JavaScript request to the answer. A request that the JavaScript code passes to \<open>sendMessage\<close> goes through the bridge, JNI and
  \<open>receiveNativeMessageFromNode\<close> to the handler of its name; the answer is queued, and after the loop thread has flushed the queue
  every listener is called, once and in the order of registration, with the answer, which carries the identifier of the request and
  what the handler returned; the state after the delivery is that of these calls and of \<open>uv_close\<close>, the close callback frees the
  two blocks of the answer and the invariant of the bridge holds again. The queue is empty before, and the listeners may use the
  bridge but reach its globals in no other way (\<open>js_through_bridge\<close>).
\<close>

theorem request_response:
  fixes st :: "('l, 'js, 'o, 'z) app_scheme"
  assumes "bridge_ok st" and "messageQueue st = []" and "INSTANCE_set st" and "js_through_bridge U N"
    and "java_attached N J cls mid st" and "jni_strings J chars" and "kotlin_attached H d J U cls mid chars string_of"
    and "length rid = 10" and "name \<noteq> []" and "124 \<notin> set name" and "nodeReqHandler H name body = Inr data"
    and "napi_get_cb_info N env info 1 (js st) = (napi_ok, (1, v), j1)"
    and "napi_typeof N env v j1 = (napi_ok, napi_string, j2)"
    and "text = modified_utf8 (request rid name body)"
    and "napi_get_value_string_utf8 N env v None j2 = (napi_ok, ([], length text), j2)"
    and "napi_get_value_string_utf8 N env v (Some (length text + 1)) j2 = (napi_ok, (text, length text), j2)"
    and "answer = ASYNC_RESPONSE_SUCCESS_HEADER @ rid @ [124] @ data"
    and "length (modified_utf8 answer) < 2 ^ 31 - 1"
  shows "\<exists>st1 st2 st3 st4. Method_SendMessage N env info st = (None, st1) \<and> flushMessageQueue U st1 = Some st2 \<and>
    pool st2 = pool st \<and> doRegisteredCallbacks U N (next_addr st1) st2 = Some st3 \<and>
    st3 = (let s = fold (deliver N (modified_utf8 answer)) (map snd (pool st)) st2
           in s\<lparr>uv := uv_close U (next_addr st1) (uv s)\<rparr>) \<and>
    close_cb (next_addr st1) st3 = Some st4 \<and>
    st4 = st3\<lparr>cstrs := (cstrs st3)(next_addr st := None), asyncs := (asyncs st3)(next_addr st1 := None)\<rparr> \<and>
    cstrs st \<subseteq>\<^sub>m cstrs st4 \<and> asyncs st \<subseteq>\<^sub>m asyncs st4 \<and> bridge_ok st4"
proof -
  have resp: "response_for rid data = answer" by (simp add: response_for_def assms(17))
  let ?st = "st\<lparr>js := j2\<rparr>" and ?r = "string_of (response_for rid data)" and ?s = "NewStringUTF J text"
  have J: "chars ?r = response_for rid data" "GetStringUTFChars J ?r = modified_utf8 (response_for rid data)"
    "chars ?s = request rid name body"
    using assms(6,7) by (simp_all add: jni_strings_def kotlin_attached_def assms(14))
  have "bridge_ok ?st" using assms(1) by simp
  from java_message_delivered [OF this _ _ _ assms(4), of J ?r]
  obtain st1 st2 st3 st4 where run: "sendNativeMessageToNode J U ?r ?st = Some st1" "flushMessageQueue U st1 = Some st2"
    "pool st2 = pool st" "doRegisteredCallbacks U N (next_addr st1) st2 = Some st3"
    "st3 = (let s = fold (deliver N (modified_utf8 answer)) (map snd (pool st)) st2
       in s\<lparr>uv := uv_close U (next_addr st1) (uv s)\<rparr>)"
    "close_cb (next_addr st1) st3 = Some st4"
    "st4 = st3\<lparr>cstrs := (cstrs st3)(next_addr st := None), asyncs := (asyncs st3)(next_addr st1 := None)\<rparr>"
    "cstrs st \<subseteq>\<^sub>m cstrs st4" "asyncs st \<subseteq>\<^sub>m asyncs st4" "bridge_ok st4"
    using assms(2,18) modified_utf8_no_zero J(2) by (auto simp: resp)
  have "receiveNativeMessageFromNode H d (\<lambda>r. sendNativeMessageToNode J U (string_of r)) (chars ?s) ?st = Returns st1"
    using receive_request [OF parse_request_request [OF assms(8-10)] _ assms(11), of ?st d] assms(3) run(1)
    by (simp add: J(3) request_def)
  then have "CallStaticVoidMethod J cls mid ?s ?st = st1" using assms(7) by (simp add: kotlin_attached_def)
  moreover have "takeWhile (\<lambda>b. b \<noteq> 0) text = text" using modified_utf8_no_zero by (simp add: assms(14))
  ultimately have "Method_SendMessage N env info st = (None, st1)"
    using assms(5,12,13,15,16)
    by (auto simp: java_attached_def Method_SendMessage_def send_string_def Let_def rcv_message_def)
  with run show ?thesis by blast
qed

section \<open>A concrete application\<close>

definition app0 :: "(uv_call list, log_js, thread_fn list) app" where
  "app0 = native.extend (echo_state\<lparr>js := \<lparr>strs = [modified_utf8 (request (lit ''0123456789'') (lit ''verifyRsaModPow'') (lit ''65,17,3233''))],
       calls = [], thrown = []\<rparr>\<rparr>)
     \<lparr>INSTANCE_set = True, isReady = True, printed = []\<rparr>"

definition app_jni0 :: "(uv_call list, log_js, thread_fn list) app jni_api" where
  "app_jni0 = \<lparr>GetArrayLength = \<lambda>a. 0, GetObjectArrayElement = \<lambda>a i. i, GetStringUTFChars = \<lambda>s. modified_utf8 (number_string s),
     NewStringUTF = \<lambda>bs. string_number (modified_decode bs), FindClass = \<lambda>n. Some 3, GetStaticMethodID = \<lambda>c n s. Some 4,
     CallStaticVoidMethod = \<lambda>c m s st. st\<rparr>"

definition app_jni :: "(uv_call list, log_js, thread_fn list) app jni_api" where
  "app_jni = app_jni0\<lparr>CallStaticVoidMethod := \<lambda>c m s st.
     (case receiveNativeMessageFromNode sample_host False (\<lambda>r. sendNativeMessageToNode app_jni0 log_uv (string_number r)) (number_string s) st of
        Returns st' \<Rightarrow> st' | Throws e st' \<Rightarrow> st' | Undefined \<Rightarrow> st)\<rparr>"

definition app_napi :: "(log_js, (uv_call list, log_js, thread_fn list) app) napi_api" where
  "app_napi = log_napi\<lparr>call_embedder := \<lambda>cb. rcv_message app_jni\<rparr>"

lemma app_attached:
  "jni_strings app_jni number_string" "java_attached app_napi app_jni 3 4 app0" "js_through_bridge log_uv app_napi"
  "kotlin_attached sample_host False app_jni log_uv 3 4 number_string string_number"
proof -
  have send: "sendNativeMessageToNode app_jni = sendNativeMessageToNode app_jni0"
    by (simp add: fun_eq_iff sendNativeMessageToNode_def app_jni_def)
  show "jni_strings app_jni number_string" by (simp add: jni_strings_def app_jni_def app_jni0_def)
  show "java_attached app_napi app_jni 3 4 app0"
    by (simp add: java_attached_def app0_def native.defs echo_state_def native0_def app_napi_def app_jni_def app_jni0_def)
  show "js_through_bridge log_uv app_napi"
    by (simp add: js_through_bridge_def app_napi_def log_napi_def effect_js)
  show "kotlin_attached sample_host False app_jni log_uv 3 4 number_string string_number"
    by (simp add: kotlin_attached_def send) (simp add: app_jni_def)
qed

lemma app0_ok: "bridge_ok app0" "messageQueue app0 = []" "INSTANCE_set app0" "pool app0 = [(1, \<lparr>qf_env = 0, qf_function = 42\<rparr>)]"
  by (simp_all add: bridge_ok_def pool_ok_def map_ok_def heap_ok_def app0_def native.defs echo_state_def native0_def)

theorem failed_request_unanswered_witness:
  "receiveNativeMessageFromNode sample_host False (\<lambda>r st. Some st) (request (lit ''0123456789'') (lit ''sign'') []) app0 =
   Throws (UnknownRequest (lit ''sign'')) app0"
proof -
  let ?r = "request (lit ''0123456789'') (lit ''sign'') []"
  have "parse_request ?r = Inr (lit ''0123456789'', lit ''sign'', [])"
    by (rule parse_request_request) (simp_all add: lit_def)
  moreover have "nodeReqHandler sample_host (lit ''sign'') [] = Inl (UnknownRequest (lit ''sign''))"
    by (rule nodeReqHandler_unknown) (simp add: lit_def)
  ultimately show ?thesis using failed_request_unanswered [where msg = ?r and H = sample_host and d = False and st = app0] by (simp add: request_def)
qed

theorem request_response_witness:
  "\<exists>st1 st2 st3. Method_SendMessage app_napi 0 0 app0 = (None, st1) \<and> flushMessageQueue log_uv st1 = Some st2 \<and>
     doRegisteredCallbacks log_uv app_napi (next_addr st1) st2 = Some st3 \<and>
     calls (js st3) = calls (js st2) @ [(42, modified_utf8 (lit ''ASYNC_RESPONSE|SUCCESS|0123456789|2790''))]"
proof -
  let ?rid = "lit ''0123456789''" and ?name = "lit ''verifyRsaModPow''" and ?body = "lit ''65,17,3233''"
  let ?t = "modified_utf8 (request ?rid ?name ?body)"
  have js: "js app0 = \<lparr>strs = [?t], calls = [], thrown = []\<rparr>" by (simp add: app0_def native.defs)
  have data: "nodeReqHandler sample_host ?name ?body = Inr (lit ''2790'')" by code_simp
  have parts: "length ?rid = 10" "?name \<noteq> []" "124 \<notin> set ?name" by (simp_all add: lit_def)
  have answer: "ASYNC_RESPONSE_SUCCESS_HEADER @ ?rid @ [124] @ lit ''2790'' = lit ''ASYNC_RESPONSE|SUCCESS|0123456789|2790''"
    by (simp add: ASYNC_RESPONSE_SUCCESS_HEADER_def lit_def)
  have len: "length (modified_utf8 (ASYNC_RESPONSE_SUCCESS_HEADER @ ?rid @ [124] @ lit ''2790'')) < 2 ^ 31 - 1"
    unfolding answer by (rule native_length_small) (simp add: lit_def)
  obtain st1 st2 st3 where run: "Method_SendMessage app_napi 0 0 app0 = (None, st1)" "flushMessageQueue log_uv st1 = Some st2"
    "doRegisteredCallbacks log_uv app_napi (next_addr st1) st2 = Some st3"
    "st3 = (let s = fold (deliver app_napi (modified_utf8 (ASYNC_RESPONSE_SUCCESS_HEADER @ ?rid @ [124] @ lit ''2790''))) (map snd (pool app0)) st2
       in s\<lparr>uv := uv_close log_uv (next_addr st1) (uv s)\<rparr>)"
    using request_response [OF app0_ok(1-3) app_attached(3,2,1,4) parts data _ _ refl _ _ refl len, of 0 0 0 "js app0" "js app0"]
    by (auto simp: app_napi_def log_napi_def js)
  have "calls (js st3) = calls (js st2) @ [(42, modified_utf8 (lit ''ASYNC_RESPONSE|SUCCESS|0123456789|2790''))]"
    using run(4) unfolding answer by (simp add: app0_ok(4) deliver_def app_napi_def log_napi_def)
  with run show ?thesis by blast
qed

end
