(* ===== verification/NodeSource.thy ===== *)
theory NodeSource
  imports KString
begin

text \<open>
  The source text that \<open>NativeNode.kt\<close> starts Node with: constants for the JavaScript code, each a template literal, in front of the script
  of the assets. \<open>template_chars\<close> and \<open>read_const\<close> read such constants as the JavaScript language defines template literals.
\<close>

section \<open>Generation\<close>

text \<open>The members of \<open>NodeSecret\<close> in use; a certificate or key that is not there is \<open>None\<close>, and \<open>!!\<close> throws.\<close>

record NodeSecret =
  port :: int
  ca :: "jstr option"
  key :: "jstr option"
  crt :: "jstr option"
  authHeader :: jstr
  unixSocketFilePath :: jstr

definition unix_socket_path :: "jstr \<Rightarrow> jstr" where
  "unix_socket_path writablePath = writablePath @ lit ''/flowcrypt-node.sock''"

record NodeSecretCerts =
  certs_ca :: "jstr option"
  certs_key :: "jstr option"
  certs_crt :: "jstr option"

definition fromNodeSecret :: "NodeSecret \<Rightarrow> NodeSecretCerts" where
  "fromNodeSecret nodeSecret = \<lparr>certs_ca = ca nodeSecret, certs_key = key nodeSecret, certs_crt = crt nodeSecret\<rparr>"

definition genConst :: "jstr \<Rightarrow> jstr \<Rightarrow> jstr" where
  "genConst name value = lit ''const '' @ name @ lit '' = '' @ [96] @ value @ [96, 59, 10]"

definition bool_string :: "bool \<Rightarrow> jstr" where
  "bool_string b = (if b then lit ''true'' else lit ''false'')"

definition getJsSrc :: "bool \<Rightarrow> NodeSecret \<Rightarrow> jstr \<Rightarrow> jstr \<Rightarrow> jstr option" where
  "getJsSrc isDebugEnabled nodeSecret VERSION_NAME script =
     do {
       let src = genConst (lit ''NODE_UNIX_SOCKET'') (unixSocketFilePath nodeSecret);
       let src = src @ genConst (lit ''NODE_PORT'') (dec_string (port nodeSecret));
       c \<leftarrow> ca nodeSecret;
       let src = src @ genConst (lit ''NODE_SSL_CA'') c;
       r \<leftarrow> crt nodeSecret;
       let src = src @ genConst (lit ''NODE_SSL_CRT'') r;
       k \<leftarrow> key nodeSecret;
       let src = src @ genConst (lit ''NODE_SSL_KEY'') k;
       let src = src @ genConst (lit ''NODE_AUTH_HEADER'') (authHeader nodeSecret);
       let src = src @ genConst (lit ''NODE_DEBUG'') (bool_string isDebugEnabled);
       let src = src @ genConst (lit ''APP_ENV'') (lit ''prod'');
       let src = src @ genConst (lit ''APP_VERSION'') (hd (split_at 95 VERSION_NAME));
       let src = src @ genConst (lit ''APP_PROFILE'') (lit ''false'');
       let src = src @ genConst (lit ''NODE_PRINT_REPLAY'') (lit ''false'');
       Some (src @ script) }"

text \<open>The arguments of \<open>startNodeWithArguments\<close>.\<close>

definition node_arguments :: "jstr \<Rightarrow> jstr list" where
  "node_arguments src = [lit ''node'', lit ''-e'', src]"

section \<open>Reading\<close>

text \<open>
  The characters of a template literal after the opening backquote, and the text after the closing one. Line ends are normalised to the line
  feed. An escape or a substitution \<open>${\<close> is not plain text, and gives \<open>None\<close>, as does a literal that does not end.
\<close>

fun template_chars :: "jstr \<Rightarrow> (jstr \<times> jstr) option" where
  "template_chars [] = None"
| "template_chars (c # s) =
     (if c = 96 then Some ([], s)
      else if c = 92 then None
      else if c = 36 \<and> startsWith s [123] then None
      else if c = 13 then map_option (apfst ((#) 10)) (template_chars (if startsWith s [10] then drop 1 s else s))
      else map_option (apfst ((#) c)) (template_chars s))"

definition read_const :: "jstr \<Rightarrow> ((jstr \<times> jstr) \<times> jstr) option" where
  "read_const s =
     (let name = takeWhile (\<lambda>c. c \<noteq> 32) (drop 6 s); s1 = drop (6 + length name) s
      in if startsWith s (lit ''const '') \<and> startsWith s1 (lit '' = '' @ [96]) then
           Option.bind (template_chars (drop 4 s1)) (\<lambda>(value, s2).
             if startsWith s2 [59, 10] then Some ((name, value), drop 2 s2) else None)
         else None)"

fun read_consts :: "nat \<Rightarrow> jstr \<Rightarrow> ((jstr \<times> jstr) list \<times> jstr) option" where
  "read_consts 0 s = Some ([], s)"
| "read_consts (Suc n) s =
     Option.bind (read_const s) (\<lambda>(c, s1). Option.bind (read_consts n s1) (\<lambda>(cs, s2). Some (c # cs, s2)))"

text \<open>The values that a template literal gives back.\<close>

fun template_safe :: "jstr \<Rightarrow> bool" where
  "template_safe [] = True"
| "template_safe (c # s) \<longleftrightarrow> c \<notin> {96, 92, 13} \<and> \<not> (c = 36 \<and> startsWith s [123]) \<and> template_safe s"

lemma startsWith_single: "startsWith s [a] \<longleftrightarrow> s \<noteq> [] \<and> hd s = a"
  by (cases s) (simp_all add: startsWith_def)

lemma template_chars_iff: "template_chars (v @ 96 # rest) = Some (v, r) \<longleftrightarrow> template_safe v \<and> r = rest"
proof (induction v)
  case (Cons c v)
  have "startsWith (v @ 96 # rest) [123] \<longleftrightarrow> startsWith v [123]" by (cases v) (simp_all add: startsWith_single)
  then have chars: "template_chars ((c # v) @ 96 # rest) =
      (if c \<in> {96, 92} \<or> c = 36 \<and> startsWith v [123] then if c = 96 then Some ([], v @ 96 # rest) else None
       else if c = 13 then map_option (apfst ((#) 10)) (template_chars (if startsWith (v @ 96 # rest) [10] then drop 1 (v @ 96 # rest) else v @ 96 # rest))
       else map_option (apfst ((#) c)) (template_chars (v @ 96 # rest)))" by simp
  have "map_option (apfst ((#) a)) z = Some (b # w, r) \<longleftrightarrow> a = b \<and> z = Some (w, r)" for a b :: jchar and z w
    by (cases z) (auto simp: apfst_def map_prod_def split: prod.split)
  with Cons show ?case unfolding chars by auto
qed auto

lemma read_const_genConst:
  assumes "32 \<notin> set name"
  shows "read_const (genConst name val @ rest) = Some ((name, val), r) \<longleftrightarrow> template_safe val \<and> r = rest"
proof -
  let ?t = "val @ 96 # 59 # 10 # rest" and ?s = "genConst name val @ rest"
  have s: "?s = lit ''const '' @ name @ 32 # 61 # 32 # 96 # ?t" by (simp add: genConst_def lit_def)
  have d6: "drop 6 ?s = name @ 32 # 61 # 32 # 96 # ?t" unfolding s by (simp add: lit_def)
  have "drop (6 + length name) ?s = drop (length name) (drop 6 ?s)" unfolding drop_drop by (simp only: add.commute)
  then have dn: "drop (6 + length name) ?s = 32 # 61 # 32 # 96 # ?t" unfolding d6 by simp
  have name: "takeWhile (\<lambda>c. c \<noteq> 32) (name @ 32 # 61 # 32 # 96 # ?t) = name" using assms by (simp add: takeWhile_stop)
  have "startsWith ?s (lit ''const '')" "startsWith (32 # 61 # 32 # 96 # ?t) (lit '' = '' @ [96])"
    unfolding s by (simp_all add: startsWith_def lit_def)
  then have "read_const ?s = Option.bind (template_chars ?t) (\<lambda>(v, s2).
      if startsWith s2 [59, 10] then Some ((name, v), drop 2 s2) else None)"
    unfolding read_const_def Let_def d6 name dn by simp
  note read = this
  show ?thesis
  proof
    assume "read_const ?s = Some ((name, val), r)"
    then obtain s2 where s2: "template_chars ?t = Some (val, s2)" "drop 2 s2 = r"
      unfolding read by (auto simp: bind_eq_Some_conv split: if_splits)
    then show "template_safe val \<and> r = rest" using template_chars_iff [of val "59 # 10 # rest" s2] by auto
  next
    assume "template_safe val \<and> r = rest"
    then have "template_chars ?t = Some (val, 59 # 10 # rest)" "r = rest" by (simp_all add: template_chars_iff)
    then show "read_const ?s = Some ((name, val), r)" unfolding read by (simp add: startsWith_def)
  qed
qed

lemma read_consts_genConst:
  "\<forall>(n, v) \<in> set cs. 32 \<notin> set n \<Longrightarrow>
   read_consts (length cs) (concat (map (\<lambda>(n, v). genConst n v) cs) @ rest) = Some (cs, r) \<longleftrightarrow>
   (\<forall>(n, v) \<in> set cs. template_safe v) \<and> r = rest"
proof (induction cs)
  case (Cons c cs)
  obtain n v where c: "c = (n, v)" by force
  note read = read_const_genConst [of n v "concat (map (\<lambda>(n, v). genConst n v) cs) @ rest"]
  show ?case using Cons read by (auto simp: c bind_eq_Some_conv)
qed auto

section \<open>The constants of the script\<close>

definition node_constants :: "bool \<Rightarrow> NodeSecret \<Rightarrow> jstr \<Rightarrow> jstr \<Rightarrow> jstr \<Rightarrow> jstr \<Rightarrow> (jstr \<times> jstr) list" where
  "node_constants debug s c r k version =
     [(lit ''NODE_UNIX_SOCKET'', unixSocketFilePath s), (lit ''NODE_PORT'', dec_string (port s)), (lit ''NODE_SSL_CA'', c),
      (lit ''NODE_SSL_CRT'', r), (lit ''NODE_SSL_KEY'', k), (lit ''NODE_AUTH_HEADER'', authHeader s),
      (lit ''NODE_DEBUG'', bool_string debug), (lit ''APP_ENV'', lit ''prod''),
      (lit ''APP_VERSION'', hd (split_at 95 version)), (lit ''APP_PROFILE'', lit ''false''), (lit ''NODE_PRINT_REPLAY'', lit ''false'')]"

lemma getJsSrc_constants:
  assumes "ca s = Some c" and "crt s = Some r" and "key s = Some k"
  shows "getJsSrc debug s version script =
    Some (concat (map (\<lambda>(n, v). genConst n v) (node_constants debug s c r k version)) @ script)"
  using assms by (simp add: getJsSrc_def node_constants_def)

lemma constant_names: "\<forall>(n, v) \<in> set (node_constants debug s c r k version). 32 \<notin> set n"
  by (simp add: node_constants_def lit_def)

lemma template_safe_plain: "\<forall>c \<in> set v. c \<notin> {96, 92, 13, 36} \<Longrightarrow> template_safe v"
  by (induction v) auto

lemma template_safe_dec_string: "template_safe (dec_string n)"
  using dec_string_range [of _ n] by (intro template_safe_plain) (fastforce simp: word_le_nat_alt)

lemma safe_constants:
  "(\<forall>(n, v) \<in> set (node_constants debug s c r k version). template_safe v) \<longleftrightarrow>
   (\<forall>v \<in> {unixSocketFilePath s, c, r, k, authHeader s, hd (split_at 95 version)}. template_safe v)"
  by (auto simp: node_constants_def template_safe_dec_string bool_string_def lit_def)

text \<open>
  C15. The constants arrive. Node is given, before the script, eleven constants that JavaScript reads with exactly the names and values the application
  put in, with the script after them, if and only if the path of the socket, the three PEM texts, the authorization header and the version
  contain no backquote, backslash, carriage return or \<open>${\<close>. A missing certificate or key is an exception.
\<close>

theorem node_source_constants:
  assumes "ca s = Some c" and "crt s = Some r" and "key s = Some k"
  shows "\<exists>src. getJsSrc debug s version script = Some src \<and>
    (read_consts 11 src = Some (node_constants debug s c r k version, script) \<longleftrightarrow>
     (\<forall>v \<in> {unixSocketFilePath s, c, r, k, authHeader s, hd (split_at 95 version)}. template_safe v))"
proof -
  have "length (node_constants debug s c r k version) = 11" by (simp add: node_constants_def)
  then show ?thesis
    using read_consts_genConst [OF constant_names, of debug s c r k version script script]
    unfolding getJsSrc_constants [OF assms] safe_constants by simp
qed

lemma getJsSrc_missing: "getJsSrc debug s version script = None \<longleftrightarrow> None \<in> {ca s, crt s, key s}"
  by (auto simp: getJsSrc_def bind_eq_None_conv)

definition sample_secret :: NodeSecret where
  "sample_secret = \<lparr>port = 41000, ca = Some (lit ''CA''), key = Some (lit ''K''), crt = Some (lit ''C''), authHeader = lit ''Basic x'',
     unixSocketFilePath = unix_socket_path (lit ''/data'')\<rparr>"

theorem node_source_constants_witness:
  "\<exists>src. getJsSrc False sample_secret (lit ''1.1.7_42'') (lit ''run()'') = Some src \<and>
     map_option (\<lambda>(cs, rest). (cs ! 8, rest)) (read_consts 11 src) = Some ((lit ''APP_VERSION'', lit ''1.1.7''), lit ''run()'')"
proof -
  have "\<forall>v \<in> {unixSocketFilePath sample_secret, lit ''CA'', lit ''C'', lit ''K'', authHeader sample_secret, hd (split_at 95 (lit ''1.1.7_42''))}. template_safe v"
    by (simp add: sample_secret_def unix_socket_path_def lit_def)
  moreover have "node_constants False sample_secret (lit ''CA'') (lit ''C'') (lit ''K'') (lit ''1.1.7_42'') ! 8 = (lit ''APP_VERSION'', lit ''1.1.7'')"
    by (simp add: node_constants_def lit_def)
  ultimately show ?thesis
    using node_source_constants [of sample_secret "lit ''CA''" "lit ''C''" "lit ''K''" False "lit ''1.1.7_42''" "lit ''run()''"]
    by (auto simp: sample_secret_def)
qed

end
