(* ===== verification/NodeStart.thy ===== *)
theory NodeStart
  imports Prelude
begin

text \<open>
  How Node is started: \<open>Node.kt\<close> and the method \<open>start\<close> of \<open>NativeNode.kt\<close>, as a step relation over any number of threads that call
  \<open>Node.getInstance\<close>, the thread that each \<open>Node\<close> object starts in its constructor, and the threads that run Node. Objects and runs are numbered.
\<close>

section \<open>States\<close>

text \<open>
  A call of \<open>getInstance\<close>: \<open>INSTANCE ?: synchronized(this) { INSTANCE ?: Node(context).also { INSTANCE = it } }\<close>. It reads the volatile variable,
  and when that is null waits for the monitor, reads again, constructs an object, stores it and leaves the monitor. The constructor runs the \<open>init\<close>
  block, which starts a thread, before the initialiser of the property \<open>liveData\<close>, which comes after the block in the class.
\<close>

datatype get_instance_pc =
  Idle | AtMonitor | InMonitor | Constructing | Initialising nat | Storing nat | Leaving nat | Returned nat

text \<open>
  The thread of a \<open>Node\<close> object: not there, making the secrets, in \<open>waitUntilReady\<close>, in \<open>NodeRetrofitHelper.init\<close>, about to post a result, ended with a
  posted result, or ended by an exception that nothing catches. The thread of a run of Node: in \<open>startNodeWithArguments\<close>, between the two assignments after it, or ended.
\<close>

datatype init_pc = NoThread | Preparing | Waiting | Connecting | Posting bool | Posted bool | Crashed
datatype run_pc = NoRun | InNode | Resetting | Ended

record node_app =
  instance_var :: "nat option"
  monitor :: "nat option"
  objects :: nat
  callers :: "nat \<Rightarrow> get_instance_pc"
  live_data :: "nat \<Rightarrow> bool"
  inits :: "nat \<Rightarrow> init_pc"
  running_flag :: bool
  ready_flag :: bool
  runs :: nat
  node_threads :: "nat \<Rightarrow> run_pc"

definition node_app_init :: node_app where
  "node_app_init = \<lparr>instance_var = None, monitor = None, objects = 0, callers = \<lambda>_. Idle, live_data = \<lambda>_. False, inits = \<lambda>_. NoThread,
     running_flag = False, ready_flag = False, runs = 0, node_threads = \<lambda>_. NoRun\<rparr>"

section \<open>Steps\<close>

text \<open>\<open>NativeNode.start\<close>: a thread for Node unless one is running.\<close>

definition native_start :: "node_app \<Rightarrow> node_app" where
  "native_start a =
     (if \<not> running_flag a then
        a\<lparr>running_flag := True, node_threads := (node_threads a)(runs a := InNode), runs := Suc (runs a)\<rparr>
      else a)"

text \<open>
  Posting to a property that is still null throws: the \<open>try\<close> block, which posts success, is left for the handler, which reads the property again
  and posts failure; a handler that throws ends the thread.
\<close>

inductive node_step :: "node_app \<Rightarrow> node_app \<Rightarrow> bool" where
  call_found: "callers a t = Idle \<Longrightarrow> instance_var a = Some n \<Longrightarrow> node_step a (a\<lparr>callers := (callers a)(t := Returned n)\<rparr>)"
| call_null: "callers a t = Idle \<Longrightarrow> instance_var a = None \<Longrightarrow> node_step a (a\<lparr>callers := (callers a)(t := AtMonitor)\<rparr>)"
| enter: "callers a t = AtMonitor \<Longrightarrow> monitor a = None \<Longrightarrow>
    node_step a (a\<lparr>monitor := Some t, callers := (callers a)(t := InMonitor)\<rparr>)"
| check_found: "callers a t = InMonitor \<Longrightarrow> instance_var a = Some n \<Longrightarrow>
    node_step a (a\<lparr>callers := (callers a)(t := Leaving n)\<rparr>)"
| check_null: "callers a t = InMonitor \<Longrightarrow> instance_var a = None \<Longrightarrow>
    node_step a (a\<lparr>callers := (callers a)(t := Constructing)\<rparr>)"
| construct: "callers a t = Constructing \<Longrightarrow>
    node_step a (a\<lparr>objects := Suc (objects a), inits := (inits a)(objects a := Preparing),
      callers := (callers a)(t := Initialising (objects a))\<rparr>)"
| initialise: "callers a t = Initialising n \<Longrightarrow>
    node_step a (a\<lparr>live_data := (live_data a)(n := True), callers := (callers a)(t := Storing n)\<rparr>)"
| store: "callers a t = Storing n \<Longrightarrow>
    node_step a (a\<lparr>instance_var := Some n, callers := (callers a)(t := Leaving n)\<rparr>)"
| leave: "callers a t = Leaving n \<Longrightarrow>
    node_step a (a\<lparr>monitor := None, callers := (callers a)(t := Returned n)\<rparr>)"
| again: "callers a t = Returned n \<Longrightarrow> node_step a (a\<lparr>callers := (callers a)(t := Idle)\<rparr>)"
| init_throws: "inits a n = Preparing \<Longrightarrow> node_step a (a\<lparr>inits := (inits a)(n := Posting False)\<rparr>)"
| init_start: "inits a n = Preparing \<Longrightarrow> node_step a ((native_start a)\<lparr>inits := (inits a)(n := Waiting)\<rparr>)"
| wait_sleep: "inits a n = Waiting \<Longrightarrow> \<not> ready_flag a \<Longrightarrow> node_step a a"
| wait_ready: "inits a n = Waiting \<Longrightarrow> ready_flag a \<Longrightarrow> node_step a (a\<lparr>inits := (inits a)(n := Connecting)\<rparr>)"
| wait_interrupted: "inits a n = Waiting \<Longrightarrow> \<not> ready_flag a \<Longrightarrow> node_step a (a\<lparr>inits := (inits a)(n := Posting False)\<rparr>)"
| connected: "inits a n = Connecting \<Longrightarrow> node_step a (a\<lparr>inits := (inits a)(n := Posting b)\<rparr>)"
| post: "inits a n = Posting b \<Longrightarrow> node_step a (a\<lparr>inits := (inits a)(n :=
      if live_data a n then Posted b else if b then Posting False else Crashed)\<rparr>)"
| listening: "node_threads a r = InNode \<Longrightarrow> node_step a (a\<lparr>ready_flag := True\<rparr>)"
| node_returns: "node_threads a r = InNode \<Longrightarrow>
    node_step a (a\<lparr>running_flag := False, node_threads := (node_threads a)(r := Resetting)\<rparr>)"
| node_reset: "node_threads a r = Resetting \<Longrightarrow>
    node_step a (a\<lparr>ready_flag := False, node_threads := (node_threads a)(r := Ended)\<rparr>)"

abbreviation node_reach :: "node_app \<Rightarrow> node_app \<Rightarrow> bool" where
  "node_reach \<equiv> node_step\<^sup>*\<^sup>*"

inductive_cases node_stepE: "node_step a b"

section \<open>One object\<close>

text \<open>The threads in the monitor, and where the construction of the object stands.\<close>

fun in_monitor :: "get_instance_pc \<Rightarrow> bool" where
  "in_monitor Idle = False"
| "in_monitor AtMonitor = False"
| "in_monitor (Returned n) = False"
| "in_monitor p = True"

text \<open>
  Outside the monitor there is no object, or one that is complete and stored; the thread in the monitor is on the way from the first
  to the second.
\<close>

fun phase_ok :: "nat option \<Rightarrow> nat \<Rightarrow> bool \<Rightarrow> get_instance_pc \<Rightarrow> bool" where
  "phase_ok i k l Constructing \<longleftrightarrow> i = None \<and> k = 0"
| "phase_ok i k l (Initialising n) \<longleftrightarrow> i = None \<and> k = 1 \<and> n = 0"
| "phase_ok i k l (Storing n) \<longleftrightarrow> i = None \<and> k = 1 \<and> n = 0 \<and> l"
| "phase_ok i k l (Leaving n) \<longleftrightarrow> i = Some n \<and> n = 0 \<and> k = 1 \<and> l"
| "phase_ok i k l p \<longleftrightarrow> i = None \<and> k = 0 \<or> i = Some 0 \<and> k = 1 \<and> l"

definition owner_pc :: "node_app \<Rightarrow> get_instance_pc" where
  "owner_pc a = (case monitor a of None \<Rightarrow> Idle | Some t \<Rightarrow> callers a t)"

definition singleton_inv :: "node_app \<Rightarrow> bool" where
  "singleton_inv a \<longleftrightarrow>
     (\<forall>t. in_monitor (callers a t) \<longleftrightarrow> monitor a = Some t) \<and>
     (\<forall>t n. callers a t = Returned n \<longrightarrow> instance_var a = Some n) \<and>
     phase_ok (instance_var a) (objects a) (live_data a 0) (owner_pc a) \<and>
     (\<forall>n. inits a n \<noteq> NoThread \<longleftrightarrow> n < objects a)"

lemma singleton_inv_init: "singleton_inv node_app_init"
  by (simp add: singleton_inv_def node_app_init_def owner_pc_def)

lemma native_start_simps [simp]:
  "instance_var (native_start a) = instance_var a" "monitor (native_start a) = monitor a" "objects (native_start a) = objects a"
  "callers (native_start a) = callers a" "live_data (native_start a) = live_data a" "inits (native_start a) = inits a"
  "ready_flag (native_start a) = ready_flag a"
  by (simp_all add: native_start_def)

lemma outside_monitor:
  assumes "singleton_inv a" and "callers a t = p" and "\<not> in_monitor p" and "\<not> in_monitor q"
    and "\<forall>n. q = Returned n \<longrightarrow> instance_var a = Some n"
  shows "singleton_inv (a\<lparr>callers := (callers a)(t := q)\<rparr>)"
proof -
  have "monitor a \<noteq> Some t" using assms by (auto simp: singleton_inv_def)
  then have "owner_pc (a\<lparr>callers := (callers a)(t := q)\<rparr>) = owner_pc a" by (auto simp: owner_pc_def split: option.split)
  then show ?thesis using assms by (auto simp: singleton_inv_def)
qed

lemma in_monitor_owner:
  assumes "singleton_inv a" and "callers a t = p" and "in_monitor p"
  shows "monitor a = Some t" "owner_pc a = p" "phase_ok (instance_var a) (objects a) (live_data a 0) p"
    "u \<noteq> t \<Longrightarrow> \<not> in_monitor (callers a u)"
  using assms by (auto simp: singleton_inv_def owner_pc_def)

lemma singleton_frame:
  assumes "singleton_inv a" and "instance_var b = instance_var a" "monitor b = monitor a" "objects b = objects a"
    "callers b = callers a" "live_data b = live_data a" "\<And>n. inits b n \<noteq> NoThread \<longleftrightarrow> inits a n \<noteq> NoThread"
  shows "singleton_inv b"
proof -
  have "owner_pc b = owner_pc a" unfolding owner_pc_def assms(3,5) ..
  then show ?thesis using assms by (simp add: singleton_inv_def)
qed

text \<open>A step of the thread in the monitor: it stays there, or leaves.\<close>

lemma monitor_step:
  assumes inv: "singleton_inv a" and t: "callers a t = p" "in_monitor p" and b: "callers b = (callers a)(t := q)"
    and m: "monitor b = (if in_monitor q then Some t else None)"
    and phase: "phase_ok (instance_var a) (objects a) (live_data a 0) p \<Longrightarrow>
      phase_ok (instance_var b) (objects b) (live_data b 0) (if in_monitor q then q else Idle)"
    and i: "\<And>n. instance_var a = Some n \<Longrightarrow> instance_var b = Some n" "\<And>n. q = Returned n \<Longrightarrow> instance_var b = Some n"
    and n: "\<And>n. inits b n \<noteq> NoThread \<longleftrightarrow> n < objects b"
  shows "singleton_inv b"
proof -
  note owner = in_monitor_owner [OF inv t]
  have "owner_pc b = (if in_monitor q then q else Idle)" by (simp add: owner_pc_def m b)
  moreover have "in_monitor (callers b u) \<longleftrightarrow> monitor b = Some u" for u
    using owner(4) [of u] by (simp add: b m)
  moreover have "instance_var b = Some n" if "callers b u = Returned n" for u n
    using that i inv unfolding singleton_inv_def b by (auto split: if_splits)
  ultimately show ?thesis using phase [OF owner(3)] n by (simp add: singleton_inv_def)
qed

lemma inits_iff: "singleton_inv a \<Longrightarrow> inits a n = NoThread \<longleftrightarrow> \<not> n < objects a"
  unfolding singleton_inv_def by metis

lemma singleton_step: "node_step a b \<Longrightarrow> singleton_inv a \<Longrightarrow> singleton_inv b"
proof (induction rule: node_step.induct)
  case (call_found a t n)
  then show ?case using outside_monitor [of a t Idle "Returned n"] by simp
next
  case (call_null a t)
  then show ?case using outside_monitor [of a t Idle AtMonitor] by simp
next
  case (enter a t)
  then show ?case unfolding singleton_inv_def owner_pc_def by simp
next
  case (check_found a t n)
  note inv = this
  show ?case by (rule monitor_step [of a t InMonitor _ "Leaving n"])
    (use inv in_monitor_owner(1) [of a t InMonitor] in \<open>simp_all add: inits_iff less_Suc_eq\<close>)
next
  case (check_null a t)
  note inv = this
  show ?case by (rule monitor_step [of a t InMonitor _ Constructing])
    (use inv in_monitor_owner(1) [of a t InMonitor] in \<open>simp_all add: inits_iff less_Suc_eq\<close>)
next
  case (construct a t)
  note inv = this
  show ?case by (rule monitor_step [of a t Constructing _ "Initialising (objects a)"])
    (use inv in_monitor_owner(1) [of a t Constructing] in \<open>simp_all add: inits_iff less_Suc_eq\<close>)
next
  case (initialise a t n)
  note inv = this
  show ?case by (rule monitor_step [of a t "Initialising n" _ "Storing n"])
    (use inv in_monitor_owner(1) [of a t "Initialising n"] in \<open>simp_all add: inits_iff less_Suc_eq\<close>)
next
  case (store a t n)
  note inv = this
  show ?case by (rule monitor_step [of a t "Storing n" _ "Leaving n"])
    (use inv in_monitor_owner(1,3) [of a t "Storing n"] in \<open>simp_all add: inits_iff less_Suc_eq\<close>)
next
  case (leave a t n)
  note inv = this
  show ?case by (rule monitor_step [of a t "Leaving n" _ "Returned n"])
    (use inv in_monitor_owner(1,3) [of a t "Leaving n"] in \<open>simp_all add: inits_iff less_Suc_eq\<close>)
next
  case (again a t n)
  then show ?case using outside_monitor [of a t "Returned n" Idle] by simp
qed (erule singleton_frame; simp; fail)+

lemma singleton_objects: "singleton_inv a \<Longrightarrow> objects a \<le> 1"
  by (cases "owner_pc a") (auto simp: singleton_inv_def)

lemma instance_complete:
  assumes "singleton_inv a" and "instance_var a = Some n"
  shows "n = 0 \<and> live_data a 0"
proof -
  have "phase_ok (Some n) (objects a) (live_data a 0) (owner_pc a)" using assms unfolding singleton_inv_def by metis
  then show ?thesis by (cases "owner_pc a") auto
qed

section \<open>One run\<close>

definition run_inv :: "node_app \<Rightarrow> bool" where
  "run_inv a \<longleftrightarrow>
     (inits a 0 \<in> {NoThread, Preparing} \<longrightarrow> runs a = 0) \<and> (inits a 0 = Waiting \<longrightarrow> runs a = 1) \<and> runs a \<le> 1 \<and>
     (\<forall>r. node_threads a r = NoRun \<longleftrightarrow> \<not> r < runs a) \<and> (running_flag a \<longleftrightarrow> node_threads a 0 = InNode) \<and>
     (ready_flag a \<longrightarrow> node_threads a 0 \<in> {InNode, Resetting})"

lemma run_inv_init: "run_inv node_app_init"
  by (simp add: run_inv_def node_app_init_def)

lemma thread_zero:
  assumes "singleton_inv a" and "inits a n \<noteq> NoThread"
  shows "n = 0"
  using assms singleton_objects [OF assms(1)] by (simp add: inits_iff)

lemma run_zero: "run_inv a \<Longrightarrow> node_threads a r \<noteq> NoRun \<Longrightarrow> r = 0"
  by (simp add: run_inv_def)

lemma run_pos: "run_inv a \<Longrightarrow> node_threads a 0 \<noteq> NoRun \<Longrightarrow> runs a = 1"
  unfolding run_inv_def by (metis One_nat_def le_antisym less_eq_Suc_le)

lemma run_step: "node_step a b \<Longrightarrow> singleton_inv a \<Longrightarrow> run_inv a \<Longrightarrow> run_inv b"
proof (induction rule: node_step.induct)
  case (construct a t)
  then have "objects a = 0" using in_monitor_owner(3) [of a t Constructing] by simp
  with construct have "inits a 0 = NoThread" by (simp add: inits_iff)
  with construct \<open>objects a = 0\<close> show ?case by (simp add: run_inv_def)
next
  case (init_start a n)
  then have "n = 0" using thread_zero [of a n] by simp
  moreover from this init_start have "runs a = 0" "node_threads a 0 = NoRun" by (simp_all add: run_inv_def)
  ultimately show ?case using init_start by (simp add: run_inv_def native_start_def)
next
  case (node_returns a r)
  then have "r = 0" using run_zero [of a r] by simp
  moreover from this node_returns have "runs a = 1" using run_pos [of a] by simp
  ultimately show ?case using node_returns by (simp add: run_inv_def)
next
  case (node_reset a r)
  then have "r = 0" using run_zero [of a r] by simp
  moreover from this node_reset have "runs a = 1" using run_pos [of a] by simp
  ultimately show ?case using node_reset by (simp add: run_inv_def)
next
  case (listening a r)
  then have "r = 0" using run_zero [of a r] by simp
  moreover from this listening have "runs a = 1" using run_pos [of a] by simp
  ultimately show ?case using listening by (simp add: run_inv_def)
qed (simp_all add: run_inv_def)

lemma node_reach_inv:
  assumes "node_reach node_app_init a"
  shows "singleton_inv a \<and> run_inv a"
  using assms by (induction rule: rtranclp_induct) (use singleton_inv_init run_inv_init singleton_step run_step in blast)+

text \<open>
  C7. Node is started at most once. However the calls of \<open>Node.getInstance\<close> interleave, at most one \<open>Node\<close> object is constructed and Node is run at
  most once; all calls return the same object, completely constructed; and the flag that Node is ready is only set while the thread of that run is
  in Node or about to clear the flag.
\<close>

theorem node_started_once:
  assumes "node_reach node_app_init a"
  shows "objects a \<le> 1 \<and> runs a \<le> 1 \<and>
    (\<forall>t u n m. callers a t = Returned n \<and> callers a u = Returned m \<longrightarrow> n = m \<and> live_data a n) \<and>
    (ready_flag a \<longrightarrow> node_threads a 0 \<in> {InNode, Resetting})"
proof -
  have inv: "singleton_inv a" "run_inv a" using node_reach_inv [OF assms] by auto
  have "n = m \<and> live_data a n" if "callers a t = Returned n" "callers a u = Returned m" for t u n m
  proof -
    have "instance_var a = Some n" "instance_var a = Some m" using inv(1) that unfolding singleton_inv_def by blast+
    then show ?thesis using instance_complete [OF inv(1)] by auto
  qed
  then show ?thesis using inv singleton_objects by (auto simp: run_inv_def)
qed

section \<open>The result of the initialisation\<close>

definition hopeless :: "node_app \<Rightarrow> bool" where
  "hopeless a \<longleftrightarrow> \<not> ready_flag a \<and> node_threads a 0 \<in> {Resetting, Ended} \<and>
     inits a 0 \<in> {Waiting, Posting False, Posted False, Crashed}"

lemma hopeless_step:
  assumes "node_step a b" and "singleton_inv a" and "run_inv a" and "hopeless a"
  shows "hopeless b"
proof -
  have n: "n = 0" if "inits a n \<noteq> NoThread" for n using thread_zero [OF assms(2) that] .
  have r: "r = 0" if "node_threads a r \<noteq> NoRun" for r using run_zero [OF assms(3) that] .
  have o: "objects a \<noteq> 0" using assms(2,4) inits_iff [of a 0] by (auto simp: hopeless_def)
  have idle: "inits a m \<noteq> Preparing" "inits a m \<noteq> Connecting" "inits a m = Posting c \<Longrightarrow> m = 0 \<and> \<not> c" for m c
    using n [of m] assms(4) by (auto simp: hopeless_def)
  have off: "node_threads a m \<noteq> InNode" for m using r [of m] assms(4) by (auto simp: hopeless_def)
  from assms(1) show ?thesis
  proof cases
    case (wait_ready m)
    then show ?thesis using assms(4) by (simp add: hopeless_def)
  next
    case (wait_interrupted m)
    then show ?thesis using assms(4) n [of m] by (simp add: hopeless_def)
  next
    case (post m c)
    then show ?thesis using assms(4) idle(3) [of m c] by (simp add: hopeless_def)
  next
    case (node_reset m)
    then show ?thesis using assms(4) r [of m] by (simp add: hopeless_def)
  next
    case (construct t)
    then show ?thesis using assms(4) o by (simp add: hopeless_def)
  qed (use assms(4) idle off in \<open>simp_all add: hopeless_def\<close>)
qed

lemma hopeless_reach:
  assumes "node_reach a b" and "singleton_inv a" and "run_inv a" and "hopeless a"
  shows "hopeless b"
proof -
  have "singleton_inv b \<and> run_inv b \<and> hopeless b"
    using assms by (induction rule: rtranclp_induct) (use singleton_step run_step hopeless_step in blast)+
  then show ?thesis by simp
qed

text \<open>The constructor can always finish, without a change to the other threads.\<close>

lemma live_data_reachable:
  assumes "singleton_inv a" and "inits a 0 \<noteq> NoThread"
  shows "\<exists>b. node_reach a b \<and> live_data b 0 \<and> inits b = inits a \<and> node_threads b = node_threads a \<and> ready_flag b = ready_flag a"
proof (cases "live_data a 0")
  case False
  have "phase_ok (instance_var a) (objects a) (live_data a 0) (owner_pc a)" "objects a \<noteq> 0"
    using assms inits_iff [of a 0] by (auto simp: singleton_inv_def)
  with False have "owner_pc a = Initialising 0" by (cases "owner_pc a") auto
  then obtain t where "callers a t = Initialising 0" by (auto simp: owner_pc_def split: option.splits)
  from initialise [OF this] show ?thesis by (intro exI conjI) (rule r_into_rtranclp, assumption, simp_all)
qed auto

lemma ready_posts:
  assumes "ready_flag a" and "inits a 0 = Waiting" and "live_data a 0"
  shows "\<exists>b. node_reach a b \<and> inits b 0 = Posted True"
proof -
  let ?b = "a\<lparr>inits := (inits a)(0 := Connecting)\<rparr>"
  let ?c = "?b\<lparr>inits := (inits ?b)(0 := Posting True)\<rparr>"
  let ?d = "?c\<lparr>inits := (inits ?c)(0 := if live_data ?c 0 then Posted True else if True then Posting False else Crashed)\<rparr>"
  have "node_step a ?b" using assms by (intro wait_ready)
  moreover have "node_step ?b ?c" by (rule connected) simp
  moreover have "node_step ?c ?d" by (rule post) simp
  ultimately have "node_reach a ?d" by (meson converse_rtranclp_into_rtranclp rtranclp.rtrancl_refl)
  moreover have "inits ?d 0 = Posted True" using assms(3) by simp
  ultimately show ?thesis by blast
qed

text \<open>
  C13. When the initialisation can succeed. From a reachable state in which the thread of the \<open>Node\<close> object waits for Node, it can still post
  success if and only if Node has said that it listens, or has not ended. When Node has ended before it listened, nothing sets the flag again,
  and in every state reached from there the thread is still waiting, or has been interrupted and posts a failure, has posted it, or has died of
  posting it: success is never posted.
\<close>

theorem init_succeeds_iff:
  assumes "node_reach node_app_init a" and "inits a 0 = Waiting"
  shows "((\<exists>b. node_reach a b \<and> inits b 0 = Posted True) \<longleftrightarrow> ready_flag a \<or> node_threads a 0 = InNode) \<and>
    (\<not> (ready_flag a \<or> node_threads a 0 = InNode) \<longrightarrow>
       (\<forall>b. node_reach a b \<longrightarrow> \<not> ready_flag b \<and> inits b 0 \<in> {Waiting, Posting False, Posted False, Crashed}))"
proof -
  have inv: "singleton_inv a" "run_inv a" using node_reach_inv [OF assms(1)] by auto
  obtain b where b: "node_reach a b" "live_data b 0" "inits b 0 = Waiting" "node_threads b = node_threads a" "ready_flag b = ready_flag a"
    using live_data_reachable [OF inv(1)] assms(2) by auto
  have "\<exists>c. node_reach b c \<and> inits c 0 = Posted True" if "ready_flag a \<or> node_threads a 0 = InNode"
  proof (cases "ready_flag a")
    case False
    then have "node_step b (b\<lparr>ready_flag := True\<rparr>)" using that b(4) by (intro listening [of b 0]) simp
    moreover obtain c where "node_reach (b\<lparr>ready_flag := True\<rparr>) c" "inits c 0 = Posted True"
      using ready_posts [of "b\<lparr>ready_flag := True\<rparr>"] b(2,3) by auto
    ultimately show ?thesis by (meson converse_rtranclp_into_rtranclp)
  qed (use ready_posts b in auto)
  moreover have stuck: "\<not> ready_flag b \<and> inits b 0 \<in> {Waiting, Posting False, Posted False, Crashed}"
    if "\<not> (ready_flag a \<or> node_threads a 0 = InNode)" "node_reach a b" for b
  proof -
    have "node_threads a 0 \<noteq> NoRun" using inv(2) assms(2) by (simp add: run_inv_def)
    with that assms(2) have "hopeless a" by (cases "node_threads a 0") (auto simp: hopeless_def)
    then show ?thesis using hopeless_reach [OF that(2) inv] by (simp add: hopeless_def)
  qed
  moreover have "inits b 0 \<noteq> Posted True" if "\<not> (ready_flag a \<or> node_threads a 0 = InNode)" "node_reach a b" for b
    using stuck [OF that] by auto
  ultimately show ?thesis using b(1) by (meson rtranclp_trans)
qed

section \<open>A reachable failure\<close>

text \<open>The first caller is in the constructor: it has started the thread and not initialised \<open>liveData\<close> yet.\<close>

definition constructing_app :: node_app where
  "constructing_app = node_app_init\<lparr>monitor := Some 0, callers := (\<lambda>_. Idle)(0 := Initialising 0), objects := 1,
     inits := (\<lambda>_. NoThread)(0 := Preparing)\<rparr>"

lemma constructing_reach: "node_reach node_app_init constructing_app"
proof -
  let ?c = "\<lambda>p. (\<lambda>_. Idle)(0 := p)"
  let ?a = "node_app_init\<lparr>callers := ?c AtMonitor\<rparr>"
  let ?b = "node_app_init\<lparr>monitor := Some 0, callers := ?c InMonitor\<rparr>"
  let ?d = "node_app_init\<lparr>monitor := Some 0, callers := ?c Constructing\<rparr>"
  have "node_step node_app_init ?a" using call_null [of node_app_init 0] by (simp add: node_app_init_def)
  moreover have "node_step ?a ?b" using enter [of ?a 0] by (simp add: node_app_init_def)
  moreover have "node_step ?b ?d" using check_null [of ?b 0] by (simp add: node_app_init_def)
  moreover have "node_step ?d constructing_app" using construct [of ?d 0] by (simp add: node_app_init_def constructing_app_def)
  ultimately show ?thesis by (meson converse_rtranclp_into_rtranclp rtranclp.rtrancl_refl)
qed

text \<open>
  C14. The result can be posted too early. The constructor of \<open>Node\<close> starts the thread before the property \<open>liveData\<close> has its value; a thread that
  fails at once posts to null, and so does its handler: a state in which the thread has died of the exception is reachable.
\<close>

theorem post_before_live_data: "\<exists>a. node_reach node_app_init a \<and> inits a 0 = Crashed \<and> \<not> live_data a 0"
proof -
  let ?a = "constructing_app\<lparr>inits := (inits constructing_app)(0 := Posting False)\<rparr>"
  let ?b = "?a\<lparr>inits := (inits ?a)(0 := if live_data ?a 0 then Posted False else if False then Posting False else Crashed)\<rparr>"
  have "node_step constructing_app ?a" by (rule init_throws) (simp add: constructing_app_def)
  moreover have "node_step ?a ?b" by (rule post) simp
  ultimately have "node_reach node_app_init ?b" using constructing_reach by (meson rtranclp.rtrancl_into_rtrancl)
  moreover have "inits ?b 0 = Crashed" "\<not> live_data ?b 0" by (simp_all add: constructing_app_def node_app_init_def)
  ultimately show ?thesis by blast
qed

section \<open>Concrete states\<close>

definition waiting_app :: node_app where
  "waiting_app = (native_start constructing_app)\<lparr>inits := (inits constructing_app)(0 := Waiting)\<rparr>"

lemma waiting_reach: "node_reach node_app_init waiting_app"
  using rtranclp.rtrancl_into_rtrancl [OF constructing_reach] init_start [of constructing_app 0]
  by (simp add: waiting_app_def constructing_app_def)

theorem node_started_once_witness: "objects waiting_app \<le> 1 \<and> runs waiting_app = 1"
  using node_started_once [OF waiting_reach] by (simp add: waiting_app_def constructing_app_def native_start_def node_app_init_def)

theorem init_succeeds_iff_witness: "\<exists>b. node_reach waiting_app b \<and> inits b 0 = Posted True"
  using init_succeeds_iff [OF waiting_reach]
  by (simp add: waiting_app_def constructing_app_def native_start_def node_app_init_def)

end
