(* ===== verification/PgpPwd.thy ===== *)
theory PgpPwd
  imports Complex_Main NodeHost "HOL-Library.Signed_Division" "HOL-Library.Sublist"
begin

text \<open>
  \<open>PgpPwd.kt\<close>: how strong a pass phrase is, whether it is accepted, and one-time passwords from random bytes. The number of guesses comes from the
  zxcvbn package and is a parameter. \<open>BigDecimal\<close> is modelled with its unscaled value and its scale, both unbounded.
\<close>

section \<open>BigDecimal\<close>

record BigDecimal =
  unscaled :: int
  scale :: int

definition ZERO :: BigDecimal where "ZERO = \<lparr>unscaled = 0, scale = 0\<rparr>"
definition ONE :: BigDecimal where "ONE = \<lparr>unscaled = 1, scale = 0\<rparr>"

definition toBigDecimal :: "int \<Rightarrow> BigDecimal" where "toBigDecimal n = \<lparr>unscaled = n, scale = 0\<rparr>"

text \<open>The two unscaled values of \<open>a\<close> and \<open>b\<close> at a common scale; \<open>compareTo\<close>, while \<open>==\<close> is equality of the records.\<close>

definition aligned :: "BigDecimal \<Rightarrow> BigDecimal \<Rightarrow> int \<times> int" where
  "aligned a b = (unscaled a * 10 ^ nat (scale b - scale a), unscaled b * 10 ^ nat (scale a - scale b))"

definition bd_greater :: "BigDecimal \<Rightarrow> BigDecimal \<Rightarrow> bool" where
  "bd_greater a b = (let (x, y) = aligned a b in y < x)"

text \<open>
  \<open>divide(b)\<close>: the exact quotient at the least scale that is not less than the preferred one, the difference of the scales; an
  \<open>ArithmeticException\<close> if there is none. A fraction with a finite decimal form needs at most as many places as the denominator has bits.
\<close>

fun bits :: "int \<Rightarrow> nat" where
  "bits n = (if n \<le> 0 then 0 else Suc (bits (n div 2)))"

declare bits.simps [simp del]

definition divide_exact :: "BigDecimal \<Rightarrow> BigDecimal \<Rightarrow> BigDecimal option" where
  "divide_exact a b =
     (if unscaled b = 0 then None
      else map_option (\<lambda>k. \<lparr>unscaled = unscaled a * 10 ^ k div unscaled b, scale = scale a - scale b + int k\<rparr>)
        (find (\<lambda>k. unscaled b dvd unscaled a * 10 ^ k) [0..<Suc (bits \<bar>unscaled b\<bar>)]))"

text \<open>\<open>divide(b, 0, RoundingMode.HALF_UP)\<close>: the nearest integer, ties away from zero.\<close>

definition half_up :: "int \<Rightarrow> int \<Rightarrow> int" where
  "half_up n m = sgn n * sgn m * ((2 * \<bar>n\<bar> + \<bar>m\<bar>) div (2 * \<bar>m\<bar>))"

definition divide_half_up :: "BigDecimal \<Rightarrow> BigDecimal \<Rightarrow> BigDecimal option" where
  "divide_half_up a b =
     (let (n, m) = aligned a b in if m = 0 then None else Some \<lparr>unscaled = half_up n m, scale = 0\<rparr>)"

definition toBigInteger :: "BigDecimal \<Rightarrow> int" where
  "toBigInteger a =
     (if scale a \<le> 0 then unscaled a * 10 ^ nat (- scale a) else sgn (unscaled a) * (\<bar>unscaled a\<bar> div 10 ^ nat (scale a)))"

text \<open>The number a \<open>BigDecimal\<close> stands for.\<close>

definition val :: "BigDecimal \<Rightarrow> rat" where
  "val a = rat_of_int (unscaled a) * 10 powi (- scale a)"

section \<open>The tables\<close>

record Word =
  match_word :: jstr
  word :: jstr
  bar :: int
  color :: jstr
  pass :: bool

datatype PwdType = PASSPHRASE | PASSWORD

record PwdStrengthResult =
  strength_word :: Word
  seconds :: int
  time :: jstr

definition CRACK_GUESSES_PER_SECOND :: BigDecimal where "CRACK_GUESSES_PER_SECOND = toBigDecimal (10000 * 2 * 4000)"

definition DAYS_toSeconds :: "int \<Rightarrow> int" where "DAYS_toSeconds d = d * 86400"

definition SECONDS_PER_MILLENNIUM :: BigDecimal where "SECONDS_PER_MILLENNIUM = toBigDecimal (DAYS_toSeconds (365 * 100 * 1000))"
definition SECONDS_PER_CENTURY :: BigDecimal where "SECONDS_PER_CENTURY = toBigDecimal (DAYS_toSeconds (365 * 100))"
definition SECONDS_PER_YEAR :: BigDecimal where "SECONDS_PER_YEAR = toBigDecimal (DAYS_toSeconds 365)"
definition SECONDS_PER_MONTH :: BigDecimal where "SECONDS_PER_MONTH = toBigDecimal (DAYS_toSeconds 30)"
definition SECONDS_PER_WEEK :: BigDecimal where "SECONDS_PER_WEEK = toBigDecimal (DAYS_toSeconds 7)"
definition SECONDS_PER_DAY :: BigDecimal where "SECONDS_PER_DAY = toBigDecimal (DAYS_toSeconds 1)"
definition SECONDS_PER_HOUR :: BigDecimal where "SECONDS_PER_HOUR = toBigDecimal 3600"
definition SECONDS_PER_MINUTE :: BigDecimal where "SECONDS_PER_MINUTE = toBigDecimal 60"
definition SECONDS_PER_SECONDS :: BigDecimal where "SECONDS_PER_SECONDS = toBigDecimal 1"

definition mk_word :: "string \<Rightarrow> string \<Rightarrow> int \<Rightarrow> string \<Rightarrow> bool \<Rightarrow> Word" where
  "mk_word m w b c p = \<lparr>match_word = lit m, word = lit w, bar = b, color = lit c, pass = p\<rparr>"

definition CRACK_TIME_WORDS_PASSWORD :: "Word list" where
  "CRACK_TIME_WORDS_PASSWORD =
     [mk_word ''millenni'' ''perfect'' 100 ''green'' True,
      mk_word ''centu'' ''perfect'' 95 ''green'' True,
      mk_word ''year'' ''great'' 80 ''orange'' True,
      mk_word ''month'' ''good'' 70 ''darkorange'' True,
      mk_word ''week'' ''good'' 30 ''darkred'' True,
      mk_word ''day'' ''reasonable'' 40 ''darkorange'' True,
      mk_word ''hour'' ''bare minimum'' 20 ''darkred'' True,
      mk_word ''minute'' ''poor'' 15 ''red'' False,
      mk_word '''' ''weak'' 10 ''red'' False]"

definition CRACK_TIME_WORDS_PASSPHRASE :: "Word list" where
  "CRACK_TIME_WORDS_PASSPHRASE =
     [mk_word ''millenni'' ''perfect'' 100 ''green'' True,
      mk_word ''centu'' ''great'' 80 ''green'' True,
      mk_word ''year'' ''good'' 60 ''orange'' True,
      mk_word ''month'' ''reasonable'' 40 ''darkorange'' True,
      mk_word ''week'' ''poor'' 30 ''darkred'' False,
      mk_word ''day'' ''poor'' 20 ''darkred'' False,
      mk_word '''' ''weak'' 10 ''red'' False]"

section \<open>Strength\<close>

definition numberWordEnding :: "BigDecimal \<Rightarrow> jstr" where
  "numberWordEnding n = (if bd_greater n ONE then lit ''s'' else [])"

text \<open>\<open>"$n unit..."\<close> for a number of scale 0, whose \<open>toString\<close> is that of its unscaled value.\<close>

definition count_of :: "BigDecimal \<Rightarrow> string \<Rightarrow> jstr" where
  "count_of n unit_name = dec_string (unscaled n) @ lit '' '' @ lit unit_name @ numberWordEnding n"

text \<open>One step of \<open>readableCrackTime\<close>: the total in a unit, shown if positive, and what follows otherwise.\<close>

definition in_unit :: "BigDecimal \<Rightarrow> BigDecimal \<Rightarrow> (BigDecimal \<Rightarrow> jstr) \<Rightarrow> (kt_exception + jstr) \<Rightarrow> kt_exception + jstr" where
  "in_unit totalSeconds unit_seconds shown rest =
     and_then (or_throw Arithmetic (divide_half_up totalSeconds unit_seconds)) (\<lambda>n.
       if bd_greater n ZERO then Inr (shown n) else rest)"

definition readableCrackTime :: "BigDecimal \<Rightarrow> kt_exception + jstr" where
  "readableCrackTime totalSeconds =
     in_unit totalSeconds SECONDS_PER_MILLENNIUM (\<lambda>millennia. if millennia = ONE then lit ''a millennium'' else lit ''millennia'')
     (in_unit totalSeconds SECONDS_PER_CENTURY (\<lambda>centuries. if centuries = ONE then lit ''a century'' else lit ''centuries'')
     (in_unit totalSeconds SECONDS_PER_YEAR (\<lambda>years. count_of years ''year'')
     (in_unit totalSeconds SECONDS_PER_MONTH (\<lambda>months. count_of months ''month'')
     (in_unit totalSeconds SECONDS_PER_WEEK (\<lambda>weeks. count_of weeks ''week'')
     (in_unit totalSeconds SECONDS_PER_DAY (\<lambda>days. count_of days ''day'')
     (in_unit totalSeconds SECONDS_PER_HOUR (\<lambda>hours. count_of hours ''hour'')
     (in_unit totalSeconds SECONDS_PER_MINUTE (\<lambda>minutes. count_of minutes ''minute'')
     (in_unit totalSeconds SECONDS_PER_SECONDS (\<lambda>secs. count_of secs ''second'')
     (Inr (lit ''less than a second''))))))))))"

text \<open>\<open>CharSequence.contains\<close>.\<close>

definition contains :: "jstr \<Rightarrow> jstr \<Rightarrow> bool" where
  "contains s p \<longleftrightarrow> list_ex (\<lambda>i. startsWith (drop i s) p) [0..<Suc (length s)]"

definition words_of :: "PwdType \<Rightarrow> Word list" where
  "words_of type = (case type of PASSPHRASE \<Rightarrow> CRACK_TIME_WORDS_PASSPHRASE | PASSWORD \<Rightarrow> CRACK_TIME_WORDS_PASSWORD)"

definition estimateStrength :: "BigDecimal \<Rightarrow> PwdType \<Rightarrow> kt_exception + PwdStrengthResult" where
  "estimateStrength guesses type =
     and_then (or_throw Arithmetic (divide_exact guesses CRACK_GUESSES_PER_SECOND)) (\<lambda>timeToCrack.
     and_then (readableCrackTime timeToCrack) (\<lambda>readableTime.
       case find (\<lambda>w. contains readableTime (match_word w)) (words_of type) of
         Some w \<Rightarrow> Inr \<lparr>strength_word = w, seconds = toBigInteger timeToCrack, time = readableTime\<rparr>
       | None \<Rightarrow> Inl IllegalArgument))"

definition PASSWORD_WEAK_WORDS :: "jstr list" where
  "PASSWORD_WEAK_WORDS = map lit
     [''crypt'', ''up'', ''cryptup'', ''flow'', ''flowcrypt'', ''encryption'', ''pgp'', ''email'', ''set'', ''backup'',
      ''passphrase'', ''best'', ''pass'', ''phrases'', ''are'', ''long'', ''and'', ''have'', ''several'', ''words'', ''in'',
      ''them'', ''Best pass phrases are long'', ''have several words'', ''in them'', ''bestpassphrasesarelong'',
      ''haveseveralwords'', ''inthem'', ''Loss of this pass phrase'', ''cannot be recovered'', ''Note it down'',
      ''on a paper'', ''lossofthispassphrase'', ''cannotberecovered'', ''noteitdown'', ''onapaper'', ''setpassword'',
      ''set password'', ''set pass word'', ''setpassphrase'', ''set pass phrase'', ''set passphrase'']"

text \<open>
  \<open>checkForWeakPassphrase\<close>; the number of guesses is that of the package, \<open>None\<close> where the conversion of a \<open>Double\<close> that is not a finite number throws.
\<close>

definition checkForWeakPassphrase :: "(jstr \<Rightarrow> jstr list \<Rightarrow> BigDecimal option) \<Rightarrow> jstr \<Rightarrow> kt_exception + unit" where
  "checkForWeakPassphrase zxcvbn passphrase =
     and_then (or_throw NumberFormat (zxcvbn passphrase PASSWORD_WEAK_WORDS)) (\<lambda>guesses.
     and_then (estimateStrength guesses PASSPHRASE) (\<lambda>passwordStrength.
       let w = word (strength_word passwordStrength)
       in if w = lit ''weak'' \<or> w = lit ''poor'' then Inl PrivateKeyStrength
          else if w = lit ''reasonable'' \<or> w = lit ''good'' \<or> w = lit ''great'' \<or> w = lit ''perfect'' then Inr ()
          else Inl IllegalArgument))"

section \<open>One-time passwords\<close>

text \<open>One character: the remainder truncates, as in Kotlin.\<close>

definition password_char :: "8 word \<Rightarrow> jchar" where
  "password_char b0 =
     (let b = (let r = sint b0 smod 36 in if r < 0 then r + 36 else r)
      in if b < 10 then 48 + of_int b else 65 + of_int (b - 10))"

fun password_chars :: "nat \<Rightarrow> 8 word list \<Rightarrow> jstr" where
  "password_chars i [] = []"
| "password_chars i (b # bs) =
     (if 0 < i \<and> i mod 4 = 0 then [45] else []) @ [password_char b] @ password_chars (Suc i) bs"

definition bytesToPassword :: "8 word list \<Rightarrow> kt_exception + jstr" where
  "bytesToPassword bytes = (if length bytes < 16 then Inl IllegalArgument else Inr (password_chars 0 bytes))"

text \<open>\<open>random\<close>, on the sixteen bytes of \<open>SecureRandom.nextBytes\<close>.\<close>

definition random_password :: "(nat \<Rightarrow> 8 word list) \<Rightarrow> kt_exception + jstr" where
  "random_password nextBytes = bytesToPassword (nextBytes 16)"

section \<open>Arithmetic of BigDecimal\<close>

lemma half_up_pos: "0 < m \<Longrightarrow> 0 < half_up n m \<longleftrightarrow> m \<le> 2 * n"
proof (cases n "0::int" rule: linorder_cases)
  case greater
  assume m: "0 < m"
  then have "0 < half_up n m \<longleftrightarrow> 0 < (2 * n + m) div (2 * m)" using greater by (simp add: half_up_def)
  also have "\<dots> \<longleftrightarrow> 2 * m \<le> 2 * n + m" using m by (simp add: pos_imp_zdiv_pos_iff)
  finally show ?thesis by simp
next
  case less
  assume m: "0 < m"
  with less have "0 \<le> (2 * \<bar>n\<bar> + \<bar>m\<bar>) div (2 * \<bar>m\<bar>)" by (intro div_int_pos_iff [THEN iffD2]) auto
  with less m show ?thesis by (simp add: half_up_def)
qed (simp add: half_up_def)

lemma val_ge: "rat_of_int m / 2 \<le> val a \<longleftrightarrow> m * 10 ^ nat (scale a) \<le> 2 * (unscaled a * 10 ^ nat (- scale a))"
proof -
  have "rat_of_int m / 2 \<le> val a \<longleftrightarrow> rat_of_int (m * 10 ^ nat (scale a)) \<le> rat_of_int (2 * (unscaled a * 10 ^ nat (- scale a)))"
    by (cases "0 \<le> scale a") (auto simp: val_def power_int_def field_simps)
  then show ?thesis by (simp only: of_int_le_iff)
qed

lemma divide_half_up_unit:
  assumes "0 < m"
  shows "\<exists>k. divide_half_up a (toBigDecimal m) = Some (toBigDecimal k) \<and> (0 < k \<longleftrightarrow> rat_of_int m / 2 \<le> val a)"
  proof (intro exI conjI)
  let ?k = "half_up (unscaled a * 10 ^ nat (- scale a)) (m * 10 ^ nat (scale a))"
  show "divide_half_up a (toBigDecimal m) = Some (toBigDecimal ?k)"
    using assms by (simp add: divide_half_up_def aligned_def toBigDecimal_def)
  show "0 < ?k \<longleftrightarrow> rat_of_int m / 2 \<le> val a" unfolding val_ge using assms by (intro half_up_pos) simp
qed

lemma bd_greater_ints [simp]: "bd_greater (toBigDecimal a) (toBigDecimal b) \<longleftrightarrow> b < a"
  by (simp add: bd_greater_def aligned_def toBigDecimal_def)

lemma ZERO_ONE: "ZERO = toBigDecimal 0" "ONE = toBigDecimal 1"
  by (simp_all add: ZERO_def ONE_def toBigDecimal_def)

lemma in_unit_cases:
  assumes "0 < m"
  obtains (shown) k where "rat_of_int m / 2 \<le> val t" "0 < k" "\<And>s r. in_unit t (toBigDecimal m) s r = Inr (s (toBigDecimal k))"
  | (rest) "val t < rat_of_int m / 2" "\<And>s r. in_unit t (toBigDecimal m) s r = r"
proof -
  from divide_half_up_unit [OF assms, of t] obtain k
    where k: "divide_half_up t (toBigDecimal m) = Some (toBigDecimal k)" "0 < k \<longleftrightarrow> rat_of_int m / 2 \<le> val t" by blast
  then show ?thesis using that by (cases "0 < k") (auto simp: in_unit_def ZERO_ONE)
qed

lemma find_upt_ex: "P k \<Longrightarrow> k < n \<Longrightarrow> \<exists>j. find P [0..<n] = Some j \<and> P j"
  by (cases "find P [0..<n]") (auto simp: find_None_iff find_Some_iff)

lemma divide_exact_guesses:
  "\<exists>t. divide_exact g CRACK_GUESSES_PER_SECOND = Some t \<and> val t = val g / 80000000"
proof -
  have fl: "bits \<bar>80000000\<bar> = 27" by code_simp
  have "(80000000 :: int) dvd unscaled g * 10 ^ 10" by (rule dvd_mult) simp
  from find_upt_ex [where P = "\<lambda>k. 80000000 dvd unscaled g * 10 ^ k" and k = 10 and n = "Suc 27", OF this]
  obtain k where k: "find (\<lambda>k. 80000000 dvd unscaled g * 10 ^ k) [0..<Suc 27] = Some k" "80000000 dvd unscaled g * 10 ^ k" by auto
  from k(2) obtain q where q: "unscaled g * 10 ^ k = 80000000 * q" by blast
  have "rat_of_int q = rat_of_int (unscaled g) * 10 ^ k / 80000000"
    using arg_cong [OF q, of rat_of_int] by simp
  note q' = this
  have p: "(10 :: rat) powi (- (scale g + int k)) = 10 powi (- scale g) / 10 ^ k" by (simp add: power_int_diff)
  have "val \<lparr>unscaled = q, scale = scale g + int k\<rparr> = val g / 80000000"
    by (simp only: val_def BigDecimal.select_convs q' p) simp
  moreover have "divide_exact g CRACK_GUESSES_PER_SECOND = Some \<lparr>unscaled = q, scale = scale g + int k\<rparr>"
    using k(1) q fl by (simp add: divide_exact_def CRACK_GUESSES_PER_SECOND_def toBigDecimal_def del: upt_Suc)
  ultimately show ?thesis by blast
qed

lemma toBigInteger_val: "toBigInteger a = (if 0 \<le> val a then \<lfloor>val a\<rfloor> else \<lceil>val a\<rceil>)"
proof (cases "scale a \<le> 0")
  case True
  then have "val a = rat_of_int (toBigInteger a)" by (simp add: val_def toBigInteger_def power_int_def)
  then show ?thesis by simp
next
  case False
  let ?d = "10 ^ nat (scale a) :: int"
  have v: "val a = rat_of_int (unscaled a) / rat_of_int ?d" using False by (simp add: val_def power_int_def field_simps)
  have fl: "\<lfloor>val a\<rfloor> = unscaled a div ?d" unfolding v by (rule floor_divide_of_int_eq)
  have ce: "\<lceil>val a\<rceil> = - (- unscaled a div ?d)"
    unfolding v ceiling_def by (simp only: minus_divide_left of_int_minus [symmetric] floor_divide_of_int_eq)
  have nd: "\<not> ?d \<le> 0" by (simp add: not_le)
  have "0 \<le> val a \<longleftrightarrow> 0 \<le> unscaled a"
    unfolding v by (simp only: zero_le_divide_iff of_int_0_le_iff of_int_le_0_iff) (use nd in auto)
  with False fl ce show ?thesis by (cases "unscaled a" "0 :: int" rule: linorder_cases) (auto simp: toBigInteger_def)
qed

section \<open>Grades\<close>

lemma contains_iff: "contains s p \<longleftrightarrow> (\<exists>a b. s = a @ p @ b)"
proof
  assume "contains s p"
  then obtain i b where "drop i s = p @ b" by (auto simp: contains_def list_ex_iff startsWith_iff simp del: upt_Suc)
  then have "s = take i s @ p @ b" by (metis append_take_drop_id)
  then show "\<exists>a b. s = a @ p @ b" by blast
next
  assume "\<exists>a b. s = a @ p @ b"
  then obtain a b where s: "s = a @ p @ b" by blast
  have "startsWith (drop (length a) s) p" by (simp add: s)
  moreover have "length a \<in> set [0..<Suc (length s)]" by (simp add: s)
  ultimately show "contains s p" unfolding contains_def list_ex_iff by blast
qed

lemma contains_skip:
  assumes "p \<noteq> []" "set ds \<inter> set p = {}"
  shows "contains (ds @ s) p \<longleftrightarrow> contains s p"
proof
  assume "contains (ds @ s) p"
  then obtain a b where e: "ds @ s = a @ p @ b" by (auto simp: contains_iff)
  have "length ds \<le> length a"
  proof (rule ccontr)
    assume "\<not> length ds \<le> length a"
    then have "ds ! length a = p ! 0" "length a < length ds" using e assms(1)
      by (metis (no_types, lifting) length_greater_0_conv not_le nth_append nth_append_length_plus add.right_neutral, simp)
    with assms show False by (metis disjoint_iff length_greater_0_conv nth_mem)
  qed
  then have "s = drop (length ds) a @ p @ b" using arg_cong [OF e, of "drop (length ds)"] by simp
  then show "contains s p" unfolding contains_iff by blast
next
  assume "contains s p"
  then obtain a b where "s = a @ p @ b" by (auto simp: contains_iff)
  then have "ds @ s = (ds @ a) @ p @ b" by simp
  then show "contains (ds @ s) p" unfolding contains_iff by blast
qed


lemma contains_Nil [simp]: "contains s []"
  unfolding contains_iff by (rule exI [of _ "[]"]) simp

lemma contains_number:
  assumes "0 < k" "\<forall>c \<in> set p. 57 < c"
  shows "contains (dec_string k @ s) p \<longleftrightarrow> contains s p"
proof (cases "p = []")
  case False
  have "c \<le> 57" if "c \<in> set (dec_string k)" for c using dec_string_range [OF that] by (auto simp: word_le_nat_alt)
  with assms(2) have "set (dec_string k) \<inter> set p = {}" by (force simp: not_le [symmetric])
  with False show ?thesis by (rule contains_skip)
qed simp

lemma inj_lit: "inj (of_char :: char \<Rightarrow> jchar)"
proof (rule injI)
  fix a b :: char
  assume "(of_char a :: jchar) = of_char b"
  then have "unat (of_nat (of_char a) :: jchar) = unat (of_nat (of_char b) :: jchar)" by (simp only: of_nat_of_char)
  moreover have "of_char c mod 65536 = (of_char c :: nat)" for c :: char by (rule mod_less) (rule less_trans [of _ 256], simp_all)
  ultimately have "(of_char a :: nat) = of_char b" by (simp add: unat_of_nat)
  then show "a = b" by simp
qed

lemma contains_lit: "contains (lit s) (lit p) \<longleftrightarrow> sublist p s"
proof -
  have "contains (lit s) (lit p) \<longleftrightarrow> sublist (map of_char p :: jstr) (map of_char s)"
    by (auto simp: contains_iff sublist_def lit_def)
  also have "\<dots> \<longleftrightarrow> sublist p s"
  proof
    assume "sublist (map of_char p :: jstr) (map of_char s)"
    then obtain q where "sublist q s" "(map of_char p :: jstr) = map of_char q" by (blast dest: sublist_map_rightE)
    then show "sublist p s" by (simp add: inj_map_eq_map [OF inj_lit])
  qed (rule map_mono_sublist)
  finally show ?thesis .
qed

text \<open>The word the tables have for a readable time.\<close>

definition rated :: "PwdType \<Rightarrow> jstr \<Rightarrow> Word option" where
  "rated type readable = find (\<lambda>w. contains readable (match_word w)) (words_of type)"

lemma words_of_letters: "w \<in> set (words_of ty) \<Longrightarrow> c \<in> set (match_word w) \<Longrightarrow> 57 < c"
proof -
  have "list_all (\<lambda>w. list_all (\<lambda>c. 57 < c) (match_word w)) (words_of PASSPHRASE @ words_of PASSWORD)" by code_simp
  then show "w \<in> set (words_of ty) \<Longrightarrow> c \<in> set (match_word w) \<Longrightarrow> 57 < c" by (cases ty) (auto simp: list_all_iff)
qed

lemma rated_count_of:
  assumes "0 < k"
  shows "rated ty (count_of (toBigDecimal k) u) = rated ty (lit ('' '' @ u @ (if 1 < k then ''s'' else [])))"
proof -
  have e: "count_of (toBigDecimal k) u = dec_string k @ lit '' '' @ lit u @ (if 1 < k then lit ''s'' else [])"
    by (simp add: count_of_def numberWordEnding_def ZERO_ONE) (simp add: toBigDecimal_def)
  have e: "count_of (toBigDecimal k) u = dec_string k @ lit ('' '' @ u @ (if 1 < k then ''s'' else []))"
    unfolding e lit_def by simp
  show ?thesis unfolding rated_def e
    by (rule find_cong [OF refl]) (rule contains_number, use assms words_of_letters in auto)
qed

definition graded :: "PwdType \<Rightarrow> jstr \<Rightarrow> string \<Rightarrow> bool" where
  "graded ty s g \<longleftrightarrow> map_option word (rated ty s) = Some (lit g)"

lemma in_unit_graded:
  assumes "0 < m" "rat_of_int m / 2 = c * 86400"
    "\<And>k. 0 < k \<Longrightarrow> graded ty (s (toBigDecimal k)) A" "\<exists>x. r = Inr x \<and> graded ty x B"
  shows "\<exists>x. in_unit t (toBigDecimal m) s r = Inr x \<and> graded ty x (if c \<le> val t / 86400 then A else B)"
  using assms(1) by (cases rule: in_unit_cases [where t = t]) (use assms(2-4) in auto)

lemma graded_count_of:
  assumes "graded ty (lit ('' '' @ u)) g" "graded ty (lit ('' '' @ u @ ''s'')) g"
  shows "0 < k \<Longrightarrow> graded ty (count_of (toBigDecimal k) u) g"
  using assms by (cases "1 < k") (simp_all add: graded_def rated_count_of)

lemma graded_passphrase:
  "graded PASSPHRASE (lit ''a millennium'') ''perfect''" "graded PASSPHRASE (lit ''millennia'') ''perfect''"
  "graded PASSPHRASE (lit ''a century'') ''great''" "graded PASSPHRASE (lit ''centuries'') ''great''"
  "graded PASSPHRASE (lit ('' '' @ ''year'')) ''good''" "graded PASSPHRASE (lit ('' '' @ ''year'' @ ''s'')) ''good''"
  "graded PASSPHRASE (lit ('' '' @ ''month'')) ''reasonable''" "graded PASSPHRASE (lit ('' '' @ ''month'' @ ''s'')) ''reasonable''"
  "graded PASSPHRASE (lit ('' '' @ ''week'')) ''poor''" "graded PASSPHRASE (lit ('' '' @ ''week'' @ ''s'')) ''poor''"
  "graded PASSPHRASE (lit ('' '' @ ''day'')) ''poor''" "graded PASSPHRASE (lit ('' '' @ ''day'' @ ''s'')) ''poor''"
  "graded PASSPHRASE (lit ('' '' @ ''hour'')) ''weak''" "graded PASSPHRASE (lit ('' '' @ ''hour'' @ ''s'')) ''weak''"
  "graded PASSPHRASE (lit ('' '' @ ''minute'')) ''weak''" "graded PASSPHRASE (lit ('' '' @ ''minute'' @ ''s'')) ''weak''"
  "graded PASSPHRASE (lit ('' '' @ ''second'')) ''weak''" "graded PASSPHRASE (lit ('' '' @ ''second'' @ ''s'')) ''weak''"
  "graded PASSPHRASE (lit ''less than a second'') ''weak''"
  by (simp_all add: graded_def rated_def words_of_def CRACK_TIME_WORDS_PASSPHRASE_def mk_word_def contains_lit sublist_code)

lemma graded_password:
  "graded PASSWORD (lit ''a millennium'') ''perfect''" "graded PASSWORD (lit ''millennia'') ''perfect''"
  "graded PASSWORD (lit ''a century'') ''perfect''" "graded PASSWORD (lit ''centuries'') ''perfect''"
  "graded PASSWORD (lit ('' '' @ ''year'')) ''great''" "graded PASSWORD (lit ('' '' @ ''year'' @ ''s'')) ''great''"
  "graded PASSWORD (lit ('' '' @ ''month'')) ''good''" "graded PASSWORD (lit ('' '' @ ''month'' @ ''s'')) ''good''"
  "graded PASSWORD (lit ('' '' @ ''week'')) ''good''" "graded PASSWORD (lit ('' '' @ ''week'' @ ''s'')) ''good''"
  "graded PASSWORD (lit ('' '' @ ''day'')) ''reasonable''" "graded PASSWORD (lit ('' '' @ ''day'' @ ''s'')) ''reasonable''"
  "graded PASSWORD (lit ('' '' @ ''hour'')) ''bare minimum''" "graded PASSWORD (lit ('' '' @ ''hour'' @ ''s'')) ''bare minimum''"
  "graded PASSWORD (lit ('' '' @ ''minute'')) ''poor''" "graded PASSWORD (lit ('' '' @ ''minute'' @ ''s'')) ''poor''"
  "graded PASSWORD (lit ('' '' @ ''second'')) ''weak''" "graded PASSWORD (lit ('' '' @ ''second'' @ ''s'')) ''weak''"
  "graded PASSWORD (lit ''less than a second'') ''weak''"
  by (simp_all add: graded_def rated_def words_of_def CRACK_TIME_WORDS_PASSWORD_def mk_word_def contains_lit sublist_code)

text \<open>What the tables amount to: the grade of a time to crack, given in days.\<close>

definition grade :: "PwdType \<Rightarrow> rat \<Rightarrow> string" where
  "grade type d =
     (let pick = (\<lambda>a b. case type of PASSPHRASE \<Rightarrow> a | PASSWORD \<Rightarrow> b)
      in if 18250000 \<le> d then ''perfect''
         else if 18250 \<le> d then pick ''great'' ''perfect''
         else if 182 + 1 / 2 \<le> d then pick ''good'' ''great''
         else if 15 \<le> d then pick ''reasonable'' ''good''
         else if 3 + 1 / 2 \<le> d then pick ''poor'' ''good''
         else if 1 / 2 \<le> d then pick ''poor'' ''reasonable''
         else if 1 / 48 \<le> d then pick ''weak'' ''bare minimum''
         else if 1 / 2880 \<le> d then pick ''weak'' ''poor''
         else ''weak'')"

lemmas unit_defs = SECONDS_PER_MILLENNIUM_def SECONDS_PER_CENTURY_def SECONDS_PER_YEAR_def SECONDS_PER_MONTH_def SECONDS_PER_WEEK_def
  SECONDS_PER_DAY_def SECONDS_PER_HOUR_def SECONDS_PER_MINUTE_def SECONDS_PER_SECONDS_def DAYS_toSeconds_def

lemma readable_graded:
  assumes "graded ty (lit ''a millennium'') g1" "graded ty (lit ''millennia'') g1"
    "graded ty (lit ''a century'') g2" "graded ty (lit ''centuries'') g2"
    "graded ty (lit ('' '' @ ''year'')) g3" "graded ty (lit ('' '' @ ''year'' @ ''s'')) g3"
    "graded ty (lit ('' '' @ ''month'')) g4" "graded ty (lit ('' '' @ ''month'' @ ''s'')) g4"
    "graded ty (lit ('' '' @ ''week'')) g5" "graded ty (lit ('' '' @ ''week'' @ ''s'')) g5"
    "graded ty (lit ('' '' @ ''day'')) g6" "graded ty (lit ('' '' @ ''day'' @ ''s'')) g6"
    "graded ty (lit ('' '' @ ''hour'')) g7" "graded ty (lit ('' '' @ ''hour'' @ ''s'')) g7"
    "graded ty (lit ('' '' @ ''minute'')) g8" "graded ty (lit ('' '' @ ''minute'' @ ''s'')) g8"
    "graded ty (lit ('' '' @ ''second'')) g9" "graded ty (lit ('' '' @ ''second'' @ ''s'')) g9"
    "graded ty (lit ''less than a second'') g10"
  shows "\<exists>x. readableCrackTime t = Inr x \<and> graded ty x
    (if 18250000 \<le> val t / 86400 then g1
     else if 18250 \<le> val t / 86400 then g2
     else if 182 + 1 / 2 \<le> val t / 86400 then g3
     else if 15 \<le> val t / 86400 then g4
     else if 3 + 1 / 2 \<le> val t / 86400 then g5
     else if 1 / 2 \<le> val t / 86400 then g6
     else if 1 / 48 \<le> val t / 86400 then g7
     else if 1 / 2880 \<le> val t / 86400 then g8
     else if 1 / 172800 \<le> val t / 86400 then g9 else g10)"
  unfolding readableCrackTime_def unit_defs
  by (intro in_unit_graded graded_count_of) (use assms in \<open>auto simp: ZERO_ONE\<close>)

lemma readable_grade: "\<exists>x. readableCrackTime t = Inr x \<and> graded ty x (grade ty (val t / 86400))"
proof (cases ty)
  case PASSPHRASE
  have "\<exists>x. readableCrackTime t = Inr x \<and> graded PASSPHRASE x (grade PASSPHRASE (val t / 86400))"
    using readable_graded [OF graded_passphrase, of t] by (simp only: grade_def Let_def PwdType.case if_cancel)
  then show ?thesis by (simp add: PASSPHRASE)
next
  case PASSWORD
  have "\<exists>x. readableCrackTime t = Inr x \<and> graded PASSWORD x (grade PASSWORD (val t / 86400))"
    using readable_graded [OF graded_password, of t] by (simp only: grade_def Let_def PwdType.case if_cancel)
  then show ?thesis by (simp add: PASSWORD)
qed

lemma lit_eq: "lit a = lit b \<longleftrightarrow> a = b"
  by (simp add: lit_def inj_map_eq_map [OF inj_lit])

text \<open>
  \<open>estimateStrength\<close> never throws. The word of its result is the grade of the time to crack at 80 million guesses per second, half a unit rounding up
  to the unit, and its number of seconds is that time cut to an integer.
\<close>

lemma estimateStrength_result:
  "\<exists>r. estimateStrength g ty = Inr r \<and> word (strength_word r) = lit (grade ty (val g / 80000000 / 86400))
     \<and> seconds r = (if 0 \<le> val g then \<lfloor>val g / 80000000\<rfloor> else \<lceil>val g / 80000000\<rceil>)"
proof -
  obtain t where t: "divide_exact g CRACK_GUESSES_PER_SECOND = Some t" "val t = val g / 80000000" using divide_exact_guesses by blast
  obtain s where s: "readableCrackTime t = Inr s" "graded ty s (grade ty (val t / 86400))" using readable_grade by blast
  then obtain w where w: "rated ty s = Some w" "word w = lit (grade ty (val t / 86400))" by (auto simp: graded_def)
  then have "estimateStrength g ty = Inr \<lparr>strength_word = w, seconds = toBigInteger t, time = s\<rparr>"
    using t(1) s(1) by (simp add: estimateStrength_def rated_def)
  moreover have "0 \<le> val t \<longleftrightarrow> 0 \<le> val g" by (simp add: t(2) zero_le_divide_iff)
  ultimately show ?thesis unfolding t(2) [symmetric] using w(2) by (simp add: toBigInteger_val)
qed

text \<open>
  C16. \<open>checkForWeakPassphrase\<close> accepts a pass phrase exactly when it takes at least 103680000000000 guesses, fifteen days of guessing, throws
  \<open>PrivateKeyStrengthException\<close> otherwise and never reaches the exception for an unknown word.
\<close>

theorem checkForWeakPassphrase_accepts:
  assumes "zxcvbn passphrase PASSWORD_WEAK_WORDS = Some g"
  shows "checkForWeakPassphrase zxcvbn passphrase = (if 103680000000000 \<le> val g then Inr () else Inl PrivateKeyStrength)"
proof -
  obtain r where r: "estimateStrength g PASSPHRASE = Inr r" "word (strength_word r) = lit (grade PASSPHRASE (val g / 80000000 / 86400))"
    using estimateStrength_result by blast
  let ?d = "val g / 80000000 / 86400"
  have d: "103680000000000 \<le> val g \<longleftrightarrow> 15 \<le> ?d" by simp
  have "grade PASSPHRASE ?d \<in> (if 15 \<le> ?d then {''reasonable'', ''good'', ''great'', ''perfect''} else {''weak'', ''poor''})"
    unfolding grade_def Let_def PwdType.case by (simp split: if_split) 
  then show ?thesis
    unfolding d by (cases "15 \<le> ?d") (auto simp: checkForWeakPassphrase_def assms r lit_eq Let_def)
qed

theorem checkForWeakPassphrase_accepts_witness:
  "checkForWeakPassphrase (\<lambda>s ws. Some \<lparr>unscaled = 5, scale = - int (length s)\<rparr>) (lit ''a long pass phrase'') = Inr ()"
proof -
  have len: "length (lit ''a long pass phrase'') = 18" by (simp add: lit_def)
  show ?thesis
    using checkForWeakPassphrase_accepts [where zxcvbn = "\<lambda>s ws. Some \<lparr>unscaled = 5, scale = - int (length s)\<rparr>"
        and passphrase = "lit ''a long pass phrase''", OF refl]
    by (simp add: val_def len)
qed

section \<open>The format of passwords\<close>

definition password_alphabet :: jstr where
  "password_alphabet = lit ''0123456789ABCDEFGHIJKLMNOPQRSTUVWXYZ''"

lemma smod_36: "(let r = x smod 36 in if r < 0 then r + 36 else r) = x mod (36 :: int)"
proof -
  have "x smod 36 = sgn x * (\<bar>x\<bar> mod 36)" by (simp add: signed_modulo_int_def)
  then show ?thesis by (cases "0 \<le> x") (auto simp: Let_def zmod_zminus1_eq_if sgn_if)
qed

lemma password_char_alphabet: "password_char b = password_alphabet ! nat (sint b mod 36)"
proof -
  have all: "list_all (\<lambda>n. (if int n < 10 then 48 + of_int (int n) else 65 + of_int (int n - 10)) = password_alphabet ! n) [0..<36]"
    by code_simp
  have r: "0 \<le> sint b mod 36" "sint b mod 36 < 36" by simp_all
  then have "nat (sint b mod 36) \<in> set [0..<36]" by (simp add: nat_less_iff)
  with all have "(if int (nat (sint b mod 36)) < 10 then 48 + of_int (int (nat (sint b mod 36))) else 65 + of_int (int (nat (sint b mod 36)) - 10))
      = password_alphabet ! nat (sint b mod 36)"
    unfolding list_all_iff by blast
  moreover have "int (nat (sint b mod 36)) = sint b mod 36" using r(1) by simp
  ultimately show ?thesis unfolding password_char_def unfolding smod_36 unfolding Let_def by (simp only:)
qed

lemma password_chars_nth:
  assumes "p = j + i + (i - 1) div 4" "j < length (password_chars i bs)"
  shows "password_chars i bs ! j = (if p mod 5 = 4 then 45 else password_char (bs ! (p - p div 5 - i)))"
  using assms
proof (induction i bs arbitrary: j p rule: password_chars.induct)
  case (2 i b bs)
  define k where "k = i div 4"
  define r where "r = i mod 4"
  have i: "i = 4 * k + r" "r < 4" by (simp_all add: k_def r_def)
  show ?case
  proof (cases "0 < i \<and> i mod 4 = 0")
    case True
    then have r: "r = 0" by (simp add: r_def)
    with True i(1) have "0 < k" by linarith
    with r obtain k' where k': "i = 4 * Suc k'" using i by (cases k) simp_all
    then have p: "p = j + 5 * k' + 4" using 2(2) by simp
    have IH: "password_chars (Suc i) bs ! j' = (if p' mod 5 = 4 then 45 else password_char (bs ! (p' - p' div 5 - Suc i)))"
      if "p' = j' + 5 * k' + 6" "j' < length (password_chars (Suc i) bs)" for p' j'
      using 2(1) [of p' j'] that k' by simp
    consider "j = 0" | "j = 1" | j' where "j = j' + 2" by (metis One_nat_def add_2_eq_Suc' not0_implies_Suc)
    then show ?thesis
    proof cases
      case 3
      then have "password_chars i (b # bs) ! j = password_chars (Suc i) bs ! j'" "j' < length (password_chars (Suc i) bs)"
        using True 2(3) by simp_all
      moreover have "p - p div 5 - i = Suc (p - p div 5 - Suc i)" using p 3 k' by simp
      ultimately show ?thesis using IH [of p j'] p 3 by simp
    qed (use True p k' in simp_all)
  next
    case False
    then have p: "p = j + 5 * k + r" using 2(2) i by (cases "r = 0") auto
    show ?thesis
    proof (cases j)
      case 0
      then show ?thesis using p i False by auto
    next
      case (Suc j')
      then have "password_chars i (b # bs) ! j = password_chars (Suc i) bs ! j'" "j' < length (password_chars (Suc i) bs)"
        using False 2(3) by (auto split: if_splits)
      moreover have "p - p div 5 - i = Suc (p - p div 5 - Suc i)" using p i Suc by simp
      moreover have "p = j' + Suc i + (Suc i - 1) div 4" using p i Suc by simp
      ultimately show ?thesis using 2(1) [of p j'] by simp
    qed
  qed
qed simp

lemma separators: "(i - 1) div 4 + (if 0 < i \<and> i mod 4 = 0 then 1 else 0) = i div (4 :: nat)"
  by (cases i) (simp_all add: div_Suc)

lemma length_password_chars: "length (password_chars i bs) + (i - 1) div 4 = length bs + (i + length bs - 1) div 4"
proof (induction i bs rule: password_chars.induct)
  case (2 i b bs)
  show ?case using 2 separators [of i] by (auto split: if_splits)
qed simp

text \<open>
  A one-time password from \<open>n\<close> bytes has \<open>n\<close> digits and capital letters, the value of each byte modulo 36, with a dash after each group of
  four; fewer than sixteen bytes are refused.
\<close>

theorem bytesToPassword_format:
  "bytesToPassword bytes =
     (let n = length bytes
      in if n < 16 then Inl IllegalArgument
         else Inr (map (\<lambda>p. if p mod 5 = 4 then of_char (CHR ''-'')
             else lit ''0123456789ABCDEFGHIJKLMNOPQRSTUVWXYZ'' ! nat (sint (bytes ! (p - p div 5)) mod 36)) [0..<n + (n - 1) div 4]))"
proof (cases "length bytes < 16")
  case False
  have "password_chars 0 bytes = map (\<lambda>p. if p mod 5 = 4 then of_char (CHR ''-'')
             else lit ''0123456789ABCDEFGHIJKLMNOPQRSTUVWXYZ'' ! nat (sint (bytes ! (p - p div 5)) mod 36)) [0..<length bytes + (length bytes - 1) div 4]"
    (is "_ = map ?f _")
  proof (rule nth_equalityI)
    show len: "length (password_chars 0 bytes) = length (map ?f [0..<length bytes + (length bytes - 1) div 4])"
      using length_password_chars [of 0 bytes] by simp
    show "password_chars 0 bytes ! j = map ?f [0..<length bytes + (length bytes - 1) div 4] ! j" if "j < length (password_chars 0 bytes)" for j
      using that len password_chars_nth [of j j 0 bytes]
      by (simp add: password_char_alphabet password_alphabet_def)
  qed
  with False show ?thesis by (simp add: bytesToPassword_def Let_def)
qed (simp add: bytesToPassword_def)

end
