(* ===== verification/StringExt.thy ===== *)
theory StringExt
  imports NodeHost
begin

unbundle bit_operations_syntax

text \<open>
  \<open>StringExt.kt\<close> and \<open>ByteExt.kt\<close>: the text functions the message code uses, with what they take from the standard library. Not modelled are
  the functions that only wrap a decoder of the platform or a regular expression over HTML.
\<close>

section \<open>Searching and replacing\<close>

text \<open>\<open>indexOf\<close> of a string: the start is moved to the ends of the string.\<close>

definition indexOf_str :: "jstr \<Rightarrow> jstr \<Rightarrow> int \<Rightarrow> int" where
  "indexOf_str s p start =
     (case find (\<lambda>i. startsWith (drop i s) p) [min (nat start) (length s)..<Suc (length s)] of
        None \<Rightarrow> -1 | Some i \<Rightarrow> int i)"

text \<open>\<open>replace\<close> with a string, from the left, without overlaps; with a character.\<close>

function replace :: "jstr \<Rightarrow> jstr \<Rightarrow> jstr \<Rightarrow> jstr" where
  "replace old new s =
     (if old = [] then concat (map (\<lambda>c. new @ [c]) s) @ new
      else case s of
        [] \<Rightarrow> []
      | c # cs \<Rightarrow> if startsWith s old then new @ replace old new (drop (length old) s) else c # replace old new cs)"
  by pat_completeness auto
termination by (relation "measure (\<lambda>(old, new, s). length s)") auto

declare replace.simps [simp del]

definition replace_char :: "jchar \<Rightarrow> jchar \<Rightarrow> jstr \<Rightarrow> jstr" where
  "replace_char old new s = map (\<lambda>c. if c = old then new else c) s"

section \<open>StringExt\<close>

text \<open>
  The regular expression \<open>^\<emdash>\<endash>|\<emdash>\<endash>$\<close>. The anchor \<open>$\<close> also matches before a line terminator at the end; what a terminator is
  differs between the engines of the JVM and of Android and is the parameter \<open>eol\<close>.
\<close>

definition before_end :: "(jchar \<Rightarrow> bool) \<Rightarrow> jstr \<Rightarrow> bool" where
  "before_end eol s \<longleftrightarrow> s = [] \<or> s = [13, 10] \<or> (length s = 1 \<and> eol (hd s))"

definition dashes :: jstr where "dashes = [8212, 8211]"

fun replace_final_dashes :: "(jchar \<Rightarrow> bool) \<Rightarrow> jstr \<Rightarrow> jstr" where
  "replace_final_dashes eol [] = []"
| "replace_final_dashes eol (c # cs) =
     (if startsWith (c # cs) dashes \<and> before_end eol (drop 2 (c # cs)) then lit ''-----'' @ drop 2 (c # cs)
      else c # replace_final_dashes eol cs)"

definition normalizeDashes :: "(jchar \<Rightarrow> bool) \<Rightarrow> jstr \<Rightarrow> jstr" where
  "normalizeDashes eol s =
     (if startsWith s dashes then lit ''-----'' @ replace_final_dashes eol (drop 2 s) else replace_final_dashes eol s)"

definition normalizeSpaces :: "jstr \<Rightarrow> jstr" where "normalizeSpaces s = replace_char 160 32 s"

definition normalize_str :: "(jchar \<Rightarrow> bool) \<Rightarrow> jstr \<Rightarrow> jstr" where
  "normalize_str eol s = normalizeDashes eol (normalizeSpaces s)"

text \<open>The loop of \<open>countOfMatches\<close> does not end for an empty needle.\<close>

partial_function (option) count_loop :: "jstr \<Rightarrow> jstr \<Rightarrow> int \<Rightarrow> int \<Rightarrow> int option" where
  [code]: "count_loop s needle result pos =
     (if pos > -1 then count_loop s needle (result + 1) (indexOf_str s needle (pos + int (length needle))) else Some result)"

definition countOfMatches :: "jstr \<Rightarrow> jstr \<Rightarrow> int option" where
  "countOfMatches s needle = count_loop s needle 0 (indexOf_str s needle 0)"

partial_function (option) count_loop2 :: "jstr \<Rightarrow> jstr \<Rightarrow> int \<Rightarrow> int \<Rightarrow> int option" where
  [code]: "count_loop2 s needle result pos =
     (if pos > -1 then
        (if result + 1 = 2 then Some 2 else count_loop2 s needle (result + 1) (indexOf_str s needle (pos + int (length needle))))
      else Some result)"

definition countOfMatchesZeroOneOrMore :: "jstr \<Rightarrow> jstr \<Rightarrow> int option" where
  "countOfMatchesZeroOneOrMore s needle = count_loop2 s needle 0 (indexOf_str s needle 0)"

definition normalizeEol :: "jstr \<Rightarrow> jstr" where
  "normalizeEol s = replace_char 13 10 (replace [13, 10] [10] s)"

definition removeUtf8Bom :: "jstr \<Rightarrow> jstr" where
  "removeUtf8Bom s = (if startsWith s [65279] then drop 1 s else s)"

definition toEscapedHtml :: "jstr \<Rightarrow> jstr" where
  "toEscapedHtml s =
     replace [10] (lit ''<br/>'')
    (replace (lit ''/'') (lit ''&#x2F;'')
    (replace (lit ''>'') (lit ''&gt;'')
    (replace (lit ''<'') (lit ''&lt;'')
    (replace [39] (lit ''&#39;'')
    (replace [34] (lit ''&quot;'')
    (replace (lit ''&'') (lit ''&amp;'') s))))))"

definition unescapeHtml :: "jstr \<Rightarrow> jstr" where
  "unescapeHtml s =
     replace (lit ''&nbsp;'') (lit '' '')
    (replace (lit ''&amp;'') (lit ''&'')
    (replace (lit ''&gt;'') (lit ''>'')
    (replace (lit ''&lt;'') (lit ''<'')
    (replace (lit ''&#39;'') [39]
    (replace (lit ''&quot;'') [34]
    (replace (lit ''&#x2F;'') (lit ''/'') s))))))"

definition escapeHtmlAttr :: "jstr \<Rightarrow> jstr" where
  "escapeHtmlAttr s =
     replace (lit ''/'') (lit ''&#x2F;'')
    (replace (lit ''<'') (lit ''&gt;'')
    (replace (lit ''<'') (lit ''&lt;'')
    (replace [39] (lit ''&#39;'')
    (replace [34] (lit ''&quot;'')
    (replace (lit ''&'') (lit ''&amp;'') s)))))"

text \<open>The loop of \<open>stripTrailing\<close>, over \<open>pos + 1\<close>.\<close>

fun strip_end :: "jstr \<Rightarrow> jchar \<Rightarrow> nat \<Rightarrow> nat" where
  "strip_end s ch 0 = 0"
| "strip_end s ch (Suc pos) = (if s ! pos = ch then strip_end s ch pos else Suc pos)"

definition stripTrailing :: "jstr \<Rightarrow> jchar \<Rightarrow> jstr" where
  "stripTrailing s ch =
     (if s = [] then s
      else let end_pos = strip_end s ch (length s) in if end_pos \<noteq> 0 then take end_pos s else [])"

section \<open>ByteExt\<close>

definition isLineEnding :: "8 word \<Rightarrow> bool" where "isLineEnding b \<longleftrightarrow> b = 13 \<or> b = 10"
definition isWhiteSpace :: "8 word \<Rightarrow> bool" where "isWhiteSpace b \<longleftrightarrow> isLineEnding b \<or> b = 9 \<or> b = 32"

definition hexTable :: jstr where "hexTable = lit ''0123456789ABCDEF''"

definition toUrlHex :: "8 word \<Rightarrow> jstr" where
  "toUrlHex b =
     (let n = (scast b :: 32 word)
      in lit ''%'' @ [hexTable ! unat (n AND 15)] @ [hexTable ! unat (signed_drop_bit 4 n AND 15)])"

section \<open>Counting\<close>

text \<open>The number of occurrences from the left, without overlaps.\<close>

function occurrences :: "jstr \<Rightarrow> jstr \<Rightarrow> nat" where
  "occurrences p s =
     (if p = [] \<or> s = [] then 0
      else if startsWith s p then Suc (occurrences p (drop (length p) s)) else occurrences p (tl s))"
  by pat_completeness auto
termination by (relation "measure (\<lambda>(p, s). length s)") auto

declare occurrences.simps [simp del]

lemma occurrences_Nil [simp]: "occurrences p [] = 0"
  by (simp add: occurrences.simps)

lemma startsWith_Nil [simp]: "startsWith s []" "startsWith [] p \<longleftrightarrow> p = []"
  by (auto simp: startsWith_def)

lemma startsWith_length: "startsWith s p \<Longrightarrow> length p \<le> length s"
  by (auto simp: startsWith_iff)

lemma indexOf_str_nat:
  "n \<le> length s \<Longrightarrow>
     indexOf_str s p (int n) = (case find (\<lambda>i. startsWith (drop i s) p) [n..<Suc (length s)] of None \<Rightarrow> -1 | Some i \<Rightarrow> int i)"
  by (simp add: indexOf_str_def min_absorb1 del: upt_Suc)

lemma indexOf_str_step:
  assumes "n < length s"
  shows "indexOf_str s p (int n) = (if startsWith (drop n s) p then int n else indexOf_str s p (int (Suc n)))"
proof -
  have "[n..<Suc (length s)] = n # [Suc n..<Suc (length s)]" using assms by (intro upt_conv_Cons) simp
  then show ?thesis using assms by (simp only: indexOf_str_nat less_imp_le Suc_le_eq) simp
qed

lemma indexOf_str_end: "indexOf_str s p (int (length s)) = (if p = [] then int (length s) else -1)"
  by (simp add: indexOf_str_nat)

lemma occurrences_indexOf:
  assumes "p \<noteq> []" "n \<le> length s"
  obtains "indexOf_str s p (int n) = -1" "occurrences p (drop n s) = 0"
  | i where "indexOf_str s p (int n) = int i" "n \<le> i" "startsWith (drop i s) p" "i + length p \<le> length s"
      "occurrences p (drop n s) = Suc (occurrences p (drop (i + length p) s))"
  using assms
proof (induction "length s - n" arbitrary: n thesis)
  case 0
  then have "n = length s" by simp
  with 0(2,4) show ?case by (simp add: indexOf_str_end)
next
  case (Suc m)
  then have n: "n < length s" by simp
  have rest: "tl (drop n s) = drop (Suc n) s" by (simp add: drop_Suc tl_drop)
  show ?case
  proof (cases "startsWith (drop n s) p")
    case True
    then have "occurrences p (drop n s) = Suc (occurrences p (drop (n + length p) s))"
      using n Suc.prems(3) by (subst occurrences.simps) (simp add: add.commute)
    moreover have "n + length p \<le> length s" using startsWith_length [OF True] n by simp
    ultimately show ?thesis using True n Suc.prems(2) [of n] by (simp add: indexOf_str_step)
  next
    case False
    have e: "indexOf_str s p (int n) = indexOf_str s p (int (Suc n))" using False n by (simp add: indexOf_str_step)
    have o: "occurrences p (drop n s) = occurrences p (drop (Suc n) s)"
      using False n Suc.prems(3) rest by (subst occurrences.simps) simp
    show ?thesis
      by (rule Suc.hyps(1) [of "Suc n"]) (use Suc.hyps(2) Suc.prems n e o in auto)
  qed
qed

lemma count_loop_counts:
  assumes "needle \<noteq> []" "n \<le> length s"
  shows "count_loop s needle r (indexOf_str s needle (int n)) = Some (r + int (occurrences needle (drop n s)))"
  using assms(2)
proof (induction "length s - n" arbitrary: n r rule: less_induct)
  case less
  from assms(1) less.prems show ?case
  proof (cases rule: occurrences_indexOf)
    case 1
    then show ?thesis by (simp add: count_loop.simps)
  next
    case (2 i)
    from 2 assms(1) have "length s - (i + length needle) < length s - n" by (cases needle) auto
    from less.hyps [OF this 2(4), of "r + 1"] show ?thesis
      using 2 by (subst count_loop.simps) simp
  qed
qed

lemma indexOf_str_empty [simp]: "indexOf_str s [] 0 = 0"
  by (simp add: indexOf_str_def upt_conv_Cons del: upt_Suc)

lemma count_loop_empty: "count_loop s [] r 0 \<noteq> Some n"
proof
  assume "count_loop s [] r 0 = Some n"
  then have "[] = ([] :: jstr) \<longrightarrow> (0 :: int) \<noteq> 0"
    by (rule count_loop.raw_induct [where P = "\<lambda>s needle r pos n. needle = [] \<longrightarrow> pos \<noteq> 0", rotated]) (fastforce split: if_splits)
  then show False by simp
qed

lemma count_loop2_counts:
  assumes "needle \<noteq> []" "n \<le> length s" "r = 0 \<or> r = 1"
  shows "count_loop2 s needle r (indexOf_str s needle (int n)) = Some (min 2 (r + int (occurrences needle (drop n s))))"
  using assms(2,3)
proof (induction "length s - n" arbitrary: n r rule: less_induct)
  case less
  from assms(1) less.prems(1) show ?case
  proof (cases rule: occurrences_indexOf)
    case 1
    then show ?thesis using less.prems by (auto simp: count_loop2.simps)
  next
    case (2 i)
    from 2 assms(1) have "length s - (i + length needle) < length s - n" by (cases needle) auto
    from less.hyps [OF this 2(4), of "r + 1"] show ?thesis
      using 2 less.prems(2) by (subst count_loop2.simps) auto
  qed
qed

text \<open>
  \<open>countOfMatches\<close> returns for every needle that is not empty the number of its occurrences, counted from the left without overlaps, and
  never returns for an empty one. \<open>countOfMatchesZeroOneOrMore\<close> always returns, and stops counting at two.
\<close>

theorem countOfMatches_counts:
  "countOfMatches s needle = (if needle = [] then None else Some (int (occurrences needle s)))
   \<and> countOfMatchesZeroOneOrMore s needle = Some (if needle = [] then 2 else min 2 (int (occurrences needle s)))"
proof (cases "needle = []")
  case True
  have "countOfMatches s [] = None"
    using count_loop_empty [of s 0] by (cases "count_loop s [] 0 0") (auto simp: countOfMatches_def)
  moreover have "countOfMatchesZeroOneOrMore s [] = Some 2"
    by (simp add: countOfMatchesZeroOneOrMore_def count_loop2.simps)
  ultimately show ?thesis by (simp add: True)
next
  case False
  then show ?thesis
    using count_loop_counts [of needle 0 s 0] count_loop2_counts [of needle 0 s 0]
    by (simp add: countOfMatches_def countOfMatchesZeroOneOrMore_def)
qed

section \<open>Escaping\<close>

lemma replace_Nil [simp]: "old \<noteq> [] \<Longrightarrow> replace old new [] = []"
  by (simp add: replace.simps)

lemma replace_single: "replace [c] new s = concat (map (\<lambda>x. if x = c then new else [x]) s)"
proof (induction s)
  case (Cons x s)
  then show ?case by (subst replace.simps) (simp add: startsWith_def)
qed simp

lemma concat_map_concat: "concat (map f (concat (map g s))) = concat (map (\<lambda>x. concat (map f (g x))) s)"
  by (induction s) simp_all

text \<open>What \<open>toEscapedHtml\<close> puts in the place of a character.\<close>

definition html_escape :: "jchar \<Rightarrow> jstr" where
  "html_escape c =
     (if c = 38 then lit ''&amp;'' else if c = 34 then lit ''&quot;'' else if c = 39 then lit ''&#39;''
      else if c = 60 then lit ''&lt;'' else if c = 62 then lit ''&gt;'' else if c = 47 then lit ''&#x2F;''
      else if c = 10 then lit ''<br/>'' else [c])"

lemma toEscapedHtml_concat: "toEscapedHtml s = concat (map html_escape s)"
proof -
  have "toEscapedHtml s = concat (map (\<lambda>x. toEscapedHtml [x]) s)"
    unfolding toEscapedHtml_def by (simp add: lit_def replace_single concat_map_concat)
  moreover have "toEscapedHtml [x] = html_escape x" for x
    by (simp add: toEscapedHtml_def html_escape_def lit_def replace_single)
  ultimately show ?thesis by simp
qed

text \<open>
  Replacing an entity in a text made of pieces: a piece either has no ampersand or starts with its only one and is not comparable with the entity.
\<close>

definition entity_piece :: "jstr \<Rightarrow> jstr \<Rightarrow> bool" where
  "entity_piece e t \<longleftrightarrow> 38 \<notin> set t \<or>
     (t \<noteq> [] \<and> 38 \<notin> set (tl t) \<and> (t = e \<or> (\<not> startsWith t e \<and> \<not> startsWith e t)))"

lemma replace_no_amp:
  assumes "38 \<notin> set t"
  shows "replace (38 # e) new (t @ s) = t @ replace (38 # e) new s"
  using assms
proof (induction t)
  case (Cons c t)
  then show ?case by (subst replace.simps) (simp add: startsWith_def)
qed simp

lemma startsWith_append_cases: "startsWith (t @ s) e \<Longrightarrow> startsWith t e \<or> startsWith e t"
  by (auto simp: startsWith_iff append_eq_append_conv2)

lemma replace_piece:
  assumes "entity_piece (38 # e) t"
  shows "replace (38 # e) new (t @ s) = (if t = 38 # e then new else t) @ replace (38 # e) new s"
proof (cases "38 \<in> set t")
  case False
  then show ?thesis using replace_no_amp by auto
next
  case True
  with assms obtain c u where t: "t = c # u" "38 \<notin> set u" by (cases t) (auto simp: entity_piece_def)
  show ?thesis
  proof (cases "t = 38 # e")
    case True
    then show ?thesis by (subst replace.simps) (simp add: startsWith_def)
  next
    case False
    with assms \<open>38 \<in> set t\<close> have "\<not> startsWith (t @ s) (38 # e)" using startsWith_append_cases by (auto simp: entity_piece_def)
    then show ?thesis using False t replace_no_amp [OF t(2)] by (subst replace.simps) auto
  qed
qed

lemma replace_pieces:
  assumes "\<And>x. entity_piece (38 # e) (f x)"
  shows "replace (38 # e) new (concat (map f s)) = concat (map (\<lambda>x. if f x = 38 # e then new else f x) s)"
  by (induction s) (simp_all add: replace_piece [OF assms])

lemma entity_facts:
  "list_all (\<lambda>d. list_all (\<lambda>x. entity_piece (html_escape d) (html_escape x) \<and> (html_escape x = html_escape d \<longleftrightarrow> x = d)) [38, 34, 39, 60, 62, 47, 10]
     \<and> hd (html_escape d) = 38 \<and> 3 < length (html_escape d)) [38, 34, 39, 60, 62, 47]"
  by (simp add: html_escape_def lit_def entity_piece_def startsWith_def)

text \<open>One step of \<open>unescapeHtml\<close>: the characters of \<open>K\<close> are back already.\<close>

lemma unescape_step:
  assumes d: "d \<in> set [38, 34, 39, 60, 62, 47]" and K: "38 \<notin> K"
  shows "replace (html_escape d) [d] (concat (map (\<lambda>c. if c \<in> K then [c] else html_escape c) s))
    = concat (map (\<lambda>c. if c \<in> insert d K then [c] else html_escape c) s)"
proof -
  let ?f = "\<lambda>c. if c \<in> K then [c] else html_escape c"
  have D: "entity_piece (html_escape d) (html_escape x)" "html_escape x = html_escape d \<longleftrightarrow> x = d"
    if "x \<in> set [38, 34, 39, 60, 62, 47, 10]" for x
    using entity_facts d that unfolding list_all_iff by blast+
  have h: "hd (html_escape d) = 38" "3 < length (html_escape d)" using entity_facts d unfolding list_all_iff by blast+
  then obtain e where e: "html_escape d = 38 # e" by (cases "html_escape d") auto
  have other: "html_escape x = [x]" "x \<noteq> 38" if "x \<notin> set [38, 34, 39, 60, 62, 47, 10]" for x
    using that by (auto simp: html_escape_def)
  have piece: "entity_piece (38 # e) (?f x)" for x
  proof (cases "x \<in> K \<or> x \<notin> set [38, 34, 39, 60, 62, 47, 10]")
    case True
    then have "?f x = [x]" "x \<noteq> 38" using other [of x] K by auto
    then show ?thesis unfolding entity_piece_def by simp
  next
    case False
    then show ?thesis using D(1) [of x] e by simp
  qed
  have same: "?f x = 38 # e \<longleftrightarrow> x = d \<and> x \<notin> K" for x
  proof (cases "x \<in> K \<or> x \<notin> set [38, 34, 39, 60, 62, 47, 10]")
    case True
    then have "?f x = [x]" using other [of x] by auto
    then show ?thesis using h(2) e True d by auto
  next
    case False
    then show ?thesis using D(2) [of x] e by simp
  qed
  have "(if ?f x = 38 # e then [d] else ?f x) = (if x \<in> insert d K then [x] else html_escape x)" for x
    using same [of x] by auto
  then show ?thesis unfolding e replace_pieces [OF piece] by simp
qed

lemma unescape_entities:
  "replace (lit ''&amp;'') (lit ''&'')
    (replace (lit ''&gt;'') (lit ''>'')
    (replace (lit ''&lt;'') (lit ''<'')
    (replace (lit ''&#39;'') [39]
    (replace (lit ''&quot;'') [34]
    (replace (lit ''&#x2F;'') (lit ''/'') (concat (map html_escape s)))))))
   = replace [10] (lit ''<br/>'') s"
proof -
  have e: "lit ''&amp;'' = html_escape 38" "lit ''&gt;'' = html_escape 62" "lit ''&lt;'' = html_escape 60"
    "lit ''&#39;'' = html_escape 39" "lit ''&quot;'' = html_escape 34" "lit ''&#x2F;'' = html_escape 47"
    "lit ''&'' = [38]" "lit ''>'' = [62]" "lit ''<'' = [60]" "lit ''/'' = [47]"
    by (simp_all add: html_escape_def) (simp_all add: lit_def)
  have start: "concat (map html_escape s) = concat (map (\<lambda>c. if c \<in> {} then [c] else html_escape c) s)" by simp
  have fin: "(if c \<in> {38, 62, 60, 39, 34, 47} then [c] else html_escape c) = (if c = 10 then lit ''<br/>'' else [c])" for c
    by (simp add: html_escape_def)
  show ?thesis unfolding e start
    by (subst unescape_step, simp, simp)+ (simp only: fin replace_single)
qed

text \<open>A text in which \<open>old\<close> does not occur is left as it is.\<close>

lemma replace_absent:
  "old \<noteq> [] \<Longrightarrow> (\<And>a b. s \<noteq> a @ old @ b) \<Longrightarrow> replace old new s = s"
proof (induction s)
  case (Cons c s)
  have "s \<noteq> a @ old @ b" for a b using Cons.prems(2) [of "c # a" b] by auto
  then have "replace old new s = s" using Cons by blast
  moreover have "\<not> startsWith (c # s) old" using Cons.prems(2) [of "[]"] by (auto simp: startsWith_iff)
  ultimately show ?case using Cons.prems(1) by (subst replace.simps) simp
qed simp

text \<open>Putting tags for the line breaks does not make an entity.\<close>

lemma startsWith_breaks:
  assumes "60 \<notin> set t" and "startsWith (replace [10] (lit ''<br/>'') s) t"
  shows "startsWith s t"
  using assms
proof (induction t arbitrary: s)
  case (Cons c t)
  then obtain x u where s: "s = x # u" by (cases s) (auto simp: startsWith_def)
  then have "x \<noteq> 10" using Cons.prems by (auto simp: replace_single startsWith_def lit_def)
  then show ?case using Cons s by (auto simp: replace_single startsWith_def)
qed (simp add: startsWith_def)

lemma nbsp_of_breaks:
  assumes "\<And>a b. s \<noteq> a @ lit ''&nbsp;'' @ b"
  shows "replace (lit ''&nbsp;'') new (replace [10] (lit ''<br/>'') s) = replace [10] (lit ''<br/>'') s"
  using assms
proof (induction s)
  case (Cons c s)
  have e: "lit ''&nbsp;'' = 38 # lit ''nbsp;''" by (simp add: lit_def)
  have "s \<noteq> a @ lit ''&nbsp;'' @ b" for a b using Cons.prems [of "c # a" b] by auto
  then have IH: "replace (38 # lit ''nbsp;'') new (replace [10] (lit ''<br/>'') s) = replace [10] (lit ''<br/>'') s"
    using Cons.IH unfolding e by blast
  have split: "replace [10] (lit ''<br/>'') (c # s) = (if c = 10 then lit ''<br/>'' else [c]) @ replace [10] (lit ''<br/>'') s"
    by (simp add: replace_single)
  show ?case
  proof (cases "c = 38")
    case False
    then have no: "38 \<notin> set (if c = 10 then lit ''<br/>'' else [c])" by (simp add: lit_def)
    show ?thesis unfolding split e by (simp only: replace_no_amp [OF no] IH)
  next
    case True
    have "\<not> startsWith (c # s) (lit ''&nbsp;'')" using Cons.prems [of "[]"] by (auto simp: startsWith_iff)
    then have no: "\<not> startsWith (replace [10] (lit ''<br/>'') (c # s)) (38 # lit ''nbsp;'')"
      using startsWith_breaks [of "lit ''&nbsp;''" "c # s"] unfolding e by (auto simp: lit_def)
    show ?thesis
      using no IH True unfolding split e by (subst replace.simps) simp
  qed
qed (simp add: lit_def)

text \<open>
  C19. \<open>toEscapedHtml\<close> replaces each character of HTML by its entity, one by one, and \<open>unescapeHtml\<close> gives the text back: of a text
  that does not contain \<open>&nbsp;\<close> nothing is changed but its line breaks, which stay the tags they became. (The character reference \<open>&nbsp;\<close> is left
  out because the comment in \<open>unescapeHtml\<close> and its last line disagree on what becomes of it.)
\<close>

theorem unescape_escaped:
  assumes "\<nexists>a b. s = a @ lit ''&nbsp;'' @ b"
  shows "toEscapedHtml s = concat (map html_escape s) \<and>
    unescapeHtml (toEscapedHtml s) = replace [10] (lit ''<br/>'') s"
proof -
  have "s \<noteq> a @ lit ''&nbsp;'' @ b" for a b using assms by blast
  from nbsp_of_breaks [OF this] show ?thesis by (simp only: toEscapedHtml_concat unescapeHtml_def unescape_entities)
qed

theorem unescape_escaped_witness:
  "unescapeHtml (toEscapedHtml (lit ''<a> & b'' @ [10])) = lit ''<a> & b<br/>''"
proof -
  have "\<nexists>a b. lit ''<a> & b'' @ [10] = a @ lit ''&nbsp;'' @ b"
  proof
    assume "\<exists>a b. lit ''<a> & b'' @ [10] = a @ lit ''&nbsp;'' @ b"
    then obtain a b where "lit ''<a> & b'' @ [10] = a @ lit ''&nbsp;'' @ b" by blast
    moreover have "115 \<in> set (a @ lit ''&nbsp;'' @ b)" by (simp add: lit_def)
    moreover have "115 \<notin> set (lit ''<a> & b'' @ [10])" by (simp add: lit_def)
    ultimately show False by metis
  qed
  note round_trip = unescape_escaped [OF this, THEN conjunct2]
  show ?thesis unfolding round_trip by (simp add: replace_single lit_def)
qed

text \<open>On the other texts, what the last line of the function does: an escaped \<open>&nbsp;\<close> does not come back.\<close>

lemma unescape_escaped_nbsp:
  "unescapeHtml (toEscapedHtml s) = replace (lit ''&nbsp;'') (lit '' '') (replace [10] (lit ''<br/>'') s)"
  by (simp only: toEscapedHtml_concat unescapeHtml_def unescape_entities)

text \<open>\<open>escapeHtmlAttr\<close> leaves the character \<open>>\<close> alone: its second replacement of \<open><\<close> finds nothing.\<close>

lemma escapeHtmlAttr_concat:
  "escapeHtmlAttr s = concat (map (\<lambda>c. if c = 62 \<or> c = 10 then [c] else html_escape c) s)"
proof -
  have "escapeHtmlAttr s = concat (map (\<lambda>x. escapeHtmlAttr [x]) s)"
    unfolding escapeHtmlAttr_def by (simp add: lit_def replace_single concat_map_concat)
  moreover have "escapeHtmlAttr [x] = (if x = 62 \<or> x = 10 then [x] else html_escape x)" for x
    by (simp add: escapeHtmlAttr_def html_escape_def lit_def replace_single)
  ultimately show ?thesis by simp
qed

section \<open>Line ends, trailing characters, percent encoding\<close>

text \<open>The lines of a text with any of the three line ends.\<close>

fun unix_lines :: "jstr \<Rightarrow> jstr" where
  "unix_lines [] = []"
| "unix_lines [c] = [if c = 13 then 10 else c]"
| "unix_lines (c # d # s) =
     (if c = 13 \<and> d = 10 then 10 # unix_lines s else (if c = 13 then 10 else c) # unix_lines (d # s))"

lemma normalizeEol_unix_lines: "normalizeEol s = unix_lines s"
proof (induction s rule: unix_lines.induct)
  case (3 c d s)
  show ?case unfolding normalizeEol_def
    by (subst replace.simps) (use 3 in \<open>simp add: startsWith_def replace_char_def normalizeEol_def\<close>)
qed (simp_all add: normalizeEol_def replace_char_def replace.simps startsWith_def)

lemma strip_end_prefix: "n \<le> length s \<Longrightarrow> take (strip_end s ch n) s = rev (dropWhile (\<lambda>c. c = ch) (rev (take n s)))"
  by (induction n) (simp_all add: take_Suc_conv_app_nth)

lemma stripTrailing_dropWhile: "stripTrailing s ch = rev (dropWhile (\<lambda>c. c = ch) (rev s))"
  using strip_end_prefix [of "length s" s ch] by (auto simp: stripTrailing_def Let_def)

text \<open>The two hexadecimal digits of \<open>toUrlHex\<close> are in the wrong order.\<close>

lemma toUrlHex_swapped: "toUrlHex b = [37, hexTable ! (unat b mod 16), hexTable ! (unat b div 16)]"
proof -
  have m: "(15 :: 32 word) = mask 4" by (simp add: mask_eq_exp_minus_1)
  have lo: "(scast b :: 32 word) AND mask 4 = ucast (take_bit 4 b)"
    by (rule bit_eqI) (auto simp: bit_simps)
  have hi: "signed_drop_bit 4 (scast b :: 32 word) AND mask 4 = ucast (drop_bit 4 b)"
  proof (rule bit_eqI)
    fix n
    have "bit b m \<Longrightarrow> m < 8" for m using bit_imp_le_length [of b m] by simp
    then have "\<not> bit b (4 + n)" if "4 \<le> n" using that by fastforce
    moreover have "min 7 (4 + n) = 4 + n" if "n < 4" using that by simp
    ultimately show "bit (signed_drop_bit 4 (scast b :: 32 word) AND mask 4) n = bit (ucast (drop_bit 4 b) :: 32 word) n"
      by (cases "n < 4") (auto simp: bit_simps)
  qed
  have u: "unat (ucast c :: 32 word) = unat c" for c :: "8 word"
  proof -
    have "unat c < 2 ^ 8" using unsigned_less [of c] by simp
    then show ?thesis by (simp add: unsigned_ucast_eq take_bit_eq_mod)
  qed
  have "unat (take_bit 4 b) = unat b mod 16" by (simp only: unsigned_take_bit_eq) (simp add: take_bit_eq_mod)
  moreover have "unat (drop_bit 4 b) = unat b div 16" by (simp add: unat_drop_bit_eq) (simp add: drop_bit_eq_div)
  ultimately show ?thesis by (simp add: toUrlHex_def Let_def m lo hi u lit_def)
qed

end
