(* ===== verification/PgpArmor.thy ===== *)
theory PgpArmor
  imports MsgBlockParser
begin

text \<open>
  \<open>PgpArmor.kt\<close>: the repair of armored text before it is parsed, and the reader of messages signed in clear text. Bouncy Castle's armored stream is
  the bytes it delivers and a predicate on what is left of them that says whether the stream is still in the clear text.
\<close>

section \<open>Normalizing armor\<close>

definition REPLACEABLE_BLOCK_TYPES :: "MsgBlock_Type list" where
  "REPLACEABLE_BLOCK_TYPES = [PUBLIC_KEY, PRIVATE_KEY, SIGNED_MSG, ENCRYPTED_MSG, ENCRYPTED_MSG_LINK]"

definition normalizeBlockTypeList1 :: "MsgBlock_Type list" where
  "normalizeBlockTypeList1 = [PUBLIC_KEY, PRIVATE_KEY, ENCRYPTED_MSG, UNKNOWN]"

text \<open>The regular expressions \<open>^[a-zA-Z0-9\-_. ]+: .+$\<close> and \<open>^[a-zA-Z0-9/+]{32,77}$\<close>; \<open>eol\<close> as for \<open>normalizeDashes\<close>.\<close>

definition alnum :: "jchar \<Rightarrow> bool" where
  "alnum c \<longleftrightarrow> (97 \<le> c \<and> c \<le> 122) \<or> (65 \<le> c \<and> c \<le> 90) \<or> (48 \<le> c \<and> c \<le> 57)"

definition normalizeRegex1 :: "(jchar \<Rightarrow> bool) \<Rightarrow> jstr \<Rightarrow> bool" where
  "normalizeRegex1 eol line \<longleftrightarrow>
     list_ex (\<lambda>i. list_all (\<lambda>c. alnum c \<or> c \<in> set (lit ''-_. '')) (take i line) \<and> startsWith (drop i line) (lit '': '') \<and>
        list_ex (\<lambda>j. list_all (\<lambda>c. \<not> eol c) (take (j - (i + 2)) (drop (i + 2) line)) \<and> before_end eol (drop j line))
          [i + 3..<Suc (length line)])
      [1..<length line]"

definition normalizeRegex2 :: "(jchar \<Rightarrow> bool) \<Rightarrow> jstr \<Rightarrow> bool" where
  "normalizeRegex2 eol line \<longleftrightarrow>
     list_ex (\<lambda>n. n \<le> length line \<and> list_all (\<lambda>c. alnum c \<or> c \<in> set (lit ''/+'')) (take n line) \<and> before_end eol (drop n line))
      [32..<78]"

text \<open>The index before which the loop inserts the missing empty line.\<close>

fun missing_line :: "(jchar \<Rightarrow> bool) \<Rightarrow> jstr list \<Rightarrow> nat list \<Rightarrow> nat option" where
  "missing_line eol ls [] = None"
| "missing_line eol ls (i # is) =
     (if normalizeRegex1 eol (ls ! i) then missing_line eol ls is
      else if normalizeRegex2 eol (ls ! i) then Some i else None)"

fun join_lines :: "jstr list \<Rightarrow> jstr" where
  "join_lines [] = []"
| "join_lines [l] = l"
| "join_lines (l # m # ls) = l @ [10] @ join_lines (m # ls)"

text \<open>The counts are those of needles that are not empty, so that they return.\<close>

definition newlines_fixed :: "jstr \<Rightarrow> jstr" where
  "newlines_fixed s =
     (let result = trim (replace [13, 10] [10] s);
          count = (\<lambda>n. the (countOfMatchesZeroOneOrMore result (replicate n 10)));
          nl2 = count 2; nl3 = count 3; nl4 = count 4; nl6 = count 6
      in if 1 < nl3 \<and> nl6 = 1 then replace [10, 10, 10] [10] result
         else if 1 < nl2 \<and> nl4 = 1 then replace [10, 10] [10] result
         else result)"

definition armor_normalize :: "(jchar \<Rightarrow> bool) \<Rightarrow> jstr \<Rightarrow> MsgBlock_Type \<Rightarrow> kt_exception + jstr" where
  "armor_normalize eol armored blockType =
     (if blockType \<noteq> UNKNOWN \<and> blockType \<notin> set REPLACEABLE_BLOCK_TYPES then Inl IllegalArgument
      else let result = normalize_str eol armored;
               result = (if blockType \<in> set normalizeBlockTypeList1 then newlines_fixed result else result);
               ls = split_at 10 result
           in and_then (or_throw NullPointer (map_of ARMOR_HEADER_DICT blockType)) (\<lambda>h.
                if 5 < length ls \<and> -1 < indexOf_str (ls ! 0) (begin_line h) 0 \<and> -1 < indexOf_str (ls ! (length ls - 1)) (end_line h) 0
                   \<and> [] \<notin> set ls
                then (case missing_line eol ls [1, 2, 3, 4, 5] of
                        Some i \<Rightarrow> Inr (join_lines (take i ls @ [[]] @ drop i ls))
                      | None \<Rightarrow> Inr result)
                else Inr result))"

section \<open>Messages signed in clear text\<close>

type_synonym bytes = "8 word list"

definition read_byte :: "bytes \<Rightarrow> int \<times> bytes" where
  "read_byte inp = (case inp of [] \<Rightarrow> (-1, []) | b # bs \<Rightarrow> (uint b, bs))"

definition readPassedEOL :: "bytes \<Rightarrow> int \<Rightarrow> bytes \<Rightarrow> bytes \<times> int \<times> bytes" where
  "readPassedEOL out lastCh inp =
     (let (lookAhead, inp) = read_byte inp
      in if lastCh = 13 \<and> lookAhead = 10
         then let (next, inp) = read_byte inp in (out @ [word_of_int lookAhead], next, inp)
         else (out, lookAhead, inp))"

text \<open>The loop of the first \<open>readInputLine\<close>: the line read so far, then the result: line, byte after it, rest of the input.\<close>

fun read_line :: "bytes \<Rightarrow> bytes \<Rightarrow> bytes \<times> int \<times> bytes" where
  "read_line out [] = (out, -1, [])"
| "read_line out (b # bs) = (if b = 13 \<or> b = 10 then readPassedEOL (out @ [b]) (uint b) bs else read_line (out @ [b]) bs)"

definition readInputLine :: "bytes \<Rightarrow> bytes \<times> int \<times> bytes" where
  "readInputLine inp = read_line [] inp"

text \<open>The second \<open>readInputLine\<close> starts with the byte that was read ahead; its loop goes on as that of the first.\<close>

definition readInputLine_ahead :: "int \<Rightarrow> bytes \<Rightarrow> bytes \<times> int \<times> bytes" where
  "readInputLine_ahead initialLookAhead inp =
     (let out = [word_of_int initialLookAhead]
      in if initialLookAhead = 13 \<or> initialLookAhead = 10 then readPassedEOL out initialLookAhead inp else read_line out inp)"

fun length_without :: "bytes \<Rightarrow> nat \<Rightarrow> nat" where
  "length_without line 0 = 0"
| "length_without line (Suc end_pos) = (if isWhiteSpace (line ! end_pos) then length_without line end_pos else Suc end_pos)"

definition getLengthWithoutSeparatorOrTrailingWhitespace :: "bytes \<Rightarrow> nat" where
  "getLengthWithoutSeparatorOrTrailingWhitespace line = length_without line (length line)"

definition written_line :: "bytes \<Rightarrow> bytes \<Rightarrow> bytes" where
  "written_line sep line = take (getLengthWithoutSeparatorOrTrailingWhitespace line) line @ sep"

lemma read_line_shorter: "read_line out inp = (l, la, rest) \<Longrightarrow> la = -1 \<or> length rest < length inp"
  by (induction out inp arbitrary: l la rest rule: read_line.induct)
     (fastforce simp: readPassedEOL_def read_byte_def split: if_splits list.splits)+

lemma readInputLine_ahead_shorter:
  "readInputLine_ahead la inp = (l, la', rest) \<Longrightarrow> la' = -1 \<or> length rest < length inp"
  by (auto simp: readInputLine_ahead_def readPassedEOL_def read_byte_def Let_def split: if_splits list.splits dest: read_line_shorter)

function clear_text_loop :: "(bytes \<Rightarrow> bool) \<Rightarrow> bytes \<Rightarrow> int \<Rightarrow> bytes \<Rightarrow> bytes \<Rightarrow> bytes" where
  "clear_text_loop isClearText sep lookAhead inp out =
     (if lookAhead \<noteq> -1 \<and> isClearText inp
      then case readInputLine_ahead lookAhead inp of
             (line, lookAhead', inp') \<Rightarrow> clear_text_loop isClearText sep lookAhead' inp' (out @ written_line sep line)
      else out)"
  by pat_completeness auto
termination
  by (relation "measure (\<lambda>(isClearText, sep, lookAhead, inp, out). if lookAhead = -1 then 0 else Suc (length inp))")
     (auto dest!: readInputLine_ahead_shorter [OF sym])

declare clear_text_loop.simps [simp del]

definition readSignedClearTextMessage :: "(bytes \<Rightarrow> bool) \<Rightarrow> bytes \<Rightarrow> bytes \<Rightarrow> bytes" where
  "readSignedClearTextMessage isClearText sep inp =
     (case readInputLine inp of
        (line, lookAhead, inp') \<Rightarrow>
          if lookAhead \<noteq> -1 \<and> isClearText inp' then clear_text_loop isClearText sep lookAhead inp' (written_line sep line)
          else if lookAhead \<noteq> -1 then written_line sep line else [])"

section \<open>When normalizing throws\<close>

lemma newlines_count:
  "n \<noteq> 0 \<Longrightarrow> \<exists>k. countOfMatchesZeroOneOrMore s (replicate n 10) = Some k"
  using count_loop2_counts [of "replicate n 10" 0 s 0] by (simp add: countOfMatchesZeroOneOrMore_def)

text \<open>
  \<open>PgpArmor.normalize\<close> throws for the types that are not replaceable, as it says, and returns for those that are, with one exception: for
  \<open>ENCRYPTED_MSG_LINK\<close> it passes its own check and then runs into a missing entry of the table.
\<close>

theorem armor_normalize_throws:
  "(\<exists>result. armor_normalize eol armored blockType =
     (if blockType = ENCRYPTED_MSG_LINK then Inl NullPointer
      else if blockType \<in> {UNKNOWN, PUBLIC_KEY, PRIVATE_KEY, SIGNED_MSG, ENCRYPTED_MSG} then Inr result
      else Inl IllegalArgument))"
proof -
  have d: "map_of ARMOR_HEADER_DICT ENCRYPTED_MSG_LINK = None"
    "blockType \<in> {UNKNOWN, PUBLIC_KEY, PRIVATE_KEY, SIGNED_MSG, ENCRYPTED_MSG} \<Longrightarrow> \<exists>h. map_of ARMOR_HEADER_DICT blockType = Some h"
    by (auto simp: ARMOR_HEADER_DICT_def)
  consider "blockType = ENCRYPTED_MSG_LINK" | "blockType \<in> {UNKNOWN, PUBLIC_KEY, PRIVATE_KEY, SIGNED_MSG, ENCRYPTED_MSG}"
    | "blockType \<notin> {UNKNOWN, PUBLIC_KEY, PRIVATE_KEY, SIGNED_MSG, ENCRYPTED_MSG, ENCRYPTED_MSG_LINK}" by auto
  then show ?thesis
  proof cases
    case 1
    then show ?thesis using d(1) by (simp add: armor_normalize_def REPLACEABLE_BLOCK_TYPES_def Let_def)
  next
    case 2
    then obtain h where "map_of ARMOR_HEADER_DICT blockType = Some h" using d(2) by blast
    moreover have "blockType = UNKNOWN \<or> blockType \<in> set REPLACEABLE_BLOCK_TYPES" "blockType \<noteq> ENCRYPTED_MSG_LINK"
      using 2 by (auto simp: REPLACEABLE_BLOCK_TYPES_def)
    ultimately have "\<exists>result. armor_normalize eol armored blockType = Inr result"
      unfolding armor_normalize_def Let_def by (simp split: option.split)
    then show ?thesis using 2 \<open>blockType \<noteq> ENCRYPTED_MSG_LINK\<close> by simp
  next
    case 3
    then show ?thesis by (simp add: armor_normalize_def REPLACEABLE_BLOCK_TYPES_def)
  qed
qed

section \<open>The reader works line by line\<close>

fun first_line :: "bytes \<Rightarrow> bytes" where
  "first_line [] = []"
| "first_line (b # bs) =
     (if b = 13 then (if bs \<noteq> [] \<and> hd bs = 10 then [13, 10] else [13])
      else if b = 10 then [10] else b # first_line bs)"

lemma read_byte_if: "read_byte t = (if t = [] then (-1, []) else (uint (hd t), tl t))"
  by (cases t) (simp_all add: read_byte_def)

lemma uint_byte: "uint (b :: 8 word) \<noteq> -1" "uint b = 13 \<longleftrightarrow> b = 13" "uint b = 10 \<longleftrightarrow> b = 10"
proof -
  have "0 \<le> uint b" by simp
  then show "uint b \<noteq> -1" by linarith
qed (simp_all add: word_uint_eq_iff)

lemma first_line_Nil [simp]: "first_line t = [] \<longleftrightarrow> t = []"
  by (cases t) simp_all

function eol_lines :: "bytes \<Rightarrow> bytes list" where
  "eol_lines t = (if t = [] then [] else first_line t # eol_lines (drop (length (first_line t)) t))"
  by pat_completeness auto
termination by (relation "measure length") (auto intro!: diff_less)

declare eol_lines.simps [simp del]

lemma first_line_prefix: "take (length (first_line t)) t = first_line t"
proof (induction t)
  case (Cons b bs)
  then show ?case by (cases bs) simp_all
qed simp

lemma concat_eol_lines: "concat (eol_lines t) = t"
proof (induction t rule: eol_lines.induct)
  case (1 t)
  show ?case
  proof (cases "t = []")
    case False
    have "concat (eol_lines t) = first_line t @ drop (length (first_line t)) t" using 1 False by (subst eol_lines.simps) simp
    also have "\<dots> = t" using append_take_drop_id [of "length (first_line t)" t] by (simp add: first_line_prefix)
    finally show ?thesis .
  qed (simp add: eol_lines.simps)
qed

lemma eol_lines_Nil [simp]: "eol_lines [] = []" "eol_lines t = [] \<longleftrightarrow> t = []"
  by (simp_all add: eol_lines.simps [of "[]"] eol_lines.simps [of t])

text \<open>The stream \<open>t\<close> with one byte read ahead.\<close>

lemma read_line_first: "read_line out t = (out @ first_line t, read_byte (drop (length (first_line t)) t))"
proof (induction t arbitrary: out)
  case (Cons b bs)
  then show ?case by (cases bs) (simp_all add: readPassedEOL_def read_byte_if uint_byte Let_def)
qed (simp add: read_byte_if)

lemma read_ahead_first:
  assumes "read_byte t = (la, inp)" "la \<noteq> -1"
  shows "readInputLine_ahead la inp = (first_line t, read_byte (drop (length (first_line t)) t))"
proof -
  obtain b where t: "t = b # inp" "la = uint b" using assms by (auto simp: read_byte_def split: list.splits)
  show ?thesis
    unfolding t by (cases inp) (simp_all add: readInputLine_ahead_def Let_def readPassedEOL_def read_line_first read_byte_if uint_byte)
qed

lemma length_without_prefix: "n \<le> length l \<Longrightarrow> take (length_without l n) l = rev (dropWhile isWhiteSpace (rev (take n l)))"
  by (induction n) (simp_all add: take_Suc_conv_app_nth)

lemma written_line_stripped: "written_line sep l = rev (dropWhile isWhiteSpace (rev l)) @ sep"
  using length_without_prefix [of "length l" l] by (simp add: written_line_def getLengthWithoutSeparatorOrTrailingWhitespace_def)

text \<open>What is written of the lines after the first: each one while the stream is in the clear text, without white space at its end.\<close>

fun clear_lines :: "(bytes \<Rightarrow> bool) \<Rightarrow> bytes \<Rightarrow> bytes list \<Rightarrow> bytes" where
  "clear_lines isClearText sep [] = []"
| "clear_lines isClearText sep (l # ls) =
     (if isClearText (tl (concat (l # ls))) then rev (dropWhile isWhiteSpace (rev l)) @ sep @ clear_lines isClearText sep ls else [])"

lemma clear_text_loop_lines:
  "read_byte t = (la, inp) \<Longrightarrow> clear_text_loop isClearText sep la inp out = out @ clear_lines isClearText sep (eol_lines t)"
proof (induction t arbitrary: la inp out rule: eol_lines.induct)
  case (1 t)
  show ?case
  proof (cases t)
    case Nil
    with 1(2) have "la = -1" by (simp add: read_byte_def)
    then show ?thesis using Nil by (simp add: clear_text_loop.simps)
  next
    case (Cons b bs)
    with 1(2) have la: "la \<noteq> -1" "inp = bs" by (auto simp: read_byte_def uint_byte)
    let ?r = "drop (length (first_line t)) t"
    obtain la' inp' where r: "read_byte ?r = (la', inp')" by (cases "read_byte ?r")
    have e: "eol_lines t = first_line t # eol_lines ?r" using Cons by (subst eol_lines.simps) simp
    have tl: "tl (concat (eol_lines t)) = inp" unfolding concat_eol_lines using Cons la by simp
    have "t \<noteq> []" using Cons by simp
    from 1(1) [OF this r] show ?thesis
      using la(1) tl read_ahead_first [OF 1(2) la(1)] e
      by (subst clear_text_loop.simps) (simp add: r written_line_stripped)
  qed
qed

text \<open>
  C18. \<open>readSignedClearTextMessage\<close> writes the lines of the clear text, ended by any of the three line ends, without the white space at their ends and with the line
  separator of the platform. Nothing is written for a stream that ends with its first line.
\<close>

theorem readSigned_lines:
  "readSignedClearTextMessage isClearText sep inp =
     (case eol_lines inp of
        l # m # ls \<Rightarrow> rev (dropWhile isWhiteSpace (rev l)) @ sep @ clear_lines isClearText sep (m # ls)
      | _ \<Rightarrow> [])"
proof (cases "inp = []")
  case True
  then show ?thesis by (simp add: readSignedClearTextMessage_def readInputLine_def read_line_first read_byte_def)
next
  case False
  let ?r = "drop (length (first_line inp)) inp"
  obtain la inp' where r: "read_byte ?r = (la, inp')" by (cases "read_byte ?r")
  have e: "eol_lines inp = first_line inp # eol_lines ?r" using False by (subst eol_lines.simps) simp
  have first: "readInputLine inp = (first_line inp, la, inp')" by (simp add: readInputLine_def read_line_first r)
  show ?thesis
  proof (cases ?r)
    case Nil
    then show ?thesis using r e first by (simp add: readSignedClearTextMessage_def read_byte_def)
  next
    case (Cons b bs)
    then have la: "la \<noteq> -1" "inp' = bs" using r by (auto simp: read_byte_def uint_byte)
    then obtain m ls where ls: "eol_lines ?r = m # ls" using Cons by (cases "eol_lines ?r") auto
    have "tl (concat (m # ls)) = inp'" unfolding ls [symmetric] concat_eol_lines using Cons la by simp
    then show ?thesis
      using clear_text_loop_lines [OF r, of isClearText sep] e ls la(1)
      by (simp add: readSignedClearTextMessage_def first written_line_stripped)
  qed
qed

end
