(* ===== verification/NodeModule.thy ===== *)
theory NodeModule
  imports Bridge "HOL-Library.Product_Lexorder"
begin

text \<open>
  How a native module is declared to Node.js: the version macros of \<open>node_version.h\<close>, the module structures and the
  registration macros of \<open>node_api.h\<close> and \<open>node.h\<close>, the registration of the bridge at the end of \<open>rn-bridge.cpp\<close>, and
  the bounds check of \<open>node_buffer.h\<close>. A registration macro defines a static structure and a function that the dynamic
  linker runs when it loads the library; here it is the structure and that function's effect. The list of modules Node
  keeps is in the prebuilt library: \<open>napi_module_register\<close> is a parameter.
\<close>

section \<open>Versions\<close>

definition NODE_MAJOR_VERSION :: int where "NODE_MAJOR_VERSION = 10"
definition NODE_MINOR_VERSION :: int where "NODE_MINOR_VERSION = 13"
definition NODE_PATCH_VERSION :: int where "NODE_PATCH_VERSION = 0"
definition NODE_VERSION_IS_LTS :: int where "NODE_VERSION_IS_LTS = 1"
definition NODE_VERSION_LTS_CODENAME :: string where "NODE_VERSION_LTS_CODENAME = ''Dubnium''"
definition NODE_VERSION_IS_RELEASE :: int where "NODE_VERSION_IS_RELEASE = 1"
definition NODE_RELEASE :: string where "NODE_RELEASE = ''node''"
definition NODE_MODULE_VERSION :: int where "NODE_MODULE_VERSION = 64"
definition NAPI_VERSION :: int where "NAPI_VERSION = 3"

text \<open>The spelling of a decimal literal, what the preprocessor's \<open>#n\<close> gives for the numbers above.\<close>

fun decimal :: "nat \<Rightarrow> string" where
  "decimal n = (if n < 10 then [] else decimal (n div 10)) @ [char_of (48 + n mod 10)]"

declare decimal.simps [simp del]

definition NODE_STRINGIFY :: "int \<Rightarrow> string" where
  "NODE_STRINGIFY n = decimal (nat n)"

definition NODE_TAG :: string where
  "NODE_TAG = (if NODE_VERSION_IS_RELEASE \<noteq> 0 then '''' else ''-pre'')"

definition NODE_VERSION_STRING :: string where
  "NODE_VERSION_STRING =
     NODE_STRINGIFY NODE_MAJOR_VERSION @ ''.'' @ NODE_STRINGIFY NODE_MINOR_VERSION @ ''.''
     @ NODE_STRINGIFY NODE_PATCH_VERSION @ NODE_TAG"

definition NODE_EXE_VERSION :: string where "NODE_EXE_VERSION = NODE_VERSION_STRING"

definition NODE_VERSION :: string where "NODE_VERSION = ''v'' @ NODE_VERSION_STRING"

definition NODE_VERSION_AT_LEAST :: "int \<Rightarrow> int \<Rightarrow> int \<Rightarrow> bool" where
  "NODE_VERSION_AT_LEAST major minor patch \<longleftrightarrow>
     major < NODE_MAJOR_VERSION \<or>
     (major = NODE_MAJOR_VERSION \<and> minor < NODE_MINOR_VERSION) \<or>
     (major = NODE_MAJOR_VERSION \<and> minor = NODE_MINOR_VERSION \<and> patch \<le> NODE_PATCH_VERSION)"

section \<open>Modules of the N-API\<close>

record 'f napi_module =
  nm_version :: int
  nm_flags :: uint32_t
  nm_filename :: string
  nm_register_func :: 'f
  nm_modname :: string
  nm_priv :: ptr
  reserved :: "ptr list"

definition NAPI_MODULE_VERSION :: int where "NAPI_MODULE_VERSION = 1"

text \<open>The structure \<open>_module\<close>; \<open>file\<close> is \<open>__FILE__\<close>.\<close>

definition napi_module_of :: "string \<Rightarrow> string \<Rightarrow> 'f \<Rightarrow> ptr \<Rightarrow> uint32_t \<Rightarrow> 'f napi_module" where
  "napi_module_of file modname regfunc priv flags =
     \<lparr>nm_version = NAPI_MODULE_VERSION, nm_flags = flags, nm_filename = file, nm_register_func = regfunc,
      nm_modname = modname, nm_priv = priv, reserved = replicate 4 None\<rparr>"

text \<open>The constructor \<open>_register_modname\<close>.\<close>

definition NAPI_MODULE_X ::
  "('f napi_module \<Rightarrow> 's \<Rightarrow> 's) \<Rightarrow> string \<Rightarrow> string \<Rightarrow> 'f \<Rightarrow> ptr \<Rightarrow> uint32_t \<Rightarrow> 's \<Rightarrow> 's" where
  "NAPI_MODULE_X napi_module_register file modname regfunc priv flags st =
     napi_module_register (napi_module_of file modname regfunc priv flags) st"

definition NAPI_MODULE :: "('f napi_module \<Rightarrow> 's \<Rightarrow> 's) \<Rightarrow> string \<Rightarrow> string \<Rightarrow> 'f \<Rightarrow> 's \<Rightarrow> 's" where
  "NAPI_MODULE napi_module_register file modname regfunc =
     NAPI_MODULE_X napi_module_register file modname regfunc None 0"

definition NAPI_MODULE_INITIALIZER_BASE :: string where "NAPI_MODULE_INITIALIZER_BASE = ''napi_register_module_v''"

definition NAPI_MODULE_INITIALIZER_X :: "string \<Rightarrow> int \<Rightarrow> string" where
  "NAPI_MODULE_INITIALIZER_X base version = base @ NODE_STRINGIFY version"

text \<open>The name of the function that \<open>NAPI_MODULE_INIT\<close> declares, and the registration it adds.\<close>

definition NAPI_MODULE_INITIALIZER :: string where
  "NAPI_MODULE_INITIALIZER = NAPI_MODULE_INITIALIZER_X NAPI_MODULE_INITIALIZER_BASE NAPI_MODULE_VERSION"

definition NAPI_MODULE_INIT :: "('f napi_module \<Rightarrow> 's \<Rightarrow> 's) \<Rightarrow> string \<Rightarrow> string \<Rightarrow> (string \<Rightarrow> 'f) \<Rightarrow> 's \<Rightarrow> 's" where
  "NAPI_MODULE_INIT napi_module_register file gyp_module_name function_named =
     NAPI_MODULE napi_module_register file gyp_module_name (function_named NAPI_MODULE_INITIALIZER)"

section \<open>Modules of node.h\<close>

record ('f, 'g) node_module =
  node_nm_version :: int
  node_nm_flags :: uint32_t
  nm_dso_handle :: ptr
  node_nm_filename :: string
  node_nm_register_func :: "'f option"
  nm_context_register_func :: "'g option"
  node_nm_modname :: string
  node_nm_priv :: ptr
  nm_link :: ptr

definition node_module_of ::
  "string \<Rightarrow> string \<Rightarrow> 'f option \<Rightarrow> 'g option \<Rightarrow> ptr \<Rightarrow> uint32_t \<Rightarrow> ('f, 'g) node_module" where
  "node_module_of file modname regfunc context_regfunc priv flags =
     \<lparr>node_nm_version = NODE_MODULE_VERSION, node_nm_flags = flags, nm_dso_handle = None, node_nm_filename = file,
      node_nm_register_func = regfunc, nm_context_register_func = context_regfunc, node_nm_modname = modname,
      node_nm_priv = priv, nm_link = None\<rparr>"

definition NODE_MODULE_X ::
  "(('f, 'g) node_module \<Rightarrow> 's \<Rightarrow> 's) \<Rightarrow> string \<Rightarrow> string \<Rightarrow> 'f \<Rightarrow> ptr \<Rightarrow> uint32_t \<Rightarrow> 's \<Rightarrow> 's" where
  "NODE_MODULE_X node_module_register file modname regfunc priv flags st =
     node_module_register (node_module_of file modname (Some regfunc) None priv flags) st"

definition NODE_MODULE_CONTEXT_AWARE_X ::
  "(('f, 'g) node_module \<Rightarrow> 's \<Rightarrow> 's) \<Rightarrow> string \<Rightarrow> string \<Rightarrow> 'g \<Rightarrow> ptr \<Rightarrow> uint32_t \<Rightarrow> 's \<Rightarrow> 's" where
  "NODE_MODULE_CONTEXT_AWARE_X node_module_register file modname regfunc priv flags st =
     node_module_register (node_module_of file modname None (Some regfunc) priv flags) st"

definition NODE_MODULE :: "(('f, 'g) node_module \<Rightarrow> 's \<Rightarrow> 's) \<Rightarrow> string \<Rightarrow> string \<Rightarrow> 'f \<Rightarrow> 's \<Rightarrow> 's" where
  "NODE_MODULE node_module_register file modname regfunc =
     NODE_MODULE_X node_module_register file modname regfunc None 0"

definition NODE_MODULE_CONTEXT_AWARE ::
  "(('f, 'g) node_module \<Rightarrow> 's \<Rightarrow> 's) \<Rightarrow> string \<Rightarrow> string \<Rightarrow> 'g \<Rightarrow> 's \<Rightarrow> 's" where
  "NODE_MODULE_CONTEXT_AWARE node_module_register file modname regfunc =
     NODE_MODULE_CONTEXT_AWARE_X node_module_register file modname regfunc None 0"

definition NODE_MODULE_INITIALIZER_BASE :: string where "NODE_MODULE_INITIALIZER_BASE = ''node_register_module_v''"

definition NODE_MODULE_INITIALIZER_X :: "string \<Rightarrow> int \<Rightarrow> string" where
  "NODE_MODULE_INITIALIZER_X base version = base @ NODE_STRINGIFY version"

definition NODE_MODULE_INITIALIZER :: string where
  "NODE_MODULE_INITIALIZER = NODE_MODULE_INITIALIZER_X NODE_MODULE_INITIALIZER_BASE NODE_MODULE_VERSION"

definition NODE_MODULE_INIT ::
  "(('f, 'g) node_module \<Rightarrow> 's \<Rightarrow> 's) \<Rightarrow> string \<Rightarrow> string \<Rightarrow> (string \<Rightarrow> 'g) \<Rightarrow> 's \<Rightarrow> 's" where
  "NODE_MODULE_INIT node_module_register file gyp_module_name function_named =
     NODE_MODULE_CONTEXT_AWARE node_module_register file gyp_module_name (function_named NODE_MODULE_INITIALIZER)"

section \<open>The module of the bridge\<close>

definition NM_F_BUILTIN :: uint32_t where "NM_F_BUILTIN = 1"

text \<open>The type of a register function: the environment and the \<open>exports\<close> object, on the bridge's state.\<close>

type_synonym ('l, 'js) napi_addon_register_func = "napi_env \<Rightarrow> napi_value \<Rightarrow> ('l, 'js) bridge \<Rightarrow> nat \<times> ('l, 'js) bridge"

definition register_rn_bridge ::
  "(('l, 'js) napi_addon_register_func napi_module \<Rightarrow> 's \<Rightarrow> 's) \<Rightarrow> ('js, ('l, 'js) bridge) napi_api \<Rightarrow> string \<Rightarrow> 's \<Rightarrow> 's" where
  "register_rn_bridge napi_module_register N file =
     NAPI_MODULE_X napi_module_register file ''rn_bridge'' (Init N) None NM_F_BUILTIN"

text \<open>What a call of a function pointer that \<open>Init\<close> exports runs.\<close>

definition run_callback ::
  "'l uv_api \<Rightarrow> ('js, ('l, 'js) bridge) napi_api \<Rightarrow> napi_callback \<Rightarrow> napi_env \<Rightarrow> napi_callback_info
   \<Rightarrow> ('l, 'js) bridge \<Rightarrow> (napi_value option \<times> ('l, 'js) bridge) option" where
  "run_callback U N cb env info st =
     (case cb of
        Send_message \<Rightarrow> Some (Method_SendMessage N env info st)
      | Register_listener \<Rightarrow> Method_RegisterListener U N env info st)"

section \<open>Bounds of a buffer\<close>

definition IsWithinBounds :: "64 word \<Rightarrow> 64 word \<Rightarrow> 64 word \<Rightarrow> bool" where
  "IsWithinBounds off len limit =
     (if off > limit then False
      else if limit - off < len then False
      else True)"

section \<open>Properties\<close>

text \<open>
  C39. \<open>IsWithinBounds\<close> is the check \<open>off + len \<le> max\<close> on the true numbers: it never wraps around, for all values of its
  three 64-bit arguments, while a comparison of the machine sum would accept inputs that are out of bounds.
\<close>

theorem IsWithinBounds_exact:
  "(IsWithinBounds off len limit \<longleftrightarrow> unat off + unat len \<le> unat limit) \<and>
   (\<exists>off len limit :: 64 word. off + len \<le> limit \<and> \<not> IsWithinBounds off len limit)"
proof
  show "IsWithinBounds off len limit \<longleftrightarrow> unat off + unat len \<le> unat limit"
    by (auto simp: IsWithinBounds_def word_less_nat_alt unat_sub word_le_nat_alt not_less)
  show "\<exists>off len limit :: 64 word. off + len \<le> limit \<and> \<not> IsWithinBounds off len limit"
    by (rule exI [of _ 18446744073709551615], rule exI [of _ 1], rule exI [of _ 0])
       (simp add: IsWithinBounds_def)
qed

lemma NODE_VERSION_AT_LEAST_order:
  "NODE_VERSION_AT_LEAST a b c \<longleftrightarrow> (a, b, c) \<le> (NODE_MAJOR_VERSION, NODE_MINOR_VERSION, NODE_PATCH_VERSION)"
  by (auto simp: NODE_VERSION_AT_LEAST_def less_eq_prod_def)

lemma NODE_VERSION_text: "NODE_VERSION = ''v10.13.0''"
  by code_simp

lemma status_code_eq_0 [simp]: "status_code s = 0 \<longleftrightarrow> s = napi_ok"
  by (cases s) auto

text \<open>
  What Node.js documents: a registered module is found by its name, and \<open>napi_define_properties\<close>, when it succeeds, gives the
  object the methods of the descriptors (of different names).
\<close>

definition registry_contract :: "('f napi_module \<Rightarrow> 's \<Rightarrow> 's) \<Rightarrow> ('s \<Rightarrow> string \<Rightarrow> 'f napi_module option) \<Rightarrow> bool" where
  "registry_contract reg find_module \<longleftrightarrow> (\<forall>m st. find_module (reg m st) (nm_modname m) = Some m)"

definition properties_contract ::
  "('js, 's) napi_api \<Rightarrow> ('js \<Rightarrow> napi_value \<Rightarrow> string \<Rightarrow> napi_callback option) \<Rightarrow> bool" where
  "properties_contract N property_of \<longleftrightarrow>
     (\<forall>env obj ds j j'. distinct (map utf8name ds) \<longrightarrow> napi_define_properties N env obj ds j = (napi_ok, j') \<longrightarrow>
        list_all (\<lambda>d. \<forall>name f. utf8name d = Some name \<longrightarrow> pd_method d = Some f \<longrightarrow> property_of j' obj name = Some f) ds)"

text \<open>
  C28. Loading the library makes the module \<open>rn_bridge\<close> known to Node.js as a builtin with the N-API version. Its register function is
  \<open>Init\<close>, which defines the two methods \<open>sendMessage\<close> and \<open>registerListener\<close> of the exports object in one call and changes nothing but
  the engine. It returns \<open>NULL\<close> exactly when that call succeeds, else the number of its status as a pointer; when it
  succeeds, calling the exported functions runs \<open>Method_SendMessage\<close> and \<open>Method_RegisterListener\<close>.
\<close>

theorem rn_bridge_module_loads:
  assumes "registry_contract reg find_module" and "properties_contract N property_of"
  shows "\<exists>m. find_module (register_rn_bridge reg N file st) ''rn_bridge'' = Some m \<and>
    nm_version m = NAPI_MODULE_VERSION \<and> nm_flags m = NM_F_BUILTIN \<and>
    (case nm_register_func m env exports b of (result, b') \<Rightarrow>
       (case napi_define_properties N env exports
          [\<lparr>utf8name = Some ''sendMessage'', pd_name = None, pd_method = Some Send_message, pd_getter = None,
            pd_setter = None, pd_value = None, pd_attributes = 0, pd_data = None\<rparr>,
           \<lparr>utf8name = Some ''registerListener'', pd_name = None, pd_method = Some Register_listener, pd_getter = None,
            pd_setter = None, pd_value = None, pd_attributes = 0, pd_data = None\<rparr>] (js b) of (status, j) \<Rightarrow>
          b' = b\<lparr>js := j\<rparr> \<and> result = status_code status \<and> (result = 0 \<longleftrightarrow> status = napi_ok) \<and>
          (status = napi_ok \<longrightarrow>
             (\<exists>f. property_of (js b') exports ''sendMessage'' = Some f \<and>
                run_callback U N f env info b' = Some (Method_SendMessage N env info b')) \<and>
             (\<exists>f. property_of (js b') exports ''registerListener'' = Some f \<and>
                run_callback U N f env info b' = Method_RegisterListener U N env info b'))))"
proof -
  define m :: "('a, 'b) napi_addon_register_func napi_module" where "m = napi_module_of file ''rn_bridge'' (Init N) None NM_F_BUILTIN"
  have "find_module (reg m st) (nm_modname m) = Some m" using assms(1) unfolding registry_contract_def by blast
  then have found: "find_module (register_rn_bridge reg N file st) ''rn_bridge'' = Some m"
    by (simp add: register_rn_bridge_def NAPI_MODULE_X_def m_def napi_module_of_def)
  obtain status j where run: "napi_define_properties N env exports [DECLARE_NAPI_METHOD ''sendMessage'' Send_message,
      DECLARE_NAPI_METHOD ''registerListener'' Register_listener] (js b) = (status, j)" by (cases rule: prod.exhaust)
  have "property_of j exports ''sendMessage'' = Some Send_message \<and>
      property_of j exports ''registerListener'' = Some Register_listener" if "status = napi_ok"
    using assms(2) [unfolded properties_contract_def, rule_format, OF _ run [unfolded that]]
    by (simp add: DECLARE_NAPI_METHOD_def)
  then show ?thesis
    using found run
    by (intro exI [of _ m])
       (simp add: m_def napi_module_of_def Init_def run_callback_def DECLARE_NAPI_METHOD_def napi_default_def)
qed

section \<open>A concrete registry\<close>

definition list_register :: "'f napi_module \<Rightarrow> 'f napi_module list \<Rightarrow> 'f napi_module list" where
  "list_register m ms = m # ms"

definition list_find :: "'f napi_module list \<Rightarrow> string \<Rightarrow> 'f napi_module option" where
  "list_find ms name = find (\<lambda>m. nm_modname m = name) ms"

lemma list_registry: "registry_contract list_register list_find"
  by (simp add: registry_contract_def list_register_def list_find_def)

text \<open>An engine that records each property as a pair of an object and a name.\<close>

type_synonym prop_js = "((napi_value \<times> string) \<times> napi_callback) list"

definition add_property :: "napi_value \<Rightarrow> napi_property_descriptor \<Rightarrow> prop_js \<Rightarrow> prop_js" where
  "add_property obj d j =
     (case (utf8name d, pd_method d) of (Some name, Some f) \<Rightarrow> ((obj, name), f) # j | _ \<Rightarrow> j)"

lemma add_properties_other:
  "Some name \<notin> utf8name ` set ds \<Longrightarrow> map_of (fold (add_property obj) ds j) (obj, name) = map_of j (obj, name)"
  by (induction ds arbitrary: j) (auto simp: add_property_def split: option.split)

lemma add_properties:
  "distinct (map utf8name ds) \<Longrightarrow> d \<in> set ds \<Longrightarrow> utf8name d = Some name \<Longrightarrow> pd_method d = Some f \<Longrightarrow>
   map_of (fold (add_property obj) ds j) (obj, name) = Some f"
proof (induction ds arbitrary: j)
  case (Cons e ds)
  show ?case
  proof (cases "e = d")
    case True
    with Cons.prems have "Some name \<notin> utf8name ` set ds" by force
    then show ?thesis using Cons.prems True by (simp add: add_properties_other) (simp add: add_property_def)
  next
    case False
    with Cons show ?thesis by auto
  qed
qed simp

definition prop_napi :: "(prop_js, 's) napi_api" where
  "prop_napi =
     \<lparr>napi_get_cb_info = \<lambda>env info n j. (napi_ok, (1, info), j), napi_typeof = \<lambda>env v j. (napi_ok, napi_function, j),
      napi_create_reference = \<lambda>env v n j. (napi_ok, v, j), napi_create_int32 = \<lambda>env i j. (napi_ok, nat i, j),
      napi_get_value_string_utf8 = \<lambda>env v n j. (napi_ok, ([], 0), j), napi_get_last_error_message = \<lambda>env j. None,
      napi_is_exception_pending = \<lambda>env j. False, napi_throw_error = \<lambda>env e j. j, napi_open_handle_scope = \<lambda>env j. (0, j),
      napi_close_handle_scope = \<lambda>env sc j. j, napi_get_reference_value = \<lambda>env r j. (r, j), napi_get_global = \<lambda>env j. (0, j),
      napi_create_string_utf8 = \<lambda>env t j. (0, j), napi_define_properties = \<lambda>env v ds j. (napi_ok, fold (add_property v) ds j),
      napi_coerce_to_string = \<lambda>env v st. (napi_ok, v, st), napi_call_function = \<lambda>env g f args st. st,
      call_embedder = \<lambda>cb t st. st\<rparr>"

lemma prop_napi_properties: "properties_contract prop_napi (\<lambda>j obj name. map_of j (obj, name))"
  by (auto simp: properties_contract_def prop_napi_def list_all_iff add_properties)

theorem rn_bridge_module_loads_witness:
  "\<exists>m. list_find (register_rn_bridge list_register prop_napi ''rn-bridge.cpp'' []) ''rn_bridge'' = Some m \<and>
     (case nm_register_func m 0 5 (bridge_init [] []) of (result, b') \<Rightarrow>
        result = 0 \<and> map_of (js b') (5, ''registerListener'') = Some Register_listener \<and>
        (\<exists>r b. run_callback log_uv prop_napi Register_listener 0 9 b' = Some (r, b) \<and> map fst (pool b) = [1]))"
proof -
  obtain m :: "(uv_call list, prop_js) napi_addon_register_func napi_module"
    where m: "list_find (register_rn_bridge list_register prop_napi ''rn-bridge.cpp'' []) ''rn_bridge'' = Some m"
    using rn_bridge_module_loads [OF list_registry prop_napi_properties, of "''rn-bridge.cpp''" "[]" "bridge_init [] []" 5 log_uv 0 9]
    by blast
  have "m = napi_module_of ''rn-bridge.cpp'' ''rn_bridge''
      (Init (prop_napi :: (prop_js, (uv_call list, prop_js) bridge) napi_api)) None NM_F_BUILTIN"
    using m by (auto simp: register_rn_bridge_def NAPI_MODULE_X_def list_find_def list_register_def napi_module_of_def)
  then show ?thesis
    using m by (auto simp: napi_module_of_def Init_def prop_napi_def add_property_def DECLARE_NAPI_METHOD_def
        run_callback_def Method_RegisterListener_def pool_add_def int_add_def init_queue_uv_handle_def bridge_init_def
        Let_def)
qed

end
