(* ===== verification/V8Memory.thy ===== *)
theory V8Memory
  imports Prelude
begin

text \<open>
  The part of \<open>v8.h\<close> that reads the engine's memory directly: the tagging of small integers
  (\<open>SmiTagging\<close>) and the class \<open>Internals\<close>. Memory is a function from 64-bit addresses to
  bytes; multi-byte values are little endian, as on every Android ABI, and a pointer is 8 bytes
  (\<open>kApiPointerSize\<close> of the arm64 and x86-64 builds). The tagging of small integers is modelled for both
  pointer sizes.
\<close>

section \<open>Memory\<close>

type_synonym addr = "64 word"
type_synonym obj = "64 word"
type_synonym memory = "addr \<Rightarrow> byte"

fun load_le :: "memory \<Rightarrow> addr \<Rightarrow> nat \<Rightarrow> int" where
  "load_le m a 0 = 0"
| "load_le m a (Suc n) = uint (m a) + 256 * load_le m (a + 1) n"

fun store_le :: "memory \<Rightarrow> addr \<Rightarrow> nat \<Rightarrow> int \<Rightarrow> memory" where
  "store_le m a 0 v = m"
| "store_le m a (Suc n) v = store_le (m(a := word_of_int v)) (a + 1) n (v div 256)"

definition load64 :: "memory \<Rightarrow> addr \<Rightarrow> 64 word" where
  "load64 m a = word_of_int (load_le m a 8)"

definition store64 :: "memory \<Rightarrow> addr \<Rightarrow> 64 word \<Rightarrow> memory" where
  "store64 m a v = store_le m a 8 (uint v)"

definition load16 :: "memory \<Rightarrow> addr \<Rightarrow> 16 word" where
  "load16 m a = word_of_int (load_le m a 2)"

definition store16 :: "memory \<Rightarrow> addr \<Rightarrow> 16 word \<Rightarrow> memory" where
  "store16 m a v = store_le m a 2 (uint v)"

section \<open>Small integers\<close>

definition kHeapObjectTag :: "64 word" where "kHeapObjectTag = 1"
definition kWeakHeapObjectTag :: "64 word" where "kWeakHeapObjectTag = 3"
definition kHeapObjectTagSize :: nat where "kHeapObjectTagSize = 2"
definition kHeapObjectTagMask :: "64 word" where
  "kHeapObjectTagMask = push_bit kHeapObjectTagSize 1 - 1"

definition kSmiTag :: "'p :: len word" where "kSmiTag = 0"
definition kSmiTagSize :: nat where "kSmiTagSize = 1"

text \<open>
  \<open>internal::IntToSmi<kSmiShiftSize>\<close> for a pointer of \<open>'p\<close> bits: the conversion of the \<open>int\<close> to
  \<open>uintptr_t\<close> sign-extends it.
\<close>

definition IntToSmi_shift :: "nat \<Rightarrow> int32_t \<Rightarrow> 'p :: len word" where
  "IntToSmi_shift kSmiShiftSize value =
     (push_bit (kSmiTagSize + kSmiShiftSize) (scast value)) OR kSmiTag"

text \<open>\<open>SmiTagging<4>\<close>.\<close>

definition kSmiShiftSize4 :: nat where "kSmiShiftSize4 = 0"
definition kSmiValueSize4 :: nat where "kSmiValueSize4 = 31"

definition SmiToInt4 :: "32 word \<Rightarrow> int32_t" where
  "SmiToInt4 value = signed_drop_bit (kSmiTagSize + kSmiShiftSize4) value"

definition IntToSmi4 :: "int32_t \<Rightarrow> 32 word" where
  "IntToSmi4 value = IntToSmi_shift kSmiShiftSize4 value"

definition IsValidSmi4 :: "32 word \<Rightarrow> bool" where
  "IsValidSmi4 value \<longleftrightarrow> value + 0x40000000 < 0x80000000"

text \<open>\<open>SmiTagging<8>\<close>, which is \<open>PlatformSmiTagging\<close> here.\<close>

definition kSmiShiftSize8 :: nat where "kSmiShiftSize8 = 31"
definition kSmiValueSize8 :: nat where "kSmiValueSize8 = 32"

definition SmiToInt8 :: "64 word \<Rightarrow> int32_t" where
  "SmiToInt8 value = ucast (signed_drop_bit (kSmiTagSize + kSmiShiftSize8) value)"

definition IntToSmi8 :: "int32_t \<Rightarrow> 64 word" where
  "IntToSmi8 value = IntToSmi_shift kSmiShiftSize8 value"

definition IsValidSmi8 :: "64 word \<Rightarrow> bool" where
  "IsValidSmi8 value \<longleftrightarrow> value = scast (ucast value :: int32_t)"

definition SmiValuesAre31Bits :: bool where "SmiValuesAre31Bits \<longleftrightarrow> kSmiValueSize8 = 31"
definition SmiValuesAre32Bits :: bool where "SmiValuesAre32Bits \<longleftrightarrow> kSmiValueSize8 = 32"

section \<open>Internals\<close>

definition kApiPointerSize :: "64 word" where "kApiPointerSize = 8"
definition kApiIntSize :: "64 word" where "kApiIntSize = 4"
definition kApiInt64Size :: "64 word" where "kApiInt64Size = 8"

definition kHeapObjectMapOffset :: "64 word" where "kHeapObjectMapOffset = 0"
definition kMapInstanceTypeOffset :: "64 word" where "kMapInstanceTypeOffset = 1 * kApiPointerSize + kApiIntSize"
definition kStringResourceOffset :: "64 word" where "kStringResourceOffset = 3 * kApiPointerSize"
definition kOddballKindOffset :: "64 word" where "kOddballKindOffset = 4 * kApiPointerSize + 8"
definition kForeignAddressOffset :: "64 word" where "kForeignAddressOffset = kApiPointerSize"
definition kJSObjectHeaderSize :: "64 word" where "kJSObjectHeaderSize = 3 * kApiPointerSize"
definition kFixedArrayHeaderSize :: "64 word" where "kFixedArrayHeaderSize = 2 * kApiPointerSize"
definition kContextHeaderSize :: "64 word" where "kContextHeaderSize = 2 * kApiPointerSize"
definition kContextEmbedderDataIndex :: "64 word" where "kContextEmbedderDataIndex = 5"
definition kFullStringRepresentationMask :: int32_t where "kFullStringRepresentationMask = 0x0f"
definition kStringEncodingMask :: int32_t where "kStringEncodingMask = 0x8"
definition kExternalTwoByteRepresentationTag :: int32_t where "kExternalTwoByteRepresentationTag = 0x02"
definition kExternalOneByteRepresentationTag :: int32_t where "kExternalOneByteRepresentationTag = 0x0a"

definition kIsolateEmbedderDataOffset :: "64 word" where "kIsolateEmbedderDataOffset = 0 * kApiPointerSize"
definition kExternalMemoryOffset :: "64 word" where "kExternalMemoryOffset = 4 * kApiPointerSize"
definition kExternalMemoryLimitOffset :: "64 word" where
  "kExternalMemoryLimitOffset = kExternalMemoryOffset + kApiInt64Size"
definition kExternalMemoryAtLastMarkCompactOffset :: "64 word" where
  "kExternalMemoryAtLastMarkCompactOffset = kExternalMemoryLimitOffset + kApiInt64Size"
definition kIsolateRootsOffset :: "64 word" where
  "kIsolateRootsOffset =
     kExternalMemoryLimitOffset + kApiInt64Size + kApiInt64Size + kApiPointerSize + kApiPointerSize"
definition kUndefinedValueRootIndex :: "64 word" where "kUndefinedValueRootIndex = 4"
definition kTheHoleValueRootIndex :: "64 word" where "kTheHoleValueRootIndex = 5"
definition kNullValueRootIndex :: "64 word" where "kNullValueRootIndex = 6"
definition kTrueValueRootIndex :: "64 word" where "kTrueValueRootIndex = 7"
definition kFalseValueRootIndex :: "64 word" where "kFalseValueRootIndex = 8"
definition kEmptyStringRootIndex :: "64 word" where "kEmptyStringRootIndex = 9"

definition kNodeClassIdOffset :: "64 word" where "kNodeClassIdOffset = 1 * kApiPointerSize"
definition kNodeFlagsOffset :: "64 word" where "kNodeFlagsOffset = 1 * kApiPointerSize + 3"
definition kNodeStateMask :: byte where "kNodeStateMask = 0x7"
definition kNodeStateIsWeakValue :: byte where "kNodeStateIsWeakValue = 2"
definition kNodeStateIsPendingValue :: byte where "kNodeStateIsPendingValue = 3"
definition kNodeStateIsNearDeathValue :: byte where "kNodeStateIsNearDeathValue = 4"
definition kNodeIsIndependentShift :: nat where "kNodeIsIndependentShift = 3"
definition kNodeIsActiveShift :: nat where "kNodeIsActiveShift = 4"

definition kFirstNonstringType :: int32_t where "kFirstNonstringType = 0x80"
definition kOddballType :: int32_t where "kOddballType = 0x83"
definition kForeignType :: int32_t where "kForeignType = 0x87"
definition kJSSpecialApiObjectType :: int32_t where "kJSSpecialApiObjectType = 0x410"
definition kJSApiObjectType :: int32_t where "kJSApiObjectType = 0x420"
definition kJSObjectType :: int32_t where "kJSObjectType = 0x421"
definition kUndefinedOddballKind :: int32_t where "kUndefinedOddballKind = 5"
definition kNullOddballKind :: int32_t where "kNullOddballKind = 3"
definition kNumIsolateDataSlots :: uint32_t where "kNumIsolateDataSlots = 4"

definition HasHeapObjectTag :: "obj \<Rightarrow> bool" where
  "HasHeapObjectTag value \<longleftrightarrow> value AND kHeapObjectTagMask = kHeapObjectTag"

definition SmiValue :: "obj \<Rightarrow> int32_t" where "SmiValue value = SmiToInt8 value"
definition IntToSmi :: "int32_t \<Rightarrow> obj" where "IntToSmi value = IntToSmi8 value"
definition IsValidSmi :: "64 word \<Rightarrow> bool" where "IsValidSmi value = IsValidSmi8 value"

text \<open>\<open>ReadField<T>\<close> for a pointer and for \<open>uint16_t\<close>.\<close>

definition ReadField_ptr :: "memory \<Rightarrow> obj \<Rightarrow> 64 word \<Rightarrow> 64 word" where
  "ReadField_ptr m p offset = load64 m (p + offset - kHeapObjectTag)"

definition ReadField_uint16 :: "memory \<Rightarrow> obj \<Rightarrow> 64 word \<Rightarrow> uint16_t" where
  "ReadField_uint16 m p offset = load16 m (p + offset - kHeapObjectTag)"

definition GetInstanceType :: "memory \<Rightarrow> obj \<Rightarrow> int32_t" where
  "GetInstanceType m ob =
     (let map_obj = ReadField_ptr m ob kHeapObjectMapOffset
      in ucast (ReadField_uint16 m map_obj kMapInstanceTypeOffset))"

definition GetOddballKind :: "memory \<Rightarrow> obj \<Rightarrow> int32_t" where
  "GetOddballKind m ob = SmiValue (ReadField_ptr m ob kOddballKindOffset)"

definition IsExternalTwoByteString :: "int32_t \<Rightarrow> bool" where
  "IsExternalTwoByteString instance_type \<longleftrightarrow>
     instance_type AND kFullStringRepresentationMask = kExternalTwoByteRepresentationTag"

definition GetNodeFlag :: "memory \<Rightarrow> addr \<Rightarrow> nat \<Rightarrow> byte" where
  "GetNodeFlag m ob shift = m (ob + kNodeFlagsOffset) AND push_bit shift 1"

definition UpdateNodeFlag :: "memory \<Rightarrow> addr \<Rightarrow> bool \<Rightarrow> nat \<Rightarrow> memory" where
  "UpdateNodeFlag m ob value shift =
     (let a = ob + kNodeFlagsOffset; mask = push_bit shift 1
      in m(a := (m a AND NOT mask) OR push_bit shift (of_bool value)))"

definition GetNodeState :: "memory \<Rightarrow> addr \<Rightarrow> byte" where
  "GetNodeState m ob = m (ob + kNodeFlagsOffset) AND kNodeStateMask"

definition UpdateNodeState :: "memory \<Rightarrow> addr \<Rightarrow> byte \<Rightarrow> memory" where
  "UpdateNodeState m ob value =
     (let a = ob + kNodeFlagsOffset in m(a := (m a AND NOT kNodeStateMask) OR value))"

text \<open>\<open>slot * kApiPointerSize\<close> multiplies a \<open>uint32_t\<close> by an \<open>int\<close>: the product wraps at 32 bits.\<close>

definition slot_offset :: "uint32_t \<Rightarrow> 64 word" where
  "slot_offset slot = ucast (slot * 8)"

definition SetEmbedderData :: "memory \<Rightarrow> addr \<Rightarrow> uint32_t \<Rightarrow> 64 word \<Rightarrow> memory" where
  "SetEmbedderData m isolate slot data =
     store64 m (isolate + kIsolateEmbedderDataOffset + slot_offset slot) data"

definition GetEmbedderData :: "memory \<Rightarrow> addr \<Rightarrow> uint32_t \<Rightarrow> 64 word" where
  "GetEmbedderData m isolate slot = load64 m (isolate + kIsolateEmbedderDataOffset + slot_offset slot)"

definition GetRoot :: "addr \<Rightarrow> 64 word \<Rightarrow> addr" where
  "GetRoot isolate index = isolate + kIsolateRootsOffset + index * kApiPointerSize"

text \<open>
  The offset of element \<open>index\<close> behind a header, computed in \<open>int\<close> (an index that overflows it is
  undefined in the source and wraps here) and added to a pointer.
\<close>

definition field_offset :: "64 word \<Rightarrow> int32_t \<Rightarrow> 64 word" where
  "field_offset header index = scast (ucast header + ucast kApiPointerSize * index :: int32_t)"

definition ReadEmbedderData :: "memory \<Rightarrow> addr \<Rightarrow> int32_t \<Rightarrow> 64 word" where
  "ReadEmbedderData m context index =
     (let ctx = load64 m context;
          embedder_data_offset = kContextHeaderSize + kApiPointerSize * kContextEmbedderDataIndex;
          embedder_data = ReadField_ptr m ctx embedder_data_offset;
          value_offset = field_offset kFixedArrayHeaderSize index
      in ReadField_ptr m embedder_data value_offset)"

lemmas offset_defs =
  kApiPointerSize_def kApiIntSize_def kApiInt64Size_def kHeapObjectMapOffset_def kMapInstanceTypeOffset_def
  kStringResourceOffset_def kOddballKindOffset_def kJSObjectHeaderSize_def kFixedArrayHeaderSize_def
  kContextHeaderSize_def kContextEmbedderDataIndex_def kIsolateEmbedderDataOffset_def kExternalMemoryOffset_def
  kExternalMemoryLimitOffset_def kExternalMemoryAtLastMarkCompactOffset_def kIsolateRootsOffset_def
  kUndefinedValueRootIndex_def kTheHoleValueRootIndex_def kNullValueRootIndex_def kTrueValueRootIndex_def
  kFalseValueRootIndex_def kEmptyStringRootIndex_def kNodeClassIdOffset_def kNodeFlagsOffset_def

section \<open>Loads and stores\<close>

lemma unat_shift_back:
  assumes "Suc n \<le> unat (x - a)"
  shows "x \<noteq> a" and "n \<le> unat (x - (a + 1 :: addr))"
proof -
  show "x \<noteq> a" using assms by auto
  then have "x - a \<noteq> 0" by simp
  then have "unat (x - a - 1) = unat (x - a) - 1" by (rule unat_minus_one)
  then show "n \<le> unat (x - (a + 1))" using assms by (simp add: diff_diff_add)
qed

lemma store_le_frame [frame]:
  "n \<le> unat (x - a) \<Longrightarrow> store_le m a n v x = m x"
proof (induction n arbitrary: m a v)
  case (Suc n)
  then show ?case using unat_shift_back [OF Suc.prems] by simp
qed simp

lemma load_le_frame:
  "(\<And>i. i < n \<Longrightarrow> m' (a + of_nat i) = m (a + of_nat i)) \<Longrightarrow> load_le m' a n = load_le m a n"
proof (induction n arbitrary: a)
  case (Suc n)
  have "m' (a + 1 + of_nat i) = m (a + 1 + of_nat i)" if "i < n" for i
    using Suc.prems [of "Suc i"] that by (simp add: ac_simps)
  then show ?case using Suc.IH [of "a + 1"] Suc.prems [of 0] by simp
qed simp

lemma load_store_le:
  "n < 2 ^ 64 \<Longrightarrow> load_le (store_le m a n v) a n = v mod 256 ^ n"
proof (induction n arbitrary: m a v)
  case (Suc n)
  have "a - (a + 1) = - 1" by simp
  then have "unat (a - (a + 1)) = 2 ^ 64 - 1"
    by (simp only: unsigned_minus_1_eq_mask) (simp add: mask_eq_exp_minus_1)
  then have "store_le (m(a := word_of_int v)) (a + 1) n (v div 256) a = word_of_int v"
    using Suc.prems by (simp add: store_le_frame)
  then show ?case
    using Suc by (simp add: uint_word_of_int zmod_zmult2_eq)
qed simp


lemma load64_store64 [simp]: "load64 (store64 m a v) a = v"
  using uint_bounded [of v]
  by (simp add: load64_def store64_def load_store_le mod_pos_pos_trivial del: load_le.simps store_le.simps)

lemma load16_store16 [simp]: "load16 (store16 m a v) a = v"
  using uint_bounded [of v]
  by (simp add: load16_def store16_def load_store_le mod_pos_pos_trivial del: load_le.simps store_le.simps)

text \<open>Blocks of \<open>n\<close> and \<open>k\<close> bytes that do not overlap.\<close>

definition apart :: "addr \<Rightarrow> nat \<Rightarrow> addr \<Rightarrow> nat \<Rightarrow> bool" where
  "apart a n b k \<longleftrightarrow> n \<le> unat (b - a) \<and> k \<le> unat (a - b)"

lemma unat_diff_sum: "b \<noteq> a \<Longrightarrow> unat (b - a) + unat (a - b) = 2 ^ 64" for a b :: addr
proof -
  assume "b \<noteq> a"
  then have "unat (b - a) \<noteq> 0" by (simp add: unat_eq_zero)
  moreover have "(unat (b - a) + unat (a - b)) mod 2 ^ 64 = unat ((b - a) + (a - b))"
    by (simp only: unat_word_ariths(1)) simp
  then obtain k where "unat (b - a) + unat (a - b) = 2 ^ 64 * k" by fastforce
  moreover have "unat (b - a) < 2 ^ 64" "unat (a - b) < 2 ^ 64"
    using unsigned_less [where ?'b = 64 and ?'a = nat] by simp_all
  ultimately show ?thesis by simp
qed

lemma apart_byte:
  assumes "apart a n b k" and "i < k"
  shows "n \<le> unat (b + of_nat i - a)"
proof (cases "b = a")
  case True
  then show ?thesis using assms by (simp add: apart_def)
next
  case False
  then have lt: "unat (b - a) + i < 2 ^ 64" using assms unat_diff_sum [of b a] by (simp add: apart_def)
  then have "unat (of_nat i :: addr) = i" by (simp add: unat_of_nat)
  then have "unat ((b - a) + of_nat i) = unat (b - a) + i"
    using lt unat_add_lem [of "b - a" "of_nat i :: addr"] by simp
  then show ?thesis using assms by (simp add: apart_def algebra_simps)
qed

lemma load_le_store_le_apart:
  "apart a n b k \<Longrightarrow> load_le (store_le m a n v) b k = load_le m b k"
  by (rule load_le_frame) (rule store_le_frame, rule apart_byte)

lemma load64_store64_apart: "apart a 8 b 8 \<Longrightarrow> load64 (store64 m a v) b = load64 m b"
  and load16_store64_apart: "apart a 8 b 2 \<Longrightarrow> load16 (store64 m a v) b = load16 m b"
  and load64_store16_apart: "apart a 2 b 8 \<Longrightarrow> load64 (store16 m a w) b = load64 m b"
  by (simp_all add: load64_def store64_def load16_def store16_def load_le_store_le_apart
      del: load_le.simps store_le.simps)

lemma load_le_upd:
  assumes "k \<le> unat (x - a)" and "k < 2 ^ 64"
  shows "load_le (m(x := b)) a k = load_le m a k"
proof (rule load_le_frame)
  fix i assume i: "i < k"
  have "a + of_nat i \<noteq> x"
  proof
    assume "a + of_nat i = x"
    then have "x - a = of_nat i" by (simp add: algebra_simps)
    then have "unat (x - a) = i" using i assms(2) by (simp add: unat_of_nat)
    then show False using i assms(1) by simp
  qed
  then show "(m(x := b)) (a + of_nat i) = m (a + of_nat i)" by simp
qed

text \<open>Two offsets from the same base, as natural numbers.\<close>

lemma apart_of_nat:
  assumes "i + n \<le> j \<or> j + k \<le> i" and "i < 2 ^ 40" "j < 2 ^ 40" "n < 2 ^ 40" "k < 2 ^ 40" "0 < n" "0 < k"
  shows "apart (p + of_nat i) n (p + of_nat j) k"
proof -
  have sum: "unat ((p + of_nat j) - (p + of_nat i)) + unat ((p + of_nat i) - (p + of_nat j)) = 2 ^ 64"
  proof (rule unat_diff_sum)
    show "p + of_nat j \<noteq> p + of_nat i"
    proof
      assume "p + of_nat j = p + (of_nat i :: addr)"
      then have "unat (of_nat j :: addr) = unat (of_nat i :: addr)" by simp
      then show False using assms by (simp add: unat_of_nat)
    qed
  qed
  have diff: "unat (of_nat y - of_nat x :: addr) = y - x" if "x \<le> y" "y < 2 ^ 40" for x y
    using that by (simp add: unat_of_nat flip: of_nat_diff)
  show ?thesis
  proof (cases "i \<le> j")
    case True
    then show ?thesis using assms sum diff [OF True assms(3)] unfolding apart_def add_diff_cancel_left by force
  next
    case False
    then show ?thesis using assms sum diff [of j i] unfolding apart_def add_diff_cancel_left by force
  qed
qed

section \<open>Small integers round trip\<close>

lemma SmiToInt8_IntToSmi8: "SmiToInt8 (IntToSmi8 v) = v"
  by (rule bit_word_eqI)
     (simp add: SmiToInt8_def IntToSmi8_def IntToSmi_shift_def kSmiTagSize_def kSmiShiftSize8_def kSmiTag_def bit_simps)

lemma IsValidSmi8_range: "IsValidSmi8 v \<longleftrightarrow> - (2 ^ 31) \<le> sint v \<and> sint v < 2 ^ 31"
proof -
  have "sint (scast x :: 64 word) = sint x" for x :: int32_t
    by (rule sint_up_scast) (simp add: is_up)
  moreover have "sint (ucast v :: int32_t) = signed_take_bit 31 (sint v)"
    unfolding sint_uint [of v] by (subst signed_ucast_eq) (simp add: signed_take_bit_signed_take_bit)
  ultimately have "sint (scast (ucast v :: int32_t) :: 64 word) = signed_take_bit 31 (sint v)" by metis
  then have "IsValidSmi8 v \<longleftrightarrow> signed_take_bit 31 (sint v) = sint v"
    by (auto simp: IsValidSmi8_def) (metis signed_word_eqI)
  then show ?thesis by (simp add: signed_take_bit_int_eq_self_iff)
qed

lemma IsValidSmi4_range: "IsValidSmi4 v \<longleftrightarrow> - (2 ^ 30) \<le> sint v \<and> sint v < 2 ^ 30"
proof -
  have r: "- 2147483648 \<le> sint v" "sint v < 2147483648" using sint_ge [of v] sint_lt [of v] by simp_all
  have "v + 0x40000000 = word_of_int (sint v + 1073741824)" by simp
  then have u: "uint (v + 0x40000000) = (sint v + 1073741824) mod 4294967296"
    by (simp only: uint_word_of_int) simp
  have "(sint v + 1073741824) mod 4294967296 < 2147483648 \<longleftrightarrow> - 1073741824 \<le> sint v \<and> sint v < 1073741824"
  proof (cases "- 1073741824 \<le> sint v")
    case True
    then show ?thesis using r by (simp add: mod_pos_pos_trivial)
  next
    case False
    have "(sint v + 1073741824) mod 4294967296 = (sint v + 1073741824 + 4294967296) mod 4294967296"
      by (simp only: mod_add_self2)
    also have "\<dots> = sint v + 5368709120"
      by (subst mod_pos_pos_trivial) (use r False in simp_all)
    finally show ?thesis using r False by simp
  qed
  then show ?thesis by (simp add: IsValidSmi4_def word_less_def u)
qed

lemma SmiToInt4_IntToSmi4: "SmiToInt4 (IntToSmi4 v) = v \<longleftrightarrow> IsValidSmi4 v"
proof -
  have val: "sint (SmiToInt4 (IntToSmi4 v)) = signed_take_bit 31 (sint v * 2) div 2"
    by (simp add: SmiToInt4_def IntToSmi4_def IntToSmi_shift_def kSmiTagSize_def kSmiShiftSize4_def kSmiTag_def
        sint_signed_drop_bit_eq push_bit_eq_mult drop_bit_eq_div sint_word_mult)
  have even: "even (signed_take_bit 31 (sint v * 2))" by (simp add: even_signed_take_bit_iff)
  have "SmiToInt4 (IntToSmi4 v) = v \<longleftrightarrow> signed_take_bit 31 (sint v * 2) div 2 = sint v"
    using val by (metis signed_word_eqI)
  also have "\<dots> \<longleftrightarrow> signed_take_bit 31 (sint v * 2) = sint v * 2" using even by auto
  also have "\<dots> \<longleftrightarrow> IsValidSmi4 v"
    unfolding IsValidSmi4_range signed_take_bit_int_eq_self_iff by auto
  finally show ?thesis .
qed

lemma IntToSmi8_tag: "\<not> HasHeapObjectTag (IntToSmi8 v)" "even (IntToSmi8 v)"
proof -
  have "\<not> bit (IntToSmi8 v) 0"
    by (simp add: IntToSmi8_def IntToSmi_shift_def kSmiTagSize_def kSmiShiftSize8_def kSmiTag_def bit_simps)
  then show "even (IntToSmi8 v)" by (simp add: bit_0)
  then have "even (IntToSmi8 v AND kHeapObjectTagMask)" by (simp add: even_and_iff)
  then show "\<not> HasHeapObjectTag (IntToSmi8 v)" by (auto simp: HasHeapObjectTag_def kHeapObjectTag_def)
qed

section \<open>Properties\<close>

lemma kNodeStateMask_mask: "kNodeStateMask = mask 3"
  by (simp add: kNodeStateMask_def mask_eq_exp_minus_1)

text \<open>
  C38. Small integers: on 64-bit targets every \<open>int\<close> survives tagging and the valid values are
  exactly the 32-bit ones; on 32-bit targets an \<open>int\<close> survives it exactly when \<open>IsValidSmi\<close> says so,
  that is within 31 bits. A tagged integer is never taken for a heap object.
\<close>

theorem smi_tagging_correct:
  "SmiValue (IntToSmi v) = v \<and> \<not> HasHeapObjectTag (IntToSmi v) \<and>
   (IsValidSmi w \<longleftrightarrow> - (2 ^ 31) \<le> sint w \<and> sint w < 2 ^ 31) \<and>
   (SmiToInt4 (IntToSmi4 v) = v \<longleftrightarrow> IsValidSmi4 v) \<and>
   (IsValidSmi4 v \<longleftrightarrow> - (2 ^ 30) \<le> sint v \<and> sint v < 2 ^ 30)"
  unfolding SmiValue_def IntToSmi_def IsValidSmi_def
  by (intro conjI SmiToInt8_IntToSmi8 IntToSmi8_tag IsValidSmi8_range SmiToInt4_IntToSmi4 IsValidSmi4_range)

lemma byte_flag_eqI: "(\<And>n. n < 8 \<Longrightarrow> bit a n = bit b n) \<Longrightarrow> a = b" for a b :: byte
  by (rule bit_word_eqI) simp

lemma UpdateNodeFlag_same: "GetNodeFlag (UpdateNodeFlag m ob b shift) ob shift = push_bit shift (of_bool b)"
  and UpdateNodeFlag_other: "k \<noteq> shift \<Longrightarrow> GetNodeFlag (UpdateNodeFlag m ob b shift) ob k = GetNodeFlag m ob k"
  and UpdateNodeFlag_state: "3 \<le> shift \<Longrightarrow> GetNodeState (UpdateNodeFlag m ob b shift) ob = GetNodeState m ob"
  by (rule byte_flag_eqI;
      auto simp: GetNodeFlag_def UpdateNodeFlag_def GetNodeState_def Let_def kNodeStateMask_mask bit_simps)+

text \<open>
  The flags byte of a global handle's node packs a 3-bit state and single flags: writing
  one flag (above the state) reads back as written and leaves the state and every other flag; writing
  a state of 3 bits reads back and leaves every flag. Neither touches another byte of memory.
\<close>

theorem node_flags_independent:
  assumes "3 \<le> shift" "shift < 8" "k \<noteq> shift" "3 \<le> j" "j < 8" "x \<noteq> ob + kNodeFlagsOffset" "value AND NOT kNodeStateMask = 0"
  shows "GetNodeFlag (UpdateNodeFlag m ob b shift) ob shift = push_bit shift (of_bool b)
    \<and> GetNodeFlag (UpdateNodeFlag m ob b shift) ob k = GetNodeFlag m ob k
    \<and> GetNodeState (UpdateNodeFlag m ob b shift) ob = GetNodeState m ob
    \<and> GetNodeState (UpdateNodeState m ob value) ob = value
    \<and> GetNodeFlag (UpdateNodeState m ob value) ob j = GetNodeFlag m ob j
    \<and> UpdateNodeFlag m ob b shift x = m x \<and> UpdateNodeState m ob value x = m x"
proof -
  have v: "n < 3" if "bit value n" "n < 8" for n
    using arg_cong [OF assms(7), of "\<lambda>w. bit w n"] that by (simp add: kNodeStateMask_mask bit_simps)
  have nj: "\<not> bit value j" using v [of j] assms by auto
  have "GetNodeState (UpdateNodeState m ob value) ob = value"
    "GetNodeFlag (UpdateNodeState m ob value) ob j = GetNodeFlag m ob j"
    by (rule byte_flag_eqI; use assms v nj in \<open>auto simp: GetNodeFlag_def GetNodeState_def UpdateNodeState_def Let_def
        kNodeStateMask_mask bit_simps\<close>)+
  then show ?thesis
    using assms by (simp add: UpdateNodeFlag_same UpdateNodeFlag_other UpdateNodeFlag_state)
       (simp add: UpdateNodeFlag_def UpdateNodeState_def Let_def)
qed


text \<open>
  Embedder data: what \<open>SetEmbedderData\<close> stores in one of the four slots of an isolate is what
  \<open>GetEmbedderData\<close> returns; the other slots, the counters of external memory and the roots
  behind them keep their values.
\<close>

theorem embedder_data_roundtrip:
  assumes "slot < kNumIsolateDataSlots" "other < kNumIsolateDataSlots" "other \<noteq> slot" "root \<le> kEmptyStringRootIndex"
    and m': "m' = SetEmbedderData m isolate slot data"
  shows "GetEmbedderData m' isolate slot = data \<and> GetEmbedderData m' isolate other = GetEmbedderData m isolate other
    \<and> load64 m' (isolate + kExternalMemoryOffset) = load64 m (isolate + kExternalMemoryOffset)
    \<and> load64 m' (isolate + kExternalMemoryLimitOffset) = load64 m (isolate + kExternalMemoryLimitOffset)
    \<and> load64 m' (GetRoot isolate root) = load64 m (GetRoot isolate root)"
proof -
  have slot: "isolate + kIsolateEmbedderDataOffset + slot_offset s = isolate + of_nat (8 * unat s)" "unat s < 4"
    if "s < kNumIsolateDataSlots" for s
  proof -
    show "unat s < 4" using that by (simp add: kNumIsolateDataSlots_def word_less_nat_alt)
    then have "s * 8 = of_nat (8 * unat s)" "8 * unat s < 2 ^ 32" by simp_all
    then have "slot_offset s = of_nat (8 * unat s)"
      unfolding slot_offset_def by (simp only: unsigned_of_nat) (simp add: take_bit_nat_eq_self)
    then show "isolate + kIsolateEmbedderDataOffset + slot_offset s = isolate + of_nat (8 * unat s)"
      by (simp add: offset_defs)
  qed
  have root: "GetRoot isolate root = isolate + of_nat (72 + 8 * unat root)" "unat root \<le> 9"
    using assms(4) by (simp_all add: GetRoot_def offset_defs word_le_nat_alt)
  note s = slot [OF assms(1)] and t = slot [OF assms(2)]
  have "unat other \<noteq> unat slot" using assms(3) by (metis word_unat_eq_iff)
  then have "apart (isolate + of_nat (8 * unat slot)) 8 (isolate + of_nat (8 * unat other)) 8"
    "apart (isolate + of_nat (8 * unat slot)) 8 (isolate + of_nat 32) 8"
    "apart (isolate + of_nat (8 * unat slot)) 8 (isolate + of_nat 40) 8"
    "apart (isolate + of_nat (8 * unat slot)) 8 (isolate + of_nat (72 + 8 * unat root)) 8"
    using s(2) t(2) root(2) by (intro apart_of_nat; simp; linarith)+
  note load64_store64_apart [OF this(1)] load64_store64_apart [OF this(2)] load64_store64_apart [OF this(3)]
    load64_store64_apart [OF this(4)]
  then show ?thesis
    unfolding m' SetEmbedderData_def GetEmbedderData_def s(1) t(1) root(1) by (simp add: offset_defs)
qed


theorem node_flags_independent_witness:
  "GetNodeFlag (UpdateNodeFlag (\<lambda>_. 10) 0 True 4) 0 kNodeIsActiveShift = 16 \<and>
   GetNodeState (UpdateNodeState (\<lambda>_. 10) 0 4) 0 = 4"
  using node_flags_independent [of 4 3 3 0 0 4 "\<lambda>_. 10" True]
  by (simp add: kNodeStateMask_def kNodeFlagsOffset_def kApiPointerSize_def kNodeIsActiveShift_def push_bit_eq_mult)

theorem embedder_data_roundtrip_witness:
  "GetEmbedderData (SetEmbedderData (\<lambda>_. 0) 4096 2 77) 4096 2 = 77 \<and>
   GetEmbedderData (SetEmbedderData (\<lambda>_. 0) 4096 2 77) 4096 3 = GetEmbedderData (\<lambda>_. 0) 4096 3"
  using embedder_data_roundtrip [of 2 3 kNullValueRootIndex _ "\<lambda>_. 0" 4096 77, OF _ _ _ _ refl]
  by (simp add: kNumIsolateDataSlots_def offset_defs)

end
