(* ===== verification/Ownership.thy ===== *)
theory Ownership
  imports Prelude
begin

text \<open>
  Ownership of engine-side cells by client-side holders. \<open>own C0 C S f\<close>: beyond the cells \<open>C0\<close>
  that belong to others, the cells \<open>C\<close> in use are exactly those the holders in \<open>S\<close> point to through
  \<open>f\<close>, each by one holder; a holder with \<open>f x = 0\<close> is empty. The lemmas are the moves a holder can make: give a
  cell up, take a new one, start empty, take over from another holder, go away.
\<close>

definition own :: "'a set \<Rightarrow> 'a set \<Rightarrow> 'b set \<Rightarrow> ('b \<Rightarrow> 'a :: zero) \<Rightarrow> bool" where
  "own C0 C S f \<longleftrightarrow> C0 \<subseteq> C \<and> bij_betw f {x \<in> S. f x \<noteq> 0} (C - C0)"

lemma own_subset: "own C0 C S f \<Longrightarrow> C0 \<subseteq> C"
  by (simp add: own_def)

lemma own_cell: "own C0 C S f \<Longrightarrow> x \<in> S \<Longrightarrow> f x \<noteq> 0 \<Longrightarrow> f x \<in> C - C0"
  by (auto simp: own_def bij_betw_def)

lemma own_none: "own C0 C {} f \<Longrightarrow> C = C0"
  by (auto simp: own_def bij_betw_def)

lemma own_same_cells:
  assumes "own C0 C S f" and "own C0 D S g" and "\<And>x. x \<in> S \<Longrightarrow> f x = g x"
  shows "C = D"
proof -
  have "f ` {x \<in> S. f x \<noteq> 0} = g ` {x \<in> S. g x \<noteq> 0}"
    by (rule image_cong) (use assms(3) in auto)
  then have "C - C0 = D - C0" using assms(1,2) by (simp add: own_def bij_betw_def)
  then show ?thesis using own_subset [OF assms(1)] own_subset [OF assms(2)] by blast
qed

lemma own_start: "own C0 C0 {} f"
  by (simp add: own_def bij_betw_def)

lemma own_drop:
  assumes "own C0 C S f" "this \<in> S" "f this \<noteq> 0"
  shows "own C0 (C - {f this}) S (f(this := 0))"
proof -
  let ?A = "{x \<in> S. f x \<noteq> 0}"
  have a: "C0 \<subseteq> C" "bij_betw f ?A (C - C0)" "this \<in> ?A" using assms by (auto simp: own_def)
  then have "f this \<notin> C0" by (auto simp: bij_betw_def)
  moreover have "bij_betw f (?A - {this}) (C - C0 - {f this})"
    using a(2,3) unfolding bij_betw_def
    by (auto simp: inj_on_diff inj_on_image_set_diff [of f "{x \<in> S. f x \<noteq> 0}" "{x \<in> S. f x \<noteq> 0}" "{this}"])
  then have "bij_betw (f(this := 0)) (?A - {this}) (C - C0 - {f this})"
    by (rule bij_betw_cong [THEN iffD1, rotated]) auto
  moreover have "{x \<in> S. (f(this := 0)) x \<noteq> 0} = ?A - {this}" "C - {f this} - C0 = C - C0 - {f this}" by auto
  ultimately show ?thesis using a(1) by (auto simp: own_def)
qed

lemma own_add:
  assumes "own C0 C S f" "v \<notin> C" "v \<noteq> 0" "this \<in> S \<Longrightarrow> f this = 0"
  shows "own C0 (insert v C) (insert this S) (f(this := v))"
proof -
  let ?A = "{x \<in> S. f x \<noteq> 0}"
  have n: "this \<notin> ?A" "v \<notin> C - C0" "v \<notin> C0" using assms by (auto simp: own_def)
  have "bij_betw f ?A (C - C0)" using assms(1) by (simp add: own_def)
  then have "bij_betw (f(this := v)) ?A (C - C0)"
    by (rule bij_betw_cong [THEN iffD1, rotated]) (use n in auto)
  from notIn_Un_bij_betw [OF n(1) _ this] have "bij_betw (f(this := v)) (?A \<union> {this}) (C - C0 \<union> {v})"
    using n(2) by simp
  moreover have "{x \<in> insert this S. (f(this := v)) x \<noteq> 0} = ?A \<union> {this}" "insert v C - C0 = C - C0 \<union> {v}"
    using assms(3,4) n(3) by auto
  ultimately show ?thesis using assms(1) by (auto simp: own_def)
qed

text \<open>A holder hands its cell to the outside.\<close>

lemma own_release:
  assumes "own C0 C S f" "x \<in> S" "f x \<noteq> 0"
  shows "own (insert (f x) C0) C S (f(x := 0))"
proof -
  have "f x \<in> C" using own_cell [OF assms] by simp
  then have "C - insert (f x) C0 = C - {f x} - C0" "insert (f x) C0 \<subseteq> C"
    using own_subset [OF assms(1)] by auto
  then show ?thesis using own_drop [OF assms] by (simp add: own_def)
qed

lemma own_all_empty: "own C0 C S (\<lambda>_. 0) \<Longrightarrow> C = C0"
  by (auto simp: own_def bij_betw_def)

lemma own_empty:
  assumes "own C0 C S f" "this \<notin> S"
  shows "own C0 C (insert this S) (f(this := 0))"
proof -
  have e: "{x \<in> insert this S. (f(this := 0)) x \<noteq> 0} = {x \<in> S. f x \<noteq> 0}" using assms(2) by auto
  have "bij_betw (f(this := 0)) {x \<in> S. f x \<noteq> 0} (C - C0)"
    using assms by (auto simp: own_def intro: bij_betw_cong [THEN iffD1, rotated])
  then show ?thesis using assms(1) e by (simp add: own_def)
qed

lemma own_delete:
  assumes "own C0 C S f" "f this = 0"
  shows "own C0 C (S - {this}) f"
proof -
  have "{x \<in> S - {this}. f x \<noteq> 0} = {x \<in> S. f x \<noteq> 0}" using assms(2) by auto
  then show ?thesis using assms(1) by (simp add: own_def)
qed

lemma own_move:
  assumes "own C0 C S f" "other \<in> S" "other \<noteq> this" "this \<in> S \<Longrightarrow> f this = 0"
  shows "own C0 C (insert this S) (f(this := f other, other := 0))"
proof (cases "f other = 0")
  case True
  then have "f(this := f other, other := 0) = f(this := 0)" by auto
  moreover have "f(this := 0) = f" if "this \<in> S" using assms(4) [OF that] by auto
  ultimately show ?thesis using own_empty [OF assms(1)] assms(1) by (cases "this \<in> S") (auto simp: insert_absorb)
next
  case False
  have "f other \<in> C" using assms(1,2) False by (auto simp: own_def bij_betw_def)
  moreover have "own C0 (insert (f other) (C - {f other})) (insert this S) (f(other := 0, this := f other))"
    by (rule own_add [OF own_drop [OF assms(1,2) False]]) (use False assms(4) in auto)
  ultimately show ?thesis using assms(3) by (simp add: insert_absorb fun_upd_twist)
qed
end
