(* ===== verification/V8Handles.thy ===== *)
theory V8Handles
  imports V8Memory Ownership
begin

text \<open>
  The handle classes of \<open>v8.h\<close>: \<open>Local\<close>, \<open>MaybeLocal\<close>, \<open>Maybe\<close>, \<open>Eternal\<close>, \<open>WeakCallbackInfo\<close>,
  \<open>PersistentBase\<close>, \<open>Persistent\<close> and \<open>Global\<close>, in a build without \<open>V8_ENABLE_CHECKS\<close>. A \<open>Local\<close>,
  \<open>MaybeLocal\<close> or \<open>Eternal\<close> is its pointer \<open>val_\<close>; the type parameter, which only drives compile-time
  checks, is erased. A persistent handle is a C++ object with an address, because its methods
  change it and handles can alias: \<open>handle_val\<close> maps the address of such an object to its \<open>val_\<close>.
  The functions of the engine (class \<open>V8\<close>, \<open>HandleScope\<close>) are the fields of \<open>v8_api\<close>.
\<close>

section \<open>State and engine\<close>

record 'e v8 =
  mem :: memory
  handle_val :: "addr \<Rightarrow> addr"
  engine :: 'e

datatype WeakCallbackType = kParameter | kInternalFields | kFinalizer

record 's v8_api =
  CreateHandle :: "addr \<Rightarrow> obj \<Rightarrow> 's \<Rightarrow> addr \<times> 's"
  Eternalize :: "addr \<Rightarrow> addr \<Rightarrow> 's \<Rightarrow> addr \<times> 's"
  GlobalizeReference :: "addr \<Rightarrow> addr \<Rightarrow> 's \<Rightarrow> addr \<times> 's"
  CopyPersistent :: "addr \<Rightarrow> 's \<Rightarrow> addr \<times> 's"
  DisposeGlobal :: "addr \<Rightarrow> 's \<Rightarrow> 's"
  MakeWeak :: "addr \<Rightarrow> addr \<Rightarrow> addr \<Rightarrow> WeakCallbackType \<Rightarrow> 's \<Rightarrow> 's"
  MakeWeak_phantom :: "addr \<Rightarrow> 's \<Rightarrow> 's"
  V8_ClearWeak :: "addr \<Rightarrow> 's \<Rightarrow> addr \<times> 's"
  V8_AnnotateStrongRetainer :: "addr \<Rightarrow> addr \<Rightarrow> 's \<Rightarrow> 's"
  RegisterExternallyReferencedObject :: "addr \<Rightarrow> addr \<Rightarrow> 's \<Rightarrow> 's"

definition set_val :: "addr \<Rightarrow> addr \<Rightarrow> 'e v8 \<Rightarrow> 'e v8" where
  "set_val this v st = st\<lparr>handle_val := (handle_val st)(this := v)\<rparr>"

section \<open>Local, MaybeLocal, Eternal\<close>

type_synonym local = addr

definition Local_empty :: local where "Local_empty = 0"
definition Local_IsEmpty :: "local \<Rightarrow> bool" where "Local_IsEmpty v \<longleftrightarrow> v = 0"
definition Local_Clear :: "local \<Rightarrow> local" where "Local_Clear v = 0"

definition handle_eq :: "memory \<Rightarrow> addr \<Rightarrow> addr \<Rightarrow> bool" where
  "handle_eq m a b =
     (if a = 0 then b = 0
      else if b = 0 then False
      else load64 m a = load64 m b)"

definition handle_neq :: "memory \<Rightarrow> addr \<Rightarrow> addr \<Rightarrow> bool" where
  "handle_neq m a b = (\<not> handle_eq m a b)"

definition Local_New_ptr :: "('e v8) v8_api \<Rightarrow> addr \<Rightarrow> addr \<Rightarrow> 'e v8 \<Rightarrow> local \<times> 'e v8" where
  "Local_New_ptr E isolate that st =
     (if that = 0 then (Local_empty, st)
      else CreateHandle E isolate (load64 (mem st) that) st)"

definition Local_New :: "('e v8) v8_api \<Rightarrow> addr \<Rightarrow> local \<Rightarrow> 'e v8 \<Rightarrow> local \<times> 'e v8" where
  "Local_New E isolate that st = Local_New_ptr E isolate that st"

definition Local_New_persistent :: "('e v8) v8_api \<Rightarrow> addr \<Rightarrow> addr \<Rightarrow> 'e v8 \<Rightarrow> local \<times> 'e v8" where
  "Local_New_persistent E isolate that st = Local_New_ptr E isolate (handle_val st that) st"

definition MaybeLocal_IsEmpty :: "addr \<Rightarrow> bool" where "MaybeLocal_IsEmpty v \<longleftrightarrow> v = 0"

text \<open>\<open>ToLocal\<close>: the result and the new value of \<open>*out\<close>.\<close>

definition MaybeLocal_ToLocal :: "addr \<Rightarrow> local \<Rightarrow> bool \<times> local" where
  "MaybeLocal_ToLocal v out = (\<not> MaybeLocal_IsEmpty v, if MaybeLocal_IsEmpty v then 0 else v)"

text \<open>\<open>V8::ToLocalEmpty\<close> ends the process: \<open>None\<close>.\<close>

definition MaybeLocal_ToLocalChecked :: "addr \<Rightarrow> local option" where
  "MaybeLocal_ToLocalChecked v = (if v = 0 then None else Some v)"

definition MaybeLocal_FromMaybe :: "addr \<Rightarrow> local \<Rightarrow> local" where
  "MaybeLocal_FromMaybe v default_value = (if MaybeLocal_IsEmpty v then default_value else v)"

definition Eternal_IsEmpty :: "addr \<Rightarrow> bool" where "Eternal_IsEmpty v \<longleftrightarrow> v = 0"

definition Eternal_Set :: "('e v8) v8_api \<Rightarrow> addr \<Rightarrow> local \<Rightarrow> 'e v8 \<Rightarrow> addr \<times> 'e v8" where
  "Eternal_Set E isolate handle st = Eternalize E isolate handle st"

definition Eternal_Get :: "addr \<Rightarrow> addr \<Rightarrow> local" where
  "Eternal_Get v isolate = v"

section \<open>Maybe\<close>

text \<open>\<open>Maybe<T>\<close>: a \<open>value_\<close> that was never set is \<open>None\<close> behind a false \<open>has_value_\<close>.\<close>

record 'a Maybe =
  has_value :: bool
  maybe_value :: "'a option"

definition Nothing :: "'a Maybe" where "Nothing = \<lparr>has_value = False, maybe_value = None\<rparr>"
definition Just :: "'a \<Rightarrow> 'a Maybe" where "Just t = \<lparr>has_value = True, maybe_value = Some t\<rparr>"
definition IsNothing :: "'a Maybe \<Rightarrow> bool" where "IsNothing x = (\<not> has_value x)"
definition IsJust :: "'a Maybe \<Rightarrow> bool" where "IsJust x = has_value x"

definition Maybe_To :: "'a Maybe \<Rightarrow> 'a option \<Rightarrow> bool \<times> 'a option" where
  "Maybe_To x out = (IsJust x, if IsJust x then maybe_value x else out)"

text \<open>\<open>V8::FromJustIsNothing\<close> ends the process: \<open>None\<close>.\<close>

definition FromJust :: "'a Maybe \<Rightarrow> 'a option" where
  "FromJust x = (if \<not> IsJust x then None else maybe_value x)"

definition ToChecked :: "'a Maybe \<Rightarrow> 'a option" where "ToChecked x = FromJust x"

definition FromMaybe :: "'a Maybe \<Rightarrow> 'a \<Rightarrow> 'a option" where
  "FromMaybe x default_value = (if has_value x then maybe_value x else Some default_value)"

definition Maybe_eq :: "'a Maybe \<Rightarrow> 'a Maybe \<Rightarrow> bool" where
  "Maybe_eq x y \<longleftrightarrow> IsJust x = IsJust y \<and> (\<not> IsJust x \<or> FromJust x = FromJust y)"

definition Maybe_neq :: "'a Maybe \<Rightarrow> 'a Maybe \<Rightarrow> bool" where "Maybe_neq x y = (\<not> Maybe_eq x y)"

section \<open>WeakCallbackInfo\<close>

definition kEmbedderFieldsInWeakCallback :: nat where "kEmbedderFieldsInWeakCallback = 2"

record WeakCallbackInfo =
  wci_isolate :: addr
  wci_parameter :: addr
  wci_callback :: addr
  wci_embedder_fields :: "addr list"

fun copy_fields :: "addr list \<Rightarrow> nat \<Rightarrow> addr list \<Rightarrow> addr list" where
  "copy_fields src 0 dst = dst"
| "copy_fields src (Suc i) dst = (copy_fields src i dst)[i := src ! i]"

definition WeakCallbackInfo_new :: "addr \<Rightarrow> addr \<Rightarrow> addr list \<Rightarrow> addr \<Rightarrow> WeakCallbackInfo" where
  "WeakCallbackInfo_new isolate parameter embedder_fields callback =
     \<lparr>wci_isolate = isolate, wci_parameter = parameter, wci_callback = callback,
      wci_embedder_fields = copy_fields embedder_fields kEmbedderFieldsInWeakCallback
        (replicate kEmbedderFieldsInWeakCallback 0)\<rparr>"

text \<open>Without \<open>V8_ENABLE_CHECKS\<close> an index outside the array is undefined: \<open>None\<close>.\<close>

definition WeakCallbackInfo_GetInternalField :: "WeakCallbackInfo \<Rightarrow> int \<Rightarrow> addr option" where
  "WeakCallbackInfo_GetInternalField data index =
     (if 0 \<le> index \<and> index < int (length (wci_embedder_fields data))
      then Some (wci_embedder_fields data ! nat index) else None)"

definition SetSecondPassCallback :: "WeakCallbackInfo \<Rightarrow> addr \<Rightarrow> 'e v8 \<Rightarrow> 'e v8" where
  "SetSecondPassCallback data callback st = st\<lparr>mem := store64 (mem st) (wci_callback data) callback\<rparr>"

section \<open>PersistentBase\<close>

definition PB_New :: "('e v8) v8_api \<Rightarrow> addr \<Rightarrow> addr \<Rightarrow> 'e v8 \<Rightarrow> addr \<times> 'e v8" where
  "PB_New E isolate that st =
     (if that = 0 then (0, st) else GlobalizeReference E isolate that st)"

definition PB_IsEmpty :: "'e v8 \<Rightarrow> addr \<Rightarrow> bool" where
  "PB_IsEmpty st this \<longleftrightarrow> handle_val st this = 0"

definition PB_Empty :: "addr \<Rightarrow> 'e v8 \<Rightarrow> 'e v8" where
  "PB_Empty this st = set_val this 0 st"

definition PB_Reset :: "('e v8) v8_api \<Rightarrow> addr \<Rightarrow> 'e v8 \<Rightarrow> 'e v8" where
  "PB_Reset E this st =
     (if PB_IsEmpty st this then st
      else set_val this 0 (DisposeGlobal E (handle_val st this) st))"

definition PB_Reset_local :: "('e v8) v8_api \<Rightarrow> addr \<Rightarrow> addr \<Rightarrow> local \<Rightarrow> 'e v8 \<Rightarrow> 'e v8" where
  "PB_Reset_local E this isolate other st =
     (let st1 = PB_Reset E this st
      in if Local_IsEmpty other then st1
         else let (v, st2) = PB_New E isolate other st1 in set_val this v st2)"

definition PB_Reset_persistent :: "('e v8) v8_api \<Rightarrow> addr \<Rightarrow> addr \<Rightarrow> addr \<Rightarrow> 'e v8 \<Rightarrow> 'e v8" where
  "PB_Reset_persistent E this isolate other st =
     (let st1 = PB_Reset E this st
      in if PB_IsEmpty st1 other then st1
         else let (v, st2) = PB_New E isolate (handle_val st1 other) st1 in set_val this v st2)"

definition PB_Get :: "('e v8) v8_api \<Rightarrow> addr \<Rightarrow> addr \<Rightarrow> 'e v8 \<Rightarrow> local \<times> 'e v8" where
  "PB_Get E this isolate st = Local_New_persistent E isolate this st"

definition PB_eq :: "'e v8 \<Rightarrow> addr \<Rightarrow> addr \<Rightarrow> bool" where
  "PB_eq st this that = handle_eq (mem st) (handle_val st this) (handle_val st that)"

definition PB_eq_local :: "'e v8 \<Rightarrow> addr \<Rightarrow> local \<Rightarrow> bool" where
  "PB_eq_local st this that = handle_eq (mem st) (handle_val st this) that"

definition PB_SetWeak ::
  "('e v8) v8_api \<Rightarrow> addr \<Rightarrow> addr \<Rightarrow> addr \<Rightarrow> WeakCallbackType \<Rightarrow> 'e v8 \<Rightarrow> 'e v8" where
  "PB_SetWeak E this parameter callback type st = MakeWeak E (handle_val st this) parameter callback type st"

definition PB_SetWeak_phantom :: "('e v8) v8_api \<Rightarrow> addr \<Rightarrow> 'e v8 \<Rightarrow> 'e v8" where
  "PB_SetWeak_phantom E this st = MakeWeak_phantom E this st"

definition PB_ClearWeak :: "('e v8) v8_api \<Rightarrow> addr \<Rightarrow> 'e v8 \<Rightarrow> addr \<times> 'e v8" where
  "PB_ClearWeak E this st = V8_ClearWeak E (handle_val st this) st"

definition PB_AnnotateStrongRetainer :: "('e v8) v8_api \<Rightarrow> addr \<Rightarrow> addr \<Rightarrow> 'e v8 \<Rightarrow> 'e v8" where
  "PB_AnnotateStrongRetainer E this label st = V8_AnnotateStrongRetainer E (handle_val st this) label st"

definition PB_RegisterExternalReference :: "('e v8) v8_api \<Rightarrow> addr \<Rightarrow> addr \<Rightarrow> 'e v8 \<Rightarrow> 'e v8" where
  "PB_RegisterExternalReference E this isolate st =
     (if PB_IsEmpty st this then st
      else RegisterExternallyReferencedObject E (handle_val st this) isolate st)"

definition PB_IsIndependent :: "'e v8 \<Rightarrow> addr \<Rightarrow> bool" where
  "PB_IsIndependent st this =
     (if PB_IsEmpty st this then False
      else GetNodeFlag (mem st) (handle_val st this) kNodeIsIndependentShift \<noteq> 0)"

definition PB_IsNearDeath :: "'e v8 \<Rightarrow> addr \<Rightarrow> bool" where
  "PB_IsNearDeath st this =
     (if PB_IsEmpty st this then False
      else let node_state = GetNodeState (mem st) (handle_val st this)
           in node_state = kNodeStateIsNearDeathValue \<or> node_state = kNodeStateIsPendingValue)"

definition PB_IsWeak :: "'e v8 \<Rightarrow> addr \<Rightarrow> bool" where
  "PB_IsWeak st this =
     (if PB_IsEmpty st this then False
      else GetNodeState (mem st) (handle_val st this) = kNodeStateIsWeakValue)"

definition PB_MarkIndependent :: "addr \<Rightarrow> 'e v8 \<Rightarrow> 'e v8" where
  "PB_MarkIndependent this st =
     (if PB_IsEmpty st this then st
      else st\<lparr>mem := UpdateNodeFlag (mem st) (handle_val st this) True kNodeIsIndependentShift\<rparr>)"

definition PB_MarkActive :: "addr \<Rightarrow> 'e v8 \<Rightarrow> 'e v8" where
  "PB_MarkActive this st =
     (if PB_IsEmpty st this then st
      else st\<lparr>mem := UpdateNodeFlag (mem st) (handle_val st this) True kNodeIsActiveShift\<rparr>)"

definition PB_SetWrapperClassId :: "addr \<Rightarrow> uint16_t \<Rightarrow> 'e v8 \<Rightarrow> 'e v8" where
  "PB_SetWrapperClassId this class_id st =
     (if PB_IsEmpty st this then st
      else st\<lparr>mem := store16 (mem st) (handle_val st this + kNodeClassIdOffset) class_id\<rparr>)"

definition PB_WrapperClassId :: "'e v8 \<Rightarrow> addr \<Rightarrow> uint16_t" where
  "PB_WrapperClassId st this =
     (if PB_IsEmpty st this then 0
      else load16 (mem st) (handle_val st this + kNodeClassIdOffset))"

section \<open>Persistent\<close>

text \<open>
  The traits class \<open>M\<close> gives \<open>kResetInDestructor\<close> and \<open>Copy\<close>; the two of the header are below
  (\<open>NonCopyablePersistentTraits::Copy\<close> does not compile).
\<close>

record 's persistent_traits =
  kResetInDestructor :: bool
  traits_Copy :: "addr \<Rightarrow> addr \<Rightarrow> 's \<Rightarrow> 's"

definition CopyablePersistentTraits :: "'s persistent_traits" where
  "CopyablePersistentTraits = \<lparr>kResetInDestructor = True, traits_Copy = \<lambda>source dest st. st\<rparr>"

definition NonCopyable_kResetInDestructor :: bool where
  "NonCopyable_kResetInDestructor = False"

definition Persistent_new :: "addr \<Rightarrow> 'e v8 \<Rightarrow> 'e v8" where
  "Persistent_new this st = set_val this 0 st"

definition Persistent_new_local :: "('e v8) v8_api \<Rightarrow> addr \<Rightarrow> addr \<Rightarrow> local \<Rightarrow> 'e v8 \<Rightarrow> 'e v8" where
  "Persistent_new_local E this isolate that st =
     (let (v, st1) = PB_New E isolate that st in set_val this v st1)"

definition Persistent_new_persistent :: "('e v8) v8_api \<Rightarrow> addr \<Rightarrow> addr \<Rightarrow> addr \<Rightarrow> 'e v8 \<Rightarrow> 'e v8" where
  "Persistent_new_persistent E this isolate that st =
     (let (v, st1) = PB_New E isolate (handle_val st that) st in set_val this v st1)"

definition Persistent_Copy ::
  "('e v8) v8_api \<Rightarrow> ('e v8) persistent_traits \<Rightarrow> addr \<Rightarrow> addr \<Rightarrow> 'e v8 \<Rightarrow> 'e v8" where
  "Persistent_Copy E M this that st =
     (let st1 = PB_Reset E this st
      in if PB_IsEmpty st1 that then st1
         else let (v, st2) = CopyPersistent E (handle_val st1 that) st1
              in traits_Copy M that this (set_val this v st2))"

definition Persistent_copy_new ::
  "('e v8) v8_api \<Rightarrow> ('e v8) persistent_traits \<Rightarrow> addr \<Rightarrow> addr \<Rightarrow> 'e v8 \<Rightarrow> 'e v8" where
  "Persistent_copy_new E M this that st = Persistent_Copy E M this that (set_val this 0 st)"

definition Persistent_assign ::
  "('e v8) v8_api \<Rightarrow> ('e v8) persistent_traits \<Rightarrow> addr \<Rightarrow> addr \<Rightarrow> 'e v8 \<Rightarrow> 'e v8" where
  "Persistent_assign E M this that st = Persistent_Copy E M this that st"

definition Persistent_delete :: "('e v8) v8_api \<Rightarrow> bool \<Rightarrow> addr \<Rightarrow> 'e v8 \<Rightarrow> 'e v8" where
  "Persistent_delete E resetInDestructor this st = (if resetInDestructor then PB_Reset E this st else st)"

section \<open>Global\<close>

definition Global_new :: "addr \<Rightarrow> 'e v8 \<Rightarrow> 'e v8" where
  "Global_new this st = set_val this 0 st"

definition Global_new_local :: "('e v8) v8_api \<Rightarrow> addr \<Rightarrow> addr \<Rightarrow> local \<Rightarrow> 'e v8 \<Rightarrow> 'e v8" where
  "Global_new_local E this isolate that st =
     (let (v, st1) = PB_New E isolate that st in set_val this v st1)"

definition Global_new_persistent :: "('e v8) v8_api \<Rightarrow> addr \<Rightarrow> addr \<Rightarrow> addr \<Rightarrow> 'e v8 \<Rightarrow> 'e v8" where
  "Global_new_persistent E this isolate that st =
     (let (v, st1) = PB_New E isolate (handle_val st that) st in set_val this v st1)"

definition Global_move_new :: "addr \<Rightarrow> addr \<Rightarrow> 'e v8 \<Rightarrow> 'e v8" where
  "Global_move_new this other st = set_val other 0 (set_val this (handle_val st other) st)"

definition Global_delete :: "('e v8) v8_api \<Rightarrow> addr \<Rightarrow> 'e v8 \<Rightarrow> 'e v8" where
  "Global_delete E this st = PB_Reset E this st"

definition Global_move_assign :: "('e v8) v8_api \<Rightarrow> addr \<Rightarrow> addr \<Rightarrow> 'e v8 \<Rightarrow> 'e v8" where
  "Global_move_assign E this rhs st =
     (if this \<noteq> rhs
      then let st1 = PB_Reset E this st;
               st2 = set_val this (handle_val st1 rhs) st1
           in set_val rhs 0 st2
      else st)"

text \<open>\<open>Pass\<close> moves \<open>*this\<close> into the object it returns, at \<open>ret\<close>.\<close>

definition Global_Pass :: "addr \<Rightarrow> addr \<Rightarrow> 'e v8 \<Rightarrow> 'e v8" where
  "Global_Pass this ret st = Global_move_new ret this st"

section \<open>Storage cells\<close>

text \<open>
  What the engine promises about storage cells, \<open>cells st\<close> being those in use and \<open>alive st\<close>
  saying that the engine has not ended the process (it does when it runs out of memory): a new
  cell is fresh and holds the object it was made for; disposing a cell in use frees it and
  nothing else; no call changes the content of the other cells or a C++ handle object.
\<close>

definition new_cell :: "('e v8 \<Rightarrow> addr set) \<Rightarrow> 'e v8 \<Rightarrow> obj \<Rightarrow> addr \<Rightarrow> 'e v8 \<Rightarrow> bool" where
  "new_cell cells st ob c st' \<longleftrightarrow> c \<noteq> 0 \<and> c \<notin> cells st \<and> cells st' = insert c (cells st) \<and>
     handle_val st' = handle_val st \<and> load64 (mem st') c = ob \<and>
     (\<forall>x \<in> cells st. load64 (mem st') x = load64 (mem st) x)"

definition cells_contract :: "('e v8) v8_api \<Rightarrow> ('e v8 \<Rightarrow> addr set) \<Rightarrow> ('e v8 \<Rightarrow> bool) \<Rightarrow> bool" where
  "cells_contract E cells alive \<longleftrightarrow>
     (\<forall>st f. cells (st\<lparr>handle_val := f\<rparr>) = cells st \<and> alive (st\<lparr>handle_val := f\<rparr>) = alive st) \<and>
     (\<forall>isolate p st c st'. GlobalizeReference E isolate p st = (c, st') \<longrightarrow> alive st' \<longrightarrow>
        alive st \<and> (p \<noteq> 0 \<longrightarrow> new_cell cells st (load64 (mem st) p) c st')) \<and>
     (\<forall>p st c st'. CopyPersistent E p st = (c, st') \<longrightarrow> alive st' \<longrightarrow>
        alive st \<and> (p \<in> cells st \<longrightarrow> new_cell cells st (load64 (mem st) p) c st')) \<and>
     (\<forall>c st. (alive (DisposeGlobal E c st) \<longrightarrow> alive st) \<and>
        (c \<in> cells st \<longrightarrow> alive st \<longrightarrow> cells (DisposeGlobal E c st) = cells st - {c} \<and> alive (DisposeGlobal E c st) \<and>
          handle_val (DisposeGlobal E c st) = handle_val st \<and>
          (\<forall>x \<in> cells st - {c}. load64 (mem (DisposeGlobal E c st)) x = load64 (mem st) x)))"

lemma cells_set_val [simp]:
  "cells_contract E cells alive \<Longrightarrow> cells (set_val this v st) = cells st"
  "cells_contract E cells alive \<Longrightarrow> alive (set_val this v st) = alive st"
  by (simp_all add: cells_contract_def set_val_def)

lemma handle_val_set_val [simp]: "handle_val (set_val this v st) = (handle_val st)(this := v)"
  by (simp add: set_val_def)

lemma mem_set_val [simp]: "mem (set_val this v st) = mem st"
  by (simp add: set_val_def)

lemma GlobalizeReference_alive:
  "cells_contract E cells alive \<Longrightarrow> GlobalizeReference E isolate p st = (c, st') \<Longrightarrow> alive st' \<Longrightarrow> alive st"
  and GlobalizeReference_new_cell:
  "cells_contract E cells alive \<Longrightarrow> GlobalizeReference E isolate p st = (c, st') \<Longrightarrow> alive st' \<Longrightarrow> p \<noteq> 0 \<Longrightarrow>
   new_cell cells st (load64 (mem st) p) c st'"
  unfolding cells_contract_def by blast+

lemma CopyPersistent_alive:
  "cells_contract E cells alive \<Longrightarrow> CopyPersistent E p st = (c, st') \<Longrightarrow> alive st' \<Longrightarrow> alive st"
  and CopyPersistent_new_cell:
  "cells_contract E cells alive \<Longrightarrow> CopyPersistent E p st = (c, st') \<Longrightarrow> alive st' \<Longrightarrow> p \<in> cells st \<Longrightarrow>
   new_cell cells st (load64 (mem st) p) c st'"
  unfolding cells_contract_def by blast+

lemma DisposeGlobal_alive: "cells_contract E cells alive \<Longrightarrow> alive (DisposeGlobal E c st) \<Longrightarrow> alive st"
  unfolding cells_contract_def by blast

lemma DisposeGlobal_cells:
  assumes "cells_contract E cells alive" and "c \<in> cells st" and "alive st"
  shows "cells (DisposeGlobal E c st) = cells st - {c}" "handle_val (DisposeGlobal E c st) = handle_val st"
    "x \<in> cells st - {c} \<Longrightarrow> load64 (mem (DisposeGlobal E c st)) x = load64 (mem st) x"
    "alive (DisposeGlobal E c st)"
  using assms unfolding cells_contract_def by blast+

text \<open>A process that has ended stays ended.\<close>

lemma PB_Reset_alive: "cells_contract E cells alive \<Longrightarrow> alive (PB_Reset E this st) \<Longrightarrow> alive st"
  using DisposeGlobal_alive [of E cells alive] by (auto simp: PB_Reset_def split: if_split_asm)

lemma PB_New_alive: "cells_contract E cells alive \<Longrightarrow> PB_New E isolate p st = (v, st') \<Longrightarrow> alive st' \<Longrightarrow> alive st"
  by (auto simp: PB_New_def split: if_split_asm dest: GlobalizeReference_alive)

text \<open>The C++ handle objects \<open>S\<close> own the cells in use beyond \<open>C0\<close>.\<close>

abbreviation owns :: "('e v8 \<Rightarrow> addr set) \<Rightarrow> addr set \<Rightarrow> addr set \<Rightarrow> 'e v8 \<Rightarrow> bool" where
  "owns cells C0 S st \<equiv> own C0 (cells st) S (handle_val st)"

lemma owns_reset:
  assumes "cells_contract E cells alive" and "owns cells C0 S st" and "this \<in> S" and "alive st"
  shows "owns cells C0 S (PB_Reset E this st)" and "handle_val (PB_Reset E this st) = (handle_val st)(this := 0)"
proof -
  have live: "handle_val st this \<noteq> 0 \<Longrightarrow> handle_val st this \<in> cells st"
    using own_cell [OF assms(2,3)] by simp
  show "owns cells C0 S (PB_Reset E this st)"
    using assms own_drop [OF assms(2,3)] DisposeGlobal_cells(1,2) [OF assms(1) live]
    by (simp add: PB_Reset_def PB_IsEmpty_def)
  show "handle_val (PB_Reset E this st) = (handle_val st)(this := 0)"
    using DisposeGlobal_cells(2) [OF assms(1) live assms(4)] by (auto simp: PB_Reset_def PB_IsEmpty_def fun_upd_idem)
qed

lemma owns_new_cell:
  assumes "cells_contract E cells alive" and "owns cells C0 S st" and "new_cell cells st ob v st'"
    and "this \<in> S \<Longrightarrow> handle_val st this = 0"
  shows "owns cells C0 (insert this S) (set_val this v st')"
  using own_add [OF assms(2), of v this] assms(1,3,4) by (simp add: new_cell_def)

lemma owns_PB_New:
  assumes "cells_contract E cells alive" and "owns cells C0 S st" and "this \<in> S \<Longrightarrow> handle_val st this = 0"
    and "PB_New E isolate p st = (v, st')" and "alive st'"
  shows "owns cells C0 (insert this S) (set_val this v st')"
proof (cases "p = 0")
  case True
  then have "v = 0" "st' = st" using assms(4) by (simp_all add: PB_New_def)
  then show ?thesis
    using assms(1,2,3) own_empty [OF assms(2), of this] by (cases "this \<in> S") (auto simp: insert_absorb fun_upd_idem)
next
  case False
  then show ?thesis
    using owns_new_cell [OF assms(1,2) GlobalizeReference_new_cell [OF assms(1) _ assms(5)] assms(3)] assms(4)
    by (simp add: PB_New_def)
qed

section \<open>Programs over handles\<close>

text \<open>
  What a program can do with \<open>Global\<close> handles and copyable \<open>Persistent\<close> handles: \<open>S\<close> are the
  handle objects alive.
\<close>

inductive handle_step :: "('e v8) v8_api \<Rightarrow> addr set \<times> 'e v8 \<Rightarrow> addr set \<times> 'e v8 \<Rightarrow> bool" for E where
  new_empty: "this \<notin> S \<Longrightarrow> handle_step E (S, st) (insert this S, Global_new this st)"
| new_local: "this \<notin> S \<Longrightarrow> handle_step E (S, st) (insert this S, Global_new_local E this isolate that st)"
| new_persistent: "this \<notin> S \<Longrightarrow> that \<in> S \<Longrightarrow>
    handle_step E (S, st) (insert this S, Global_new_persistent E this isolate that st)"
| new_move: "this \<notin> S \<Longrightarrow> other \<in> S \<Longrightarrow> handle_step E (S, st) (insert this S, Global_move_new this other st)"
| new_copy: "this \<notin> S \<Longrightarrow> that \<in> S \<Longrightarrow>
    handle_step E (S, st) (insert this S, Persistent_copy_new E CopyablePersistentTraits this that st)"
| move_assign: "this \<in> S \<Longrightarrow> rhs \<in> S \<Longrightarrow> handle_step E (S, st) (S, Global_move_assign E this rhs st)"
| copy_assign: "this \<in> S \<Longrightarrow> that \<in> S \<Longrightarrow>
    handle_step E (S, st) (S, Persistent_assign E CopyablePersistentTraits this that st)"
| reset: "this \<in> S \<Longrightarrow> handle_step E (S, st) (S, PB_Reset E this st)"
| reset_local: "this \<in> S \<Longrightarrow> handle_step E (S, st) (S, PB_Reset_local E this isolate other st)"
| reset_persistent: "this \<in> S \<Longrightarrow> other \<in> S \<Longrightarrow>
    handle_step E (S, st) (S, PB_Reset_persistent E this isolate other st)"
| delete_global: "this \<in> S \<Longrightarrow> handle_step E (S, st) (S - {this}, Global_delete E this st)"
| delete_persistent: "this \<in> S \<Longrightarrow>
    handle_step E (S, st) (S - {this}, Persistent_delete E (kResetInDestructor (CopyablePersistentTraits :: ('e v8) persistent_traits)) this st)"

lemma Persistent_Copy_alive:
  "cells_contract E cells alive \<Longrightarrow> alive (Persistent_Copy E CopyablePersistentTraits this that st) \<Longrightarrow>
   alive (PB_Reset E this st) \<and> alive st"
  by (auto simp: Persistent_Copy_def CopyablePersistentTraits_def Let_def split: prod.split_asm if_split_asm
      dest: CopyPersistent_alive PB_Reset_alive)

lemma owns_Persistent_Copy:
  assumes "cells_contract E cells alive" and "owns cells C0 S st" and "this \<in> S" and "that \<in> S"
    and al: "alive (Persistent_Copy E CopyablePersistentTraits this that st)"
  shows "owns cells C0 S (Persistent_Copy E CopyablePersistentTraits this that st)"
proof -
  have alive: "alive st" "alive (PB_Reset E this st)" using Persistent_Copy_alive [OF assms(1) al] by auto
  note r = owns_reset [OF assms(1-3) alive(1)]
  let ?st = "PB_Reset E this st"
  show ?thesis
  proof (cases "handle_val ?st that = 0")
    case True
    then show ?thesis using r(1) by (simp add: Persistent_Copy_def Let_def PB_IsEmpty_def)
  next
    case False
    obtain v st' where c: "CopyPersistent E (handle_val ?st that) ?st = (v, st')" by (metis surj_pair)
    then have copy: "Persistent_Copy E CopyablePersistentTraits this that st = set_val this v st'"
      using False by (simp add: Persistent_Copy_def Let_def PB_IsEmpty_def CopyablePersistentTraits_def)
    have "handle_val ?st that \<in> cells ?st" using own_cell [OF r(1) assms(4) False] by simp
    from owns_new_cell [OF assms(1) r(1) CopyPersistent_new_cell [OF assms(1) c _ this], of this]
    show ?thesis using al r(2) assms(1,3) by (simp add: insert_absorb copy)
  qed
qed

lemma owns_PB_New_reset:
  assumes "cells_contract E cells alive" and "owns cells C0 S st" and "this \<in> S"
    and "PB_New E isolate p (PB_Reset E this st) = (v, st')" and "alive st'"
  shows "owns cells C0 S (set_val this v st')"
proof -
  note r = owns_reset [OF assms(1-3) PB_Reset_alive [OF assms(1) PB_New_alive [OF assms(1,4,5)]]]
  show ?thesis
    using owns_PB_New [OF assms(1) r(1) _ assms(4,5), of this] r(2) assms(3) by (simp add: insert_absorb)
qed

lemmas step_ops_defs =
  Global_new_def Global_new_local_def Global_new_persistent_def Global_move_new_def Persistent_copy_new_def
  Global_move_assign_def Persistent_assign_def PB_Reset_local_def PB_Reset_persistent_def Global_delete_def
  Persistent_delete_def Let_def

lemma Persistent_copy_new_alive:
  assumes "cells_contract E cells alive"
    and "alive (Persistent_Copy E CopyablePersistentTraits this that (set_val this v st))"
  shows "alive st"
  using Persistent_Copy_alive [OF assms] assms(1) by simp

lemma handle_step_alive:
  "handle_step E s s' \<Longrightarrow> cells_contract E cells alive \<Longrightarrow> alive (snd s') \<Longrightarrow> alive (snd s)"
  by (induction rule: handle_step.induct)
     (auto simp: step_ops_defs split: prod.split_asm if_split_asm
       dest: PB_New_alive PB_Reset_alive Persistent_Copy_alive Persistent_copy_new_alive)

lemma owns_reset_delete:
  assumes "cells_contract E cells alive" and "owns cells C0 S st" and "this \<in> S" and "alive (PB_Reset E this st)"
  shows "owns cells C0 (S - {this}) (PB_Reset E this st)"
  using own_delete [OF owns_reset(1) [OF assms(1-3)]] owns_reset(2) [OF assms(1-3)] PB_Reset_alive [OF assms(1,4)]
  by simp

lemma owns_move_assign:
  assumes "cells_contract E cells alive" and "owns cells C0 S st" and "this \<in> S" "rhs \<in> S"
    and "alive (Global_move_assign E this rhs st)"
  shows "owns cells C0 S (Global_move_assign E this rhs st)"
proof (cases "this = rhs")
  case True
  then show ?thesis using assms(2) by (simp add: Global_move_assign_def)
next
  case False
  then have "alive (PB_Reset E this st)" using assms(1,5) by (simp add: Global_move_assign_def Let_def)
  note r = owns_reset [OF assms(1-3) PB_Reset_alive [OF assms(1) this]]
  show ?thesis
    using own_move [OF r(1) assms(4), of this] False r(2) assms(1,3)
    by (simp add: Global_move_assign_def Let_def insert_absorb fun_upd_same del: fun_upd_apply)
qed

text \<open>Resetting to a persistent is resetting to the local handle its cell is, read after the old cell is gone.\<close>

lemma PB_Reset_persistent_local:
  "PB_Reset_persistent E this isolate other st = PB_Reset_local E this isolate (handle_val (PB_Reset E this st) other) st"
  by (simp add: PB_Reset_persistent_def PB_Reset_local_def PB_IsEmpty_def Local_IsEmpty_def Let_def)

lemma owns_reset_local:
  assumes "cells_contract E cells alive" and "owns cells C0 S st" and "this \<in> S" and "alive (PB_Reset_local E this isolate other st)"
  shows "owns cells C0 S (PB_Reset_local E this isolate other st)"
  using assms owns_reset(1) [OF assms(1), of C0 st S this] PB_Reset_alive [OF assms(1), of this st]
    owns_PB_New_reset [OF assms(1), of C0 st S this isolate other]
  by (simp add: PB_Reset_local_def Let_def del: fun_upd_apply split: prod.splits if_splits)

lemma owns_copy_new:
  assumes c: "cells_contract E cells alive" and "owns cells C0 S st" and "this \<notin> S" and "that \<in> S"
    and "alive (Persistent_copy_new E CopyablePersistentTraits this that st)"
  shows "owns cells C0 (insert this S) (Persistent_copy_new E CopyablePersistentTraits this that st)"
proof -
  have "owns cells C0 (insert this S) (set_val this 0 st)"
    using assms own_empty [of C0 "cells st" S "handle_val st" this] by simp
  from owns_Persistent_Copy [OF c this, of this that] show ?thesis
    using assms by (simp add: Persistent_copy_new_def)
qed

lemma handle_step_owns:
  assumes "handle_step E s s'" and c: "cells_contract E cells alive"
    and "owns cells C0 (fst s) (snd s)" and "alive (snd s')"
  shows "owns cells C0 (fst s') (snd s')"
  using assms(1,3,4)
proof (induction rule: handle_step.induct)
  case (new_empty this S st)
  then show ?case using c own_empty [of C0 "cells st" S "handle_val st" this]
    by (simp add: Global_new_def del: fun_upd_apply)
next
  case (new_local this S st isolate that)
  then show ?case
    using c owns_PB_New [OF c, of C0 st S this isolate that]
    by (simp add: Global_new_local_def del: fun_upd_apply split: prod.splits)
next
  case (new_persistent this S that st isolate)
  then show ?case
    using c owns_PB_New [OF c, of C0 st S this isolate "handle_val st that"]
    by (simp add: Global_new_persistent_def del: fun_upd_apply split: prod.splits)
next
  case (new_move this S other st)
  then show ?case using c own_move [of C0 "cells st" S "handle_val st" other this]
    by (auto simp: Global_move_new_def simp del: fun_upd_apply)
next
  case (new_copy this S that st)
  then show ?case using owns_copy_new [OF c] by simp
next
  case (move_assign this S rhs st)
  then show ?case using owns_move_assign [OF c, of C0 st S this rhs] by simp
next
  case (copy_assign this S that st)
  then show ?case using owns_Persistent_Copy [OF c, of C0 st S this that] by (simp add: Persistent_assign_def)
next
  case (reset this S st)
  then show ?case using owns_reset(1) [OF c, of C0 st S this] PB_Reset_alive [OF c] by simp
next
  case (reset_local this S st isolate other)
  then show ?case using owns_reset_local [OF c] by simp
next
  case (reset_persistent this S other st isolate)
  then show ?case using owns_reset_local [OF c] by (simp add: PB_Reset_persistent_local)
next
  case (delete_global this S st)
  then show ?case using owns_reset_delete [OF c, of C0 st S this] by (simp add: Global_delete_def)
next
  case (delete_persistent this S st)
  then show ?case
    using owns_reset_delete [OF c, of C0 st S this] by (simp add: Persistent_delete_def CopyablePersistentTraits_def)
qed

inductive handle_run :: "('e v8) v8_api \<Rightarrow> addr set \<times> 'e v8 \<Rightarrow> addr set \<times> 'e v8 \<Rightarrow> bool" for E where
  stop: "handle_run E s s"
| step: "handle_step E s s' \<Longrightarrow> handle_run E s' s'' \<Longrightarrow> handle_run E s s''"

lemma handle_run_alive:
  "handle_run E s s' \<Longrightarrow> cells_contract E cells alive \<Longrightarrow> alive (snd s') \<Longrightarrow> alive (snd s)"
  by (induction rule: handle_run.induct) (auto dest: handle_step_alive)

lemma handle_run_owns:
  "handle_run E s s' \<Longrightarrow> cells_contract E cells alive \<Longrightarrow> owns cells C0 (fst s) (snd s) \<Longrightarrow> alive (snd s') \<Longrightarrow>
   owns cells C0 (fst s') (snd s')"
  by (induction rule: handle_run.induct) (auto dest: handle_step_owns handle_run_alive)

section \<open>Properties\<close>

text \<open>
  C24. Ownership: whatever a program does with \<open>Global\<close> and copyable \<open>Persistent\<close> handles
  (construct, copy, move, assign, reset, destroy, in any order and with any aliasing), every
  non-empty handle holds a cell in use that no other handle holds, and the cells in use are
  those and the ones that existed before. So no cell is disposed twice or leaked: when all handles are
  destroyed, exactly the cells of the start remain.
\<close>

theorem handles_own_cells:
  assumes "cells_contract E cells alive" and "handle_run E ({}, st0) (S, st)" and "alive st"
  shows "(\<forall>x \<in> S. handle_val st x \<noteq> 0 \<longrightarrow> handle_val st x \<in> cells st - cells st0)
    \<and> inj_on (handle_val st) {x \<in> S. handle_val st x \<noteq> 0}
    \<and> cells st = cells st0 \<union> handle_val st ` {x \<in> S. handle_val st x \<noteq> 0}
    \<and> (S = {} \<longrightarrow> cells st = cells st0)"
proof -
  have "own (cells st0) (cells st) S (handle_val st)"
    using handle_run_owns [OF assms(2,1), of "cells st0"] own_start [of "cells st0" "handle_val st0"] assms(3) by simp
  then show ?thesis by (auto simp: own_def bij_betw_def)
qed

text \<open>
  Copying: assigning a non-empty \<open>Persistent\<close> to another one disposes the target's cell and
  gives the target a new cell with the same object; the source keeps its own cell.
\<close>

theorem Persistent_assign_copies:
  assumes "cells_contract E cells alive" and "owns cells C0 S st" and "this \<in> S" "that \<in> S" "this \<noteq> that"
    and "handle_val st that \<noteq> 0" and "alive st'" and st': "st' = Persistent_assign E CopyablePersistentTraits this that st"
  shows "handle_val st' that = handle_val st that \<and> handle_val st' this \<notin> {0, handle_val st that}
    \<and> load64 (mem st') (handle_val st' this) = load64 (mem st) (handle_val st that)
    \<and> handle_val st' this \<in> cells st'
    \<and> cells st' = insert (handle_val st' this) (cells st - (if handle_val st this = 0 then {} else {handle_val st this}))"
proof -
  let ?st = "PB_Reset E this st" and ?p = "handle_val st that"
  have alive: "alive st" using Persistent_Copy_alive [OF assms(1)] assms(7) st' by (simp add: Persistent_assign_def)
  note r = owns_reset [OF assms(1-3) alive]
  have p: "handle_val ?st that = ?p" "?p \<in> cells ?st"
    using r(2) own_cell [OF r(1) assms(4)] assms(5,6) by auto
  have content: "load64 (mem ?st) ?p = load64 (mem st) ?p"
    "cells ?st = cells st - (if handle_val st this = 0 then {} else {handle_val st this})"
    using DisposeGlobal_cells [OF assms(1), of "handle_val st this" st] own_cell [OF assms(2,3)] own_cell [OF assms(2,4,6)]
      p(2) assms(1) alive by (auto simp: PB_Reset_def PB_IsEmpty_def split: if_split_asm)
  obtain v st2 where c: "CopyPersistent E ?p ?st = (v, st2)" by (metis surj_pair)
  have set: "st' = set_val this v st2"
    using st' c p assms(6)
    by (simp add: Persistent_assign_def Persistent_Copy_def Let_def PB_IsEmpty_def CopyablePersistentTraits_def)
  then have "new_cell cells ?st (load64 (mem ?st) ?p) v st2"
    using CopyPersistent_new_cell [OF assms(1) c _ p(2)] assms(1,7) by simp
  then show ?thesis
    using set assms(1,5) p content r(2) by (auto simp: new_cell_def)
qed

text \<open>
  Self-assignment: \<open>Persistent::Copy\<close> resets \<open>*this\<close> before it looks at its argument, so
  assigning a \<open>Persistent\<close> to itself disposes its cell and leaves it empty, where \<open>Global\<close>'s
  move assignment, which compares the addresses, leaves the handle alone.
\<close>

theorem Persistent_self_assign_empties:
  assumes "cells_contract E cells alive" and "handle_val st this \<in> cells st" and "handle_val st this \<noteq> 0"
    and "alive st"
  shows "PB_IsEmpty (Persistent_assign E M this this st) this
    \<and> cells (Persistent_assign E M this this st) = cells st - {handle_val st this}
    \<and> Global_move_assign E this this st = st"
  using assms DisposeGlobal_cells [OF assms(1,2,4)]
  by (simp add: Persistent_assign_def Persistent_Copy_def PB_Reset_def PB_IsEmpty_def Global_move_assign_def Let_def)

text \<open>
  The class id and the flags of a handle's node do not interfere: a class id reads back as it
  was set, leaves the object in the cell, the weak and near-death states and the independence flag; \<open>MarkActive\<close>
  and \<open>MarkIndependent\<close> leave the class id, the state and the object.
\<close>

theorem node_metadata_independent:
  assumes "\<not> PB_IsEmpty st this"
  shows "PB_WrapperClassId (PB_SetWrapperClassId this cid st) this = cid
    \<and> PB_IsWeak (PB_SetWrapperClassId this cid st) this = PB_IsWeak st this
    \<and> PB_IsNearDeath (PB_SetWrapperClassId this cid st) this = PB_IsNearDeath st this
    \<and> PB_IsIndependent (PB_SetWrapperClassId this cid st) this = PB_IsIndependent st this
    \<and> load64 (mem (PB_SetWrapperClassId this cid st)) (handle_val st this) = load64 (mem st) (handle_val st this)
    \<and> PB_IsIndependent (PB_MarkIndependent this st) this
    \<and> PB_IsIndependent (PB_MarkActive this st) this = PB_IsIndependent st this
    \<and> PB_IsWeak (PB_MarkActive this st) this = PB_IsWeak st this
    \<and> PB_WrapperClassId (PB_MarkActive this st) this = PB_WrapperClassId st this
    \<and> load64 (mem (PB_MarkActive this st)) (handle_val st this) = load64 (mem st) (handle_val st this)"
proof -
  let ?p = "handle_val st this"
  let ?m = "mem st"
  have p: "?p \<noteq> 0" using assms by (simp add: PB_IsEmpty_def)
  have cls: "store16 ?m (?p + kNodeClassIdOffset) cid (?p + kNodeFlagsOffset) = ?m (?p + kNodeFlagsOffset)"
    unfolding store16_def by (rule store_le_frame) (simp add: offset_defs)
  have obj1: "load64 (store16 ?m (?p + kNodeClassIdOffset) cid) ?p = load64 ?m ?p"
    using load64_store16_apart [OF apart_of_nat [of 8 2 0 8 ?p]] by (simp add: offset_defs)
  have obj2: "load64 (UpdateNodeFlag ?m ?p b k) ?p = load64 ?m ?p"
    and cls2: "load16 (UpdateNodeFlag ?m ?p b k) (?p + kNodeClassIdOffset) = load16 ?m (?p + kNodeClassIdOffset)" for b k
    unfolding load64_def load16_def UpdateNodeFlag_def Let_def
    by (subst load_le_upd; simp add: offset_defs)+
  have flags: "GetNodeState (UpdateNodeFlag ?m ?p True 4) ?p = GetNodeState ?m ?p"
    "GetNodeFlag (UpdateNodeFlag ?m ?p True 4) ?p 3 = GetNodeFlag ?m ?p 3"
    "GetNodeFlag (UpdateNodeFlag ?m ?p True 3) ?p 3 = push_bit 3 1"
    by (simp_all add: UpdateNodeFlag_same UpdateNodeFlag_other UpdateNodeFlag_state)
  show ?thesis
    using p cls obj1 obj2 cls2 flags
    by (simp add: PB_WrapperClassId_def PB_SetWrapperClassId_def PB_IsWeak_def PB_IsNearDeath_def PB_IsIndependent_def
        PB_MarkIndependent_def PB_MarkActive_def PB_IsEmpty_def GetNodeState_def GetNodeFlag_def
        kNodeIsIndependentShift_def kNodeIsActiveShift_def)
qed


section \<open>A concrete engine\<close>

text \<open>
  An engine that puts cell number \<open>k\<close> at address \<open>16 * k\<close>, never reuses a cell and gives up after a thousand.
\<close>

record bump_engine =
  cell_count :: nat
  disposed :: "addr set"

definition bump_cell :: "nat \<Rightarrow> addr" where "bump_cell k = of_nat (16 * k)"

text \<open>\<open>get\<close> and \<open>put\<close> read and replace the allocator inside a larger engine state.\<close>

definition bump_cells :: "('e \<Rightarrow> bump_engine) \<Rightarrow> 'e v8 \<Rightarrow> addr set" where
  "bump_cells get st = bump_cell ` {1..min 1000 (cell_count (get (engine st)))} - disposed (get (engine st))"

definition bump_alive :: "('e \<Rightarrow> bump_engine) \<Rightarrow> 'e v8 \<Rightarrow> bool" where
  "bump_alive get st \<longleftrightarrow> cell_count (get (engine st)) \<le> 1000"

definition bump_new ::
  "('e \<Rightarrow> bump_engine) \<Rightarrow> (bump_engine \<Rightarrow> 'e \<Rightarrow> 'e) \<Rightarrow> obj \<Rightarrow> 'e v8 \<Rightarrow> addr \<times> 'e v8" where
  "bump_new get put ob st =
     (let k = Suc (cell_count (get (engine st))); c = bump_cell k
      in (c, st\<lparr>mem := store64 (mem st) c ob,
                engine := put \<lparr>cell_count = k, disposed = disposed (get (engine st)) - {c}\<rparr> (engine st)\<rparr>))"

definition bump_dispose ::
  "('e \<Rightarrow> bump_engine) \<Rightarrow> (bump_engine \<Rightarrow> 'e \<Rightarrow> 'e) \<Rightarrow> addr \<Rightarrow> 'e v8 \<Rightarrow> 'e v8" where
  "bump_dispose get put c st =
     st\<lparr>engine := put ((get (engine st))\<lparr>disposed := insert c (disposed (get (engine st)))\<rparr>) (engine st)\<rparr>"

definition bump_api :: "('e \<Rightarrow> bump_engine) \<Rightarrow> (bump_engine \<Rightarrow> 'e \<Rightarrow> 'e) \<Rightarrow> ('e v8) v8_api" where
  "bump_api get put = \<lparr>CreateHandle = \<lambda>isolate ob st. (0, st), Eternalize = \<lambda>isolate p st. (p, st),
     GlobalizeReference = \<lambda>isolate p st. bump_new get put (load64 (mem st) p) st,
     CopyPersistent = \<lambda>p st. bump_new get put (load64 (mem st) p) st,
     DisposeGlobal = bump_dispose get put,
     MakeWeak = \<lambda>p q c t st. st, MakeWeak_phantom = \<lambda>p st. st, V8_ClearWeak = \<lambda>p st. (0, st),
     V8_AnnotateStrongRetainer = \<lambda>p l st. st, RegisterExternallyReferencedObject = \<lambda>p i st. st\<rparr>"

lemma bump_cell_eq: "i \<le> 1000 \<Longrightarrow> j \<le> 1000 \<Longrightarrow> bump_cell i = bump_cell j \<longleftrightarrow> i = j"
proof -
  assume "i \<le> 1000" "j \<le> 1000"
  then have "unat (bump_cell i) = 16 * i" "unat (bump_cell j) = 16 * j" by (simp_all add: bump_cell_def unat_of_nat del: of_nat_mult)
  then show ?thesis by (metis mult_cancel1 zero_neq_numeral)
qed

lemma bump_new_cell:
  assumes "cell_count (get (engine st)) < 1000" and "bump_new get put ob st = (c, st')" and "\<And>b e. get (put b e) = b"
  shows "new_cell (bump_cells get) st ob c st'"
proof -
  let ?n = "cell_count (get (engine st))"
  have c: "c = bump_cell (Suc ?n)" "mem st' = store64 (mem st) c ob" "handle_val st' = handle_val st"
    "get (engine st') = \<lparr>cell_count = Suc ?n, disposed = disposed (get (engine st)) - {c}\<rparr>"
    using assms(2,3) by (auto simp: bump_new_def Let_def)
  have "c \<noteq> 0" using bump_cell_eq [of "Suc ?n" 0] assms(1) by (simp add: c(1) bump_cell_def)
  moreover have fresh: "c \<notin> bump_cell ` {1..?n}" using assms(1) by (auto simp: c(1) bump_cell_eq)
  moreover have "bump_cells get st' = insert c (bump_cells get st)"
    using assms(1) fresh by (auto simp: bump_cells_def c atLeastAtMostSuc_conv)
  moreover have "load64 (mem st') x = load64 (mem st) x" if "x \<in> bump_cells get st" for x
  proof -
    obtain k where k: "x = bump_cell k" "k \<le> ?n" using \<open>x \<in> bump_cells get st\<close> by (auto simp: bump_cells_def)
    have "apart (0 + of_nat (16 * Suc ?n)) 8 (0 + of_nat (16 * k)) 8"
      by (rule apart_of_nat) (use k(2) assms(1) in auto)
    then show ?thesis using load64_store64_apart by (simp add: c(1,2) k(1) bump_cell_def)
  qed
  ultimately show ?thesis using assms(1) by (auto simp: new_cell_def c bump_cells_def)
qed

lemma bump_contract:
  assumes "\<And>b e. get (put b e) = b"
  shows "cells_contract (bump_api get put) (bump_cells get) (bump_alive get)"
proof -
  have new: "cell_count (get (engine st)) < 1000" if "bump_new get put ob st = (c, st')" "bump_alive get st'" for ob st c st'
    using that assms by (auto simp: bump_new_def bump_alive_def Let_def)
  show ?thesis
    unfolding cells_contract_def
    using bump_new_cell [where get = get and put = put, OF _ _ assms] new new [THEN less_imp_le] assms
    by (auto simp: bump_api_def bump_cells_def bump_alive_def bump_dispose_def)
qed

text \<open>The allocator alone.\<close>

abbreviation bump :: "(bump_engine v8) v8_api" where "bump \<equiv> bump_api (\<lambda>b. b) (\<lambda>b e. b)"
abbreviation bump_in_use :: "bump_engine v8 \<Rightarrow> addr set" where "bump_in_use \<equiv> bump_cells (\<lambda>b. b)"
abbreviation bump_up :: "bump_engine v8 \<Rightarrow> bool" where "bump_up \<equiv> bump_alive (\<lambda>b. b)"

definition bump0 :: "bump_engine v8" where
  "bump0 = \<lparr>mem = \<lambda>_. 7, handle_val = \<lambda>_. 0, engine = \<lparr>cell_count = 0, disposed = {}\<rparr>\<rparr>"

lemma bump_ok: "cells_contract bump bump_in_use bump_up"
  by (rule bump_contract) simp

text \<open>A global made from a local at address 64, then moved.\<close>

abbreviation bump1 :: "bump_engine v8" where "bump1 \<equiv> Global_new_local bump 1 0 64 bump0"

lemma bump1_vals: "handle_val bump1 1 = 16" "bump_up bump1" "bump_in_use bump1 = {16}"
  by (simp_all add: Global_new_local_def PB_New_def bump_api_def bump_new_def bump0_def bump_cell_def set_val_def Let_def
      bump_alive_def bump_cells_def)

lemma bump1_run: "handle_run bump ({}, bump0) ({1}, bump1)"
  by (rule handle_run.step [OF handle_step.new_local handle_run.stop]) simp

lemma bump1_owns: "owns bump_in_use {} {1} bump1"
  using bump1_vals by (auto simp: own_def bij_betw_def inj_on_def)

theorem handles_own_cells_witness:
  "\<exists>st. handle_run bump ({}, bump0) ({}, st) \<and> bump_in_use st = bump_in_use bump0"
proof -
  let ?st = "Global_delete bump 1 bump1"
  have run: "handle_run bump ({}, bump0) ({}, ?st)"
    using handle_run.step [OF handle_step.new_local [of 1 "{}"]
        handle_run.step [OF handle_step.delete_global [of 1 "{1}"] handle_run.stop]] by simp
  have "bump_up ?st"
    using bump1_vals by (simp add: Global_delete_def PB_Reset_def PB_IsEmpty_def bump_api_def bump_dispose_def bump_alive_def set_val_def)
  from handles_own_cells [OF bump_ok run this] run show ?thesis by blast
qed

theorem Persistent_assign_copies_witness:
  "\<exists>st. st = Persistent_assign bump CopyablePersistentTraits 2 1 (Global_new 2 bump1) \<and>
     handle_val st 1 = 16 \<and> handle_val st 2 \<notin> {0, 16}"
proof -
  let ?st = "Global_new 2 bump1"
  have o: "owns bump_in_use {} {1, 2} ?st"
    using own_empty [OF bump1_owns, of 2] bump1_vals bump_ok
    by (simp add: Global_new_def insert_commute del: fun_upd_apply)
  have v: "handle_val ?st 1 = 16" using bump1_vals by (simp add: Global_new_def)
  have "bump_up (Persistent_assign bump CopyablePersistentTraits 2 1 ?st)"
    using v bump1_vals
    by (simp add: Persistent_assign_def Persistent_Copy_def PB_Reset_def PB_IsEmpty_def Global_new_def bump_api_def bump_dispose_def
        bump_new_def Let_def bump_alive_def CopyablePersistentTraits_def set_val_def Global_new_local_def PB_New_def bump0_def)
  from Persistent_assign_copies [OF bump_ok o _ _ _ _ this refl] v show ?thesis by auto
qed

theorem Persistent_self_assign_empties_witness:
  "PB_IsEmpty (Persistent_assign bump CopyablePersistentTraits 1 1 bump1) 1 \<and>
   bump_in_use (Persistent_assign bump CopyablePersistentTraits 1 1 bump1) = {}"
  using Persistent_self_assign_empties [OF bump_ok, of bump1 1 CopyablePersistentTraits] bump1_vals by simp

theorem node_metadata_independent_witness:
  "PB_WrapperClassId (PB_SetWrapperClassId 1 9 bump1) 1 = 9"
  using node_metadata_independent [of bump1 1 9] bump1_vals by (simp add: PB_IsEmpty_def)

end
