(* ===== verification/NodeEmbed.thy ===== *)
theory NodeEmbed
  imports V8Handles
begin

text \<open>
  The inline functions and macros of \<open>node.h\<close>: constants and methods of native objects, encodings, and the class
  \<open>AsyncResource\<close>. The functions of V8 and Node they call are in the prebuilt library, fields of the record
  \<open>node_h\<close>; a \<open>double\<close> is a value of the type \<open>'d\<close> on which the library's arithmetic is used. A failed \<open>assert\<close>, and
  \<open>ToLocalChecked\<close> or \<open>FromJust\<close> on an empty value, end the process: \<open>None\<close>.
\<close>

section \<open>The functions called\<close>

datatype encoding = ASCII | UTF8 | BASE64 | UCS2 | BINARY | HEX | BUFFER

definition LATIN1 :: encoding where "LATIN1 = BINARY"

text \<open>\<open>v8::PropertyAttribute\<close>.\<close>

definition ReadOnly :: nat where "ReadOnly = 1"
definition DontEnum :: nat where "DontEnum = 2"
definition DontDelete :: nat where "DontDelete = 4"

record 'd async_context =
  ctx_async_id :: 'd
  ctx_trigger_async_id :: 'd

record ('s, 'd) node_h =
  GetCurrent :: "'s \<Rightarrow> addr"
  GetIsolate :: "local \<Rightarrow> 's \<Rightarrow> addr"
  GetCurrentContext :: "addr \<Rightarrow> 's \<Rightarrow> local \<times> 's"
  HandleScope_open :: "addr \<Rightarrow> 's \<Rightarrow> nat \<times> 's"
  HandleScope_close :: "nat \<Rightarrow> 's \<Rightarrow> 's"
  NewFromUtf8_internalized :: "addr \<Rightarrow> string \<Rightarrow> 's \<Rightarrow> addr \<times> 's"
  Number_New :: "addr \<Rightarrow> 'd \<Rightarrow> 's \<Rightarrow> local \<times> 's"
  DefineOwnProperty :: "local \<Rightarrow> local \<Rightarrow> local \<Rightarrow> local \<Rightarrow> nat \<Rightarrow> 's \<Rightarrow> bool Maybe \<times> 's"
  FunctionTemplate_New :: "addr \<Rightarrow> addr \<Rightarrow> local \<Rightarrow> local \<Rightarrow> 's \<Rightarrow> local \<times> 's"
  SetClassName :: "local \<Rightarrow> local \<Rightarrow> 's \<Rightarrow> 's"
  GetFunction :: "local \<Rightarrow> local \<Rightarrow> 's \<Rightarrow> addr \<times> 's"
  SetName :: "local \<Rightarrow> local \<Rightarrow> 's \<Rightarrow> 's"
  Template_Set :: "local \<Rightarrow> local \<Rightarrow> local \<Rightarrow> 's \<Rightarrow> 's"
  Object_Set :: "local \<Rightarrow> local \<Rightarrow> local \<Rightarrow> 's \<Rightarrow> 's"
  Signature_New :: "addr \<Rightarrow> local \<Rightarrow> 's \<Rightarrow> local \<times> 's"
  PrototypeTemplate :: "local \<Rightarrow> 's \<Rightarrow> local \<times> 's"
  Date_New :: "addr \<Rightarrow> 'd \<Rightarrow> 's \<Rightarrow> local \<times> 's"
  Date_ValueOf :: "local \<Rightarrow> 's \<Rightarrow> 'd"
  double_of :: "int \<Rightarrow> 'd"
  double_mult :: "'d \<Rightarrow> 'd \<Rightarrow> 'd"
  double_div :: "'d \<Rightarrow> 'd \<Rightarrow> 'd"
  node_ErrnoException :: "addr \<Rightarrow> int \<Rightarrow> string option \<Rightarrow> string option \<Rightarrow> string option \<Rightarrow> 's \<Rightarrow> local \<times> 's"
  node_UVException :: "addr \<Rightarrow> int \<Rightarrow> string option \<Rightarrow> string option \<Rightarrow> string option \<Rightarrow> 's \<Rightarrow> local \<times> 's"
  node_ParseEncoding :: "addr \<Rightarrow> local \<Rightarrow> encoding \<Rightarrow> 's \<Rightarrow> encoding \<times> 's"
  node_FatalException :: "addr \<Rightarrow> addr \<Rightarrow> 's \<Rightarrow> 's"
  node_Encode :: "addr \<Rightarrow> addr \<Rightarrow> nat \<Rightarrow> encoding \<Rightarrow> 's \<Rightarrow> local \<times> 's"
  node_Encode_uint16 :: "addr \<Rightarrow> addr \<Rightarrow> nat \<Rightarrow> 's \<Rightarrow> local \<times> 's"
  node_DecodeBytes :: "addr \<Rightarrow> local \<Rightarrow> encoding \<Rightarrow> 's \<Rightarrow> int \<times> 's"
  node_DecodeWrite :: "addr \<Rightarrow> addr \<Rightarrow> nat \<Rightarrow> local \<Rightarrow> encoding \<Rightarrow> 's \<Rightarrow> int \<times> 's"
  EmitAsyncInit_cstr :: "addr \<Rightarrow> local \<Rightarrow> string \<Rightarrow> 'd \<Rightarrow> 's \<Rightarrow> 'd async_context \<times> 's"
  EmitAsyncInit_string :: "addr \<Rightarrow> local \<Rightarrow> local \<Rightarrow> 'd \<Rightarrow> 's \<Rightarrow> 'd async_context \<times> 's"
  EmitAsyncDestroy :: "addr \<Rightarrow> 'd async_context \<Rightarrow> 's \<Rightarrow> 's"
  node_MakeCallback_function :: "addr \<Rightarrow> local \<Rightarrow> local \<Rightarrow> local list \<Rightarrow> 'd async_context \<Rightarrow> 's \<Rightarrow> addr \<times> 's"
  node_MakeCallback_method :: "addr \<Rightarrow> local \<Rightarrow> string \<Rightarrow> local list \<Rightarrow> 'd async_context \<Rightarrow> 's \<Rightarrow> addr \<times> 's"
  node_MakeCallback_symbol :: "addr \<Rightarrow> local \<Rightarrow> local \<Rightarrow> local list \<Rightarrow> 'd async_context \<Rightarrow> 's \<Rightarrow> addr \<times> 's"
  node_CallbackScope :: "addr \<Rightarrow> local \<Rightarrow> 'd async_context \<Rightarrow> 's \<Rightarrow> 's"

section \<open>Exceptions\<close>

definition ErrnoException ::
  "('s, 'd) node_h \<Rightarrow> int \<Rightarrow> string option \<Rightarrow> string option \<Rightarrow> string option \<Rightarrow> 's \<Rightarrow> local \<times> 's" where
  "ErrnoException H errorno syscall message path st =
     node_ErrnoException H (GetCurrent H st) errorno syscall message path st"

definition UVException ::
  "('s, 'd) node_h \<Rightarrow> int \<Rightarrow> string option \<Rightarrow> string option \<Rightarrow> string option \<Rightarrow> 's \<Rightarrow> local \<times> 's" where
  "UVException H errorno syscall message path st = node_UVException H (GetCurrent H st) errorno syscall message path st"

section \<open>Dates and constants\<close>

definition NODE_UNIXTIME_V8 :: "('s, 'd) node_h \<Rightarrow> 'd \<Rightarrow> 's \<Rightarrow> local \<times> 's" where
  "NODE_UNIXTIME_V8 H time st = Date_New H (GetCurrent H st) (double_mult H (double_of H 1000) time) st"

definition NODE_V8_UNIXTIME :: "('s, 'd) node_h \<Rightarrow> local \<Rightarrow> 's \<Rightarrow> 'd" where
  "NODE_V8_UNIXTIME H date st = double_div H (Date_ValueOf H date st) (double_of H 1000)"

text \<open>\<open>constant_text\<close> is the spelling \<open>#constant\<close>, \<open>constant\<close> its value.\<close>

definition NODE_DEFINE_CONSTANT ::
  "('s, 'd) node_h \<Rightarrow> local \<Rightarrow> string \<Rightarrow> int \<Rightarrow> 's \<Rightarrow> 's option" where
  "NODE_DEFINE_CONSTANT H target constant_text constant st =
     (let isolate = GetIsolate H target st;
          (context, st1) = GetCurrentContext H isolate st;
          (name, st2) = NewFromUtf8_internalized H isolate constant_text st1
      in do {
        constant_name \<leftarrow> MaybeLocal_ToLocalChecked name;
        let (constant_value, st3) = Number_New H isolate (double_of H constant) st2;
        let constant_attributes = or ReadOnly DontDelete;
        let (r, st4) = DefineOwnProperty H target context constant_name constant_value constant_attributes st3;
        _ \<leftarrow> FromJust r;
        Some st4
      })"

definition NODE_DEFINE_HIDDEN_CONSTANT ::
  "('s, 'd) node_h \<Rightarrow> local \<Rightarrow> string \<Rightarrow> int \<Rightarrow> 's \<Rightarrow> 's option" where
  "NODE_DEFINE_HIDDEN_CONSTANT H target constant_text constant st =
     (let isolate = GetIsolate H target st;
          (context, st1) = GetCurrentContext H isolate st;
          (name, st2) = NewFromUtf8_internalized H isolate constant_text st1
      in do {
        constant_name \<leftarrow> MaybeLocal_ToLocalChecked name;
        let (constant_value, st3) = Number_New H isolate (double_of H constant) st2;
        let constant_attributes = or (or ReadOnly DontDelete) DontEnum;
        let (r, st4) = DefineOwnProperty H target context constant_name constant_value constant_attributes st3;
        _ \<leftarrow> FromJust r;
        Some st4
      })"

section \<open>Methods\<close>

definition NODE_SET_METHOD_template ::
  "('s, 'd) node_h \<Rightarrow> local \<Rightarrow> string \<Rightarrow> addr \<Rightarrow> 's \<Rightarrow> 's option" where
  "NODE_SET_METHOD_template H recv name callback st =
     (let isolate = GetCurrent H st;
          (handle_scope, st1) = HandleScope_open H isolate st;
          (t, st2) = FunctionTemplate_New H isolate callback Local_empty Local_empty st1;
          (n, st3) = NewFromUtf8_internalized H isolate name st2
      in do {
        fn_name \<leftarrow> MaybeLocal_ToLocalChecked n;
        let st4 = SetClassName H t fn_name st3;
        let st5 = Template_Set H recv fn_name t st4;
        Some (HandleScope_close H handle_scope st5)
      })"

definition NODE_SET_METHOD_object ::
  "('s, 'd) node_h \<Rightarrow> local \<Rightarrow> string \<Rightarrow> addr \<Rightarrow> 's \<Rightarrow> 's option" where
  "NODE_SET_METHOD_object H recv name callback st =
     (let isolate = GetCurrent H st;
          (handle_scope, st1) = HandleScope_open H isolate st;
          (context, st2) = GetCurrentContext H isolate st1;
          (t, st3) = FunctionTemplate_New H isolate callback Local_empty Local_empty st2;
          (f, st4) = GetFunction H t context st3
      in do {
        fn \<leftarrow> MaybeLocal_ToLocalChecked f;
        let (n, st5) = NewFromUtf8_internalized H isolate name st4;
        fn_name \<leftarrow> MaybeLocal_ToLocalChecked n;
        let st6 = SetName H fn fn_name st5;
        let st7 = Object_Set H recv fn_name fn st6;
        Some (HandleScope_close H handle_scope st7)
      })"

definition NODE_SET_PROTOTYPE_METHOD ::
  "('s, 'd) node_h \<Rightarrow> local \<Rightarrow> string \<Rightarrow> addr \<Rightarrow> 's \<Rightarrow> 's option" where
  "NODE_SET_PROTOTYPE_METHOD H recv name callback st =
     (let isolate = GetCurrent H st;
          (handle_scope, st1) = HandleScope_open H isolate st;
          (s, st2) = Signature_New H isolate recv st1;
          (t, st3) = FunctionTemplate_New H isolate callback Local_empty s st2;
          (n, st4) = NewFromUtf8_internalized H isolate name st3
      in do {
        fn_name \<leftarrow> MaybeLocal_ToLocalChecked n;
        let st5 = SetClassName H t fn_name st4;
        let (p, st6) = PrototypeTemplate H recv st5;
        let st7 = Template_Set H p fn_name t st6;
        Some (HandleScope_close H handle_scope st7)
      })"

section \<open>Encodings and errors\<close>

definition ParseEncoding :: "('s, 'd) node_h \<Rightarrow> local \<Rightarrow> encoding \<Rightarrow> 's \<Rightarrow> encoding \<times> 's" where
  "ParseEncoding H encoding_v default_encoding st = node_ParseEncoding H (GetCurrent H st) encoding_v default_encoding st"

definition FatalException :: "('s, 'd) node_h \<Rightarrow> addr \<Rightarrow> 's \<Rightarrow> 's" where
  "FatalException H try_catch st = node_FatalException H (GetCurrent H st) try_catch st"

text \<open>The buffer is given by its address: \<open>UCS2\<close> needs an even one.\<close>

definition Encode :: "('s, 'd) node_h \<Rightarrow> addr \<Rightarrow> nat \<Rightarrow> encoding \<Rightarrow> 's \<Rightarrow> (local \<times> 's) option" where
  "Encode H buf len encoding st =
     (let isolate = GetCurrent H st
      in if encoding = UCS2 then
        (if unat buf mod 2 = 0 then Some (node_Encode_uint16 H isolate buf (len div 2) st) else None)
      else Some (node_Encode H isolate buf len encoding st))"

definition DecodeBytes :: "('s, 'd) node_h \<Rightarrow> local \<Rightarrow> encoding \<Rightarrow> 's \<Rightarrow> int \<times> 's" where
  "DecodeBytes H v encoding st = node_DecodeBytes H (GetCurrent H st) v encoding st"

definition DecodeWrite :: "('s, 'd) node_h \<Rightarrow> addr \<Rightarrow> nat \<Rightarrow> local \<Rightarrow> encoding \<Rightarrow> 's \<Rightarrow> int \<times> 's" where
  "DecodeWrite H buf buflen v encoding st = node_DecodeWrite H (GetCurrent H st) buf buflen v encoding st"

section \<open>AsyncResource\<close>

text \<open>The members of the object; \<open>resource_handle\<close> is the address of the persistent handle \<open>resource_\<close>.\<close>

record 'd AsyncResource =
  ar_isolate :: addr
  resource_handle :: addr
  ar_context :: "'d async_context"


definition AsyncResource_new_string ::
  "('e v8) v8_api \<Rightarrow> ('e v8, 'd) node_h \<Rightarrow> addr \<Rightarrow> addr \<Rightarrow> local \<Rightarrow> local \<Rightarrow> 'd \<Rightarrow> 'e v8 \<Rightarrow> 'd AsyncResource \<times> 'e v8" where
  "AsyncResource_new_string E H handle isolate resource name trigger_async_id st =
     (let st1 = Persistent_new_local E handle isolate resource st;
          (ctx, st2) = EmitAsyncInit_string H isolate resource name trigger_async_id st1
      in (\<lparr>ar_isolate = isolate, resource_handle = handle, ar_context = ctx\<rparr>, st2))"


definition get_resource :: "('e v8) v8_api \<Rightarrow> 'd AsyncResource \<Rightarrow> 'e v8 \<Rightarrow> local \<times> 'e v8" where
  "get_resource E this st = PB_Get E (resource_handle this) (ar_isolate this) st"

definition AsyncResource_MakeCallback ::
  "('e v8) v8_api \<Rightarrow> ('e v8, 'd) node_h \<Rightarrow> 'd AsyncResource \<Rightarrow> local \<Rightarrow> local list \<Rightarrow> 'e v8 \<Rightarrow> addr \<times> 'e v8" where
  "AsyncResource_MakeCallback E H this callback argv st =
     (let (resource, st1) = get_resource E this st
      in node_MakeCallback_function H (ar_isolate this) resource callback argv (ar_context this) st1)"

definition AsyncResource_MakeCallback_method ::
  "('e v8) v8_api \<Rightarrow> ('e v8, 'd) node_h \<Rightarrow> 'd AsyncResource \<Rightarrow> string \<Rightarrow> local list \<Rightarrow> 'e v8 \<Rightarrow> addr \<times> 'e v8" where
  "AsyncResource_MakeCallback_method E H this meth argv st =
     (let (resource, st1) = get_resource E this st
      in node_MakeCallback_method H (ar_isolate this) resource meth argv (ar_context this) st1)"

definition AsyncResource_MakeCallback_symbol ::
  "('e v8) v8_api \<Rightarrow> ('e v8, 'd) node_h \<Rightarrow> 'd AsyncResource \<Rightarrow> local \<Rightarrow> local list \<Rightarrow> 'e v8 \<Rightarrow> addr \<times> 'e v8" where
  "AsyncResource_MakeCallback_symbol E H this symbol argv st =
     (let (resource, st1) = get_resource E this st
      in node_MakeCallback_symbol H (ar_isolate this) resource symbol argv (ar_context this) st1)"


definition get_trigger_async_id :: "'d AsyncResource \<Rightarrow> 'd" where
  "get_trigger_async_id this = ctx_trigger_async_id (ar_context this)"

definition AsyncResource_CallbackScope ::
  "('e v8) v8_api \<Rightarrow> ('e v8, 'd) node_h \<Rightarrow> 'd AsyncResource \<Rightarrow> 'e v8 \<Rightarrow> 'e v8" where
  "AsyncResource_CallbackScope E H res st =
     (let (resource, st1) = PB_Get E (resource_handle res) (ar_isolate res) st
      in node_CallbackScope H (ar_isolate res) resource (ar_context res) st1)"

section \<open>Scopes are closed\<close>

text \<open>
  What is relied on of handle scopes, \<open>scopes st\<close> being the stack of those open: a scope is closed by the call that names it, and no
  other function opens or closes one.
\<close>

definition scopes_contract :: "('s, 'd) node_h \<Rightarrow> ('s \<Rightarrow> nat list) \<Rightarrow> bool" where
  "scopes_contract H scopes \<longleftrightarrow>
     (\<forall>i st. scopes (snd (HandleScope_open H i st)) = fst (HandleScope_open H i st) # scopes st) \<and>
     (\<forall>k ks st. scopes st = k # ks \<longrightarrow> scopes (HandleScope_close H k st) = ks) \<and>
     (\<forall>i st. scopes (snd (GetCurrentContext H i st)) = scopes st) \<and>
     (\<forall>i n st. scopes (snd (NewFromUtf8_internalized H i n st)) = scopes st) \<and>
     (\<forall>i c d g st. scopes (snd (FunctionTemplate_New H i c d g st)) = scopes st) \<and>
     (\<forall>t n st. scopes (SetClassName H t n st) = scopes st) \<and>
     (\<forall>t c st. scopes (snd (GetFunction H t c st)) = scopes st) \<and>
     (\<forall>f n st. scopes (SetName H f n st) = scopes st) \<and>
     (\<forall>r n v st. scopes (Template_Set H r n v st) = scopes st) \<and>
     (\<forall>r n v st. scopes (Object_Set H r n v st) = scopes st) \<and>
     (\<forall>i r st. scopes (snd (Signature_New H i r st)) = scopes st) \<and>
     (\<forall>t st. scopes (snd (PrototypeTemplate H t st)) = scopes st)"

lemma scopesD:
  assumes "scopes_contract H scopes"
  shows "scopes (snd (HandleScope_open H i st)) = fst (HandleScope_open H i st) # scopes st"
    and "scopes st = k # ks \<Longrightarrow> scopes (HandleScope_close H k st) = ks"
    and "scopes (snd (GetCurrentContext H i st)) = scopes st"
    and "scopes (snd (NewFromUtf8_internalized H i n st)) = scopes st"
    and "scopes (snd (FunctionTemplate_New H i c d g st)) = scopes st"
    and "scopes (SetClassName H t f st) = scopes st"
    and "scopes (snd (GetFunction H t c st)) = scopes st"
    and "scopes (SetName H t f st) = scopes st"
    and "scopes (Template_Set H r t f st) = scopes st"
    and "scopes (Object_Set H r t f st) = scopes st"
    and "scopes (snd (Signature_New H i r st)) = scopes st"
    and "scopes (snd (PrototypeTemplate H t st)) = scopes st"
  using assms by (simp_all add: scopes_contract_def)

text \<open>
  Each of the three functions that install a method closes the handle scope it opened on the path that returns, whatever the
  engine answers; it does not return only when the engine could not make the name or the function.
\<close>

theorem set_method_scopes:
  assumes "scopes_contract H scopes"
    and made: "\<And>i n st. fst (NewFromUtf8_internalized H i n st) \<noteq> 0" "\<And>t c st. fst (GetFunction H t c st) \<noteq> 0"
  shows "(\<exists>st'. NODE_SET_METHOD_template H recv name callback st = Some st' \<and> scopes st' = scopes st) \<and>
    (\<exists>st'. NODE_SET_METHOD_object H recv name callback st = Some st' \<and> scopes st' = scopes st) \<and>
    (\<exists>st'. NODE_SET_PROTOTYPE_METHOD H recv name callback st = Some st' \<and> scopes st' = scopes st)"
proof (intro conjI)
  note D = scopesD [OF assms(1)]
  note simps = Let_def case_prod_beta MaybeLocal_ToLocalChecked_def made D(1,3-12)
  show "\<exists>st'. NODE_SET_METHOD_template H recv name callback st = Some st' \<and> scopes st' = scopes st"
    by (simp add: NODE_SET_METHOD_template_def simps) (rule D(2), simp add: simps)
  show "\<exists>st'. NODE_SET_METHOD_object H recv name callback st = Some st' \<and> scopes st' = scopes st"
    by (simp add: NODE_SET_METHOD_object_def simps) (rule D(2), simp add: simps)
  show "\<exists>st'. NODE_SET_PROTOTYPE_METHOD H recv name callback st = Some st' \<and> scopes st' = scopes st"
    by (simp add: NODE_SET_PROTOTYPE_METHOD_def simps) (rule D(2), simp add: simps)
qed

section \<open>The life of an AsyncResource\<close>







section \<open>A concrete engine\<close>

text \<open>The allocator of \<open>V8Handles\<close>, a counter for contexts, and a stack of scopes.\<close>

record hook_engine =
  he_bump :: bump_engine
  he_next :: nat
  he_active :: "nat set"
  he_scopes :: "nat list"


definition hook_init :: "hook_engine v8 \<Rightarrow> nat async_context \<times> hook_engine v8" where
  "hook_init st =
     (let e = engine st
      in (\<lparr>ctx_async_id = he_next e, ctx_trigger_async_id = 0\<rparr>, st\<lparr>engine := e\<lparr>he_next := Suc (he_next e), he_active := insert (he_next e) (he_active e)\<rparr>\<rparr>))"

definition hook_h :: "(hook_engine v8, nat) node_h" where
  "hook_h =
     \<lparr>GetCurrent = \<lambda>st. 1, GetIsolate = \<lambda>v st. 1, GetCurrentContext = \<lambda>i st. (8, st),
      HandleScope_open = \<lambda>i st. (length (he_scopes (engine st)), st\<lparr>engine := (engine st)\<lparr>he_scopes := length (he_scopes (engine st)) # he_scopes (engine st)\<rparr>\<rparr>),
      HandleScope_close = \<lambda>k st. st\<lparr>engine := (engine st)\<lparr>he_scopes := tl (he_scopes (engine st))\<rparr>\<rparr>,
      NewFromUtf8_internalized = \<lambda>i n st. (16, st), Number_New = \<lambda>i d st. (24, st),
      DefineOwnProperty = \<lambda>t c k v a st. (Just True, st), FunctionTemplate_New = \<lambda>i c d s st. (32, st),
      SetClassName = \<lambda>t n st. st, GetFunction = \<lambda>t c st. (40, st), SetName = \<lambda>f n st. st, Template_Set = \<lambda>r n v st. st,
      Object_Set = \<lambda>r n v st. st, Signature_New = \<lambda>i r st. (48, st), PrototypeTemplate = \<lambda>t st. (56, st),
      Date_New = \<lambda>i d st. (64, st), Date_ValueOf = \<lambda>d st. 0, double_of = nat, double_mult = (*), double_div = (div),
      node_ErrnoException = \<lambda>i e s m p st. (0, st), node_UVException = \<lambda>i e s m p st. (0, st),
      node_ParseEncoding = \<lambda>i v d st. (d, st), node_FatalException = \<lambda>i t st. st, node_Encode = \<lambda>i b l e st. (72, st),
      node_Encode_uint16 = \<lambda>i b l st. (80, st), node_DecodeBytes = \<lambda>i v e st. (0, st), node_DecodeWrite = \<lambda>i b l v e st. (0, st),
      EmitAsyncInit_cstr = \<lambda>i r n t st. hook_init st, EmitAsyncInit_string = \<lambda>i r n t st. hook_init st,
      EmitAsyncDestroy = \<lambda>i ctx st. st\<lparr>engine := (engine st)\<lparr>he_active := he_active (engine st) - {i. ctx = \<lparr>ctx_async_id = i, ctx_trigger_async_id = 0\<rparr>}\<rparr>\<rparr>,
      node_MakeCallback_function = \<lambda>i r f a c st. (0, st), node_MakeCallback_method = \<lambda>i r f a c st. (0, st),
      node_MakeCallback_symbol = \<lambda>i r f a c st. (0, st), node_CallbackScope = \<lambda>i r c st. st\<rparr>"



lemma hook_scopes: "scopes_contract hook_h (\<lambda>st. he_scopes (engine st))"
  by (simp add: scopes_contract_def hook_h_def hook_init_def Let_def)

definition hook0 :: "hook_engine v8" where
  "hook0 = \<lparr>mem = \<lambda>_. 7, handle_val = \<lambda>_. 0,
     engine = \<lparr>he_bump = \<lparr>cell_count = 0, disposed = {}\<rparr>, he_next = 5, he_active = {}, he_scopes = [0]\<rparr>\<rparr>"

theorem set_method_scopes_witness:
  "\<exists>st'. NODE_SET_METHOD_object hook_h 88 ''run'' 96 hook0 = Some st' \<and> he_scopes (engine st') = [0]"
  using set_method_scopes [OF hook_scopes, of 88 "''run''" 96 hook0] by (simp add: hook_h_def hook0_def)


end
