(* ===== verification/OrderedElems.thy ===== *)
theory OrderedElems
  imports Prelude
begin

text \<open>
  The interface the two trees of \<open>uv/tree.h\<close> offer: a collection of elements (addresses) kept
  in the order of the comparison function \<open>cmp\<close> the user passes to the macros. An
  implementation represents a list of addresses with increasing keys; the locale
  \<open>ordered_elems\<close> states what its operations promise about that list.
\<close>

section \<open>Comparison functions and ordered lists\<close>

text \<open>\<open>cmp a b\<close> is negative, zero or positive as the key of \<open>a\<close> is below, equal or above that of \<open>b\<close>.\<close>

definition cmp_agrees :: "(loc \<Rightarrow> loc \<Rightarrow> int) \<Rightarrow> (loc \<Rightarrow> 'k :: linorder) \<Rightarrow> bool" where
  "cmp_agrees cmp key \<longleftrightarrow> (\<forall>a b. (cmp a b < 0 \<longleftrightarrow> key a < key b) \<and> (cmp a b > 0 \<longleftrightarrow> key b < key a))"

abbreviation ordered_by :: "(loc \<Rightarrow> 'k :: linorder) \<Rightarrow> loc list \<Rightarrow> bool" where
  "ordered_by key xs \<equiv> sorted_wrt (\<lambda>x y. key x < key y) xs"

lemma cmp_agrees_neg [simp]: "cmp_agrees cmp key \<Longrightarrow> cmp a b < 0 \<longleftrightarrow> key a < key b"
  and cmp_agrees_pos [simp]: "cmp_agrees cmp key \<Longrightarrow> 0 < cmp a b \<longleftrightarrow> key b < key a"
  by (simp_all add: cmp_agrees_def)

lemma cmp_agrees_zero [simp]: "cmp_agrees cmp key \<Longrightarrow> cmp a b = 0 \<longleftrightarrow> key a = key b"
  using cmp_agrees_neg [of cmp key a b] cmp_agrees_pos [of cmp key a b] by (metis less_int_code(1) linorder_neqE_linordered_idom not_less_iff_gr_or_eq)

text \<open>Elements whose address is their key.\<close>

abbreviation cmp_nat :: "loc \<Rightarrow> loc \<Rightarrow> int" where
  "cmp_nat a b \<equiv> int a - int b"

lemma cmp_nat_agrees: "cmp_agrees cmp_nat (\<lambda>a. a)"
  by (simp add: cmp_agrees_def)

lemma insort_key_split:
  "(\<And>x. x \<in> set ls \<Longrightarrow> key x < key e) \<Longrightarrow> (\<And>x. x \<in> set rs \<Longrightarrow> key e < key x) \<Longrightarrow>
   insort_key key e (ls @ rs) = ls @ e # rs" for key :: "loc \<Rightarrow> 'k :: linorder"
proof (induction ls)
  case Nil
  then show ?case by (cases rs) (auto simp: less_imp_le)
next
  case (Cons l ls)
  then have "\<not> key e \<le> key l" by (simp add: not_le)
  then show ?case using Cons by simp
qed

lemma ordered_by_insort:
  "ordered_by key xs \<Longrightarrow> (\<And>x. x \<in> set xs \<Longrightarrow> key x \<noteq> key e) \<Longrightarrow> ordered_by key (insort_key key e xs)"
proof (induction xs)
  case (Cons a xs)
  from Cons.prems(2) [of a] consider "key e < key a" | "key a < key e" by force
  then show ?case
    by cases (use Cons less_trans in \<open>auto simp: set_insort_key\<close>)
qed simp

lemma ordered_by_distinct: "ordered_by key xs \<Longrightarrow> distinct xs"
  by (induction xs) auto

lemma ordered_by_unique:
  "ordered_by key xs \<Longrightarrow> x \<in> set xs \<Longrightarrow> y \<in> set xs \<Longrightarrow> key x = key y \<Longrightarrow> x = y"
  by (induction xs) force+

lemma find_append: "List.find P (xs @ ys) = (case List.find P xs of None \<Rightarrow> List.find P ys | Some x \<Rightarrow> Some x)"
  by (induction xs) auto

lemma find_key_mid:
  "(\<And>x. x \<in> set ls \<Longrightarrow> key x \<noteq> k) \<Longrightarrow> key a = k \<Longrightarrow> List.find (\<lambda>x. key x = k) (ls @ a # rs) = Some a"
  by (induction ls) auto

lemma find_key_None:
  "(\<And>x. x \<in> set xs \<Longrightarrow> key x \<noteq> k) \<Longrightarrow> List.find (\<lambda>x. key x = k) xs = None"
  by (simp add: find_None_iff)

lemma find_key_in:
  assumes "ordered_by key xs" "e \<in> set xs" "key e = k"
  shows "List.find (\<lambda>x. key x = k) xs = Some e"
proof -
  obtain ls rs where "xs = ls @ e # rs" using split_list [OF assms(2)] by auto
  then show ?thesis using assms find_key_mid [of ls key k e rs] by (force simp: sorted_wrt_append)
qed

section \<open>Sequences of operations\<close>

text \<open>
  A client's run: operations in sequence, with their results, on the structure (\<open>run_ops\<close>) and on the
  list of elements (\<open>list_ops\<close>). The latter is undefined when an element is removed that is
  not in the collection.
\<close>

datatype tree_op = Insert loc | Remove loc | Find loc

fun run_ops ::
  "(loc \<Rightarrow> 's \<Rightarrow> (ptr \<times> 's) option) \<Rightarrow> (loc \<Rightarrow> 's \<Rightarrow> (ptr \<times> 's) option) \<Rightarrow> (loc \<Rightarrow> 's \<Rightarrow> (ptr \<times> 's) option)
   \<Rightarrow> tree_op list \<Rightarrow> 's \<Rightarrow> (ptr list \<times> 's) option" where
  "run_ops ins rem fnd [] s = Some ([], s)"
| "run_ops ins rem fnd (op1 # ops) s = do {
     (r, s1) \<leftarrow> (case op1 of Insert e \<Rightarrow> ins e s | Remove e \<Rightarrow> rem e s | Find e \<Rightarrow> fnd e s);
     (rs, s2) \<leftarrow> run_ops ins rem fnd ops s1;
     Some (r # rs, s2)
   }"

fun list_op :: "(loc \<Rightarrow> 'k :: linorder) \<Rightarrow> tree_op \<Rightarrow> loc list \<Rightarrow> (ptr \<times> loc list) option" where
  "list_op key (Insert e) xs =
     (case List.find (\<lambda>x. key x = key e) xs of Some x \<Rightarrow> Some (Some x, xs) | None \<Rightarrow> Some (None, insort_key key e xs))"
| "list_op key (Remove e) xs = (if e \<in> set xs then Some (Some e, remove1 e xs) else None)"
| "list_op key (Find e) xs = Some (List.find (\<lambda>x. key x = key e) xs, xs)"

fun list_ops :: "(loc \<Rightarrow> 'k :: linorder) \<Rightarrow> tree_op list \<Rightarrow> loc list \<Rightarrow> (ptr list \<times> loc list) option" where
  "list_ops key [] xs = Some ([], xs)"
| "list_ops key (op1 # ops) xs = do {
     (r, xs1) \<leftarrow> list_op key op1 xs;
     (rs, xs2) \<leftarrow> list_ops key ops xs1;
     Some (r # rs, xs2)
   }"

definition inserts :: "tree_op list \<Rightarrow> loc set" where "inserts ops = {e. Insert e \<in> set ops}"

lemma inserts_simps [simp]:
  "inserts [] = {}" "inserts (Insert e # ops) = insert e (inserts ops)"
  "inserts (Remove e # ops) = inserts ops" "inserts (Find e # ops) = inserts ops"
  by (auto simp: inserts_def)

section \<open>The interface\<close>

text \<open>
  \<open>rep key s xs\<close>: the structure \<open>s\<close> holds the elements \<open>xs\<close>, in this order. \<open>linkable\<close> tells
  which addresses may hold an element.
\<close>

locale ordered_elems =
  fixes rep :: "(loc \<Rightarrow> 'k :: linorder) \<Rightarrow> 's \<Rightarrow> loc list \<Rightarrow> bool"
    and linkable :: "loc \<Rightarrow> bool"
    and insert_op :: "(loc \<Rightarrow> loc \<Rightarrow> int) \<Rightarrow> loc \<Rightarrow> 's \<Rightarrow> (ptr \<times> 's) option"
    and remove_op :: "(loc \<Rightarrow> loc \<Rightarrow> int) \<Rightarrow> loc \<Rightarrow> 's \<Rightarrow> (ptr \<times> 's) option"
    and find_op :: "(loc \<Rightarrow> loc \<Rightarrow> int) \<Rightarrow> loc \<Rightarrow> 's \<Rightarrow> (ptr \<times> 's) option"
  assumes rep_ordered: "rep key s xs \<Longrightarrow> ordered_by key xs"
    and insert_new: "\<lbrakk>cmp_agrees cmp key; rep key s xs; linkable e; \<And>x. x \<in> set xs \<Longrightarrow> key x \<noteq> key e\<rbrakk>
      \<Longrightarrow> \<exists>s'. insert_op cmp e s = Some (None, s') \<and> rep key s' (insort_key key e xs)"
    and insert_dup: "\<lbrakk>cmp_agrees cmp key; rep key s xs; x \<in> set xs; key x = key e\<rbrakk>
      \<Longrightarrow> \<exists>s'. insert_op cmp e s = Some (Some x, s') \<and> rep key s' xs"
    and remove_elem: "\<lbrakk>cmp_agrees cmp key; rep key s xs; e \<in> set xs\<rbrakk>
      \<Longrightarrow> \<exists>s'. remove_op cmp e s = Some (Some e, s') \<and> rep key s' (remove1 e xs)"
    and find_elem: "\<lbrakk>cmp_agrees cmp key; rep key s xs\<rbrakk>
      \<Longrightarrow> \<exists>s'. find_op cmp e s = Some (List.find (\<lambda>x. key x = key e) xs, s') \<and> rep key s' xs"
begin

lemma find_after_insert:
  assumes "cmp_agrees cmp key" "rep key s xs" "linkable e" "\<And>x. x \<in> set xs \<Longrightarrow> key x \<noteq> key e" "key q = key e"
  shows "\<exists>s1 s2. insert_op cmp e s = Some (None, s1) \<and> find_op cmp q s1 = Some (Some e, s2)"
proof -
  obtain s1 where s1: "insert_op cmp e s = Some (None, s1)" "rep key s1 (insort_key key e xs)"
    using insert_new [OF assms(1-4)] by auto
  have "List.find (\<lambda>x. key x = key q) (insort_key key e xs) = Some e"
    by (rule find_key_in [OF rep_ordered [OF s1(2)]]) (simp_all add: set_insort_key assms(5))
  then show ?thesis using s1 find_elem [OF assms(1) s1(2), of q] by auto
qed

lemma insert_then_remove:
  assumes "cmp_agrees cmp key" "rep key s xs" "linkable e" "\<And>x. x \<in> set xs \<Longrightarrow> key x \<noteq> key e"
  shows "\<exists>s1 s2. insert_op cmp e s = Some (None, s1) \<and> remove_op cmp e s1 = Some (Some e, s2) \<and> rep key s2 xs"
proof -
  obtain s1 where s1: "insert_op cmp e s = Some (None, s1)" "rep key s1 (insort_key key e xs)"
    using insert_new [OF assms] by auto
  moreover have "e \<in> set (insort_key key e xs)" by (simp add: set_insort_key)
  moreover have "remove1 e (insort_key key e xs) = xs"
    using assms(4) by (metis remove1_insort_key)
  ultimately show ?thesis using remove_elem [OF assms(1) s1(2), of e] by auto
qed

lemma run_simulates:
  assumes cmp: "cmp_agrees cmp key"
  shows "rep key s xs \<Longrightarrow> list_ops key ops xs = Some (rs, ys) \<Longrightarrow> (\<And>e. e \<in> inserts ops \<Longrightarrow> linkable e) \<Longrightarrow>
    \<exists>s'. run_ops (insert_op cmp) (remove_op cmp) (find_op cmp) ops s = Some (rs, s') \<and> rep key s' ys"
proof (induction ops arbitrary: s xs rs)
  case (Cons op1 ops)
  from Cons.prems(2) obtain r xs1 rs1 where op1: "list_op key op1 xs = Some (r, xs1)"
    and ops: "list_ops key ops xs1 = Some (rs1, ys)" "rs = r # rs1"
    by (auto dest!: bind_eq_SomeD)
  have link: "e \<in> inserts ops \<Longrightarrow> linkable e" for e using Cons.prems(3) by (cases op1) auto
  have "\<exists>s1. (case op1 of Insert e \<Rightarrow> insert_op cmp e s | Remove e \<Rightarrow> remove_op cmp e s | Find e \<Rightarrow> find_op cmp e s)
      = Some (r, s1) \<and> rep key s1 xs1"
  proof (cases op1)
    case (Insert e)
    have e: "linkable e" using Cons.prems(3) Insert by simp
    show ?thesis
    proof (cases "List.find (\<lambda>x. key x = key e) xs")
      case None
      then have "\<And>x. x \<in> set xs \<Longrightarrow> key x \<noteq> key e" by (auto simp: find_None_iff)
      from insert_new [OF cmp Cons.prems(1) e this] show ?thesis using op1 None by (simp add: Insert)
    next
      case (Some x)
      then have "x \<in> set xs" "key x = key e" by (auto simp: find_Some_iff)
      from insert_dup [OF cmp Cons.prems(1) this] show ?thesis using op1 Some by (simp add: Insert)
    qed
  next
    case (Remove e)
    then show ?thesis using op1 remove_elem [OF cmp Cons.prems(1), of e] by (simp split: if_split_asm)
  next
    case (Find e)
    then show ?thesis using op1 find_elem [OF cmp Cons.prems(1), of e] by auto
  qed
  then obtain s1 where s1: "(case op1 of Insert e \<Rightarrow> insert_op cmp e s | Remove e \<Rightarrow> remove_op cmp e s | Find e \<Rightarrow> find_op cmp e s)
      = Some (r, s1)" "rep key s1 xs1" by blast
  from Cons.IH [OF s1(2) ops(1) link] show ?case using s1(1) ops(2) by auto
qed simp

end

end
