(* ===== verification/SplayTree.thy ===== *)
theory SplayTree
  imports OrderedElems "HOL-Library.Tree"
begin

text \<open>
  The splay tree of \<open>uv/tree.h\<close> (\<open>SPLAY_HEAD\<close> to \<open>SPLAY_FOREACH\<close>), on a heap of nodes with
  left and right pointers. A run that would dereference \<open>NULL\<close>, and one that does not end, is
  \<open>None\<close>; the loops are partial functions, and that they return is part of what is proved.

  \<open>tree_at\<close> says which tree of addresses a pointer leads to. The loop of \<open>SPLAY\<close> is shown to
  implement \<open>td_splay\<close>, the top-down splay on such trees, and the operations to implement those
  of a sorted list of addresses: the in-order sequence.
\<close>

section \<open>The heap\<close>

text \<open>
  The entry fields of every element and the head. \<open>node_addr\<close> is the address of the local
  variable \<open>__node\<close> of \<open>SPLAY\<close>, where no element is stored.
\<close>

record splay_heap =
  spe_left :: "loc \<Rightarrow> ptr"
  spe_right :: "loc \<Rightarrow> ptr"
  sph_root :: ptr

definition node_addr :: loc where "node_addr = 0"

definition set_left :: "loc \<Rightarrow> ptr \<Rightarrow> splay_heap \<Rightarrow> splay_heap" where
  "set_left x v h = h\<lparr>spe_left := (spe_left h)(x := v)\<rparr>"

definition set_right :: "loc \<Rightarrow> ptr \<Rightarrow> splay_heap \<Rightarrow> splay_heap" where
  "set_right x v h = h\<lparr>spe_right := (spe_right h)(x := v)\<rparr>"

definition SPLAY_INIT :: "splay_heap \<Rightarrow> splay_heap" where
  "SPLAY_INIT h = h\<lparr>sph_root := None\<rparr>"

definition SPLAY_EMPTY :: "splay_heap \<Rightarrow> bool" where
  "SPLAY_EMPTY h = (sph_root h = None)"

section \<open>Rotations and links\<close>

definition SPLAY_ROTATE_RIGHT :: "loc \<Rightarrow> splay_heap \<Rightarrow> splay_heap option" where
  "SPLAY_ROTATE_RIGHT tmp h = do {
     root \<leftarrow> sph_root h;
     let h1 = set_left root (spe_right h tmp) h;
     let h2 = set_right tmp (Some root) h1;
     Some (h2\<lparr>sph_root := Some tmp\<rparr>)
   }"

definition SPLAY_ROTATE_LEFT :: "loc \<Rightarrow> splay_heap \<Rightarrow> splay_heap option" where
  "SPLAY_ROTATE_LEFT tmp h = do {
     root \<leftarrow> sph_root h;
     let h1 = set_right root (spe_left h tmp) h;
     let h2 = set_left tmp (Some root) h1;
     Some (h2\<lparr>sph_root := Some tmp\<rparr>)
   }"

text \<open>The macros assign to their argument \<open>tmp\<close>: its new value is returned.\<close>

definition SPLAY_LINKLEFT :: "loc \<Rightarrow> splay_heap \<Rightarrow> (loc \<times> splay_heap) option" where
  "SPLAY_LINKLEFT tmp h = do {
     let h1 = set_left tmp (sph_root h) h;
     root \<leftarrow> sph_root h1;
     Some (root, h1\<lparr>sph_root := spe_left h1 root\<rparr>)
   }"

definition SPLAY_LINKRIGHT :: "loc \<Rightarrow> splay_heap \<Rightarrow> (loc \<times> splay_heap) option" where
  "SPLAY_LINKRIGHT tmp h = do {
     let h1 = set_right tmp (sph_root h) h;
     root \<leftarrow> sph_root h1;
     Some (root, h1\<lparr>sph_root := spe_right h1 root\<rparr>)
   }"

definition SPLAY_ASSEMBLE :: "loc \<Rightarrow> loc \<Rightarrow> loc \<Rightarrow> splay_heap \<Rightarrow> splay_heap option" where
  "SPLAY_ASSEMBLE node lft rgt h = do {
     root \<leftarrow> sph_root h;
     let h1 = set_right lft (spe_left h root) h;
     let h2 = set_left rgt (spe_right h1 root) h1;
     let h3 = set_left root (spe_right h2 node) h2;
     let h4 = set_right root (spe_left h3 node) h3;
     Some h4
   }"

section \<open>Splaying\<close>

text \<open>
  The loop of \<open>name##_SPLAY\<close>. \<open>cmp elm NULL\<close> is undefined, so an empty root stops with \<open>None\<close>.
\<close>

partial_function (option) splay_loop ::
  "(loc \<Rightarrow> loc \<Rightarrow> int) \<Rightarrow> loc \<Rightarrow> loc \<Rightarrow> loc \<Rightarrow> splay_heap \<Rightarrow> (loc \<times> loc \<times> splay_heap) option" where
  "splay_loop cmp elm lft rgt h = do {
     root \<leftarrow> sph_root h;
     let comp' = cmp elm root;
     if comp' = 0 then Some (lft, rgt, h)
     else if comp' < 0 then
       (case spe_left h root of
          None \<Rightarrow> Some (lft, rgt, h)
        | Some tmp \<Rightarrow>
            if cmp elm tmp < 0 then do {
              h1 \<leftarrow> SPLAY_ROTATE_RIGHT tmp h;
              root1 \<leftarrow> sph_root h1;
              if spe_left h1 root1 = None then Some (lft, rgt, h1)
              else do {
                (rgt', h2) \<leftarrow> SPLAY_LINKLEFT rgt h1;
                splay_loop cmp elm lft rgt' h2
              }
            } else do {
              (rgt', h2) \<leftarrow> SPLAY_LINKLEFT rgt h;
              splay_loop cmp elm lft rgt' h2
            })
     else
       (case spe_right h root of
          None \<Rightarrow> Some (lft, rgt, h)
        | Some tmp \<Rightarrow>
            if cmp elm tmp > 0 then do {
              h1 \<leftarrow> SPLAY_ROTATE_LEFT tmp h;
              root1 \<leftarrow> sph_root h1;
              if spe_right h1 root1 = None then Some (lft, rgt, h1)
              else do {
                (lft', h2) \<leftarrow> SPLAY_LINKRIGHT lft h1;
                splay_loop cmp elm lft' rgt h2
              }
            } else do {
              (lft', h2) \<leftarrow> SPLAY_LINKRIGHT lft h;
              splay_loop cmp elm lft' rgt h2
            })
   }"

definition SPLAY :: "(loc \<Rightarrow> loc \<Rightarrow> int) \<Rightarrow> loc \<Rightarrow> splay_heap \<Rightarrow> splay_heap option" where
  "SPLAY cmp elm h = do {
     let h1 = set_left node_addr None (set_right node_addr None h);
     (lft, rgt, h2) \<leftarrow> splay_loop cmp elm node_addr node_addr h1;
     SPLAY_ASSEMBLE node_addr lft rgt h2
   }"

text \<open>
  The loop of \<open>name##_SPLAY_MINMAX\<close>, with the tests of \<open>__comp\<close> the code repeats. For
  \<open>__comp = 0\<close> it never leaves the loop.
\<close>

partial_function (option) minmax_loop ::
  "int \<Rightarrow> loc \<Rightarrow> loc \<Rightarrow> splay_heap \<Rightarrow> (loc \<times> loc \<times> splay_heap) option" where
  "minmax_loop comp' lft rgt h =
     (if comp' < 0 then do {
        root \<leftarrow> sph_root h;
        case spe_left h root of
          None \<Rightarrow> Some (lft, rgt, h)
        | Some tmp \<Rightarrow>
            if comp' < 0 then do {
              h1 \<leftarrow> SPLAY_ROTATE_RIGHT tmp h;
              root1 \<leftarrow> sph_root h1;
              if spe_left h1 root1 = None then Some (lft, rgt, h1)
              else do {
                (rgt', h2) \<leftarrow> SPLAY_LINKLEFT rgt h1;
                minmax_loop comp' lft rgt' h2
              }
            } else do {
              (rgt', h2) \<leftarrow> SPLAY_LINKLEFT rgt h;
              minmax_loop comp' lft rgt' h2
            }
      } else if comp' > 0 then do {
        root \<leftarrow> sph_root h;
        case spe_right h root of
          None \<Rightarrow> Some (lft, rgt, h)
        | Some tmp \<Rightarrow>
            if comp' > 0 then do {
              h1 \<leftarrow> SPLAY_ROTATE_LEFT tmp h;
              root1 \<leftarrow> sph_root h1;
              if spe_right h1 root1 = None then Some (lft, rgt, h1)
              else do {
                (lft', h2) \<leftarrow> SPLAY_LINKRIGHT lft h1;
                minmax_loop comp' lft' rgt h2
              }
            } else do {
              (lft', h2) \<leftarrow> SPLAY_LINKRIGHT lft h;
              minmax_loop comp' lft' rgt h2
            }
      } else minmax_loop comp' lft rgt h)"

definition SPLAY_MINMAX :: "int \<Rightarrow> splay_heap \<Rightarrow> splay_heap option" where
  "SPLAY_MINMAX comp' h = do {
     let h1 = set_left node_addr None (set_right node_addr None h);
     (lft, rgt, h2) \<leftarrow> minmax_loop comp' node_addr node_addr h1;
     SPLAY_ASSEMBLE node_addr lft rgt h2
   }"

section \<open>Operations\<close>

definition SPLAY_INSERT ::
  "(loc \<Rightarrow> loc \<Rightarrow> int) \<Rightarrow> loc \<Rightarrow> splay_heap \<Rightarrow> (ptr \<times> splay_heap) option" where
  "SPLAY_INSERT cmp elm h =
     (if SPLAY_EMPTY h
      then Some (None, (set_left elm None (set_right elm None h))\<lparr>sph_root := Some elm\<rparr>)
      else do {
        h1 \<leftarrow> SPLAY cmp elm h;
        root \<leftarrow> sph_root h1;
        let comp' = cmp elm root;
        if comp' < 0 then do {
          let h2 = set_left elm (spe_left h1 root) h1;
          let h3 = set_right elm (Some root) h2;
          let h4 = set_left root None h3;
          Some (None, h4\<lparr>sph_root := Some elm\<rparr>)
        } else if comp' > 0 then do {
          let h2 = set_right elm (spe_right h1 root) h1;
          let h3 = set_left elm (Some root) h2;
          let h4 = set_right root None h3;
          Some (None, h4\<lparr>sph_root := Some elm\<rparr>)
        } else Some (Some root, h1)
      })"

definition SPLAY_REMOVE ::
  "(loc \<Rightarrow> loc \<Rightarrow> int) \<Rightarrow> loc \<Rightarrow> splay_heap \<Rightarrow> (ptr \<times> splay_heap) option" where
  "SPLAY_REMOVE cmp elm h =
     (if SPLAY_EMPTY h then Some (None, h)
      else do {
        h1 \<leftarrow> SPLAY cmp elm h;
        root \<leftarrow> sph_root h1;
        if cmp elm root = 0 then
          (if spe_left h1 root = None then Some (Some elm, h1\<lparr>sph_root := spe_right h1 root\<rparr>)
           else do {
             let tmp = spe_right h1 root;
             h2 \<leftarrow> SPLAY cmp elm (h1\<lparr>sph_root := spe_left h1 root\<rparr>);
             root2 \<leftarrow> sph_root h2;
             Some (Some elm, set_right root2 tmp h2)
           })
        else Some (None, h1)
      })"

definition SPLAY_FIND ::
  "(loc \<Rightarrow> loc \<Rightarrow> int) \<Rightarrow> loc \<Rightarrow> splay_heap \<Rightarrow> (ptr \<times> splay_heap) option" where
  "SPLAY_FIND cmp elm h =
     (if SPLAY_EMPTY h then Some (None, h)
      else do {
        h1 \<leftarrow> SPLAY cmp elm h;
        root \<leftarrow> sph_root h1;
        Some (if cmp elm root = 0 then sph_root h1 else None, h1)
      })"

partial_function (option) leftmost_loop :: "splay_heap \<Rightarrow> loc \<Rightarrow> loc option" where
  "leftmost_loop h elm =
     (case spe_left h elm of None \<Rightarrow> Some elm | Some l \<Rightarrow> leftmost_loop h l)"

definition SPLAY_NEXT ::
  "(loc \<Rightarrow> loc \<Rightarrow> int) \<Rightarrow> loc \<Rightarrow> splay_heap \<Rightarrow> (ptr \<times> splay_heap) option" where
  "SPLAY_NEXT cmp elm h = do {
     h1 \<leftarrow> SPLAY cmp elm h;
     case spe_right h1 elm of
       None \<Rightarrow> Some (None, h1)
     | Some r \<Rightarrow> do { x \<leftarrow> leftmost_loop h1 r; Some (Some x, h1) }
   }"

definition SPLAY_MIN_MAX :: "int \<Rightarrow> splay_heap \<Rightarrow> (ptr \<times> splay_heap) option" where
  "SPLAY_MIN_MAX val h = do { h1 \<leftarrow> SPLAY_MINMAX val h; Some (sph_root h1, h1) }"

definition SPLAY_MIN :: "splay_heap \<Rightarrow> (ptr \<times> splay_heap) option" where
  "SPLAY_MIN h = (if SPLAY_EMPTY h then Some (None, h) else SPLAY_MIN_MAX (- 1) h)"

definition SPLAY_MAX :: "splay_heap \<Rightarrow> (ptr \<times> splay_heap) option" where
  "SPLAY_MAX h = (if SPLAY_EMPTY h then Some (None, h) else SPLAY_MIN_MAX 1 h)"

text \<open>\<open>SPLAY_FOREACH\<close> with a body that leaves the tree alone: the elements it visits, in order.\<close>

partial_function (option) foreach_loop ::
  "(loc \<Rightarrow> loc \<Rightarrow> int) \<Rightarrow> ptr \<Rightarrow> splay_heap \<Rightarrow> loc list \<Rightarrow> (loc list \<times> splay_heap) option" where
  "foreach_loop cmp x h visited =
     (case x of
        None \<Rightarrow> Some (visited, h)
      | Some e \<Rightarrow> do {
          (x', h') \<leftarrow> SPLAY_NEXT cmp e h;
          foreach_loop cmp x' h' (visited @ [e])
        })"

definition SPLAY_FOREACH ::
  "(loc \<Rightarrow> loc \<Rightarrow> int) \<Rightarrow> splay_heap \<Rightarrow> (loc list \<times> splay_heap) option" where
  "SPLAY_FOREACH cmp h = do { (x, h1) \<leftarrow> SPLAY_MIN h; foreach_loop cmp x h1 [] }"

section \<open>Trees in the heap\<close>

fun tree_at :: "(loc \<Rightarrow> ptr) \<Rightarrow> (loc \<Rightarrow> ptr) \<Rightarrow> ptr \<Rightarrow> loc tree \<Rightarrow> bool" where
  "tree_at L R p Leaf = (p = None)"
| "tree_at L R p (Node l a r) = (p = Some a \<and> tree_at L R (L a) l \<and> tree_at L R (R a) r)"

lemma tree_at_frame_left [simp, frame]:
  "x \<notin> set_tree t \<Longrightarrow> tree_at (L(x := v)) R p t = tree_at L R p t"
  by (induction t arbitrary: p) auto

lemma tree_at_frame_right [simp, frame]:
  "x \<notin> set_tree t \<Longrightarrow> tree_at L (R(x := v)) p t = tree_at L R p t"
  by (induction t arbitrary: p) auto

lemma tree_at_None [simp]: "tree_at L R None t = (t = Leaf)"
  by (cases t) auto

lemma tree_at_Some: "tree_at L R (Some a) t \<longleftrightarrow> (\<exists>l r. t = Node l a r \<and> tree_at L R (L a) l \<and> tree_at L R (R a) r)"
  by (cases t) auto

text \<open>
  The trees that the loop takes apart: \<open>xs\<close> hangs on the right spine that starts at \<open>p\<close>, \<open>ys\<close>
  on the left spine, the node linked last first. \<open>__left\<close> and \<open>__right\<close> point to the ends.
\<close>

type_synonym left_parts = "(loc tree \<times> loc) list"
type_synonym right_parts = "(loc \<times> loc tree) list"

fun left_end :: "loc \<Rightarrow> left_parts \<Rightarrow> loc" where
  "left_end p [] = p"
| "left_end p ((l, a) # xs) = a"

fun right_end :: "loc \<Rightarrow> right_parts \<Rightarrow> loc" where
  "right_end p [] = p"
| "right_end p ((a, r) # ys) = a"

fun left_spine :: "(loc \<Rightarrow> ptr) \<Rightarrow> (loc \<Rightarrow> ptr) \<Rightarrow> loc \<Rightarrow> left_parts \<Rightarrow> bool" where
  "left_spine L R p [] = True"
| "left_spine L R p ((l, a) # xs) = (R (left_end p xs) = Some a \<and> tree_at L R (L a) l \<and> left_spine L R p xs)"

fun right_spine :: "(loc \<Rightarrow> ptr) \<Rightarrow> (loc \<Rightarrow> ptr) \<Rightarrow> loc \<Rightarrow> right_parts \<Rightarrow> bool" where
  "right_spine L R p [] = True"
| "right_spine L R p ((a, r) # ys) = (L (right_end p ys) = Some a \<and> tree_at L R (R a) r \<and> right_spine L R p ys)"

fun left_flat :: "left_parts \<Rightarrow> loc list" where
  "left_flat [] = []"
| "left_flat ((l, a) # xs) = left_flat xs @ inorder l @ [a]"

fun right_flat :: "right_parts \<Rightarrow> loc list" where
  "right_flat [] = []"
| "right_flat ((a, r) # ys) = a # inorder r @ right_flat ys"

fun left_plug :: "left_parts \<Rightarrow> loc tree \<Rightarrow> loc tree" where
  "left_plug [] t = t"
| "left_plug ((l, a) # xs) t = left_plug xs (Node l a t)"

fun right_plug :: "right_parts \<Rightarrow> loc tree \<Rightarrow> loc tree" where
  "right_plug [] t = t"
| "right_plug ((a, r) # ys) t = right_plug ys (Node t a r)"

section \<open>The top-down splay on trees\<close>

text \<open>\<open>td_splay c t xs ys\<close> with \<open>c x\<close> the comparison of the searched element with \<open>x\<close>.\<close>

function td_splay ::
  "(loc \<Rightarrow> int) \<Rightarrow> loc tree \<Rightarrow> left_parts \<Rightarrow> right_parts \<Rightarrow> loc tree \<times> left_parts \<times> right_parts" where
  "td_splay c Leaf xs ys = (Leaf, xs, ys)"
| "td_splay c (Node l a r) xs ys =
     (if c a = 0 then (Node l a r, xs, ys)
      else if c a < 0 then
        (case l of
           Leaf \<Rightarrow> (Node l a r, xs, ys)
         | Node ll b lr \<Rightarrow>
             if c b < 0 then
               (if ll = Leaf then (Node Leaf b (Node lr a r), xs, ys)
                else td_splay c ll xs ((b, Node lr a r) # ys))
             else td_splay c l xs ((a, r) # ys))
      else
        (case r of
           Leaf \<Rightarrow> (Node l a r, xs, ys)
         | Node rl b rr \<Rightarrow>
             if c b > 0 then
               (if rr = Leaf then (Node (Node l a rl) b Leaf, xs, ys)
                else td_splay c rr ((Node l a rl, b) # xs) ys)
             else td_splay c r ((l, a) # xs) ys))"
  by pat_completeness auto
termination by (relation "measure (\<lambda>(c, t, xs, ys). size t)") auto

definition splay_tree :: "(loc \<Rightarrow> int) \<Rightarrow> loc tree \<Rightarrow> loc tree" where
  "splay_tree c t =
     (case td_splay c t [] [] of
        (Node l a r, xs, ys) \<Rightarrow> Node (left_plug xs l) a (right_plug ys r)
      | (Leaf, xs, ys) \<Rightarrow> Leaf)"

section \<open>The loop implements the top-down splay\<close>

lemma left_spine_frame_left [simp, frame]:
  "x \<notin> set (left_flat xs) \<Longrightarrow> left_spine (L(x := v)) R p xs = left_spine L R p xs"
  by (induction xs rule: left_flat.induct) auto

lemma right_spine_frame_right [simp, frame]:
  "x \<notin> set (right_flat ys) \<Longrightarrow> right_spine L (R(x := v)) p ys = right_spine L R p ys"
  by (induction ys rule: right_flat.induct) auto

lemma left_end_in: "left_end p xs \<in> insert p (set (left_flat xs))"
  by (cases xs rule: left_flat.cases) auto

lemma right_end_in: "right_end p ys \<in> insert p (set (right_flat ys))"
  by (cases ys rule: right_flat.cases) auto

lemma left_spine_frame_right [simp, frame]:
  "x \<notin> insert p (set (left_flat xs)) \<Longrightarrow> left_spine L (R(x := v)) p xs = left_spine L R p xs"
  using left_end_in [of p] by (induction xs rule: left_flat.induct) auto

lemma right_spine_frame_left [simp, frame]:
  "x \<notin> insert p (set (right_flat ys)) \<Longrightarrow> right_spine (L(x := v)) R p ys = right_spine L R p ys"
  using right_end_in [of p] by (induction ys rule: right_flat.induct) auto

lemma left_spine_end [simp]:
  "distinct (p # left_flat xs) \<Longrightarrow> left_spine L (R(left_end p xs := v)) p xs = left_spine L R p xs"
proof (cases xs rule: left_flat.cases)
  case (2 l a zs)
  then show "distinct (p # left_flat xs) \<Longrightarrow> ?thesis" using left_end_in [of p zs] by auto
qed simp

lemma right_spine_end [simp]:
  "distinct (p # right_flat ys) \<Longrightarrow> right_spine (L(right_end p ys := v)) R p ys = right_spine L R p ys"
proof (cases ys rule: right_flat.cases)
  case (2 a r zs)
  then show "distinct (p # right_flat ys) \<Longrightarrow> ?thesis" using right_end_in [of p zs] by auto
qed simp

lemma left_plug_at:
  "left_spine L R p xs \<Longrightarrow> tree_at L R (R (left_end p xs)) t \<Longrightarrow> tree_at L R (R p) (left_plug xs t)"
  by (induction xs arbitrary: t rule: left_flat.induct) auto

lemma right_plug_at:
  "right_spine L R p ys \<Longrightarrow> tree_at L R (L (right_end p ys)) t \<Longrightarrow> tree_at L R (L p) (right_plug ys t)"
  by (induction ys arbitrary: t rule: right_flat.induct) auto

lemma inorder_left_plug [simp]: "inorder (left_plug xs t) = left_flat xs @ inorder t"
  by (induction xs arbitrary: t rule: left_flat.induct) auto

lemma inorder_right_plug [simp]: "inorder (right_plug ys t) = inorder t @ right_flat ys"
  by (induction ys arbitrary: t rule: right_flat.induct) auto

definition same_off :: "loc set \<Rightarrow> splay_heap \<Rightarrow> splay_heap \<Rightarrow> bool" where
  "same_off N h h' = (\<forall>x. x \<notin> N \<longrightarrow> spe_left h' x = spe_left h x \<and> spe_right h' x = spe_right h x)"

lemma same_off_refl [simp]: "same_off N h h"
  by (simp add: same_off_def)

lemma same_off_tree_at:
  "same_off N h h' \<Longrightarrow> set_tree t \<inter> N = {} \<Longrightarrow>
   tree_at (spe_left h') (spe_right h') p t = tree_at (spe_left h) (spe_right h) p t"
  by (induction t arbitrary: p) (auto simp: same_off_def)

text \<open>What holds at the head of the loop, \<open>h0\<close> being the heap in which it started.\<close>

definition loop_inv :: "splay_heap \<Rightarrow> loc set \<Rightarrow> splay_heap \<Rightarrow> loc tree \<Rightarrow> left_parts \<Rightarrow> right_parts \<Rightarrow> bool" where
  "loop_inv h0 N h t xs ys \<longleftrightarrow>
     tree_at (spe_left h) (spe_right h) (sph_root h) t \<and>
     left_spine (spe_left h) (spe_right h) node_addr xs \<and>
     right_spine (spe_left h) (spe_right h) node_addr ys \<and>
     distinct (node_addr # left_flat xs @ inorder t @ right_flat ys) \<and>
     set (left_flat xs @ inorder t @ right_flat ys) = N \<and> same_off (insert node_addr N) h0 h"

lemma loop_inv_link_left:
  assumes "loop_inv h0 N h (Node l a r) xs ys"
  shows "\<exists>h'. SPLAY_LINKLEFT (right_end node_addr ys) h = Some (a, h') \<and> loop_inv h0 N h' l xs ((a, r) # ys)"
proof -
  let ?e = "right_end node_addr ys"
  have e: "?e \<notin> set (left_flat xs)" "?e \<notin> insert a (set_tree l \<union> set_tree r)"
    "?e \<in> insert node_addr N"
    using assms right_end_in [of node_addr ys] by (auto simp: loop_inv_def)
  show ?thesis
    using assms e by (simp add: SPLAY_LINKLEFT_def loop_inv_def set_left_def same_off_def) blast
qed

lemma loop_inv_link_right:
  assumes "loop_inv h0 N h (Node l a r) xs ys"
  shows "\<exists>h'. SPLAY_LINKRIGHT (left_end node_addr xs) h = Some (a, h') \<and> loop_inv h0 N h' r ((l, a) # xs) ys"
proof -
  let ?e = "left_end node_addr xs"
  have e: "?e \<notin> set (right_flat ys)" "?e \<notin> insert a (set_tree l \<union> set_tree r)"
    "?e \<in> insert node_addr N"
    using assms left_end_in [of node_addr xs] by (auto simp: loop_inv_def)
  show ?thesis
    using assms e by (simp add: SPLAY_LINKRIGHT_def loop_inv_def set_right_def same_off_def) blast
qed

lemma loop_inv_rotate_right:
  assumes "loop_inv h0 N h (Node (Node ll b lr) a r) xs ys"
  shows "\<exists>h'. SPLAY_ROTATE_RIGHT b h = Some h' \<and> sph_root h' = Some b \<and> spe_left h' b = spe_left h b \<and>
    loop_inv h0 N h' (Node ll b (Node lr a r)) xs ys"
  using assms by (auto simp: SPLAY_ROTATE_RIGHT_def loop_inv_def set_left_def set_right_def same_off_def)

lemma loop_inv_rotate_left:
  assumes "loop_inv h0 N h (Node l a (Node rl b rr)) xs ys"
  shows "\<exists>h'. SPLAY_ROTATE_LEFT b h = Some h' \<and> sph_root h' = Some b \<and> spe_right h' b = spe_right h b \<and>
    loop_inv h0 N h' (Node (Node l a rl) b rr) xs ys"
  using assms by (auto simp: SPLAY_ROTATE_LEFT_def loop_inv_def set_left_def set_right_def same_off_def)

lemma loop_inv_root:
  "loop_inv h0 N h (Node l a r) xs ys \<Longrightarrow> sph_root h = Some a \<and> (spe_left h a = None) = (l = Leaf) \<and>
     (spe_right h a = None) = (r = Leaf)"
  by (cases l; cases r) (auto simp: loop_inv_def)

lemma loop_inv_left_child:
  "loop_inv h0 N h (Node (Node ll b lr) a r) xs ys \<Longrightarrow> spe_left h a = Some b"
  by (simp add: loop_inv_def)

lemma loop_inv_right_child:
  "loop_inv h0 N h (Node l a (Node rl b rr)) xs ys \<Longrightarrow> spe_right h a = Some b"
  by (simp add: loop_inv_def)

lemma splay_loop_left:
  assumes "loop_inv h0 N h (Node l a r) xs ys" and "cmp elm a < 0"
  shows "splay_loop cmp elm lft rgt h =
    (case spe_left h a of
       None \<Rightarrow> Some (lft, rgt, h)
     | Some b \<Rightarrow>
         if cmp elm b < 0 then do {
           h1 \<leftarrow> SPLAY_ROTATE_RIGHT b h;
           root1 \<leftarrow> sph_root h1;
           if spe_left h1 root1 = None then Some (lft, rgt, h1)
           else do { (rgt', h2) \<leftarrow> SPLAY_LINKLEFT rgt h1; splay_loop cmp elm lft rgt' h2 }
         } else do { (rgt', h2) \<leftarrow> SPLAY_LINKLEFT rgt h; splay_loop cmp elm lft rgt' h2 })"
  using assms loop_inv_root [OF assms(1)] by (subst splay_loop.simps) (simp cong: option.case_cong)

lemma splay_loop_right:
  assumes "loop_inv h0 N h (Node l a r) xs ys" and "cmp elm a > 0"
  shows "splay_loop cmp elm lft rgt h =
    (case spe_right h a of
       None \<Rightarrow> Some (lft, rgt, h)
     | Some b \<Rightarrow>
         if cmp elm b > 0 then do {
           h1 \<leftarrow> SPLAY_ROTATE_LEFT b h;
           root1 \<leftarrow> sph_root h1;
           if spe_right h1 root1 = None then Some (lft, rgt, h1)
           else do { (lft', h2) \<leftarrow> SPLAY_LINKRIGHT lft h1; splay_loop cmp elm lft' rgt h2 }
         } else do { (lft', h2) \<leftarrow> SPLAY_LINKRIGHT lft h; splay_loop cmp elm lft' rgt h2 })"
  using assms loop_inv_root [OF assms(1)] by (subst splay_loop.simps) (simp cong: option.case_cong)

text \<open>The loop ends, and computes \<open>td_splay\<close>.\<close>

definition implements_td where
  "implements_td cmp elm h0 N h t xs ys \<longleftrightarrow>
     (\<exists>t' xs' ys' h'. td_splay (cmp elm) t xs ys = (t', xs', ys') \<and> t' \<noteq> Leaf \<and> loop_inv h0 N h' t' xs' ys' \<and>
        splay_loop cmp elm (left_end node_addr xs) (right_end node_addr ys) h =
          Some (left_end node_addr xs', right_end node_addr ys', h'))"

lemma implements_td_left:
  assumes inv: "loop_inv h0 N h (Node l a r) xs ys" and neg: "cmp elm a < 0"
    and zigzig: "\<And>ll b lr h2. l = Node ll b lr \<Longrightarrow> cmp elm b < 0 \<Longrightarrow> ll \<noteq> Leaf \<Longrightarrow>
      loop_inv h0 N h2 ll xs ((b, Node lr a r) # ys) \<Longrightarrow> implements_td cmp elm h0 N h2 ll xs ((b, Node lr a r) # ys)"
    and zig: "\<And>ll b lr h2. l = Node ll b lr \<Longrightarrow> \<not> cmp elm b < 0 \<Longrightarrow>
      loop_inv h0 N h2 l xs ((a, r) # ys) \<Longrightarrow> implements_td cmp elm h0 N h2 l xs ((a, r) # ys)"
  shows "implements_td cmp elm h0 N h (Node l a r) xs ys"
proof (cases l)
  case Leaf
  then show ?thesis
    using inv neg splay_loop_left [OF inv, where cmp = cmp and elm = elm] loop_inv_root [OF inv]
    by (auto simp: implements_td_def)
next
  case l: (Node ll b lr)
  note loop = splay_loop_left [OF inv, where cmp = cmp and elm = elm, OF neg]
  note child = loop_inv_left_child [OF inv [unfolded l]]
  show ?thesis
  proof (cases "cmp elm b < 0")
    case rot: True
    obtain h1 where h1: "SPLAY_ROTATE_RIGHT b h = Some h1" "sph_root h1 = Some b"
      "loop_inv h0 N h1 (Node ll b (Node lr a r)) xs ys"
      using loop_inv_rotate_right [OF inv [unfolded l]] by auto
    note root = loop_inv_root [OF h1(3)]
    obtain h2 where h2: "SPLAY_LINKLEFT (right_end node_addr ys) h1 = Some (b, h2)"
      "loop_inv h0 N h2 ll xs ((b, Node lr a r) # ys)"
      using loop_inv_link_left [OF h1(3)] by auto
    show ?thesis
      using zigzig [OF l rot _ h2(2)] l neg rot loop child h1 h2 root
      by (cases "ll = Leaf") (auto simp: implements_td_def)
  next
    case rot: False
    obtain h2 where h2: "SPLAY_LINKLEFT (right_end node_addr ys) h = Some (a, h2)"
      "loop_inv h0 N h2 l xs ((a, r) # ys)"
      using loop_inv_link_left [OF inv] by auto
    show ?thesis using zig [OF l rot h2(2)] l neg rot loop child h2 by (simp add: implements_td_def)
  qed
qed

lemma implements_td_right:
  assumes inv: "loop_inv h0 N h (Node l a r) xs ys" and pos: "cmp elm a > 0"
    and zigzig: "\<And>rl b rr h2. r = Node rl b rr \<Longrightarrow> cmp elm b > 0 \<Longrightarrow> rr \<noteq> Leaf \<Longrightarrow>
      loop_inv h0 N h2 rr ((Node l a rl, b) # xs) ys \<Longrightarrow> implements_td cmp elm h0 N h2 rr ((Node l a rl, b) # xs) ys"
    and zig: "\<And>rl b rr h2. r = Node rl b rr \<Longrightarrow> \<not> cmp elm b > 0 \<Longrightarrow>
      loop_inv h0 N h2 r ((l, a) # xs) ys \<Longrightarrow> implements_td cmp elm h0 N h2 r ((l, a) # xs) ys"
  shows "implements_td cmp elm h0 N h (Node l a r) xs ys"
proof (cases r)
  case Leaf
  then show ?thesis
    using inv pos splay_loop_right [OF inv, where cmp = cmp and elm = elm] loop_inv_root [OF inv]
    by (auto simp: implements_td_def)
next
  case r: (Node rl b rr)
  note loop = splay_loop_right [OF inv, where cmp = cmp and elm = elm, OF pos]
  note child = loop_inv_right_child [OF inv [unfolded r]]
  show ?thesis
  proof (cases "cmp elm b > 0")
    case rot: True
    obtain h1 where h1: "SPLAY_ROTATE_LEFT b h = Some h1" "sph_root h1 = Some b"
      "loop_inv h0 N h1 (Node (Node l a rl) b rr) xs ys"
      using loop_inv_rotate_left [OF inv [unfolded r]] by auto
    note root = loop_inv_root [OF h1(3)]
    obtain h2 where h2: "SPLAY_LINKRIGHT (left_end node_addr xs) h1 = Some (b, h2)"
      "loop_inv h0 N h2 rr ((Node l a rl, b) # xs) ys"
      using loop_inv_link_right [OF h1(3)] by auto
    show ?thesis
      using zigzig [OF r rot _ h2(2)] r pos rot loop child h1 h2 root
      by (cases "rr = Leaf") (auto simp: implements_td_def)
  next
    case rot: False
    obtain h2 where h2: "SPLAY_LINKRIGHT (left_end node_addr xs) h = Some (a, h2)"
      "loop_inv h0 N h2 r ((l, a) # xs) ys"
      using loop_inv_link_right [OF inv] by auto
    show ?thesis using zig [OF r rot h2(2)] r pos rot loop child h2 by (simp add: implements_td_def)
  qed
qed

lemma splay_loop_td:
  "loop_inv h0 N h t xs ys \<Longrightarrow> t \<noteq> Leaf \<Longrightarrow> implements_td cmp elm h0 N h t xs ys"
proof (induction "cmp elm" t xs ys arbitrary: h rule: td_splay.induct)
  case (2 l a r xs ys)
  note inv = 2(5)
  consider "cmp elm a = 0" | "cmp elm a < 0" | "cmp elm a > 0" by linarith
  then show ?case
  proof cases
    case 1
    then show ?thesis using inv loop_inv_root [OF inv]
      by (auto simp: implements_td_def splay_loop.simps [of _ _ _ _ h])
  next
    case neg: 2
    then show ?thesis using implements_td_left [OF inv, where cmp = cmp and elm = elm] 2(1,2) by auto
  next
    case pos: 3
    then show ?thesis using implements_td_right [OF inv, where cmp = cmp and elm = elm] 2(3,4) by auto
  qed
qed simp

lemma SPLAY_ASSEMBLE_tree:
  assumes inv: "loop_inv h0 N h (Node l a r) xs ys"
  shows "\<exists>h'. SPLAY_ASSEMBLE node_addr (left_end node_addr xs) (right_end node_addr ys) h = Some h' \<and>
    sph_root h' = Some a \<and> same_off (insert node_addr N) h0 h' \<and>
    tree_at (spe_left h') (spe_right h') (Some a) (Node (left_plug xs l) a (right_plug ys r))"
proof -
  let ?le = "left_end node_addr xs" and ?re = "right_end node_addr ys"
  have d: "distinct (node_addr # left_flat xs @ inorder l @ a # inorder r @ right_flat ys)"
    and N: "N = set (left_flat xs @ inorder l @ a # inorder r @ right_flat ys)"
    using inv unfolding loop_inv_def by (simp_all only: inorder.simps append_assoc append_Cons append_Nil)
  have "?le \<notin> insert a (set_tree l \<union> set_tree r \<union> set (right_flat ys))" "?le \<in> insert node_addr N"
    using left_end_in [of node_addr xs] d N by auto
  moreover have "?re \<notin> insert a (set_tree l \<union> set_tree r \<union> set (left_flat xs))" "?re \<in> insert node_addr N"
    using right_end_in [of node_addr ys] d N by auto
  moreover have "a \<in> N" "a \<noteq> node_addr" using d N by auto
  ultimately have ends: "?le \<notin> insert a (set_tree l \<union> set_tree r \<union> set (right_flat ys))"
    "?re \<notin> insert a (set_tree l \<union> set_tree r \<union> set (left_flat xs))" "?le \<in> insert node_addr N"
    "?re \<in> insert node_addr N" "a \<in> N" "a \<noteq> node_addr" by blast+
  define L where "L = (spe_left h)(?re := spe_right h a)"
  define R where "R = (spe_right h)(?le := spe_left h a)"
  have "tree_at L R (R node_addr) (left_plug xs l)"
    by (rule left_plug_at) (use inv ends in \<open>simp_all add: L_def R_def loop_inv_def\<close>)
  moreover have "tree_at L R (L node_addr) (right_plug ys r)"
    by (rule right_plug_at) (use inv ends in \<open>simp_all add: L_def R_def loop_inv_def\<close>)
  moreover have "a \<notin> set_tree (left_plug xs l)" "a \<notin> set_tree (right_plug ys r)"
    using inv by (simp_all add: loop_inv_def flip: set_inorder)
  moreover have "L a = spe_left h a" "R a = spe_right h a" using ends by (auto simp: L_def R_def)
  moreover have "SPLAY_ASSEMBLE node_addr ?le ?re h =
      Some (h\<lparr>spe_left := L(a := R node_addr), spe_right := R(a := L node_addr)\<rparr>)"
    using ends loop_inv_root [OF inv] by (simp add: SPLAY_ASSEMBLE_def set_left_def set_right_def L_def R_def)
  moreover have "same_off (insert node_addr N) h0 (h\<lparr>spe_left := L(a := R node_addr), spe_right := R(a := L node_addr)\<rparr>)"
    using ends(3-5) inv [unfolded loop_inv_def, THEN conjunct2, THEN conjunct2, THEN conjunct2, THEN conjunct2, THEN conjunct2]
    by (auto simp: same_off_def L_def R_def)
  ultimately show ?thesis using loop_inv_root [OF inv] by simp
qed

lemma loop_inv_start:
  assumes "tree_at (spe_left h) (spe_right h) (sph_root h) t" and "distinct (node_addr # inorder t)"
  shows "loop_inv h (set_tree t) (set_left node_addr None (set_right node_addr None h)) t [] []"
  using assms by (auto simp: loop_inv_def set_left_def set_right_def same_off_def)

lemma splay_tree_Node:
  assumes "t \<noteq> Leaf" and "td_splay c t [] [] = (Node l a r, xs, ys)"
  shows "splay_tree c t = Node (left_plug xs l) a (right_plug ys r)"
  using assms by (simp add: splay_tree_def)

text \<open>\<open>SPLAY\<close> returns, and leaves the tree \<open>splay_tree\<close> computes; no other element changes.\<close>

definition splayed :: "splay_heap \<Rightarrow> loc tree \<Rightarrow> (loc \<Rightarrow> int) \<Rightarrow> splay_heap \<Rightarrow> bool" where
  "splayed h t c h' \<longleftrightarrow> tree_at (spe_left h') (spe_right h') (sph_root h') (splay_tree c t) \<and>
     same_off (insert node_addr (set_tree t)) h h'"

lemma SPLAY_splayed:
  assumes "tree_at (spe_left h) (spe_right h) (sph_root h) t" "t \<noteq> Leaf" "distinct (node_addr # inorder t)"
  shows "\<exists>h'. SPLAY cmp elm h = Some h' \<and> splayed h t (cmp elm) h'"
proof -
  let ?h1 = "set_left node_addr None (set_right node_addr None h)"
  have "implements_td cmp elm h (set_tree t) ?h1 t [] []"
    by (rule splay_loop_td [OF loop_inv_start [OF assms(1,3)] assms(2)])
  then obtain l a r xs ys h2 where td: "td_splay (cmp elm) t [] [] = (Node l a r, xs, ys)"
    "loop_inv h (set_tree t) h2 (Node l a r) xs ys"
    "splay_loop cmp elm node_addr node_addr ?h1 = Some (left_end node_addr xs, right_end node_addr ys, h2)"
    unfolding implements_td_def by (metis left_end.simps(1) right_end.simps(1) tree.exhaust)
  then show ?thesis
    using SPLAY_ASSEMBLE_tree [OF td(2)] splay_tree_Node [OF assms(2) td(1)]
    by (auto simp: SPLAY_def splayed_def)
qed

lemma minmax_loop_is_splay_loop:
  assumes "c \<noteq> 0" and "splay_loop (\<lambda>_ _. c) elm lft rgt h = Some res"
  shows "minmax_loop c lft rgt h = Some res"
proof -
  let ?P = "\<lambda>(cmp :: loc \<Rightarrow> loc \<Rightarrow> int) (elm :: loc) lft rgt h res. cmp = (\<lambda>_ _. c) \<longrightarrow> minmax_loop c lft rgt h = Some res"
  have "?P (\<lambda>_ _. c) elm lft rgt h res"
  proof (rule splay_loop.raw_induct [where P = ?P, OF _ assms(2)], rule impI, goal_cases)
    case (1 loop cmp elm lft rgt h res)
    from 1(1) have IH: "loop (\<lambda>_ _. c) e l r k = Some y \<Longrightarrow> minmax_loop c l r k = Some y" for e l r k y
      by blast
    show ?case
      using 1(2) assms(1) unfolding 1(3)
      by (subst minmax_loop.simps)
         (auto simp: Let_def dest!: bind_eq_SomeD split: option.split_asm if_split_asm, (erule IH)+)
  qed
  then show ?thesis by simp
qed

lemma SPLAY_MINMAX_splayed:
  assumes "tree_at (spe_left h) (spe_right h) (sph_root h) t" "t \<noteq> Leaf" "distinct (node_addr # inorder t)"
    and "c \<noteq> 0"
  shows "\<exists>h'. SPLAY_MINMAX c h = Some h' \<and> splayed h t (\<lambda>_. c) h'"
proof -
  obtain h' where h': "SPLAY (\<lambda>_ _. c) 0 h = Some h'" "splayed h t (\<lambda>_. c) h'"
    using SPLAY_splayed [OF assms(1-3)] by blast
  then show ?thesis
    using minmax_loop_is_splay_loop [OF assms(4)]
    by (fastforce simp: SPLAY_def SPLAY_MINMAX_def Let_def dest!: bind_eq_SomeD)
qed

section \<open>What splaying does to a search tree\<close>

text \<open>
  \<open>splits c xs\<close>: along \<open>xs\<close> the comparison is first positive, then zero at most once, then
  negative. It holds of a comparison with an ordered list, and of a constant one.
\<close>

abbreviation splits :: "(loc \<Rightarrow> int) \<Rightarrow> loc list \<Rightarrow> bool" where
  "splits c xs \<equiv> sorted_wrt (\<lambda>x y. c x \<le> 0 \<longrightarrow> c y < 0) xs"

lemma td_splay_inorder:
  "td_splay c t xs ys = (t', xs', ys') \<Longrightarrow>
   left_flat xs' @ inorder t' @ right_flat ys' = left_flat xs @ inorder t @ right_flat ys"
  by (induction c t xs ys rule: td_splay.induct) (auto split: tree.split_asm if_split_asm)

lemma td_splay_stop:
  "td_splay c t xs ys = (t', xs', ys') \<Longrightarrow> t \<noteq> Leaf \<Longrightarrow>
   \<exists>l a r. t' = Node l a r \<and> (c a = 0 \<or> c a < 0 \<and> l = Leaf \<or> c a > 0 \<and> r = Leaf)"
  by (induction c t xs ys rule: td_splay.induct) (auto split: tree.split_asm if_split_asm)

lemma splits_node:
  assumes "splits c (inorder (Node l a r))"
  shows "splits c (inorder l)" "splits c (inorder r)"
    "c a > 0 \<Longrightarrow> x \<in> set_tree l \<Longrightarrow> c x > 0" "c a < 0 \<Longrightarrow> x \<in> set_tree r \<Longrightarrow> c x < 0"
  using assms by (force simp: sorted_wrt_append)+

lemma td_splay_bounds:
  "td_splay c t xs ys = (t', xs', ys') \<Longrightarrow> splits c (inorder t) \<Longrightarrow>
   \<forall>x \<in> set (left_flat xs). c x > 0 \<Longrightarrow> \<forall>y \<in> set (right_flat ys). c y < 0 \<Longrightarrow>
   (\<forall>x \<in> set (left_flat xs'). c x > 0) \<and> (\<forall>y \<in> set (right_flat ys'). c y < 0)"
proof (induction c t xs ys rule: td_splay.induct)
  case (2 c l a r xs ys)
  note sub = splits_node [OF "2.prems"(2)]
  consider "c a = 0" | ll b lr where "c a < 0" "l = Node ll b lr" | rl b rr where "c a > 0" "r = Node rl b rr"
    | "c a < 0" "l = Leaf" | "c a > 0" "r = Leaf"
    by (cases l; cases r) (use linorder_cases [of "c a" 0] in auto)
  then show ?case
  proof cases
    case neg: 2
    then have nz: "c a \<noteq> 0" by simp
    note sub' = splits_node [OF sub(1) [unfolded neg(2)]]
    consider "\<not> c b < 0" | "c b < 0" "ll \<noteq> Leaf" | "c b < 0" "ll = Leaf" by blast
    then show ?thesis
    proof cases
      case 1
      show ?thesis by (rule "2.IH"(2) [OF nz neg 1 _ sub(1)]) (use 1 neg "2.prems" sub(4) in auto)
    next
      case 2
      show ?thesis by (rule "2.IH"(1) [OF nz neg 2 _ sub'(1)]) (use 2 neg "2.prems" sub(4) sub'(4) in auto)
    qed (use neg "2.prems" in auto)
  next
    case pos: 3
    then have nz: "c a \<noteq> 0" "\<not> c a < 0" by simp_all
    note sub' = splits_node [OF sub(2) [unfolded pos(2)]]
    consider "\<not> c b > 0" | "c b > 0" "rr \<noteq> Leaf" | "c b > 0" "rr = Leaf" by blast
    then show ?thesis
    proof cases
      case 1
      show ?thesis by (rule "2.IH"(4) [OF nz pos(2) 1 _ sub(2)]) (use 1 pos "2.prems" sub(3) in auto)
    next
      case 2
      show ?thesis by (rule "2.IH"(3) [OF nz pos(2) 2 _ sub'(2)]) (use 2 pos "2.prems" sub(3) sub'(3) in auto)
    qed (use pos "2.prems" in auto)
  qed (use "2.prems" in auto)
qed auto

lemma splay_tree_splits:
  assumes "splits c (inorder t)" and "t \<noteq> Leaf"
  obtains l a r where "splay_tree c t = Node l a r" "inorder t = inorder l @ a # inorder r"
    "\<And>x. x \<in> set_tree l \<Longrightarrow> c x > 0" "\<And>x. x \<in> set_tree r \<Longrightarrow> c x < 0"
proof -
  obtain t' xs ys where td: "td_splay c t [] [] = (t', xs, ys)" by (metis prod_cases3)
  from td_splay_stop [OF td assms(2)] obtain l a r where t': "t' = Node l a r"
    "c a = 0 \<or> c a < 0 \<and> l = Leaf \<or> c a > 0 \<and> r = Leaf" by auto
  have io: "inorder t = (left_flat xs @ inorder l) @ a # (inorder r @ right_flat ys)"
    using td_splay_inorder [OF td] t'(1) by simp
  have b: "\<forall>x \<in> set (left_flat xs). c x > 0" "\<forall>y \<in> set (right_flat ys). c y < 0"
    using td_splay_bounds [OF td assms(1)] by auto
  have "\<forall>x \<in> set (inorder l). c x > 0" "\<forall>x \<in> set (inorder r). c x < 0"
    using t'(2) assms(1) unfolding io by (fastforce simp: sorted_wrt_append)+
  then show thesis
    using that [OF splay_tree_Node [OF assms(2) td [unfolded t'(1)]]] io b
    by (auto simp flip: set_inorder)
qed

section \<open>The operations on ordered lists\<close>

definition splay_rep :: "(loc \<Rightarrow> 'k :: linorder) \<Rightarrow> splay_heap \<Rightarrow> loc list \<Rightarrow> bool" where
  "splay_rep key h xs \<longleftrightarrow> ordered_by key xs \<and> distinct (node_addr # xs) \<and>
     (\<exists>t. tree_at (spe_left h) (spe_right h) (sph_root h) t \<and> inorder t = xs)"

lemma splits_cmp:
  assumes "cmp_agrees cmp key" "ordered_by key xs"
  shows "splits (cmp e) xs"
proof (rule sorted_wrt_mono_rel [OF _ assms(2)])
  fix x y assume "key x < key y"
  then show "cmp e x \<le> 0 \<longrightarrow> cmp e y < 0"
    using cmp_agrees_pos [OF assms(1), of e x] cmp_agrees_neg [OF assms(1), of e y] by force
qed

lemma splay_rep_empty: "splay_rep key h xs \<Longrightarrow> SPLAY_EMPTY h = (xs = [])"
  unfolding splay_rep_def SPLAY_EMPTY_def by (metis inorder.simps tree.exhaust tree_at.simps append_is_Nil_conv list.distinct(1) option.distinct(1))

text \<open>The state after splaying: the root splits the list in what is below and what is above.\<close>

definition root_splits :: "(loc \<Rightarrow> int) \<Rightarrow> splay_heap \<Rightarrow> loc tree \<Rightarrow> loc \<Rightarrow> loc tree \<Rightarrow> loc list \<Rightarrow> bool" where
  "root_splits c h l a r xs \<longleftrightarrow> sph_root h = Some a \<and> tree_at (spe_left h) (spe_right h) (spe_left h a) l \<and>
     tree_at (spe_left h) (spe_right h) (spe_right h a) r \<and> xs = inorder l @ a # inorder r \<and>
     (\<forall>x \<in> set_tree l. c x > 0) \<and> (\<forall>x \<in> set_tree r. c x < 0)"

lemma splayed_root_splits:
  assumes "splayed h t c h'" and "splits c (inorder t)" and "t \<noteq> Leaf"
  shows "\<exists>l a r. root_splits c h' l a r (inorder t)"
proof -
  from splay_tree_splits [OF assms(2,3)] obtain l a r where "splay_tree c t = Node l a r"
    "inorder t = inorder l @ a # inorder r" "\<And>x. x \<in> set_tree l \<Longrightarrow> c x > 0" "\<And>x. x \<in> set_tree r \<Longrightarrow> c x < 0"
    by blast
  then show ?thesis using assms(1) by (auto simp: splayed_def root_splits_def)
qed

lemma SPLAY_root_splits:
  assumes "splay_rep key h xs" and "xs \<noteq> []" and "splits (cmp e) xs"
  shows "\<exists>h' l a r. SPLAY cmp e h = Some h' \<and> root_splits (cmp e) h' l a r xs \<and> same_off (insert node_addr (set xs)) h h'"
proof -
  obtain t where t: "tree_at (spe_left h) (spe_right h) (sph_root h) t" "inorder t = xs" "t \<noteq> Leaf"
    "distinct (node_addr # inorder t)"
    using assms(1,2) by (auto simp: splay_rep_def)
  with SPLAY_splayed [OF t(1,3,4)] splayed_root_splits [OF _ _ t(3)] assms(3) show ?thesis
    by (metis splayed_def set_inorder)
qed

lemma SPLAY_MINMAX_root_splits:
  assumes "splay_rep key h xs" and "xs \<noteq> []" and "c \<noteq> 0"
  shows "\<exists>h' l a r. SPLAY_MINMAX c h = Some h' \<and> root_splits (\<lambda>_. c) h' l a r xs"
proof -
  obtain t where t: "tree_at (spe_left h) (spe_right h) (sph_root h) t" "inorder t = xs" "t \<noteq> Leaf"
    "distinct (node_addr # inorder t)"
    using assms(1,2) by (auto simp: splay_rep_def)
  moreover have "splits (\<lambda>_. c) xs" using assms(3) by (induction xs) auto
  ultimately show ?thesis
    using SPLAY_MINMAX_splayed [OF t(1,3,4) assms(3)] splayed_root_splits [OF _ _ t(3)] by blast
qed

lemma root_splits_rep:
  assumes "root_splits c h l a r xs" and "ordered_by key xs" and "distinct (node_addr # xs)"
  shows "splay_rep key h xs"
  using assms by (auto simp: root_splits_def splay_rep_def intro!: exI [of _ "Node l a r"])

lemma root_splits_find:
  assumes "root_splits (cmp e) h l a r xs" and "cmp_agrees cmp key"
  shows "List.find (\<lambda>x. key x = key e) xs = (if key e = key a then Some a else None)"
  using assms by (auto simp: root_splits_def intro!: find_key_mid find_key_None)
    (metis less_irrefl)+

lemma root_splits_lt:
  "root_splits (cmp e) h l a r xs \<Longrightarrow> cmp_agrees cmp key \<Longrightarrow>
   (\<forall>x \<in> set_tree l. key x < key e) \<and> (\<forall>x \<in> set_tree r. key e < key x)"
  by (simp add: root_splits_def)

lemma splay_repI:
  "tree_at (spe_left h) (spe_right h) (sph_root h) t \<Longrightarrow> inorder t = xs \<Longrightarrow> ordered_by key xs \<Longrightarrow>
   distinct (node_addr # xs) \<Longrightarrow> splay_rep key h xs"
  by (auto simp: splay_rep_def)

lemma splay_rep_same_off:
  assumes "splay_rep key h xs" and "same_off N h h'" and "set xs \<inter> N = {}" and "sph_root h' = sph_root h"
  shows "splay_rep key h' xs"
  using assms same_off_tree_at [OF assms(2)] unfolding splay_rep_def by (metis set_inorder)

lemma SPLAY_FIND_rep:
  assumes "cmp_agrees cmp key" and "splay_rep key h xs"
  shows "\<exists>h'. SPLAY_FIND cmp e h = Some (List.find (\<lambda>x. key x = key e) xs, h') \<and> splay_rep key h' xs"
proof (cases "xs = []")
  case True
  then show ?thesis using assms splay_rep_empty [OF assms(2)] by (simp add: SPLAY_FIND_def)
next
  case False
  note o = assms(2) [unfolded splay_rep_def]
  obtain h' l a r where h': "SPLAY cmp e h = Some h'" "root_splits (cmp e) h' l a r xs"
    using SPLAY_root_splits [OF assms(2) False] splits_cmp [OF assms(1)] o by blast
  moreover have "sph_root h' = Some a" using h'(2) by (simp add: root_splits_def)
  ultimately show ?thesis
    using root_splits_find [OF h'(2) assms(1)] root_splits_rep [OF h'(2), of key] o assms(1)
      splay_rep_empty [OF assms(2)] False
    by (simp add: SPLAY_FIND_def)
qed

lemma SPLAY_INSERT_rep:
  assumes "cmp_agrees cmp key" and "splay_rep key h xs" and "e \<noteq> node_addr"
  shows "\<exists>h'. SPLAY_INSERT cmp e h = Some (List.find (\<lambda>x. key x = key e) xs, h') \<and>
    splay_rep key h' (if \<exists>x \<in> set xs. key x = key e then xs else insort_key key e xs)"
proof (cases "xs = []")
  case True
  then show ?thesis using assms splay_rep_empty [OF assms(2)]
    by (auto simp: SPLAY_INSERT_def splay_rep_def set_left_def set_right_def intro!: exI [of _ "Node Leaf e Leaf"])
next
  case False
  note o = assms(2) [unfolded splay_rep_def]
  have ne: "\<not> SPLAY_EMPTY h" using splay_rep_empty [OF assms(2)] False by simp
  obtain h' l a r where h': "SPLAY cmp e h = Some h'" "root_splits (cmp e) h' l a r xs"
    using SPLAY_root_splits [OF assms(2) False] splits_cmp [OF assms(1)] o by blast
  note rs = h'(2) [unfolded root_splits_def] and lt = root_splits_lt [OF h'(2) assms(1)]
    and find = root_splits_find [OF h'(2) assms(1)]
  have xs: "xs = inorder l @ a # inorder r" using rs by simp
  have old: "splay_rep key h' xs" using root_splits_rep [OF h'(2), of key] o by simp
  have new: "splay_rep key k (insort_key key e xs)" if "\<forall>x \<in> set xs. key x \<noteq> key e"
    "tree_at (spe_left k) (spe_right k) (sph_root k) t" "inorder t = insort_key key e xs" for k t
    by (rule splay_repI [OF that(2,3)]) (use that(1) o assms(3) in \<open>auto simp: set_insort_key distinct_insort intro!: ordered_by_insort\<close>)
  consider "key e = key a" | "key e < key a" | "key a < key e" by fastforce
  then show ?thesis
  proof cases
    case 1
    then show ?thesis using ne h'(1) rs find old assms(1) by (auto simp: SPLAY_INSERT_def)
  next
    case 2
    have fresh: "\<forall>x \<in> set xs. key x \<noteq> key e" using 2 lt by (auto simp: xs)
    then have e: "e \<notin> set xs" by auto
    have "insort_key key e xs = inorder l @ e # a # inorder r"
      unfolding xs by (rule insort_key_split) (use 2 lt in auto)
    then show ?thesis
      using ne h'(1) rs find 2 assms(1) e o fresh new [OF fresh, where t = "Node l e (Node Leaf a r)"]
      by (simp add: SPLAY_INSERT_def xs set_left_def set_right_def)
  next
    case 3
    have fresh: "\<forall>x \<in> set xs. key x \<noteq> key e" using 3 lt by (auto simp: xs)
    then have e: "e \<notin> set xs" by auto
    have "insort_key key e ((inorder l @ [a]) @ inorder r) = (inorder l @ [a]) @ e # inorder r"
      by (rule insort_key_split) (use 3 lt in auto)
    then show ?thesis
      using ne h'(1) rs find 3 assms(1) e o fresh new [OF fresh, where t = "Node (Node l a Leaf) e r"]
      by (simp add: SPLAY_INSERT_def xs set_left_def set_right_def)
  qed
qed

lemma SPLAY_max_right_null:
  assumes "splay_rep key h xs" and "xs \<noteq> []" and "\<forall>x \<in> set xs. cmp e x > 0"
  shows "\<exists>h' l b. SPLAY cmp e h = Some h' \<and> sph_root h' = Some b \<and> inorder l @ [b] = xs \<and>
    tree_at (spe_left h') (spe_right h') (spe_left h' b) l \<and> same_off (insert node_addr (set xs)) h h'"
proof -
  have "splits (cmp e) xs" by (rule sorted_wrt_mono_rel [of _ "\<lambda>_ _. True"]) (use assms(3) in auto)
  then obtain h' l b r where h': "SPLAY cmp e h = Some h'" "root_splits (cmp e) h' l b r xs"
    "same_off (insert node_addr (set xs)) h h'"
    using SPLAY_root_splits [OF assms(1,2)] by blast
  moreover have "r = Leaf"
    using h'(2) assms(3) by (cases r) (force simp: root_splits_def)+
  ultimately show ?thesis by (auto simp: root_splits_def)
qed

lemma SPLAY_REMOVE_root:
  assumes "root_splits (cmp e) h l a r xs" and "ordered_by key xs" and "distinct (node_addr # xs)"
    and "spe_left h a \<noteq> None"
  shows "\<exists>h2 b. SPLAY cmp e (h\<lparr>sph_root := spe_left h a\<rparr>) = Some h2 \<and> sph_root h2 = Some b \<and>
    splay_rep key (set_right b (spe_right h a) h2) (inorder l @ inorder r)"
proof -
  note rs = assms(1) [unfolded root_splits_def]
  have "splay_rep key (h\<lparr>sph_root := spe_left h a\<rparr>) (inorder l)"
    using rs assms(2,3) by (auto simp: splay_rep_def sorted_wrt_append)
  moreover have "inorder l \<noteq> []" using rs assms(4) by (cases l) auto
  ultimately obtain h2 l' b where h2: "SPLAY cmp e (h\<lparr>sph_root := spe_left h a\<rparr>) = Some h2"
    "sph_root h2 = Some b" "inorder l' @ [b] = inorder l"
    "tree_at (spe_left h2) (spe_right h2) (spe_left h2 b) l'"
    "same_off (insert node_addr (set (inorder l))) (h\<lparr>sph_root := spe_left h a\<rparr>) h2"
    using SPLAY_max_right_null [of key "h\<lparr>sph_root := spe_left h a\<rparr>" "inorder l" cmp e] rs by auto
  have d: "distinct (node_addr # (inorder l' @ [b]) @ inorder r)" "b \<notin> set_tree r"
    using assms(3) rs by (auto simp: h2(3)) (metis Un_iff disjoint_iff h2(3) list.set_intros(1) set_append set_inorder)
  have "tree_at (spe_left h2) (spe_right h2) (spe_right h a) r"
    using same_off_tree_at [OF h2(5), of r "spe_right h a"] rs assms(3) by auto
  moreover have "b \<notin> set_tree l'" using d by simp
  ultimately have "tree_at (spe_left (set_right b (spe_right h a) h2)) (spe_right (set_right b (spe_right h a) h2))
      (sph_root (set_right b (spe_right h a) h2)) (Node l' b r)"
    using h2(2,4) d(2) by (simp add: set_right_def)
  then have "splay_rep key (set_right b (spe_right h a) h2) (inorder l @ inorder r)"
    by (rule splay_repI) (use assms(2,3) rs h2(3) in \<open>auto simp: sorted_wrt_append\<close>)
  then show ?thesis using h2(1,2) by blast
qed

lemma filter_key_mid:
  assumes "ordered_by key (ls @ a # rs)" and "key e = key a"
  shows "filter (\<lambda>x. key x \<noteq> key e) (ls @ a # rs) = ls @ rs"
proof -
  have "filter (\<lambda>x. key x \<noteq> key e) ls = ls" "filter (\<lambda>x. key x \<noteq> key e) rs = rs"
    using assms by (fastforce simp: sorted_wrt_append filter_id_conv)+
  then show ?thesis using assms(2) by simp
qed

lemma SPLAY_REMOVE_rep:
  assumes "cmp_agrees cmp key" and "splay_rep key h xs"
  shows "\<exists>h'. SPLAY_REMOVE cmp e h = Some (if \<exists>x \<in> set xs. key x = key e then Some e else None, h') \<and>
    splay_rep key h' (filter (\<lambda>x. key x \<noteq> key e) xs)"
proof (cases "xs = []")
  case True
  then show ?thesis using assms splay_rep_empty [OF assms(2)] by (simp add: SPLAY_REMOVE_def)
next
  case False
  note o = assms(2) [unfolded splay_rep_def]
  have ne: "\<not> SPLAY_EMPTY h" using splay_rep_empty [OF assms(2)] False by simp
  obtain h' l a r where h': "SPLAY cmp e h = Some h'" "root_splits (cmp e) h' l a r xs"
    using SPLAY_root_splits [OF assms(2) False] splits_cmp [OF assms(1)] o by blast
  note rs = h'(2) [unfolded root_splits_def] and lt = root_splits_lt [OF h'(2) assms(1)]
  have xs: "xs = inorder l @ a # inorder r" using rs by simp
  show ?thesis
  proof (cases "key e = key a")
    case False
    then have "\<not> (\<exists>x \<in> set xs. key x = key e)" using lt by (auto simp: xs)
    moreover from this have "filter (\<lambda>x. key x \<noteq> key e) xs = xs" by (auto simp: filter_id_conv)
    moreover have "splay_rep key h' xs" using root_splits_rep [OF h'(2), of key] o by simp
    ultimately show ?thesis using False ne h'(1) rs assms(1) by (simp add: SPLAY_REMOVE_def)
  next
    case True
    have fil: "filter (\<lambda>x. key x \<noteq> key e) xs = inorder l @ inorder r"
      unfolding xs by (rule filter_key_mid) (use o True in \<open>simp_all add: xs\<close>)
    have hit: "\<exists>x \<in> set xs. key x = key e" using True by (auto simp: xs)
    show ?thesis
    proof (cases "spe_left h' a = None")
      case None: True
      then have "splay_rep key (h'\<lparr>sph_root := spe_right h' a\<rparr>) (inorder l @ inorder r)"
        using rs o by (auto simp: splay_rep_def sorted_wrt_append)
      then show ?thesis using None True ne h'(1) rs assms(1) fil hit by (simp add: SPLAY_REMOVE_def)
    next
      case False
      then show ?thesis
        using SPLAY_REMOVE_root [of cmp e h' l a r xs key] h'(2) False o True ne h'(1) rs assms(1) fil hit
        by (auto simp: SPLAY_REMOVE_def)
    qed
  qed
qed

lemma leftmost_loop_hd:
  "tree_at (spe_left h) (spe_right h) (Some x) t \<Longrightarrow> leftmost_loop h x = Some (hd (inorder t))"
proof (induction t arbitrary: x)
  case (Node l a r)
  then show ?case by (cases l) (auto simp: leftmost_loop.simps [of h a] hd_append)
qed simp

abbreviation head_ptr :: "loc list \<Rightarrow> ptr" where
  "head_ptr xs \<equiv> (case xs of [] \<Rightarrow> None | x # _ \<Rightarrow> Some x)"

lemma SPLAY_NEXT_rep:
  assumes "cmp_agrees cmp key" and "splay_rep key h (ls @ e # rs)"
  shows "\<exists>h'. SPLAY_NEXT cmp e h = Some (head_ptr rs, h') \<and> splay_rep key h' (ls @ e # rs)"
proof -
  let ?xs = "ls @ e # rs"
  note o = assms(2) [unfolded splay_rep_def]
  obtain h' l a r where h': "SPLAY cmp e h = Some h'" "root_splits (cmp e) h' l a r ?xs"
    using SPLAY_root_splits [OF assms(2)] splits_cmp [OF assms(1)] o by blast
  note rs = h'(2) [unfolded root_splits_def] and lt = root_splits_lt [OF h'(2) assms(1)]
  have "e \<in> set (inorder l @ a # inorder r)" using rs by (metis in_set_conv_decomp)
  then have a: "a = e" using lt by auto
  moreover have "distinct ?xs" using o by simp
  ultimately have r: "inorder r = rs" using rs by (metis append_Cons_eq_iff distinct_append not_distinct_conv_prefix distinct.simps(2) disjoint_iff list.set_intros(1))
  have "splay_rep key h' ?xs" using root_splits_rep [OF h'(2), of key] o by simp
  moreover have "SPLAY_NEXT cmp e h = Some (head_ptr rs, h')"
  proof (cases "spe_right h' e")
    case None
    then show ?thesis using h'(1) rs a r by (auto simp: SPLAY_NEXT_def)
  next
    case (Some x)
    then have "tree_at (spe_left h') (spe_right h') (Some x) r" using rs a by simp
    moreover from this have "rs \<noteq> []" using r by (auto simp: tree_at_Some)
    ultimately show ?thesis
      using leftmost_loop_hd h'(1) Some r by (auto simp: SPLAY_NEXT_def split: list.split)
  qed
  ultimately show ?thesis by blast
qed

lemma SPLAY_MIN_rep:
  assumes "splay_rep key h xs"
  shows "\<exists>h'. SPLAY_MIN h = Some (head_ptr xs, h') \<and> splay_rep key h' xs"
proof (cases "xs = []")
  case True
  then show ?thesis using assms splay_rep_empty [OF assms] by (simp add: SPLAY_MIN_def)
next
  case False
  obtain h' l a r where h': "SPLAY_MINMAX (- 1) h = Some h'" "root_splits (\<lambda>_. - 1) h' l a r xs"
    using SPLAY_MINMAX_root_splits [OF assms False, of "- 1"] by auto
  moreover have "l = Leaf" using h'(2) by (cases l) (auto simp: root_splits_def)
  ultimately show ?thesis
    using root_splits_rep [OF h'(2), of key] assms splay_rep_empty [OF assms] False
    by (auto simp: SPLAY_MIN_def SPLAY_MIN_MAX_def root_splits_def splay_rep_def)
qed

lemma SPLAY_MAX_rep:
  assumes "splay_rep key h xs"
  shows "\<exists>h'. SPLAY_MAX h = Some (if xs = [] then None else Some (last xs), h') \<and> splay_rep key h' xs"
proof (cases "xs = []")
  case True
  then show ?thesis using assms splay_rep_empty [OF assms] by (simp add: SPLAY_MAX_def)
next
  case False
  obtain h' l a r where h': "SPLAY_MINMAX 1 h = Some h'" "root_splits (\<lambda>_. 1) h' l a r xs"
    using SPLAY_MINMAX_root_splits [OF assms False, of 1] by auto
  moreover have "r = Leaf" using h'(2) by (cases r) (auto simp: root_splits_def)
  ultimately show ?thesis
    using root_splits_rep [OF h'(2), of key] assms splay_rep_empty [OF assms] False
    by (auto simp: SPLAY_MAX_def SPLAY_MIN_MAX_def root_splits_def splay_rep_def)
qed

lemma foreach_loop_rep:
  assumes "cmp_agrees cmp key"
  shows "splay_rep key h (ls @ rs) \<Longrightarrow>
    \<exists>h'. foreach_loop cmp (head_ptr rs) h ls = Some (ls @ rs, h') \<and> splay_rep key h' (ls @ rs)"
proof (induction rs arbitrary: ls h)
  case Nil
  then show ?case by (subst foreach_loop.simps) simp
next
  case (Cons e rs)
  obtain h1 where h1: "SPLAY_NEXT cmp e h = Some (head_ptr rs, h1)" "splay_rep key h1 ((ls @ [e]) @ rs)"
    using SPLAY_NEXT_rep [OF assms Cons.prems] by auto
  then show ?case using Cons.IH [OF h1(2)] by (subst foreach_loop.simps) simp
qed

lemma SPLAY_INSERT_dup:
  assumes "cmp_agrees cmp key" and "splay_rep key h xs" and "x \<in> set xs" and "key x = key e"
  shows "\<exists>h'. SPLAY_INSERT cmp e h = Some (Some x, h') \<and> splay_rep key h' xs"
proof -
  note o = assms(2) [unfolded splay_rep_def]
  have ne: "xs \<noteq> []" "\<not> SPLAY_EMPTY h" using splay_rep_empty [OF assms(2)] assms(3) by auto
  obtain h' l a r where h': "SPLAY cmp e h = Some h'" "root_splits (cmp e) h' l a r xs"
    using SPLAY_root_splits [OF assms(2) ne(1)] splits_cmp [OF assms(1)] o by blast
  have "List.find (\<lambda>x. key x = key e) xs = Some x" by (rule find_key_in) (use o assms in auto)
  then have "a = x \<and> key e = key a" using root_splits_find [OF h'(2) assms(1)] by (simp split: if_split_asm)
  then show ?thesis
    using h' ne assms(1) root_splits_rep [OF h'(2), of key] o by (simp add: SPLAY_INSERT_def root_splits_def)
qed

lemma filter_key_remove1:
  assumes "ordered_by key xs" and "e \<in> set xs"
  shows "filter (\<lambda>x. key x \<noteq> key e) xs = remove1 e xs"
proof -
  obtain ls rs where xs: "xs = ls @ e # rs" "e \<notin> set ls" using split_list_first [OF assms(2)] by auto
  then show ?thesis using filter_key_mid [of key ls e rs e] assms(1) by (simp add: remove1_append)
qed

section \<open>Properties of the splay tree\<close>

text \<open>The operations have the laws of the ordered collection.\<close>

interpretation splay: ordered_elems splay_rep "\<lambda>e. e \<noteq> node_addr" SPLAY_INSERT SPLAY_REMOVE SPLAY_FIND
proof unfold_locales
  fix key :: "loc \<Rightarrow> 'a :: linorder" and s xs cmp e x
  show "splay_rep key s xs \<Longrightarrow> ordered_by key xs" by (simp add: splay_rep_def)
  show "\<exists>s'. SPLAY_INSERT cmp e s = Some (None, s') \<and> splay_rep key s' (insort_key key e xs)"
    if "cmp_agrees cmp key" "splay_rep key s xs" "e \<noteq> node_addr" "\<And>x. x \<in> set xs \<Longrightarrow> key x \<noteq> key e"
    using SPLAY_INSERT_rep [OF that(1-3)] find_key_None [of xs key "key e"] that(4) by fastforce
  show "\<exists>s'. SPLAY_FIND cmp e s = Some (List.find (\<lambda>x. key x = key e) xs, s') \<and> splay_rep key s' xs"
    if "cmp_agrees cmp key" "splay_rep key s xs"
    by (rule SPLAY_FIND_rep [OF that])
  show "\<exists>s'. SPLAY_INSERT cmp e s = Some (Some x, s') \<and> splay_rep key s' xs"
    if "cmp_agrees cmp key" "splay_rep key s xs" "x \<in> set xs" "key x = key e"
    by (rule SPLAY_INSERT_dup [OF that])
  show "\<exists>s'. SPLAY_REMOVE cmp e s = Some (Some e, s') \<and> splay_rep key s' (remove1 e xs)"
    if "cmp_agrees cmp key" "splay_rep key s xs" "e \<in> set xs"
    using SPLAY_REMOVE_rep [OF that(1,2), of e] that(3) filter_key_remove1 [OF _ that(3), of key] that(2)
    by (auto simp: splay_rep_def)
qed

text \<open>
  C23. \<open>SPLAY\<close> on a non-empty tree returns, builds exactly the tree of the top-down splay, keeps
  the in-order sequence, and changes no element outside the tree (but its own local node).
\<close>

theorem SPLAY_refines_splay_tree:
  assumes "tree_at (spe_left h) (spe_right h) (sph_root h) t" and "t \<noteq> Leaf"
    and "distinct (node_addr # inorder t)"
  shows "\<exists>h'. SPLAY cmp e h = Some h' \<and>
    tree_at (spe_left h') (spe_right h') (sph_root h') (splay_tree (cmp e) t) \<and>
    inorder (splay_tree (cmp e) t) = inorder t \<and>
    (\<forall>x. x \<notin> insert node_addr (set_tree t) \<longrightarrow> spe_left h' x = spe_left h x \<and> spe_right h' x = spe_right h x)"
proof -
  obtain t' xs ys where td: "td_splay (cmp e) t [] [] = (t', xs, ys)" by (metis prod_cases3)
  from td_splay_stop [OF td assms(2)] obtain l a r where "t' = Node l a r" by auto
  then have "inorder (splay_tree (cmp e) t) = inorder t"
    using td td_splay_inorder [OF td] by (simp add: splay_tree_def)
  then show ?thesis
    using SPLAY_splayed [OF assms, of cmp e] by (auto simp: splayed_def same_off_def)
qed

text \<open>
  \<open>SPLAY_INSERT\<close> returns the element with an equal key when there is one and leaves the
  collection as it was; otherwise it returns \<open>NULL\<close> and the element is in its place.
\<close>

theorem SPLAY_INSERT_ordered:
  assumes "cmp_agrees cmp key" and "splay_rep key h xs" and "e \<noteq> node_addr"
  shows "\<exists>h'. SPLAY_INSERT cmp e h = Some (List.find (\<lambda>x. key x = key e) xs, h') \<and>
    splay_rep key h' (if \<exists>x \<in> set xs. key x = key e then xs else insort_key key e xs)"
  by (rule SPLAY_INSERT_rep [OF assms])

text \<open>
  \<open>SPLAY_REMOVE\<close> unlinks the element whose key equals that of its argument, joining the two
  subtrees, and returns its argument (not the element it unlinked); without such an element it
  returns \<open>NULL\<close> and removes nothing.
\<close>

theorem SPLAY_REMOVE_ordered:
  assumes "cmp_agrees cmp key" and "splay_rep key h xs"
  shows "\<exists>h'. SPLAY_REMOVE cmp e h = Some (if \<exists>x \<in> set xs. key x = key e then Some e else None, h') \<and>
    splay_rep key h' (filter (\<lambda>x. key x \<noteq> key e) xs)"
  by (rule SPLAY_REMOVE_rep [OF assms])

text \<open>
  \<open>SPLAY_FOREACH\<close> ends and visits every element once, in the order of the keys, although
  each step rearranges the tree.
\<close>

theorem SPLAY_FOREACH_in_order:
  assumes "cmp_agrees cmp key" and "splay_rep key h xs"
  shows "\<exists>h'. SPLAY_FOREACH cmp h = Some (xs, h') \<and> splay_rep key h' xs"
  using SPLAY_MIN_rep [OF assms(2)] foreach_loop_rep [OF assms(1), of _ "[]" xs]
  by (auto simp: SPLAY_FOREACH_def)

lemma SPLAY_INIT_rep: "splay_rep key (SPLAY_INIT h) []"
  by (auto simp: splay_rep_def SPLAY_INIT_def intro!: exI [of _ Leaf])

text \<open>
  C34. Any sequence of insertions, lookups and removals of elements in the tree, from \<open>SPLAY_INIT\<close> on,
  returns the results it has on the sorted list of elements and ends in a tree of that list.
\<close>

theorem splay_run_refines:
  assumes "cmp_agrees cmp key" and "list_ops key ops [] = Some (rs, xs)" and "node_addr \<notin> inserts ops"
  shows "\<exists>h'. run_ops (SPLAY_INSERT cmp) (SPLAY_REMOVE cmp) (SPLAY_FIND cmp) ops (SPLAY_INIT h) = Some (rs, h') \<and>
    splay_rep key h' xs"
  by (rule splay.run_simulates [OF assms(1) SPLAY_INIT_rep assms(2)]) (use assms(3) in auto)

section \<open>A concrete tree\<close>

text \<open>Elements whose address is their key, and the tree with 2 above 1 and 3.\<close>

definition tree3 :: splay_heap where
  "tree3 = \<lparr>spe_left = (\<lambda>_. None)(2 := Some 1), spe_right = (\<lambda>_. None)(2 := Some 3), sph_root = Some 2\<rparr>"

lemma tree3_rep: "splay_rep (\<lambda>a. a) tree3 [1, 2, 3]"
  by (auto simp: splay_rep_def tree3_def node_addr_def intro!: exI [of _ "Node (Node Leaf 1 Leaf) 2 (Node Leaf 3 Leaf)"])

theorem SPLAY_refines_splay_tree_witness:
  "\<exists>h'. SPLAY cmp_nat 3 tree3 = Some h' \<and> sph_root h' = Some 3"
  using SPLAY_refines_splay_tree [of tree3 "Node (Node Leaf 1 Leaf) 2 (Node Leaf 3 Leaf)" cmp_nat 3]
  by (auto simp: tree3_def node_addr_def splay_tree_def)

theorem SPLAY_INSERT_ordered_witness:
  "\<exists>h'. SPLAY_INSERT cmp_nat 4 tree3 = Some (None, h') \<and> splay_rep (\<lambda>a. a) h' [1, 2, 3, 4]"
  using SPLAY_INSERT_ordered [OF cmp_nat_agrees tree3_rep, of 4] by (simp add: node_addr_def)

theorem SPLAY_REMOVE_ordered_witness:
  "\<exists>h'. SPLAY_REMOVE cmp_nat 2 tree3 = Some (Some 2, h') \<and> splay_rep (\<lambda>a. a) h' [1, 3]"
  using SPLAY_REMOVE_ordered [OF cmp_nat_agrees tree3_rep, of 2] by simp

theorem SPLAY_FOREACH_in_order_witness: "\<exists>h'. SPLAY_FOREACH cmp_nat tree3 = Some ([1, 2, 3], h')"
  using SPLAY_FOREACH_in_order [OF cmp_nat_agrees tree3_rep] by auto

theorem splay_run_refines_witness:
  "\<exists>h'. run_ops (SPLAY_INSERT cmp_nat) (SPLAY_REMOVE cmp_nat) (SPLAY_FIND cmp_nat)
     [Insert 2, Insert 1, Insert 4, Insert 1, Find 4, Remove 2, Find 2] (SPLAY_INIT tree3)
     = Some ([None, None, None, Some 1, Some 4, Some 2, None], h') \<and> splay_rep (\<lambda>a. a) h' [1, 4]"
  by (rule splay_run_refines [OF cmp_nat_agrees]) (simp_all add: node_addr_def)

end
