(* ===== verification/RBTree.thy ===== *)
theory RBTree
  imports OrderedElems "HOL-Library.Tree"
begin

text \<open>
  The red-black tree of \<open>uv/tree.h\<close> (\<open>RB_HEAD\<close> to \<open>RB_FOREACH_REVERSE_SAFE\<close>), on a heap of nodes with left, right and
  parent pointers and a colour. A run that would dereference \<open>NULL\<close>, and one that does not end, is
  \<open>None\<close>. \<open>RB_AUGMENT\<close> is the empty statement the header defines for it.
\<close>

section \<open>The heap\<close>

datatype rb_color = RB_BLACK | RB_RED

record rb_heap =
  rbe_left :: "loc \<Rightarrow> ptr"
  rbe_right :: "loc \<Rightarrow> ptr"
  rbe_parent :: "loc \<Rightarrow> ptr"
  rbe_color :: "loc \<Rightarrow> rb_color"
  rbh_root :: ptr

definition rb_set_left :: "loc \<Rightarrow> ptr \<Rightarrow> rb_heap \<Rightarrow> rb_heap" where
  "rb_set_left x v h = h\<lparr>rbe_left := (rbe_left h)(x := v)\<rparr>"

definition rb_set_right :: "loc \<Rightarrow> ptr \<Rightarrow> rb_heap \<Rightarrow> rb_heap" where
  "rb_set_right x v h = h\<lparr>rbe_right := (rbe_right h)(x := v)\<rparr>"

definition rb_set_parent :: "loc \<Rightarrow> ptr \<Rightarrow> rb_heap \<Rightarrow> rb_heap" where
  "rb_set_parent x v h = h\<lparr>rbe_parent := (rbe_parent h)(x := v)\<rparr>"

definition rb_set_color :: "loc \<Rightarrow> rb_color \<Rightarrow> rb_heap \<Rightarrow> rb_heap" where
  "rb_set_color x c h = h\<lparr>rbe_color := (rbe_color h)(x := c)\<rparr>"

text \<open>An assignment that the code guards with a test of the pointer.\<close>

definition if_elem :: "ptr \<Rightarrow> (loc \<Rightarrow> rb_heap \<Rightarrow> rb_heap) \<Rightarrow> rb_heap \<Rightarrow> rb_heap" where
  "if_elem p f h = (case p of None \<Rightarrow> h | Some x \<Rightarrow> f x h)"

definition RB_INIT :: "rb_heap \<Rightarrow> rb_heap" where "RB_INIT h = h\<lparr>rbh_root := None\<rparr>"
definition RB_EMPTY :: "rb_heap \<Rightarrow> bool" where "RB_EMPTY h = (rbh_root h = None)"

definition RB_SET :: "loc \<Rightarrow> ptr \<Rightarrow> rb_heap \<Rightarrow> rb_heap" where
  "RB_SET elm parent h =
     rb_set_color elm RB_RED (rb_set_left elm None (rb_set_right elm None (rb_set_parent elm parent h)))"

definition RB_SET_BLACKRED :: "loc \<Rightarrow> loc \<Rightarrow> rb_heap \<Rightarrow> rb_heap" where
  "RB_SET_BLACKRED black red h = rb_set_color red RB_RED (rb_set_color black RB_BLACK h)"

section \<open>Rotations\<close>

text \<open>
  \<open>relink parent old new\<close>: the assignment the code repeats to put \<open>new\<close> where \<open>old\<close> was, under
  \<open>parent\<close> or at the root.
\<close>

definition relink :: "ptr \<Rightarrow> loc \<Rightarrow> ptr \<Rightarrow> rb_heap \<Rightarrow> rb_heap" where
  "relink parent old new h =
     (case parent of
        Some p \<Rightarrow> if rbe_left h p = Some old then rb_set_left p new h else rb_set_right p new h
      | None \<Rightarrow> h\<lparr>rbh_root := new\<rparr>)"

text \<open>The macros assign the new top to \<open>tmp\<close>; no caller reads it afterwards.\<close>

definition RB_ROTATE_LEFT :: "loc \<Rightarrow> rb_heap \<Rightarrow> rb_heap option" where
  "RB_ROTATE_LEFT elm h = do {
     tmp \<leftarrow> rbe_right h elm;
     let h1 = rb_set_right elm (rbe_left h tmp) h;
     let h2 = if_elem (rbe_left h1 tmp) (\<lambda>x. rb_set_parent x (Some elm)) h1;
     let h3 = rb_set_parent tmp (rbe_parent h2 elm) h2;
     let h4 = relink (rbe_parent h3 elm) elm (Some tmp) h3;
     let h5 = rb_set_left tmp (Some elm) h4;
     Some (rb_set_parent elm (Some tmp) h5)
   }"

definition RB_ROTATE_RIGHT :: "loc \<Rightarrow> rb_heap \<Rightarrow> rb_heap option" where
  "RB_ROTATE_RIGHT elm h = do {
     tmp \<leftarrow> rbe_left h elm;
     let h1 = rb_set_left elm (rbe_right h tmp) h;
     let h2 = if_elem (rbe_right h1 tmp) (\<lambda>x. rb_set_parent x (Some elm)) h1;
     let h3 = rb_set_parent tmp (rbe_parent h2 elm) h2;
     let h4 = relink (rbe_parent h3 elm) elm (Some tmp) h3;
     let h5 = rb_set_right tmp (Some elm) h4;
     Some (rb_set_parent elm (Some tmp) h5)
   }"

section \<open>Insertion\<close>

definition is_red :: "rb_heap \<Rightarrow> ptr \<Rightarrow> bool" where
  "is_red h p = (case p of None \<Rightarrow> False | Some x \<Rightarrow> rbe_color h x = RB_RED)"

partial_function (option) insert_color_loop :: "loc \<Rightarrow> rb_heap \<Rightarrow> rb_heap option" where
  "insert_color_loop elm h =
     (case rbe_parent h elm of
        None \<Rightarrow> Some h
      | Some parent \<Rightarrow>
          if rbe_color h parent \<noteq> RB_RED then Some h
          else do {
            gparent \<leftarrow> rbe_parent h parent;
            if rbe_left h gparent = Some parent then do {
              let tmp = rbe_right h gparent;
              if is_red h tmp
              then insert_color_loop gparent (RB_SET_BLACKRED parent gparent (if_elem tmp (\<lambda>x. rb_set_color x RB_BLACK) h))
              else do {
                (parent1, elm1, h1) \<leftarrow>
                  (if rbe_right h parent = Some elm
                   then do { h1 \<leftarrow> RB_ROTATE_LEFT parent h; Some (elm, parent, h1) }
                   else Some (parent, elm, h));
                h2 \<leftarrow> RB_ROTATE_RIGHT gparent (RB_SET_BLACKRED parent1 gparent h1);
                insert_color_loop elm1 h2
              }
            } else do {
              let tmp = rbe_left h gparent;
              if is_red h tmp
              then insert_color_loop gparent (RB_SET_BLACKRED parent gparent (if_elem tmp (\<lambda>x. rb_set_color x RB_BLACK) h))
              else do {
                (parent1, elm1, h1) \<leftarrow>
                  (if rbe_left h parent = Some elm
                   then do { h1 \<leftarrow> RB_ROTATE_RIGHT parent h; Some (elm, parent, h1) }
                   else Some (parent, elm, h));
                h2 \<leftarrow> RB_ROTATE_LEFT gparent (RB_SET_BLACKRED parent1 gparent h1);
                insert_color_loop elm1 h2
              }
            }
          })"

definition RB_INSERT_COLOR :: "loc \<Rightarrow> rb_heap \<Rightarrow> rb_heap option" where
  "RB_INSERT_COLOR elm h = do {
     h1 \<leftarrow> insert_color_loop elm h;
     root \<leftarrow> rbh_root h1;
     Some (rb_set_color root RB_BLACK h1)
   }"

text \<open>The search loop of \<open>RB_INSERT\<close>: an element with the same key, or the parent and the last comparison.\<close>

partial_function (option) insert_loop ::
  "(loc \<Rightarrow> loc \<Rightarrow> int) \<Rightarrow> loc \<Rightarrow> ptr \<Rightarrow> ptr \<Rightarrow> int \<Rightarrow> rb_heap \<Rightarrow> (loc + ptr \<times> int) option" where
  "insert_loop cmp elm tmp parent comp' h =
     (case tmp of
        None \<Rightarrow> Some (Inr (parent, comp'))
      | Some t \<Rightarrow>
          let comp1 = cmp elm t
          in if comp1 < 0 then insert_loop cmp elm (rbe_left h t) (Some t) comp1 h
             else if comp1 > 0 then insert_loop cmp elm (rbe_right h t) (Some t) comp1 h
             else Some (Inl t))"

definition RB_INSERT :: "(loc \<Rightarrow> loc \<Rightarrow> int) \<Rightarrow> loc \<Rightarrow> rb_heap \<Rightarrow> (ptr \<times> rb_heap) option" where
  "RB_INSERT cmp elm h = do {
     found \<leftarrow> insert_loop cmp elm (rbh_root h) None 0 h;
     case found of
       Inl tmp \<Rightarrow> Some (Some tmp, h)
     | Inr (parent, comp') \<Rightarrow> do {
         let h1 = RB_SET elm parent h;
         let h2 = (case parent of
                     Some p \<Rightarrow> if comp' < 0 then rb_set_left p (Some elm) h1 else rb_set_right p (Some elm) h1
                   | None \<Rightarrow> h1\<lparr>rbh_root := Some elm\<rparr>);
         h3 \<leftarrow> RB_INSERT_COLOR elm h2;
         Some (None, h3)
       }
   }"

section \<open>Removal\<close>

definition is_black :: "rb_heap \<Rightarrow> ptr \<Rightarrow> bool" where
  "is_black h p = (case p of None \<Rightarrow> True | Some x \<Rightarrow> rbe_color h x = RB_BLACK)"

text \<open>
  The two branches of the loop of \<open>RB_REMOVE_COLOR\<close>. The result is either \<open>elm\<close> after a \<open>break\<close>, or the new
  \<open>parent\<close> and \<open>elm\<close> for the next turn.
\<close>

type_synonym remove_turn = "(ptr + ptr \<times> ptr) \<times> rb_heap"

definition remove_color_left :: "loc \<Rightarrow> rb_heap \<Rightarrow> remove_turn option" where
  "remove_color_left parent h = do {
     tmp0 \<leftarrow> rbe_right h parent;
     (tmp1, h1) \<leftarrow>
       (if rbe_color h tmp0 = RB_RED then do {
          h1 \<leftarrow> RB_ROTATE_LEFT parent (RB_SET_BLACKRED tmp0 parent h);
          Some (rbe_right h1 parent, h1)
        } else Some (Some tmp0, h));
     tmp \<leftarrow> tmp1;
     if is_black h1 (rbe_left h1 tmp) \<and> is_black h1 (rbe_right h1 tmp)
     then let h2 = rb_set_color tmp RB_RED h1 in Some (Inr (rbe_parent h2 parent, Some parent), h2)
     else do {
       (tmp2, h2) \<leftarrow>
         (if is_black h1 (rbe_right h1 tmp) then do {
            let ha = if_elem (rbe_left h1 tmp) (\<lambda>oleft. rb_set_color oleft RB_BLACK) h1;
            hb \<leftarrow> RB_ROTATE_RIGHT tmp (rb_set_color tmp RB_RED ha);
            Some (rbe_right hb parent, hb)
          } else Some (Some tmp, h1));
       tmp' \<leftarrow> tmp2;
       let h3 = rb_set_color parent RB_BLACK (rb_set_color tmp' (rbe_color h2 parent) h2);
       let h4 = if_elem (rbe_right h3 tmp') (\<lambda>x. rb_set_color x RB_BLACK) h3;
       h5 \<leftarrow> RB_ROTATE_LEFT parent h4;
       Some (Inl (rbh_root h5), h5)
     }
   }"

definition remove_color_right :: "loc \<Rightarrow> rb_heap \<Rightarrow> remove_turn option" where
  "remove_color_right parent h = do {
     tmp0 \<leftarrow> rbe_left h parent;
     (tmp1, h1) \<leftarrow>
       (if rbe_color h tmp0 = RB_RED then do {
          h1 \<leftarrow> RB_ROTATE_RIGHT parent (RB_SET_BLACKRED tmp0 parent h);
          Some (rbe_left h1 parent, h1)
        } else Some (Some tmp0, h));
     tmp \<leftarrow> tmp1;
     if is_black h1 (rbe_left h1 tmp) \<and> is_black h1 (rbe_right h1 tmp)
     then let h2 = rb_set_color tmp RB_RED h1 in Some (Inr (rbe_parent h2 parent, Some parent), h2)
     else do {
       (tmp2, h2) \<leftarrow>
         (if is_black h1 (rbe_left h1 tmp) then do {
            let ha = if_elem (rbe_right h1 tmp) (\<lambda>oright. rb_set_color oright RB_BLACK) h1;
            hb \<leftarrow> RB_ROTATE_LEFT tmp (rb_set_color tmp RB_RED ha);
            Some (rbe_left hb parent, hb)
          } else Some (Some tmp, h1));
       tmp' \<leftarrow> tmp2;
       let h3 = rb_set_color parent RB_BLACK (rb_set_color tmp' (rbe_color h2 parent) h2);
       let h4 = if_elem (rbe_left h3 tmp') (\<lambda>x. rb_set_color x RB_BLACK) h3;
       h5 \<leftarrow> RB_ROTATE_RIGHT parent h4;
       Some (Inl (rbh_root h5), h5)
     }
   }"

partial_function (option) remove_color_loop :: "ptr \<Rightarrow> ptr \<Rightarrow> rb_heap \<Rightarrow> (ptr \<times> rb_heap) option" where
  "remove_color_loop parent elm h =
     (if is_black h elm \<and> elm \<noteq> rbh_root h then do {
        p \<leftarrow> parent;
        (turn, h1) \<leftarrow> (if rbe_left h p = elm then remove_color_left p h else remove_color_right p h);
        case turn of
          Inl elm1 \<Rightarrow> Some (elm1, h1)
        | Inr (parent1, elm1) \<Rightarrow> remove_color_loop parent1 elm1 h1
      } else Some (elm, h))"

definition RB_REMOVE_COLOR :: "ptr \<Rightarrow> ptr \<Rightarrow> rb_heap \<Rightarrow> rb_heap option" where
  "RB_REMOVE_COLOR parent elm h = do {
     (elm1, h1) \<leftarrow> remove_color_loop parent elm h;
     Some (if_elem elm1 (\<lambda>x. rb_set_color x RB_BLACK) h1)
   }"

partial_function (option) rb_leftmost :: "loc \<Rightarrow> rb_heap \<Rightarrow> loc option" where
  "rb_leftmost elm h = (case rbe_left h elm of None \<Rightarrow> Some elm | Some left' \<Rightarrow> rb_leftmost left' h)"

partial_function (option) rb_rightmost :: "loc \<Rightarrow> rb_heap \<Rightarrow> loc option" where
  "rb_rightmost elm h = (case rbe_right h elm of None \<Rightarrow> Some elm | Some right' \<Rightarrow> rb_rightmost right' h)"

text \<open>The walk to the root that applies \<open>RB_AUGMENT\<close> to every ancestor: it changes nothing but has to end.\<close>

partial_function (option) augment_loop :: "loc \<Rightarrow> rb_heap \<Rightarrow> rb_heap option" where
  "augment_loop x h = (case rbe_parent h x of None \<Rightarrow> Some h | Some y \<Rightarrow> augment_loop y h)"

text \<open>\<open>(elm)->field = (old)->field\<close>\<close>

definition copy_entry :: "loc \<Rightarrow> loc \<Rightarrow> rb_heap \<Rightarrow> rb_heap" where
  "copy_entry elm old h =
     rb_set_color elm (rbe_color h old) (rb_set_parent elm (rbe_parent h old)
       (rb_set_right elm (rbe_right h old) (rb_set_left elm (rbe_left h old) h)))"

text \<open>The case of two children: the colour of the removed place, its parent and its child.\<close>

definition remove_inner :: "loc \<Rightarrow> rb_heap \<Rightarrow> (rb_color \<times> ptr \<times> ptr \<times> rb_heap) option" where
  "remove_inner old h = do {
     r \<leftarrow> rbe_right h old;
     elm \<leftarrow> rb_leftmost r h;
     let child = rbe_right h elm;
     let parent = rbe_parent h elm;
     let color = rbe_color h elm;
     let h1 = if_elem child (\<lambda>x. rb_set_parent x parent) h;
     let h2 = relink parent elm child h1;
     let parent1 = (if rbe_parent h2 elm = Some old then Some elm else parent);
     let h3 = copy_entry elm old h2;
     let h4 = relink (rbe_parent h3 old) old (Some elm) h3;
     l \<leftarrow> rbe_left h4 old;
     let h5 = rb_set_parent l (Some elm) h4;
     let h6 = if_elem (rbe_right h5 old) (\<lambda>x. rb_set_parent x (Some elm)) h5;
     h7 \<leftarrow> (case parent1 of None \<Rightarrow> Some h6 | Some q \<Rightarrow> augment_loop q h6);
     Some (color, parent1, child, h7)
   }"

text \<open>The case of at most one child.\<close>

definition remove_outer :: "loc \<Rightarrow> ptr \<Rightarrow> rb_heap \<Rightarrow> rb_color \<times> ptr \<times> ptr \<times> rb_heap" where
  "remove_outer elm child h =
     (let parent = rbe_parent h elm;
          color = rbe_color h elm;
          h1 = if_elem child (\<lambda>x. rb_set_parent x parent) h
      in (color, parent, child, relink parent elm child h1))"

definition RB_REMOVE :: "loc \<Rightarrow> rb_heap \<Rightarrow> (loc \<times> rb_heap) option" where
  "RB_REMOVE elm h = do {
     (color, parent, child, h1) \<leftarrow>
       (if rbe_left h elm = None then Some (remove_outer elm (rbe_right h elm) h)
        else if rbe_right h elm = None then Some (remove_outer elm (rbe_left h elm) h)
        else remove_inner elm h);
     h2 \<leftarrow> (if color = RB_BLACK then RB_REMOVE_COLOR parent child h1 else Some h1);
     Some (elm, h2)
   }"

section \<open>Search and traversal\<close>

partial_function (option) rb_find_loop :: "(loc \<Rightarrow> loc \<Rightarrow> int) \<Rightarrow> loc \<Rightarrow> ptr \<Rightarrow> rb_heap \<Rightarrow> ptr option" where
  "rb_find_loop cmp elm tmp h =
     (case tmp of
        None \<Rightarrow> Some None
      | Some t \<Rightarrow>
          let comp' = cmp elm t
          in if comp' < 0 then rb_find_loop cmp elm (rbe_left h t) h
             else if comp' > 0 then rb_find_loop cmp elm (rbe_right h t) h
             else Some (Some t))"

definition RB_FIND :: "(loc \<Rightarrow> loc \<Rightarrow> int) \<Rightarrow> loc \<Rightarrow> rb_heap \<Rightarrow> ptr option" where
  "RB_FIND cmp elm h = rb_find_loop cmp elm (rbh_root h) h"

partial_function (option) rb_nfind_loop :: "(loc \<Rightarrow> loc \<Rightarrow> int) \<Rightarrow> loc \<Rightarrow> ptr \<Rightarrow> ptr \<Rightarrow> rb_heap \<Rightarrow> ptr option" where
  "rb_nfind_loop cmp elm tmp res h =
     (case tmp of
        None \<Rightarrow> Some res
      | Some t \<Rightarrow>
          let comp' = cmp elm t
          in if comp' < 0 then rb_nfind_loop cmp elm (rbe_left h t) (Some t) h
             else if comp' > 0 then rb_nfind_loop cmp elm (rbe_right h t) res h
             else Some (Some t))"

definition RB_NFIND :: "(loc \<Rightarrow> loc \<Rightarrow> int) \<Rightarrow> loc \<Rightarrow> rb_heap \<Rightarrow> ptr option" where
  "RB_NFIND cmp elm h = rb_nfind_loop cmp elm (rbh_root h) None h"

text \<open>The loops of \<open>RB_NEXT\<close> and \<open>RB_PREV\<close> that climb while the element is a right (left) child.\<close>

partial_function (option) climb_right :: "loc \<Rightarrow> rb_heap \<Rightarrow> loc option" where
  "climb_right elm h =
     (case rbe_parent h elm of
        None \<Rightarrow> Some elm
      | Some p \<Rightarrow> if rbe_right h p = Some elm then climb_right p h else Some elm)"

partial_function (option) climb_left :: "loc \<Rightarrow> rb_heap \<Rightarrow> loc option" where
  "climb_left elm h =
     (case rbe_parent h elm of
        None \<Rightarrow> Some elm
      | Some p \<Rightarrow> if rbe_left h p = Some elm then climb_left p h else Some elm)"

definition RB_NEXT :: "loc \<Rightarrow> rb_heap \<Rightarrow> ptr option" where
  "RB_NEXT elm h =
     (case rbe_right h elm of
        Some r \<Rightarrow> do { x \<leftarrow> rb_leftmost r h; Some (Some x) }
      | None \<Rightarrow>
          if (case rbe_parent h elm of None \<Rightarrow> False | Some p \<Rightarrow> rbe_left h p = Some elm)
          then Some (rbe_parent h elm)
          else do { x \<leftarrow> climb_right elm h; Some (rbe_parent h x) })"

definition RB_PREV :: "loc \<Rightarrow> rb_heap \<Rightarrow> ptr option" where
  "RB_PREV elm h =
     (case rbe_left h elm of
        Some l \<Rightarrow> do { x \<leftarrow> rb_rightmost l h; Some (Some x) }
      | None \<Rightarrow>
          if (case rbe_parent h elm of None \<Rightarrow> False | Some p \<Rightarrow> rbe_right h p = Some elm)
          then Some (rbe_parent h elm)
          else do { x \<leftarrow> climb_left elm h; Some (rbe_parent h x) })"

partial_function (option) rb_minmax_loop :: "int \<Rightarrow> ptr \<Rightarrow> ptr \<Rightarrow> rb_heap \<Rightarrow> ptr option" where
  "rb_minmax_loop val tmp parent h =
     (case tmp of
        None \<Rightarrow> Some parent
      | Some t \<Rightarrow> rb_minmax_loop val (if val < 0 then rbe_left h t else rbe_right h t) (Some t) h)"

definition RB_MINMAX :: "int \<Rightarrow> rb_heap \<Rightarrow> ptr option" where
  "RB_MINMAX val h = rb_minmax_loop val (rbh_root h) None h"

definition RB_MIN :: "rb_heap \<Rightarrow> ptr option" where "RB_MIN h = RB_MINMAX (-1) h"
definition RB_MAX :: "rb_heap \<Rightarrow> ptr option" where "RB_MAX h = RB_MINMAX 1 h"

text \<open>
  The iterations over a body that transforms the heap and a state of its own. \<open>RB_FOREACH\<close> asks for
  the next element after the body has run, \<open>RB_FOREACH_SAFE\<close> before.
\<close>

type_synonym 's rb_body = "loc \<Rightarrow> 's \<times> rb_heap \<Rightarrow> ('s \<times> rb_heap) option"

partial_function (option) rb_foreach_loop ::
  "(loc \<Rightarrow> rb_heap \<Rightarrow> ptr option) \<Rightarrow> 's rb_body \<Rightarrow> ptr \<Rightarrow> 's \<times> rb_heap \<Rightarrow> ('s \<times> rb_heap) option" where
  "rb_foreach_loop next' body x s =
     (case x of
        None \<Rightarrow> Some s
      | Some e \<Rightarrow> do { s1 \<leftarrow> body e s; y \<leftarrow> next' e (snd s1); rb_foreach_loop next' body y s1 })"

partial_function (option) rb_foreach_safe_loop ::
  "(loc \<Rightarrow> rb_heap \<Rightarrow> ptr option) \<Rightarrow> 's rb_body \<Rightarrow> ptr \<Rightarrow> 's \<times> rb_heap \<Rightarrow> ('s \<times> rb_heap) option" where
  "rb_foreach_safe_loop next' body x s =
     (case x of
        None \<Rightarrow> Some s
      | Some e \<Rightarrow> do { y \<leftarrow> next' e (snd s); s1 \<leftarrow> body e s; rb_foreach_safe_loop next' body y s1 })"

definition RB_FOREACH :: "'s rb_body \<Rightarrow> 's \<times> rb_heap \<Rightarrow> ('s \<times> rb_heap) option" where
  "RB_FOREACH body s = do { x \<leftarrow> RB_MIN (snd s); rb_foreach_loop RB_NEXT body x s }"

definition RB_FOREACH_REVERSE :: "'s rb_body \<Rightarrow> 's \<times> rb_heap \<Rightarrow> ('s \<times> rb_heap) option" where
  "RB_FOREACH_REVERSE body s = do { x \<leftarrow> RB_MAX (snd s); rb_foreach_loop RB_PREV body x s }"

definition RB_FOREACH_SAFE :: "'s rb_body \<Rightarrow> 's \<times> rb_heap \<Rightarrow> ('s \<times> rb_heap) option" where
  "RB_FOREACH_SAFE body s = do { x \<leftarrow> RB_MIN (snd s); rb_foreach_safe_loop RB_NEXT body x s }"

definition RB_FOREACH_REVERSE_SAFE :: "'s rb_body \<Rightarrow> 's \<times> rb_heap \<Rightarrow> ('s \<times> rb_heap) option" where
  "RB_FOREACH_REVERSE_SAFE body s = do { x \<leftarrow> RB_MAX (snd s); rb_foreach_safe_loop RB_PREV body x s }"

definition RB_FOREACH_FROM :: "'s rb_body \<Rightarrow> ptr \<Rightarrow> 's \<times> rb_heap \<Rightarrow> ('s \<times> rb_heap) option" where
  "RB_FOREACH_FROM body y s = rb_foreach_safe_loop RB_NEXT body y s"

definition RB_FOREACH_REVERSE_FROM :: "'s rb_body \<Rightarrow> ptr \<Rightarrow> 's \<times> rb_heap \<Rightarrow> ('s \<times> rb_heap) option" where
  "RB_FOREACH_REVERSE_FROM body y s = rb_foreach_safe_loop RB_PREV body y s"

end
