(* ===== verification/RBRep.thy ===== *)
theory RBRep
  imports RBTree
begin

text \<open>
  Representation of trees in the heap of \<open>RBTree\<close>. \<open>rb_rep h t\<close>: the root pointer leads to the tree \<open>t\<close>
  of addresses and colours, with consistent parent pointers. Positions inside a tree are
  contexts (the frames from a subtree up to the root); \<open>plug cs t\<close> is the whole tree. Every macro
  that works around an element is described by what it does to the subtree in a context.
  The two mirror images of the code are treated together, by a direction.
\<close>

section \<open>Directions\<close>

datatype dir = LFT | RGT

fun opp :: "dir \<Rightarrow> dir" where
  "opp LFT = RGT"
| "opp RGT = LFT"

lemma opp_opp [simp]: "opp (opp d) = d" and opp_neq [simp]: "opp d \<noteq> d" "d \<noteq> opp d"
  by (cases d; simp)+

fun child :: "dir \<Rightarrow> rb_heap \<Rightarrow> loc \<Rightarrow> ptr" where
  "child LFT h = rbe_left h"
| "child RGT h = rbe_right h"

fun set_child :: "dir \<Rightarrow> loc \<Rightarrow> ptr \<Rightarrow> rb_heap \<Rightarrow> rb_heap" where
  "set_child LFT = rb_set_left"
| "set_child RGT = rb_set_right"

definition rb_rotate :: "dir \<Rightarrow> loc \<Rightarrow> rb_heap \<Rightarrow> rb_heap option" where
  "rb_rotate d elm h = do {
     tmp \<leftarrow> child (opp d) h elm;
     let h1 = set_child (opp d) elm (child d h tmp) h;
     let h2 = if_elem (child d h1 tmp) (\<lambda>x. rb_set_parent x (Some elm)) h1;
     let h3 = rb_set_parent tmp (rbe_parent h2 elm) h2;
     let h4 = relink (rbe_parent h3 elm) elm (Some tmp) h3;
     let h5 = set_child d tmp (Some elm) h4;
     Some (rb_set_parent elm (Some tmp) h5)
   }"

lemma RB_ROTATE_rotate: "RB_ROTATE_LEFT = rb_rotate LFT" "RB_ROTATE_RIGHT = rb_rotate RGT"
  by (simp_all add: fun_eq_iff RB_ROTATE_LEFT_def RB_ROTATE_RIGHT_def rb_rotate_def)

lemma child_set_child [simp]:
  "child d (set_child d' y v h) x = (if d = d' \<and> x = y then v else child d h x)"
  "child d (rb_set_parent y v h) x = child d h x" "child d (rb_set_color y k h) x = child d h x"
  "child d (h\<lparr>rbh_root := q\<rparr>) x = child d h x"
  by (cases d; cases d'; simp add: rb_set_left_def rb_set_right_def rb_set_parent_def rb_set_color_def)+

lemma parent_color_upd [simp]:
  "rbe_parent (set_child d y v h) x = rbe_parent h x" "rbe_color (set_child d y v h) x = rbe_color h x"
  "rbh_root (set_child d y v h) = rbh_root h"
  "rbe_parent (rb_set_parent y v h) x = (if x = y then v else rbe_parent h x)" "rbe_color (rb_set_parent y v h) x = rbe_color h x"
  "rbh_root (rb_set_parent y v h) = rbh_root h"
  "rbe_parent (rb_set_color y k h) x = rbe_parent h x" "rbe_color (rb_set_color y k h) x = (if x = y then k else rbe_color h x)"
  "rbh_root (rb_set_color y k h) = rbh_root h"
  by (cases d; simp add: rb_set_left_def rb_set_right_def rb_set_parent_def rb_set_color_def)+

lemma if_elem_simps [simp]: "if_elem None f h = h" "if_elem (Some x) f h = f x h"
  by (simp_all add: if_elem_def)

lemma if_elem_fields [simp]:
  "child d (if_elem p (\<lambda>x. rb_set_parent x v) h) z = child d h z"
  "rbe_parent (if_elem p (\<lambda>x. rb_set_parent x v) h) z = (if p = Some z then v else rbe_parent h z)"
  "rbe_color (if_elem p (\<lambda>x. rb_set_parent x v) h) z = rbe_color h z"
  "rbh_root (if_elem p (\<lambda>x. rb_set_parent x v) h) = rbh_root h"
  by (cases p; simp)+

section \<open>Trees and contexts\<close>

type_synonym rbt = "(loc \<times> rb_color) tree"
type_synonym frame = "dir \<times> loc \<times> rb_color \<times> rbt"

definition dnode :: "dir \<Rightarrow> rbt \<Rightarrow> loc \<times> rb_color \<Rightarrow> rbt \<Rightarrow> rbt" where
  "dnode d a x b = (if d = LFT then Node a x b else Node b x a)"

fun plug :: "frame list \<Rightarrow> rbt \<Rightarrow> rbt" where
  "plug [] t = t"
| "plug ((d, x, c, s) # cs) t = plug cs (dnode d t (x, c) s)"

fun top_ptr :: "frame list \<Rightarrow> ptr" where
  "top_ptr [] = None"
| "top_ptr ((d, x, c, s) # cs) = Some x"

fun root_ptr :: "rbt \<Rightarrow> ptr" where
  "root_ptr Leaf = None"
| "root_ptr (Node l (x, c) r) = Some x"

definition addrs :: "rbt \<Rightarrow> loc set" where "addrs t = fst ` set_tree t"

fun ctx_addrs :: "frame list \<Rightarrow> loc set" where
  "ctx_addrs [] = {}"
| "ctx_addrs ((d, x, c, s) # cs) = insert x (addrs s \<union> ctx_addrs cs)"

fun dist :: "rbt \<Rightarrow> bool" where
  "dist Leaf = True"
| "dist (Node l (x, c) r) \<longleftrightarrow> x \<notin> addrs l \<and> x \<notin> addrs r \<and> addrs l \<inter> addrs r = {} \<and> dist l \<and> dist r"

fun ctx_dist :: "frame list \<Rightarrow> bool" where
  "ctx_dist [] = True"
| "ctx_dist ((d, x, c, s) # cs) \<longleftrightarrow>
     x \<notin> addrs s \<and> x \<notin> ctx_addrs cs \<and> addrs s \<inter> ctx_addrs cs = {} \<and> dist s \<and> ctx_dist cs"

fun rb_at :: "rb_heap \<Rightarrow> ptr \<Rightarrow> ptr \<Rightarrow> rbt \<Rightarrow> bool" where
  "rb_at h p par Leaf \<longleftrightarrow> p = None"
| "rb_at h p par (Node l (x, c) r) \<longleftrightarrow> p = Some x \<and> rbe_parent h x = par \<and> rbe_color h x = c \<and>
     rb_at h (rbe_left h x) (Some x) l \<and> rb_at h (rbe_right h x) (Some x) r"

fun ctx_at :: "rb_heap \<Rightarrow> frame list \<Rightarrow> ptr \<Rightarrow> bool" where
  "ctx_at h [] p \<longleftrightarrow> rbh_root h = p"
| "ctx_at h ((d, x, c, s) # cs) p \<longleftrightarrow> rbe_parent h x = top_ptr cs \<and> rbe_color h x = c \<and> child d h x = p \<and>
     rb_at h (child (opp d) h x) (Some x) s \<and> ctx_at h cs (Some x)"

definition rb_rep :: "rb_heap \<Rightarrow> rbt \<Rightarrow> bool" where
  "rb_rep h t \<longleftrightarrow> rb_at h (rbh_root h) None t \<and> dist t"

lemma dnode_simps [simp]:
  "addrs (dnode d a (x, c) b) = insert x (addrs a \<union> addrs b)"
  "dist (dnode d a (x, c) b) \<longleftrightarrow> x \<notin> addrs a \<and> x \<notin> addrs b \<and> addrs a \<inter> addrs b = {} \<and> dist a \<and> dist b"
  "rb_at h p par (dnode d a (x, c) b) \<longleftrightarrow> p = Some x \<and> rbe_parent h x = par \<and> rbe_color h x = c \<and>
     rb_at h (child d h x) (Some x) a \<and> rb_at h (child (opp d) h x) (Some x) b"
  "root_ptr (dnode d a (x, c) b) = Some x"
  "dnode d a y b \<noteq> Leaf" "Leaf \<noteq> dnode d a y b"
  by (cases d; auto simp: dnode_def addrs_def)+

lemma dnode_opp: "dnode (opp d) a x b = dnode d b x a"
  by (cases d) (simp_all add: dnode_def)

lemma dnode_cases: "t = Leaf \<or> (\<exists>a x c b. t = dnode d a (x, c) b)"
  by (cases t rule: root_ptr.cases; cases d) (auto simp: dnode_def)

lemma addrs_simps [simp]: "addrs Leaf = {}" "addrs (Node l (x, c) r) = insert x (addrs l \<union> addrs r)"
  by (auto simp: addrs_def)

lemma rb_at_root: "rb_at h p par t \<Longrightarrow> p = root_ptr t"
  by (cases t) auto

lemma rb_at_root_iff: "rb_at h p par t \<longleftrightarrow> p = root_ptr t \<and> rb_at h (root_ptr t) par t"
  by (cases t) auto

lemma root_ptr_None [simp]: "root_ptr t = None \<longleftrightarrow> t = Leaf"
  by (cases t) auto

lemma root_ptr_addrs: "root_ptr t = Some x \<Longrightarrow> x \<in> addrs t"
  by (cases t) auto

lemma root_ptr_Some: "root_ptr t = Some x \<longleftrightarrow> (\<exists>l c r. t = Node l (x, c) r)"
  by (cases t) auto

lemma dist_plug [simp]: "dist (plug cs t) \<longleftrightarrow> dist t \<and> ctx_dist cs \<and> addrs t \<inter> ctx_addrs cs = {}"
  by (induction cs t rule: plug.induct) auto

lemma addrs_plug [simp]: "addrs (plug cs t) = addrs t \<union> ctx_addrs cs"
  by (induction cs t rule: plug.induct) auto

lemma rb_at_plug: "rb_at h (rbh_root h) None (plug cs t) \<longleftrightarrow> ctx_at h cs (root_ptr t) \<and> rb_at h (root_ptr t) (top_ptr cs) t"
proof (induction cs t rule: plug.induct)
  case (1 t)
  show ?case using rb_at_root_iff [of h "rbh_root h" None t] by auto
next
  case (2 d x c s cs t)
  show ?case using rb_at_root_iff [of h "child d h x" "Some x" t] by (simp add: 2) metis
qed

lemma rb_rep_plug: "rb_rep h (plug cs t) \<longleftrightarrow>
  ctx_at h cs (root_ptr t) \<and> rb_at h (root_ptr t) (top_ptr cs) t \<and> dist t \<and> ctx_dist cs \<and> addrs t \<inter> ctx_addrs cs = {}"
  by (simp add: rb_rep_def rb_at_plug)

section \<open>What updates leave alone\<close>

definition agree :: "rb_heap \<Rightarrow> rb_heap \<Rightarrow> loc set \<Rightarrow> bool" where
  "agree h h' S \<longleftrightarrow> (\<forall>x \<in> S. rbe_left h' x = rbe_left h x \<and> rbe_right h' x = rbe_right h x \<and>
     rbe_parent h' x = rbe_parent h x \<and> rbe_color h' x = rbe_color h x)"

lemma agree_refl [simp]: "agree h h S"
  by (simp add: agree_def)

lemma agree_trans: "agree h h' S \<Longrightarrow> agree h' h'' S \<Longrightarrow> agree h h'' S"
  by (simp add: agree_def)

lemma agree_upd [simp]:
  "y \<notin> S \<Longrightarrow> agree h (set_child d y v h') S = agree h h' S"
  "y \<notin> S \<Longrightarrow> agree h (rb_set_parent y v h') S = agree h h' S"
  "y \<notin> S \<Longrightarrow> agree h (rb_set_color y k h') S = agree h h' S"
  "agree h (h'\<lparr>rbh_root := q\<rparr>) S = agree h h' S"
  by (cases d; auto simp: agree_def rb_set_left_def rb_set_right_def rb_set_parent_def rb_set_color_def)+

lemma agree_if_elem [simp]: "(\<And>x. p = Some x \<Longrightarrow> x \<notin> S) \<Longrightarrow> agree h (if_elem p (\<lambda>x. rb_set_parent x v) h') S = agree h h' S"
  by (cases p) auto

lemma relink_cases: "relink par old new h = (case par of None \<Rightarrow> h\<lparr>rbh_root := new\<rparr> | Some p \<Rightarrow> set_child (if rbe_left h p = Some old then LFT else RGT) p new h)"
  by (simp add: relink_def split: option.split)

lemma agree_relink [simp]: "(\<And>p. par = Some p \<Longrightarrow> p \<notin> S) \<Longrightarrow> agree h (relink par old new h') S = agree h h' S"
  by (cases par) (auto simp: relink_cases)

lemma relink_fields [simp]:
  "rbe_parent (relink par old new h) x = rbe_parent h x" "rbe_color (relink par old new h) x = rbe_color h x"
  "par \<noteq> Some x \<Longrightarrow> child d (relink par old new h) x = child d h x"
  by (cases par; auto simp: relink_cases)+

lemma agree_child: "agree h h' S \<Longrightarrow> x \<in> S \<Longrightarrow> child d h' x = child d h x"
  by (cases d) (auto simp: agree_def)

lemma rb_at_agree: "agree h h' (addrs t) \<Longrightarrow> rb_at h' p par t = rb_at h p par t"
proof (induction t arbitrary: p par)
  case (Node l e r)
  obtain x c where e: "e = (x, c)" by (cases e)
  have "agree h h' (addrs l)" "agree h h' (addrs r)" using Node.prems by (auto simp: agree_def e)
  then show ?case using Node.IH Node.prems by (auto simp: e agree_def)
qed simp

lemma ctx_at_agree: "agree h h' (ctx_addrs cs) \<Longrightarrow> rbh_root h' = rbh_root h \<Longrightarrow> ctx_at h' cs p = ctx_at h cs p"
proof (induction cs arbitrary: p)
  case (Cons f cs)
  obtain d x c s where f: "f = (d, x, c, s)" by (cases f)
  have "agree h h' (addrs s)" "agree h h' (ctx_addrs cs)" using Cons.prems by (auto simp: agree_def f)
  then show ?case
    using Cons.IH Cons.prems rb_at_agree [of h h' s] agree_child [OF Cons.prems(1), of x]
    by (auto simp: f agree_def)
qed simp

text \<open>A subtree gets a new parent.\<close>

lemma rb_at_reparent:
  assumes "rb_at h p par t" and "dist t"
  shows "rb_at (if_elem p (\<lambda>x. rb_set_parent x q) h) p q t"
proof (cases t rule: root_ptr.cases)
  case (2 l x c r)
  have "rb_at (rb_set_parent x q h) pp qq l = rb_at h pp qq l" "rb_at (rb_set_parent x q h) pp qq r = rb_at h pp qq r" for pp qq
    using assms(2) by (simp_all add: 2 rb_at_agree)
  then show ?thesis using assms(1) by (auto simp: 2 rb_set_parent_def)
qed (use assms in auto)

lemma relink_ctx:
  assumes "ctx_at h cs (Some x)" and "ctx_dist cs" and "x \<notin> ctx_addrs cs"
  shows "ctx_at (relink (top_ptr cs) x v h) cs v"
proof (cases cs rule: top_ptr.cases)
  case (2 d y c s cs')
  have "rbe_left h y = Some x \<longleftrightarrow> d = LFT"
    using assms by (cases d) (auto simp: 2 dest!: rb_at_root dest: root_ptr_addrs [OF sym])
  then have r: "relink (top_ptr cs) x v h = set_child d y v h"
    by (cases d) (auto simp: 2 relink_cases)
  have "agree h (set_child d y v h) (addrs s)" "agree h (set_child d y v h) (ctx_addrs cs')"
    using assms(2) by (auto simp: 2)
  then show ?thesis
    using assms(1) r by (simp add: 2 rb_at_agree ctx_at_agree)
qed (simp add: relink_def)

section \<open>Reading and recolouring at a position\<close>

lemma rb_rep_read:
  assumes "rb_rep h (plug cs (dnode d a (x, c) b))"
  shows "rbe_parent h x = top_ptr cs" "rbe_color h x = c" "child d h x = root_ptr a" "child (opp d) h x = root_ptr b"
  using assms by (auto simp: rb_rep_plug dest!: rb_at_root)

lemma rb_rep_read_node:
  assumes "rb_rep h (plug cs (Node a (x, c) b))"
  shows "rbe_parent h x = top_ptr cs" "rbe_color h x = c" "rbe_left h x = root_ptr a" "rbe_right h x = root_ptr b"
  using assms by (auto simp: rb_rep_plug dest!: rb_at_root)

lemma rb_rep_root: "rb_rep h t \<Longrightarrow> rbh_root h = root_ptr t"
  by (auto simp: rb_rep_def dest: rb_at_root)

lemma rb_rep_ptr_color:
  assumes "rb_rep h (plug cs t)"
  shows "is_red h (root_ptr t) \<longleftrightarrow> (\<exists>l x r. t = Node l (x, RB_RED) r)"
    and "is_black h (root_ptr t) \<longleftrightarrow> \<not> (\<exists>l x r. t = Node l (x, RB_RED) r)"
proof -
  show "is_red h (root_ptr t) \<longleftrightarrow> (\<exists>l x r. t = Node l (x, RB_RED) r)"
    using assms by (cases t rule: root_ptr.cases) (auto simp: rb_rep_plug is_red_def)
  have "is_black h p = (\<not> is_red h p)" for p
    by (cases p) (auto simp: is_black_def is_red_def intro: rb_color.exhaust)
  then show "is_black h (root_ptr t) \<longleftrightarrow> \<not> (\<exists>l x r. t = Node l (x, RB_RED) r)"
    using \<open>is_red h (root_ptr t) \<longleftrightarrow> (\<exists>l x r. t = Node l (x, RB_RED) r)\<close> by simp
qed

lemma rb_rep_recolor:
  assumes "rb_rep h (plug cs (dnode d a (x, c) b))"
  shows "rb_rep (rb_set_color x k h) (plug cs (dnode d a (x, k) b))"
proof -
  let ?h = "rb_set_color x k h"
  have ag: "agree h ?h (addrs a)" "agree h ?h (addrs b)" "agree h ?h (ctx_addrs cs)"
    using assms by (auto simp: rb_rep_plug)
  show ?thesis
    using assms by (simp add: rb_rep_plug rb_at_agree [OF ag(1)] rb_at_agree [OF ag(2)] ctx_at_agree [OF ag(3)])
qed

section \<open>Rotation\<close>

text \<open>
  The heap after a rotation of \<open>x\<close> under \<open>y\<close>, \<open>q\<close> being the subtree that changes sides and \<open>P\<close> the parent:
  before and after the assignments that put \<open>y\<close> in the place of \<open>x\<close>.
\<close>

definition regrouped :: "dir \<Rightarrow> loc \<Rightarrow> loc \<Rightarrow> ptr \<Rightarrow> ptr \<Rightarrow> rb_heap \<Rightarrow> rb_heap" where
  "regrouped d x y P q h = rb_set_parent y P (if_elem q (\<lambda>z. rb_set_parent z (Some x)) (set_child (opp d) x q h))"

definition rotated :: "dir \<Rightarrow> loc \<Rightarrow> loc \<Rightarrow> ptr \<Rightarrow> ptr \<Rightarrow> rb_heap \<Rightarrow> rb_heap" where
  "rotated d x y P q h =
     rb_set_parent x (Some y) (set_child d y (Some x) (relink P x (Some y) (regrouped d x y P q h)))"

lemma rb_rotate_run:
  "child (opp d) h x = Some y \<Longrightarrow> child d h y = q \<Longrightarrow> rbe_parent h x = P \<Longrightarrow> x \<noteq> y \<Longrightarrow> q \<noteq> Some x \<Longrightarrow>
   rb_rotate d x h = Some (rotated d x y P q h)"
  by (simp add: rb_rotate_def rotated_def regrouped_def Let_def)

lemma rotated_fields:
  assumes "x \<noteq> y" "q \<noteq> Some x" "P \<noteq> Some x" "P \<noteq> Some y"
  shows "child d (rotated d x y P q h) x = child d h x" "child (opp d) (rotated d x y P q h) x = q"
    "child d (rotated d x y P q h) y = Some x" "child (opp d) (rotated d x y P q h) y = child (opp d) h y"
    "rbe_parent (rotated d x y P q h) y = P" "rbe_parent (rotated d x y P q h) x = Some y"
    "rbe_color (rotated d x y P q h) z = rbe_color h z"
  using assms by (simp_all add: rotated_def regrouped_def)

lemma agree_regrouped: "S \<inter> {x, y} = {} \<Longrightarrow> (\<And>z. q = Some z \<Longrightarrow> z \<notin> S) \<Longrightarrow> agree h (regrouped d x y P q h) S"
  by (simp add: regrouped_def)

lemma agree_rotated:
  "S \<inter> {x, y} = {} \<Longrightarrow> (\<And>z. P = Some z \<Longrightarrow> z \<notin> S) \<Longrightarrow> agree h' (regrouped d x y P q h) S \<Longrightarrow> agree h' (rotated d x y P q h) S"
  by (simp add: rotated_def)

lemma top_ptr_addrs: "top_ptr cs = Some p \<Longrightarrow> p \<in> ctx_addrs cs"
  by (cases cs rule: top_ptr.cases) auto

lemma rotated_ctx:
  assumes "ctx_at h cs (Some x)" and "ctx_dist cs" "x \<notin> ctx_addrs cs" "y \<notin> ctx_addrs cs"
    and q: "\<And>z. q = Some z \<Longrightarrow> z \<notin> ctx_addrs cs"
  shows "ctx_at (rotated d x y (top_ptr cs) q h) cs (Some y)"
proof -
  have "agree h (regrouped d x y (top_ptr cs) q h) (ctx_addrs cs)" using assms by (intro agree_regrouped) auto
  moreover have "rbh_root (regrouped d x y (top_ptr cs) q h) = rbh_root h" by (simp add: regrouped_def)
  ultimately have "ctx_at (regrouped d x y (top_ptr cs) q h) cs (Some x)" using assms(1) ctx_at_agree by blast
  from relink_ctx [OF this assms(2,3), of "Some y"] show ?thesis
    by (rule ctx_at_agree [THEN iffD2, rotated 2]) (use assms(3,4) in \<open>simp_all add: rotated_def\<close>)
qed

lemma rotated_mid:
  assumes b: "rb_at h (root_ptr b) (Some y) b" and "dist b" "x \<notin> addrs b" "y \<notin> addrs b" and "\<And>p. P = Some p \<Longrightarrow> p \<notin> addrs b"
  shows "rb_at (rotated d x y P (root_ptr b) h) (root_ptr b) (Some x) b"
proof -
  let ?h2 = "if_elem (root_ptr b) (\<lambda>z. rb_set_parent z (Some x)) (set_child (opp d) x (root_ptr b) h)"
  have "rb_at (set_child (opp d) x (root_ptr b) h) (root_ptr b) (Some y) b"
    using b rb_at_agree [of h "set_child (opp d) x (root_ptr b) h" b] assms(3) by simp
  from rb_at_reparent [OF this assms(2)] have "rb_at ?h2 (root_ptr b) (Some x) b" .
  moreover have "agree ?h2 (rotated d x y P (root_ptr b) h) (addrs b)"
    using assms(3-5) by (intro agree_rotated) (simp_all add: regrouped_def)
  ultimately show ?thesis using rb_at_agree by blast
qed

lemma rb_rep_rotate:
  assumes "rb_rep h (plug cs (dnode d a (x, cx) (dnode d b (y, cy) c)))"
  shows "\<exists>h'. rb_rotate d x h = Some h' \<and> rb_rep h' (plug cs (dnode d (dnode d a (x, cx) b) (y, cy) c))"
proof -
  have ctx: "ctx_at h cs (Some x)" and nd: "ctx_dist cs" "x \<notin> ctx_addrs cs" "y \<notin> ctx_addrs cs" "x \<noteq> y"
    "({x, y} \<union> ctx_addrs cs) \<inter> (addrs a \<union> addrs b \<union> addrs c) = {}"
    "addrs a \<inter> addrs b = {}" "addrs a \<inter> addrs c = {}" "addrs b \<inter> addrs c = {}" "dist a" "dist b" "dist c"
    and px: "rbe_parent h x = top_ptr cs" "rbe_color h x = cx" and y: "child (opp d) h x = Some y" "rbe_color h y = cy"
    and a: "rb_at h (child d h x) (Some x) a" and b: "rb_at h (child d h y) (Some y) b" and c: "rb_at h (child (opp d) h y) (Some y) c"
    using assms by (auto simp: rb_rep_plug)
  have bp: "child d h y = root_ptr b" using b by (rule rb_at_root)
  have q: "root_ptr b = Some z \<Longrightarrow> z \<notin> {x, y} \<union> ctx_addrs cs \<union> addrs a \<union> addrs c"
    and P: "top_ptr cs = Some z \<Longrightarrow> z \<notin> {x, y} \<union> addrs a \<union> addrs b \<union> addrs c" for z
    using nd root_ptr_addrs [of b z] top_ptr_addrs [of cs z] by blast+
  let ?h = "rotated d x y (top_ptr cs) (root_ptr b) h"
  have run: "rb_rotate d x h = Some ?h" using q by (intro rb_rotate_run [OF y(1) bp px(1) nd(4)]) blast
  have f: "root_ptr b \<noteq> Some x" "top_ptr cs \<noteq> Some x" "top_ptr cs \<noteq> Some y" using q P by blast+
  have ag: "agree h ?h (addrs a)" "agree h ?h (addrs c)"
    by (intro agree_rotated agree_regrouped; use nd q P in blast)+
  have "ctx_at ?h cs (Some y)" using q by (intro rotated_ctx [OF ctx nd(1-3)]) blast
  moreover have "rb_at ?h (root_ptr b) (Some x) b" using b nd P by (intro rotated_mid) (auto simp: bp)
  moreover have "rb_at ?h (child d h x) (Some x) a" "rb_at ?h (child (opp d) h y) (Some y) c"
    using a c rb_at_agree [OF ag(1)] rb_at_agree [OF ag(2)] by blast+
  ultimately have "rb_rep ?h (plug cs (dnode d (dnode d a (x, cx) b) (y, cy) c))"
    using rotated_fields [OF nd(4) f, of d h] px(2) y(2) nd by (auto simp: rb_rep_plug)
  with run show ?thesis by blast
qed

end
