(* ===== verification/RBInv.thy ===== *)
theory RBInv
  imports RBRep
begin

text \<open>
  The red-black invariants of trees and of contexts, and the in-order sequence. Each notion on
  trees comes with one on contexts such that the whole tree has it exactly when subtree
  and context fit together.
\<close>

section \<open>The in-order sequence\<close>

definition elems :: "rbt \<Rightarrow> loc list" where "elems t = map fst (inorder t)"

lemma elems_simps [simp]: "elems Leaf = []" "elems (Node l (x, c) r) = elems l @ x # elems r"
  by (simp_all add: elems_def)

lemma elems_dnode: "elems (dnode d a (x, c) b) = (if d = LFT then elems a @ x # elems b else elems b @ x # elems a)"
  by (simp add: dnode_def)

lemma set_elems [simp]: "set (elems t) = addrs t"
  by (simp add: elems_def addrs_def)

lemma dist_iff: "dist t \<longleftrightarrow> distinct (elems t)"
  by (induction t rule: dist.induct) auto

fun before :: "frame list \<Rightarrow> loc list" where
  "before [] = []"
| "before ((d, x, c, s) # cs) = (if d = LFT then before cs else before cs @ elems s @ [x])"

fun behind :: "frame list \<Rightarrow> loc list" where
  "behind [] = []"
| "behind ((d, x, c, s) # cs) = (if d = LFT then x # elems s @ behind cs else behind cs)"

lemma elems_plug: "elems (plug cs t) = before cs @ elems t @ behind cs"
  by (induction cs t rule: plug.induct) (auto simp: elems_dnode)

section \<open>Colours\<close>

fun color_of :: "rbt \<Rightarrow> rb_color" where
  "color_of Leaf = RB_BLACK"
| "color_of (Node l (x, c) r) = c"

fun paint :: "rb_color \<Rightarrow> rbt \<Rightarrow> rbt" where
  "paint k Leaf = Leaf"
| "paint k (Node l (x, c) r) = Node l (x, k) r"

fun invc :: "rbt \<Rightarrow> bool" where
  "invc Leaf = True"
| "invc (Node l (x, c) r) \<longleftrightarrow> (c = RB_RED \<longrightarrow> color_of l = RB_BLACK \<and> color_of r = RB_BLACK) \<and> invc l \<and> invc r"

fun top_color :: "frame list \<Rightarrow> rb_color" where
  "top_color [] = RB_BLACK"
| "top_color ((d, x, c, s) # cs) = c"

fun ctx_c :: "frame list \<Rightarrow> bool" where
  "ctx_c [] = True"
| "ctx_c ((d, x, c, s) # cs) \<longleftrightarrow> invc s \<and> (c = RB_RED \<longrightarrow> color_of s = RB_BLACK \<and> top_color cs = RB_BLACK) \<and> ctx_c cs"

text \<open>The colour of the root of the whole tree, \<open>k\<close> being that of the subtree.\<close>

fun root_color :: "frame list \<Rightarrow> rb_color \<Rightarrow> rb_color" where
  "root_color [] k = k"
| "root_color ((d, x, c, s) # cs) k = root_color cs c"

lemma color_not [simp]: "c \<noteq> RB_RED \<longleftrightarrow> c = RB_BLACK" "RB_RED \<noteq> c \<longleftrightarrow> c = RB_BLACK"
  "c \<noteq> RB_BLACK \<longleftrightarrow> c = RB_RED" "RB_BLACK \<noteq> c \<longleftrightarrow> c = RB_RED"
  by (cases c; simp)+

lemma dnode_colors [simp]:
  "color_of (dnode d a (x, c) b) = c"
  "paint k (dnode d a (x, c) b) = dnode d a (x, k) b"
  "invc (dnode d a (x, c) b) \<longleftrightarrow> (c = RB_RED \<longrightarrow> color_of a = RB_BLACK \<and> color_of b = RB_BLACK) \<and> invc a \<and> invc b"
  by (auto simp: dnode_def)

lemma color_plug: "color_of (plug cs t) = root_color cs (color_of t)"
  by (induction cs t rule: plug.induct) auto

lemma invc_plug: "invc (plug cs t) \<longleftrightarrow> invc t \<and> ctx_c cs \<and> (top_color cs = RB_RED \<longrightarrow> color_of t = RB_BLACK)"
  by (induction cs t rule: plug.induct) auto

lemma paint_simps [simp]: "elems (paint k t) = elems t" "addrs (paint k t) = addrs t" "root_ptr (paint k t) = root_ptr t"
  by (cases t rule: color_of.cases; simp)+

lemma invc_paint: "invc t \<Longrightarrow> invc (paint RB_BLACK t)" and color_paint [simp]: "color_of (paint RB_BLACK t) = RB_BLACK"
  and paint_id [simp]: "paint (color_of t) t = t"
  by (cases t rule: color_of.cases; simp)+

lemma paint_black_id: "color_of t = RB_BLACK \<Longrightarrow> paint RB_BLACK t = t"
  using paint_id [of t] by simp

section \<open>Black height\<close>

text \<open>\<open>rbh t n\<close>: every path from the root of \<open>t\<close> down has \<open>n\<close> black nodes.\<close>

fun rbh :: "rbt \<Rightarrow> nat \<Rightarrow> bool" where
  "rbh Leaf n \<longleftrightarrow> n = 0"
| "rbh (Node l (x, c) r) n \<longleftrightarrow> (c = RB_BLACK \<longrightarrow> 0 < n) \<and>
     rbh l (if c = RB_BLACK then n - 1 else n) \<and> rbh r (if c = RB_BLACK then n - 1 else n)"

fun ctx_bh :: "frame list \<Rightarrow> nat \<Rightarrow> bool" where
  "ctx_bh [] n = True"
| "ctx_bh ((d, x, c, s) # cs) n \<longleftrightarrow> rbh s n \<and> ctx_bh cs (if c = RB_BLACK then Suc n else n)"

lemma rbh_dnode [simp]:
  "rbh (dnode d a (x, c) b) n \<longleftrightarrow> (c = RB_BLACK \<longrightarrow> 0 < n) \<and>
     rbh a (if c = RB_BLACK then n - 1 else n) \<and> rbh b (if c = RB_BLACK then n - 1 else n)"
  by (auto simp: dnode_def)

lemma rbh_unique: "rbh t n \<Longrightarrow> rbh t m \<Longrightarrow> n = m"
proof (induction t arbitrary: n m)
  case (Node l e r)
  obtain x c where e: "e = (x, c)" by (cases e)
  from Node.prems have "(if c = RB_BLACK then n - 1 else n) = (if c = RB_BLACK then m - 1 else m)"
    using Node.IH(1) by (auto simp: e)
  then show ?case using Node.prems by (cases c) (auto simp: e)
qed simp

lemma rbh_plug: "(\<exists>N. rbh (plug cs t) N) \<longleftrightarrow> (\<exists>n. rbh t n \<and> ctx_bh cs n)"
proof (induction cs t rule: plug.induct)
  case (2 d x c s cs t)
  have "(\<exists>n. rbh (dnode d t (x, c) s) n \<and> ctx_bh cs n) \<longleftrightarrow> (\<exists>n. rbh t n \<and> ctx_bh ((d, x, c, s) # cs) n)"
  proof (cases c)
    case RB_BLACK
    then show ?thesis by (auto intro: exI [of _ "Suc _"])
  qed auto
  then show ?case using 2 by simp
qed simp

lemma rbh_paint: "color_of t = RB_RED \<Longrightarrow> rbh (paint RB_BLACK t) (Suc n) \<longleftrightarrow> rbh t n"
  by (cases t rule: color_of.cases) auto

lemma rbh_paint_ex: "rbh t n \<Longrightarrow> \<exists>m. rbh (paint RB_BLACK t) m"
  by (cases "color_of t") (metis rbh_paint paint_black_id)+

definition rb_valid :: "rbt \<Rightarrow> bool" where
  "rb_valid t \<longleftrightarrow> invc t \<and> (\<exists>n. rbh t n) \<and> color_of t = RB_BLACK"

lemma rb_valid_Leaf [simp]: "rb_valid Leaf"
  by (simp add: rb_valid_def)

lemma rb_valid_plug:
  "rb_valid (plug cs t) \<longleftrightarrow> invc t \<and> ctx_c cs \<and> (top_color cs = RB_RED \<longrightarrow> color_of t = RB_BLACK) \<and>
     (\<exists>n. rbh t n \<and> ctx_bh cs n) \<and> root_color cs (color_of t) = RB_BLACK"
  by (auto simp: rb_valid_def invc_plug rbh_plug color_plug)

lemma rb_valid_paint: "invc (paint RB_BLACK t) \<Longrightarrow> rbh t n \<Longrightarrow> rb_valid (paint RB_BLACK t)"
  by (simp add: rb_valid_def rbh_paint_ex)

section \<open>Balance\<close>

lemma rbh_size: "rbh t n \<Longrightarrow> 2 ^ n \<le> length (elems t) + 1"
proof (induction t arbitrary: n)
  case (Node l e r)
  obtain x c where e: "e = (x, c)" by (cases e)
  show ?case
  proof (cases c)
    case RB_RED
    then have "2 ^ n \<le> length (elems l) + 1" using Node by (simp add: e)
    then show ?thesis by (simp add: e)
  next
    case RB_BLACK
    then have n: "0 < n" "2 ^ (n - 1) \<le> length (elems l) + 1" "2 ^ (n - 1) \<le> length (elems r) + 1"
      using Node by (simp_all add: e)
    then have "(2 :: nat) ^ n = 2 ^ (n - 1) + 2 ^ (n - 1)" by (metis mult_2 power_minus_mult mult.commute)
    then show ?thesis using n by (simp add: e)
  qed
qed simp

lemma rbh_height: "rbh t n \<Longrightarrow> invc t \<Longrightarrow> height t \<le> 2 * n + (if color_of t = RB_RED then 1 else 0)"
proof (induction t arbitrary: n)
  case (Node l e r)
  obtain x c where e: "e = (x, c)" by (cases e)
  show ?case
  proof (cases c)
    case RB_RED
    then show ?thesis using Node.IH(1) [of n] Node.IH(2) [of n] Node.prems by (simp add: e)
  next
    case RB_BLACK
    then have "0 < n" "height l \<le> 2 * (n - 1) + 1" "height r \<le> 2 * (n - 1) + 1"
      using Node.IH(1) [of "n - 1"] Node.IH(2) [of "n - 1"] Node.prems by (auto simp: e split: if_split_asm)
    then show ?thesis using RB_BLACK by (simp add: e)
  qed
qed simp

lemma rb_valid_height: "rb_valid t \<Longrightarrow> 2 ^ height t \<le> (length (elems t) + 1) ^ 2"
proof -
  assume "rb_valid t"
  then obtain n where n: "rbh t n" "invc t" "color_of t = RB_BLACK" by (auto simp: rb_valid_def)
  then have h: "height t \<le> 2 * n" using rbh_height [OF n(1,2)] by simp
  have "(2 :: nat) ^ height t \<le> 2 ^ (2 * n)" using h by (intro power_increasing) auto
  also have "\<dots> = (2 ^ n) ^ 2" by (simp add: power_mult mult.commute)
  also have "\<dots> \<le> (length (elems t) + 1) ^ 2" using rbh_size [OF n(1)] by (intro power_mono) auto
  finally show ?thesis .
qed

end
