(* ===== verification/RBInsert.thy ===== *)
theory RBInsert
  imports RBInv
begin

text \<open>
  Insertion: the repair loop of \<open>RB_INSERT_COLOR\<close> restores the red-black invariants without changing
  the in-order sequence, and \<open>RB_INSERT\<close> adds an element at its place in the order.
\<close>

section \<open>The repair loop\<close>

text \<open>One turn of the loop, \<open>d\<close> being the side of \<open>gparent\<close> that \<open>parent\<close> is on.\<close>

definition insert_turn :: "(loc \<Rightarrow> rb_heap \<Rightarrow> rb_heap option) \<Rightarrow> dir \<Rightarrow> loc \<Rightarrow> loc \<Rightarrow> loc \<Rightarrow> rb_heap \<Rightarrow> rb_heap option" where
  "insert_turn loop d elm parent gparent h = do {
     let tmp = child (opp d) h gparent;
     if is_red h tmp
     then loop gparent (RB_SET_BLACKRED parent gparent (if_elem tmp (\<lambda>x. rb_set_color x RB_BLACK) h))
     else do {
       (parent1, elm1, h1) \<leftarrow>
         (if child (opp d) h parent = Some elm
          then do { h1 \<leftarrow> rb_rotate d parent h; Some (elm, parent, h1) }
          else Some (parent, elm, h));
       h2 \<leftarrow> rb_rotate (opp d) gparent (RB_SET_BLACKRED parent1 gparent h1);
       loop elm1 h2
     }
   }"

lemma insert_color_loop_turn:
  "insert_color_loop elm h =
     (case rbe_parent h elm of
        None \<Rightarrow> Some h
      | Some parent \<Rightarrow>
          if rbe_color h parent \<noteq> RB_RED then Some h
          else do {
            gparent \<leftarrow> rbe_parent h parent;
            insert_turn insert_color_loop (if rbe_left h gparent = Some parent then LFT else RGT) elm parent gparent h
          })"
proof (cases "rbe_parent h elm")
  case (Some p)
  show ?thesis
  proof (cases "rbe_parent h p")
    case (Some g)
    with \<open>rbe_parent h elm = Some p\<close> show ?thesis
      by (subst insert_color_loop.simps) (simp add: insert_turn_def RB_ROTATE_rotate Let_def)
  qed (use \<open>rbe_parent h elm = Some p\<close> in \<open>subst insert_color_loop.simps; simp\<close>)
qed (subst insert_color_loop.simps; simp)

lemma insert_color_loop_stop:
  "rbe_parent h elm = None \<Longrightarrow> insert_color_loop elm h = Some h"
  "rbe_parent h elm = Some p \<Longrightarrow> rbe_color h p = RB_BLACK \<Longrightarrow> insert_color_loop elm h = Some h"
  by (subst insert_color_loop.simps; simp)+

text \<open>The side of a child is found by the test for the left one.\<close>

lemma rb_rep_side:
  assumes "rb_rep h (plug cs (dnode d a (x, c) b))" and "root_ptr a = Some y"
  shows "rbe_left h x = Some y \<longleftrightarrow> d = LFT"
proof -
  have "y \<in> addrs a" using root_ptr_addrs [OF assms(2)] .
  then have "root_ptr b \<noteq> Some y" using assms(1) root_ptr_addrs [of b y] by (auto simp: rb_rep_plug)
  then show ?thesis using rb_rep_read(3,4) [OF assms(1)] assms(2) by (cases d) auto
qed

lemma rb_rep_blackred:
  assumes "rb_rep h (plug cs (dnode d (dnode e a (p, cp) b) (g, cg) u))"
  shows "rb_rep (RB_SET_BLACKRED p g h) (plug cs (dnode d (dnode e a (p, RB_BLACK) b) (g, RB_RED) u))"
proof -
  have "rb_rep h (plug ((d, g, cg, u) # cs) (dnode e a (p, cp) b))" using assms by simp
  from rb_rep_recolor [OF this, of RB_BLACK] rb_rep_recolor
  show ?thesis by (simp add: RB_SET_BLACKRED_def)
qed

lemma insert_outer:
  assumes "rb_rep h (plug cs (dnode d (dnode d t (p, cp) s) (g, cg) u))"
  shows "\<exists>h'. rb_rotate (opp d) g (RB_SET_BLACKRED p g h) = Some h' \<and>
    rb_rep h' (plug cs (dnode d t (p, RB_BLACK) (dnode d s (g, RB_RED) u)))"
  using rb_rep_rotate [of "RB_SET_BLACKRED p g h" cs "opp d" u g RB_RED s p RB_BLACK t] rb_rep_blackred [OF assms]
  by (simp add: dnode_opp)

text \<open>A turn with a black uncle repairs the tree.\<close>

lemma insert_turn_rotate:
  assumes rep: "rb_rep h (plug cs (dnode d (dnode e t (p, RB_RED) s) (g, RB_BLACK) u))" and "color_of u = RB_BLACK"
    and t: "t = dnode d a (x, RB_RED) b"
  shows "\<exists>h'. insert_turn insert_color_loop d x p g h = Some h' \<and>
    rb_rep h' (plug cs (if e = d then dnode d t (p, RB_BLACK) (dnode d s (g, RB_RED) u)
      else dnode d (dnode d s (p, RB_RED) a) (x, RB_BLACK) (dnode d b (g, RB_RED) u)))"
proof -
  have "rb_rep h (plug ((opp d, g, RB_BLACK, dnode e t (p, RB_RED) s) # cs) u)" using rep by (simp add: dnode_opp)
  from rb_rep_ptr_color(1) [OF this] rb_rep_read(4) [OF rep] assms(2) have black: "\<not> is_red h (child (opp d) h g)" by auto
  have rp: "rb_rep h (plug ((d, g, RB_BLACK, u) # cs) (dnode e t (p, RB_RED) s))" using rep by simp
  have xs: "root_ptr s \<noteq> Some x" using rep root_ptr_addrs [of s x] by (auto simp: rb_rep_plug t)
  show ?thesis
  proof (cases "e = d")
    case True
    then have "child (opp d) h p \<noteq> Some x" using rb_rep_read(4) [OF rp] xs by simp
    moreover obtain h' where h': "rb_rotate (opp d) g (RB_SET_BLACKRED p g h) = Some h'"
      "rb_rep h' (plug cs (dnode d t (p, RB_BLACK) (dnode d s (g, RB_RED) u)))"
      using insert_outer [of h cs d t p RB_RED s g RB_BLACK u] rep True by auto
    moreover have "insert_color_loop x h' = Some h'"
    proof -
      have "rb_rep h' (plug ((d, p, RB_BLACK, dnode d s (g, RB_RED) u) # cs) t)" using h'(2) by simp
      from rb_rep_read(1) [OF this [unfolded t]] rb_rep_read(2) [OF h'(2)] show ?thesis
        by (intro insert_color_loop_stop(2)) auto
    qed
    ultimately show ?thesis using black True by (auto simp: insert_turn_def)
  next
    case False
    then have e: "e = opp d" by (cases d; cases e) auto
    then have in_: "child (opp d) h p = Some x" using rb_rep_read(3) [OF rp] by (simp add: t)
    have "rb_rep h (plug ((d, g, RB_BLACK, u) # cs) (dnode d s (p, RB_RED) (dnode d a (x, RB_RED) b)))"
      using rp by (simp add: e dnode_opp t)
    from rb_rep_rotate [OF this] obtain h1 where h1: "rb_rotate d p h = Some h1"
      "rb_rep h1 (plug cs (dnode d (dnode d (dnode d s (p, RB_RED) a) (x, RB_RED) b) (g, RB_BLACK) u))" by auto
    obtain h' where h': "rb_rotate (opp d) g (RB_SET_BLACKRED x g h1) = Some h'"
      "rb_rep h' (plug cs (dnode d (dnode d s (p, RB_RED) a) (x, RB_BLACK) (dnode d b (g, RB_RED) u)))"
      using insert_outer [OF h1(2)] by auto
    have "insert_color_loop p h' = Some h'"
    proof -
      have "rb_rep h' (plug ((d, x, RB_BLACK, dnode d b (g, RB_RED) u) # cs) (dnode d s (p, RB_RED) a))" using h'(2) by simp
      from rb_rep_read(1) [OF this] rb_rep_read(2) [OF h'(2)] show ?thesis
        by (intro insert_color_loop_stop(2)) auto
    qed
    then show ?thesis using black in_ h1(1) h'(1,2) False by (simp add: insert_turn_def)
  qed
qed

lemma insert_turn_recolor:
  assumes rep: "rb_rep h (plug cs (dnode d (dnode e t (p, RB_RED) s) (g, RB_BLACK) u))" and "color_of u = RB_RED"
  shows "\<exists>h'. insert_turn loop d x p g h = loop g h' \<and>
    rb_rep h' (plug cs (dnode d (dnode e t (p, RB_BLACK) s) (g, RB_RED) (paint RB_BLACK u)))"
proof -
  from assms(2) obtain ul w ur where u: "u = dnode LFT ul (w, RB_RED) ur"
    by (cases u rule: color_of.cases) (auto simp: dnode_def)
  have ru: "rb_rep h (plug ((opp d, g, RB_BLACK, dnode e t (p, RB_RED) s) # cs) u)" using rep by (simp add: dnode_opp)
  have tmp: "child (opp d) h g = Some w" using rb_rep_read(4) [OF rep] by (simp add: u)
  have "is_red h (root_ptr u)" using rb_rep_ptr_color(1) [OF ru] by (auto simp: u dnode_def)
  then have red: "is_red h (Some w)" by (simp add: u)
  have "rb_rep (rb_set_color w RB_BLACK h) (plug cs (dnode d (dnode e t (p, RB_RED) s) (g, RB_BLACK) (paint RB_BLACK u)))"
    using rb_rep_recolor [OF ru [unfolded u], of RB_BLACK] by (simp add: dnode_opp u)
  from rb_rep_blackred [OF this] tmp red show ?thesis by (auto simp: insert_turn_def)
qed

lemma red_dnode: "root_ptr t = Some x \<Longrightarrow> color_of t = RB_RED \<Longrightarrow> \<exists>a b. t = dnode d a (x, RB_RED) b"
  using dnode_cases [of t d] by (elim disjE exE) (simp, simp, blast)

text \<open>The loop goes on below a red parent, with a turn on the side where that parent is.\<close>

lemma insert_color_loop_red:
  assumes "rb_rep h (plug ((d, p, RB_RED, s) # (e, g, k, u) # cs) t)" and "root_ptr t = Some x" and "color_of t = RB_RED"
  shows "insert_color_loop x h = insert_turn insert_color_loop e x p g h"
proof -
  obtain a b where t: "t = dnode LFT a (x, RB_RED) b" using red_dnode [OF assms(2,3)] by blast
  have g: "rb_rep h (plug cs (dnode e (dnode d t (p, RB_RED) s) (g, k) u))" using assms(1) by simp
  have p: "rb_rep h (plug ((e, g, k, u) # cs) (dnode d t (p, RB_RED) s))" using assms(1) by simp
  show ?thesis
    using rb_rep_read(1) [OF assms(1) [unfolded t]] rb_rep_read(1,2) [OF p] rb_rep_side [OF g, of p]
    by (subst insert_color_loop_turn) (cases e; simp)
qed

lemma insert_color_loop_done:
  assumes "rb_rep h (plug cs t)" and "root_ptr t = Some x" and "top_color cs = RB_BLACK"
  shows "insert_color_loop x h = Some h"
proof -
  obtain a c b where t: "t = dnode LFT a (x, c) b" using dnode_cases [of t LFT] assms(2) by auto
  show ?thesis
  proof (cases cs rule: top_color.cases)
    case 1
    then show ?thesis using rb_rep_read(1) [OF assms(1) [unfolded t]] by (simp add: insert_color_loop_stop)
  next
    case (2 d p k s cs1)
    then have "rb_rep h (plug cs1 (dnode d t (p, k) s))" using assms(1) by simp
    from rb_rep_read(2) [OF this] rb_rep_read(1) [OF assms(1) [unfolded t]] assms(3) show ?thesis
      by (simp add: 2 insert_color_loop_stop)
  qed
qed

text \<open>
  The loop repairs a red element below a red parent: the sequence stays, the black heights agree,
  and at most the root is left red.
\<close>

text \<open>A red parent whose sibling is black: the turn ends with one or two rotations, which leave a black subtree.\<close>

lemma insert_rotate_repairs:
  assumes turn: "insert_color_loop x h = insert_turn insert_color_loop e x p g h"
    and rep: "rb_rep h (plug cs (dnode e (dnode d t (p, RB_RED) s) (g, RB_BLACK) u))"
    and x: "root_ptr t = Some x" "color_of t = RB_RED" and u: "color_of u = RB_BLACK"
    and inv: "color_of s = RB_BLACK" "invc t" "invc s" "invc u" "ctx_c cs" "rbh t n" "rbh s n" "rbh u n" "ctx_bh cs (Suc n)"
  shows "\<exists>h' t' N. insert_color_loop x h = Some h' \<and> rb_rep h' t' \<and>
    elems t' = elems (plug cs (dnode e (dnode d t (p, RB_RED) s) (g, RB_BLACK) u)) \<and> rbh t' N \<and> invc (paint RB_BLACK t')"
proof -
  obtain a b where t: "t = dnode e a (x, RB_RED) b" using red_dnode [OF x] by blast
  define t' where "t' = (if d = e then dnode e t (p, RB_BLACK) (dnode e s (g, RB_RED) u)
    else dnode e (dnode e s (p, RB_RED) a) (x, RB_BLACK) (dnode e b (g, RB_RED) u))"
  obtain h' where h': "insert_color_loop x h = Some h'" "rb_rep h' (plug cs t')"
    using insert_turn_rotate [OF rep u t] turn by (auto simp: t'_def)
  have col: "color_of t' = RB_BLACK" "invc t'" using inv u by (auto simp: t'_def t)
  have "rbh t' (Suc n)" using inv by (auto simp: t'_def t)
  then obtain N where "rbh (plug cs t') N" using rbh_plug [of cs t'] inv(9) by blast
  moreover have "invc (plug cs t')" using col inv by (simp add: invc_plug)
  moreover have "elems (plug cs t') = elems (plug cs (dnode e (dnode d t (p, RB_RED) s) (g, RB_BLACK) u))"
    by (cases d; cases e; simp add: elems_plug elems_dnode t'_def t)
  ultimately show ?thesis using h' invc_paint by blast
qed

lemma insert_color_loop_repairs:
  "rb_rep h (plug cs t) \<Longrightarrow> root_ptr t = Some x \<Longrightarrow> color_of t = RB_RED \<Longrightarrow> invc t \<Longrightarrow> rbh t n \<Longrightarrow> ctx_bh cs n \<Longrightarrow>
   ctx_c cs \<Longrightarrow> root_color cs RB_BLACK = RB_BLACK \<Longrightarrow>
   \<exists>h' t' N. insert_color_loop x h = Some h' \<and> rb_rep h' t' \<and> elems t' = elems (plug cs t) \<and> rbh t' N \<and> invc (paint RB_BLACK t')"
proof (induction "length cs" arbitrary: cs t x n h rule: less_induct)
  case less
  note rep = less.prems(1) and x = less.prems(2) and red = less.prems(3)
  show ?case
  proof (cases "top_color cs = RB_BLACK")
    case True
    moreover have "invc (paint RB_BLACK (plug cs t))" using less.prems(4,7) True by (simp add: invc_paint invc_plug)
    moreover obtain N where "rbh (plug cs t) N" using rbh_plug [of cs t] less.prems(5,6) by blast
    ultimately show ?thesis using insert_color_loop_done [OF rep x] rep by blast
  next
    case False
    then obtain d p s cs1 where "cs = (d, p, RB_RED, s) # cs1" by (cases cs rule: top_color.cases) auto
    moreover with less.prems(8) obtain e g k u cs2 where "cs1 = (e, g, k, u) # cs2" by (cases cs1 rule: top_color.cases) auto
    ultimately have cs: "cs = (d, p, RB_RED, s) # (e, g, RB_BLACK, u) # cs2" using less.prems(7) by simp
    have inv: "color_of s = RB_BLACK" "invc s" "invc u" "ctx_c cs2" "rbh s n" "rbh u n" "ctx_bh cs2 (Suc n)"
      "root_color cs2 RB_BLACK = RB_BLACK"
      using less.prems(6-8) by (auto simp: cs)
    have turn: "insert_color_loop x h = insert_turn insert_color_loop e x p g h"
      using insert_color_loop_red rep x red by (simp add: cs)
    have rep': "rb_rep h (plug cs2 (dnode e (dnode d t (p, RB_RED) s) (g, RB_BLACK) u))" using rep by (simp add: cs)
    show ?thesis
    proof (cases "color_of u")
      case RB_RED
      let ?t = "dnode e (dnode d t (p, RB_BLACK) s) (g, RB_RED) (paint RB_BLACK u)"
      obtain h' where h': "insert_color_loop x h = insert_color_loop g h'" "rb_rep h' (plug cs2 ?t)"
        using insert_turn_recolor [OF rep' RB_RED] turn by metis
      have "rbh ?t (Suc n)" using less.prems(5) inv RB_RED by (simp add: rbh_paint)
      then have "\<exists>h1 t' N. insert_color_loop g h' = Some h1 \<and> rb_rep h1 t' \<and> elems t' = elems (plug cs2 ?t) \<and> rbh t' N \<and>
        invc (paint RB_BLACK t')"
        using less.prems(4) inv by (intro less.hyps [OF _ h'(2), where n = "Suc n"]) (auto simp: cs invc_paint)
      moreover have "elems (plug cs2 ?t) = elems (plug cs t)" by (simp add: cs elems_plug elems_dnode)
      ultimately show ?thesis using h'(1) by simp
    next
      case RB_BLACK
      have "plug cs t = plug cs2 (dnode e (dnode d t (p, RB_RED) s) (g, RB_BLACK) u)" by (simp add: cs)
      then show ?thesis
        using insert_rotate_repairs [OF turn rep' x red RB_BLACK inv(1) less.prems(4) inv(2-4) less.prems(5) inv(5-7)] by simp
    qed
  qed
qed

lemma rb_rep_root_color:
  assumes "rb_rep h t" and "t \<noteq> Leaf"
  shows "\<exists>root. rbh_root h = Some root \<and> rb_rep (rb_set_color root k h) (paint k t)"
proof -
  obtain a x c b where t: "t = dnode LFT a (x, c) b" using dnode_cases [of t LFT] assms(2) by blast
  then show ?thesis using rb_rep_root [OF assms(1)] rb_rep_recolor [of h "[]" LFT a x c b k] assms(1) by auto
qed

lemma RB_INSERT_COLOR_repairs:
  assumes "rb_rep h (plug cs (Node Leaf (x, RB_RED) Leaf))" and "rb_valid (plug cs Leaf)"
  shows "\<exists>h' t'. RB_INSERT_COLOR x h = Some h' \<and> rb_rep h' t' \<and> rb_valid t' \<and> elems t' = before cs @ x # behind cs"
proof -
  let ?t = "Node Leaf (x, RB_RED) Leaf"
  have inv: "ctx_bh cs 0" "ctx_c cs" "root_color cs RB_BLACK = RB_BLACK" using assms(2) by (simp_all add: rb_valid_plug)
  obtain h1 t1 N where 1: "insert_color_loop x h = Some h1" "rb_rep h1 t1" "elems t1 = elems (plug cs ?t)" "rbh t1 N"
    "invc (paint RB_BLACK t1)"
    using insert_color_loop_repairs [OF assms(1), of x 0] inv by auto
  have "t1 \<noteq> Leaf" using 1(3) by (auto simp: elems_plug)
  then obtain root where r: "rbh_root h1 = Some root" "rb_rep (rb_set_color root RB_BLACK h1) (paint RB_BLACK t1)"
    using rb_rep_root_color [OF 1(2)] by blast
  show ?thesis
    using 1 r rb_valid_paint [OF 1(5,4)] by (auto simp: RB_INSERT_COLOR_def elems_plug)
qed

section \<open>Search and insertion\<close>

text \<open>A context around the place of \<open>k\<close>: everything before is smaller, everything behind greater.\<close>

definition around :: "(loc \<Rightarrow> 'k :: linorder) \<Rightarrow> 'k \<Rightarrow> frame list \<Rightarrow> bool" where
  "around key k cs \<longleftrightarrow> (\<forall>y \<in> set (before cs). key y < k) \<and> (\<forall>y \<in> set (behind cs). k < key y)"

lemma around_Nil [simp]: "around key k []"
  by (simp add: around_def)

lemma around_down:
  assumes "ordered_by key (elems (plug cs (Node l (x, c) r)))" and "around key k cs"
  shows "k < key x \<Longrightarrow> around key k ((LFT, x, c, r) # cs) \<and> (\<forall>y \<in> addrs r. key y \<noteq> k)"
    and "key x < k \<Longrightarrow> around key k ((RGT, x, c, l) # cs) \<and> (\<forall>y \<in> addrs l. key y \<noteq> k)"
proof -
  have o: "\<forall>y \<in> addrs l. key y < key x" "\<forall>y \<in> addrs r. key x < key y"
    using assms(1) by (simp_all add: elems_plug sorted_wrt_append)
  then show "k < key x \<Longrightarrow> around key k ((LFT, x, c, r) # cs) \<and> (\<forall>y \<in> addrs r. key y \<noteq> k)"
    "key x < k \<Longrightarrow> around key k ((RGT, x, c, l) # cs) \<and> (\<forall>y \<in> addrs l. key y \<noteq> k)"
    using assms(2) less_trans unfolding around_def by fastforce+
qed

fun side_ok :: "int \<Rightarrow> frame list \<Rightarrow> bool" where
  "side_ok k [] = True"
| "side_ok k ((d, x, c, s) # cs) = (k < 0 \<longleftrightarrow> d = LFT)"

lemma insert_loop_finds:
  fixes key :: "loc \<Rightarrow> 'k :: linorder"
  assumes cmp: "cmp_agrees cmp key"
  shows "rb_rep h (plug cs t) \<Longrightarrow> ordered_by key (elems (plug cs t)) \<Longrightarrow> around key (key e) cs \<Longrightarrow> side_ok k cs \<Longrightarrow>
    (\<exists>y \<in> addrs t. key y = key e \<and> insert_loop cmp e (root_ptr t) (top_ptr cs) k h = Some (Inl y)) \<or>
    (\<forall>y \<in> addrs t. key y \<noteq> key e) \<and>
    (\<exists>cs' k'. insert_loop cmp e (root_ptr t) (top_ptr cs) k h = Some (Inr (top_ptr cs', k')) \<and> plug cs' Leaf = plug cs t \<and>
       around key (key e) cs' \<and> side_ok k' cs')"
proof (induction t arbitrary: cs k)
  case Leaf
  then show ?case by (subst (1 2) insert_loop.simps) auto
next
  case (Node l ex r)
  obtain x c where ex: "ex = (x, c)" by (cases ex)
  note read = rb_rep_read_node(3,4) [OF Node.prems(1) [unfolded ex]]
  note down = around_down [OF Node.prems(2) [unfolded ex] Node.prems(3)]
  have repl: "rb_rep h (plug ((LFT, x, c, r) # cs) l)" "rb_rep h (plug ((RGT, x, c, l) # cs) r)"
    using Node.prems(1) by (simp_all add: ex dnode_def)
  have ordl: "ordered_by key (elems (plug ((LFT, x, c, r) # cs) l))" "ordered_by key (elems (plug ((RGT, x, c, l) # cs) r))"
    using Node.prems(2) by (simp_all add: ex dnode_def)
  have plug: "plug ((LFT, x, c, r) # cs) l = plug cs (Node l ex r)" "plug ((RGT, x, c, l) # cs) r = plug cs (Node l ex r)"
    by (simp_all add: ex dnode_def)
  consider "key e < key x" | "key x < key e" | "key x = key e" by (meson linorder_less_linear)
  then show ?case
  proof cases
    case 1
    then have step: "insert_loop cmp e (root_ptr (Node l ex r)) (top_ptr cs) k h =
      insert_loop cmp e (root_ptr l) (top_ptr ((LFT, x, c, r) # cs)) (cmp e x) h"
      using cmp read by (subst insert_loop.simps) (simp add: ex)
    show ?thesis
      unfolding step plug(1) [symmetric]
      using Node.IH(1) [OF repl(1) ordl(1), of "cmp e x"] down(1) [OF 1] 1 cmp by (auto simp: ex)
  next
    case 2
    have nl: "\<not> key e < key x" using 2 by auto
    with 2 have step: "insert_loop cmp e (root_ptr (Node l ex r)) (top_ptr cs) k h =
      insert_loop cmp e (root_ptr r) (top_ptr ((RGT, x, c, l) # cs)) (cmp e x) h"
      using cmp read by (subst insert_loop.simps) (simp add: ex)
    show ?thesis
      unfolding step plug(2) [symmetric]
      using Node.IH(2) [OF repl(2) ordl(2), of "cmp e x"] down(2) [OF 2] 2 nl cmp by (auto simp: ex)
  next
    case 3
    then show ?thesis using cmp by (subst (1 2) insert_loop.simps) (auto simp: ex)
  qed
qed

text \<open>Linking a new red element where the search ended.\<close>

lemma rb_rep_link:
  assumes "rb_rep h (plug cs Leaf)" and "e \<notin> addrs (plug cs Leaf)" and "side_ok k cs"
    and h1: "h1 = RB_SET e (top_ptr cs) h"
  shows "rb_rep (case top_ptr cs of
        Some p \<Rightarrow> if k < 0 then rb_set_left p (Some e) h1 else rb_set_right p (Some e) h1
      | None \<Rightarrow> h1\<lparr>rbh_root := Some e\<rparr>) (plug cs (Node Leaf (e, RB_RED) Leaf))"
proof -
  have set: "h1 = rb_set_color e RB_RED (set_child LFT e None (set_child RGT e None (rb_set_parent e (top_ptr cs) h)))"
    by (simp add: h1 RB_SET_def)
  have e: "child d h1 e = None" "rbe_parent h1 e = top_ptr cs" "rbe_color h1 e = RB_RED" for d
    by (cases d; simp add: set del: child.simps set_child.simps)+
  have ag: "agree h h1 S" if "e \<notin> S" for S
    using that by (simp add: set del: set_child.simps)
  show ?thesis
  proof (cases cs rule: top_ptr.cases)
    case 1
    then show ?thesis using e(1) [of LFT] e(1) [of RGT] e(2,3) by (simp add: rb_rep_def)
  next
    case (2 d p c s cs1)
    let ?h2 = "set_child d p (Some e) h1"
    have ne: "e \<noteq> p" "e \<notin> addrs s" "e \<notin> ctx_addrs cs1" "p \<notin> addrs s" "p \<notin> ctx_addrs cs1"
      using assms(1,2) by (auto simp: 2 rb_rep_plug)
    have ag2: "agree h ?h2 (addrs s)" "agree h ?h2 (ctx_addrs cs1)" using ne ag by simp_all
    have p: "child d' h1 p = child d' h p" "rbe_parent h1 p = rbe_parent h p" "rbe_color h1 p = rbe_color h p"
      "rbh_root h1 = rbh_root h" for d'
      using ne(1) by (simp_all add: set del: set_child.simps)
    have "rb_rep ?h2 (plug cs (dnode d Leaf (e, RB_RED) Leaf))"
      using assms(1) ne e p by (simp add: 2 rb_rep_plug rb_at_agree [OF ag2(1)] ctx_at_agree [OF ag2(2)] del: set_child.simps)
    moreover have "(if k < 0 then rb_set_left p (Some e) h1 else rb_set_right p (Some e) h1) = ?h2"
      using assms(3) by (cases d) (auto simp: 2)
    ultimately show ?thesis by (simp add: 2 dnode_def)
  qed
qed

lemma RB_INSERT_ok:
  assumes cmp: "cmp_agrees cmp key" and rep: "rb_rep h t" and "rb_valid t" and ord: "ordered_by key (elems t)"
  shows "(\<exists>y \<in> addrs t. key y = key e \<and> RB_INSERT cmp e h = Some (Some y, h)) \<or>
    (\<forall>y \<in> addrs t. key y \<noteq> key e) \<and>
    (\<exists>h' t'. RB_INSERT cmp e h = Some (None, h') \<and> rb_rep h' t' \<and> rb_valid t' \<and> elems t' = insort_key key e (elems t))"
proof -
  have f: "(\<exists>y \<in> addrs t. key y = key e \<and> insert_loop cmp e (rbh_root h) None 0 h = Some (Inl y)) \<or>
    (\<forall>y \<in> addrs t. key y \<noteq> key e) \<and>
    (\<exists>cs' k'. insert_loop cmp e (rbh_root h) None 0 h = Some (Inr (top_ptr cs', k')) \<and> plug cs' Leaf = t \<and>
       around key (key e) cs' \<and> side_ok k' cs')"
    using insert_loop_finds [OF cmp, of h "[]" t e 0] rep ord rb_rep_root [OF rep] by simp
  show ?thesis
  proof (cases "\<exists>y \<in> addrs t. key y = key e")
    case True
    then show ?thesis using f by (auto simp: RB_INSERT_def)
  next
    case False
    then obtain cs' k' where new: "insert_loop cmp e (rbh_root h) None 0 h = Some (Inr (top_ptr cs', k'))" "plug cs' Leaf = t"
      "around key (key e) cs'" "side_ok k' cs'" using f by auto
    let ?h1 = "RB_SET e (top_ptr cs') h"
    let ?h2 = "case top_ptr cs' of
        Some p \<Rightarrow> if k' < 0 then rb_set_left p (Some e) ?h1 else rb_set_right p (Some e) ?h1
      | None \<Rightarrow> ?h1\<lparr>rbh_root := Some e\<rparr>"
    have "e \<notin> addrs t" using False by auto
    then have h2: "rb_rep ?h2 (plug cs' (Node Leaf (e, RB_RED) Leaf))"
      using rb_rep_link [of h cs' e k', OF _ _ new(4) refl] rep new(2) by simp
    obtain h' t' where h': "RB_INSERT_COLOR e ?h2 = Some h'" "rb_rep h' t'" "rb_valid t'" "elems t' = before cs' @ e # behind cs'"
      using RB_INSERT_COLOR_repairs [OF h2] assms(3) new(2) by auto
    have "elems t = before cs' @ behind cs'" using new(2) elems_plug [of cs' Leaf] by simp
    then have "elems t' = insort_key key e (elems t)"
      using h'(4) new(3) insort_key_split [of "before cs'" key e "behind cs'"] by (simp add: around_def)
    moreover have "RB_INSERT cmp e h = Some (None, h')"
      using new(1) h'(1) by (simp add: RB_INSERT_def)
    ultimately show ?thesis using False h'(2,3) by blast
  qed
qed

end
