(* ===== verification/RBRemove.thy ===== *)
theory RBRemove
  imports RBInsert
begin

text \<open>
  Removal: the repair loop of \<open>RB_REMOVE_COLOR\<close>, for a subtree whose black height is one too
  small, and \<open>RB_REMOVE\<close>, which takes exactly one element out of the sequence.
\<close>

section \<open>A turn of the repair loop\<close>

text \<open>
  The body of the loop, \<open>d\<close> being the side of \<open>parent\<close> that \<open>elm\<close> is on. \<open>remove_sibling\<close> is what follows once
  the sibling \<open>tmp\<close> is black.
\<close>

definition remove_finish :: "dir \<Rightarrow> loc \<Rightarrow> loc \<Rightarrow> rb_heap \<Rightarrow> remove_turn option" where
  "remove_finish d parent tmp h = do {
     let h3 = rb_set_color parent RB_BLACK (rb_set_color tmp (rbe_color h parent) h);
     let h4 = if_elem (child (opp d) h3 tmp) (\<lambda>x. rb_set_color x RB_BLACK) h3;
     h5 \<leftarrow> rb_rotate d parent h4;
     Some (Inl (rbh_root h5), h5)
   }"

definition remove_sibling :: "dir \<Rightarrow> loc \<Rightarrow> loc \<Rightarrow> rb_heap \<Rightarrow> remove_turn option" where
  "remove_sibling d parent tmp h =
     (if is_black h (child d h tmp) \<and> is_black h (child (opp d) h tmp)
      then let h2 = rb_set_color tmp RB_RED h in Some (Inr (rbe_parent h2 parent, Some parent), h2)
      else do {
        (tmp2, h2) \<leftarrow>
          (if is_black h (child (opp d) h tmp) then do {
             let ha = if_elem (child d h tmp) (\<lambda>x. rb_set_color x RB_BLACK) h;
             hb \<leftarrow> rb_rotate (opp d) tmp (rb_set_color tmp RB_RED ha);
             Some (child (opp d) hb parent, hb)
           } else Some (Some tmp, h));
        tmp' \<leftarrow> tmp2;
        remove_finish d parent tmp' h2
      })"

definition remove_side :: "dir \<Rightarrow> loc \<Rightarrow> rb_heap \<Rightarrow> remove_turn option" where
  "remove_side d parent h = do {
     tmp0 \<leftarrow> child (opp d) h parent;
     (tmp1, h1) \<leftarrow>
       (if rbe_color h tmp0 = RB_RED then do {
          h1 \<leftarrow> rb_rotate d parent (RB_SET_BLACKRED tmp0 parent h);
          Some (child (opp d) h1 parent, h1)
        } else Some (Some tmp0, h));
     tmp \<leftarrow> tmp1;
     remove_sibling d parent tmp h1
   }"

lemma remove_color_side: "remove_color_left = remove_side LFT" "remove_color_right = remove_side RGT"
  by (simp_all add: fun_eq_iff remove_color_left_def remove_color_right_def remove_side_def remove_sibling_def remove_finish_def
      RB_ROTATE_rotate conj_commute cong: if_cong)

section \<open>Trees with a subtree that is too low\<close>

definition deficient :: "frame list \<Rightarrow> rbt \<Rightarrow> bool" where
  "deficient cs t \<longleftrightarrow> ctx_c cs \<and> invc (paint RB_BLACK t) \<and> (\<exists>n. rbh t n \<and> ctx_bh cs (Suc n)) \<and>
     root_color cs RB_BLACK = RB_BLACK"

lemma deficient_done: "deficient cs t \<Longrightarrow> cs = [] \<or> color_of t = RB_RED \<Longrightarrow> rb_valid (plug cs (paint RB_BLACK t))"
  using rbh_paint [of t] rbh_paint_ex [of t] by (auto simp: deficient_def rb_valid_plug)

lemma rb_rep_finish:
  assumes rep: "rb_rep h (plug cs (dnode d t (p, cp) (dnode d a (y, cy) b)))" and "color_of b = RB_RED"
  shows "\<exists>h'. remove_finish d p y h = Some (Inl (rbh_root h'), h') \<and>
    rb_rep h' (plug cs (dnode d (dnode d t (p, RB_BLACK) a) (y, cp) (paint RB_BLACK b)))"
proof -
  from assms(2) obtain b1 w b2 where b: "b = dnode d b1 (w, RB_RED) b2"
    using dnode_cases [of b d] by auto
  let ?h1 = "rb_set_color y cp h" and ?h3 = "rb_set_color p RB_BLACK (rb_set_color y cp h)"
  have "rb_rep h (plug ((opp d, p, cp, t) # cs) (dnode d a (y, cy) b))" using rep by (simp add: dnode_opp)
  from rb_rep_recolor [OF this, of cp] have 1: "rb_rep ?h1 (plug cs (dnode d t (p, cp) (dnode d a (y, cp) b)))"
    by (simp add: dnode_opp)
  from rb_rep_recolor [OF this, of RB_BLACK] have 3: "rb_rep ?h3 (plug cs (dnode d t (p, RB_BLACK) (dnode d a (y, cp) b)))" .
  then have y: "rb_rep ?h3 (plug ((opp d, p, RB_BLACK, t) # cs) (dnode d a (y, cp) b))" by (simp add: dnode_opp)
  have w: "child (opp d) ?h3 y = Some w" using rb_rep_read(4) [OF y] by (simp add: b)
  have "rb_rep ?h3 (plug ((opp d, y, cp, a) # (opp d, p, RB_BLACK, t) # cs) b)" using y by (simp add: dnode_opp)
  from rb_rep_recolor [OF this [unfolded b], of RB_BLACK]
  have "rb_rep (rb_set_color w RB_BLACK ?h3) (plug cs (dnode d t (p, RB_BLACK) (dnode d a (y, cp) (paint RB_BLACK b))))"
    by (simp add: dnode_opp b)
  from rb_rep_rotate [OF this] rb_rep_read(2) [OF rep] w show ?thesis by (auto simp: remove_finish_def)
qed

text \<open>The near nephew is red and the far one black: the rotation that makes the far one red.\<close>

lemma rb_rep_near:
  assumes rep: "rb_rep h (plug cs (dnode d t (p, cp) (dnode d a (y, RB_BLACK) b)))" and a: "a = dnode d a1 (z, RB_RED) a2"
  shows "\<exists>h'. rb_rotate (opp d) y (rb_set_color y RB_RED (if_elem (child d h y) (\<lambda>x. rb_set_color x RB_BLACK) h)) = Some h' \<and>
    rb_rep h' (plug cs (dnode d t (p, cp) (dnode d a1 (z, RB_BLACK) (dnode d a2 (y, RB_RED) b)))) \<and> child (opp d) h' p = Some z"
proof -
  let ?cs = "(opp d, p, cp, t) # cs"
  have y: "rb_rep h (plug ?cs (dnode d a (y, RB_BLACK) b))" using rep by (simp add: dnode_opp)
  have z: "child d h y = Some z" using rb_rep_read(3) [OF y] by (simp add: a)
  have "rb_rep h (plug ((d, y, RB_BLACK, b) # ?cs) (dnode d a1 (z, RB_RED) a2))" using y by (simp add: a)
  from rb_rep_recolor [OF this, of RB_BLACK]
  have "rb_rep (rb_set_color z RB_BLACK h) (plug ?cs (dnode d (dnode d a1 (z, RB_BLACK) a2) (y, RB_BLACK) b))" by simp
  from rb_rep_recolor [OF this, of RB_RED]
  have "rb_rep (rb_set_color y RB_RED (rb_set_color z RB_BLACK h))
    (plug ?cs (dnode (opp d) b (y, RB_RED) (dnode (opp d) a2 (z, RB_BLACK) a1)))" by (simp add: dnode_opp)
  from rb_rep_rotate [OF this] obtain h' where
    h': "rb_rotate (opp d) y (rb_set_color y RB_RED (rb_set_color z RB_BLACK h)) = Some h'"
    "rb_rep h' (plug cs (dnode d t (p, cp) (dnode d a1 (z, RB_BLACK) (dnode d a2 (y, RB_RED) b))))"
    by (auto simp: dnode_opp)
  then show ?thesis using z rb_rep_read(4) [OF h'(2)] by simp
qed

text \<open>The repair with a red far nephew.\<close>

lemma remove_finish_ok:
  assumes "rb_rep h (plug cs (dnode d t (p, cp) (dnode d a (y, cy) b)))" and "color_of b = RB_RED"
    and "rbh t n" "rbh a n" "rbh b n" "ctx_bh cs (if cp = RB_BLACK then Suc (Suc n) else Suc n)"
    and "invc t" "invc a" "invc (paint RB_BLACK b)" "ctx_c cs" "cp = RB_RED \<Longrightarrow> top_color cs = RB_BLACK" "root_color cs cp = RB_BLACK"
  shows "\<exists>h' t'. remove_finish d p y h = Some (Inl (rbh_root h'), h') \<and> rb_rep h' t' \<and> rb_valid t' \<and>
    elems t' = elems (plug cs (dnode d t (p, cp) (dnode d a (y, cy) b)))"
proof -
  let ?T = "dnode d (dnode d t (p, RB_BLACK) a) (y, cp) (paint RB_BLACK b)"
  obtain h' where h': "remove_finish d p y h = Some (Inl (rbh_root h'), h')" "rb_rep h' (plug cs ?T)"
    using rb_rep_finish [OF assms(1,2)] by blast
  have "rbh ?T (if cp = RB_BLACK then Suc (Suc n) else Suc n)" using assms(2-5) by (simp add: rbh_paint)
  moreover have "invc ?T" using assms(7-9) by simp
  moreover have "rb_valid (plug cs T)" if "rbh T m" "ctx_bh cs m" "invc T" "color_of T = cp" for T m
    unfolding rb_valid_plug using that assms(10-12) by (cases cp) auto
  ultimately have "rb_valid (plug cs ?T)" using assms(6) by (meson dnode_colors(1))
  moreover have "elems (plug cs ?T) = elems (plug cs (dnode d t (p, cp) (dnode d a (y, cy) b)))"
    by (simp add: elems_plug elems_dnode)
  ultimately show ?thesis using h' by blast
qed

text \<open>
  With a black sibling the turn either repairs the tree or moves the deficiency up to \<open>parent\<close>.
\<close>

lemma remove_sibling_colors:
  assumes "rb_rep h (plug cs (dnode d t (p, cp) (dnode d a (y, RB_BLACK) b)))"
  shows "is_black h (child d h y) \<longleftrightarrow> color_of a = RB_BLACK" "is_black h (child (opp d) h y) \<longleftrightarrow> color_of b = RB_BLACK"
proof -
  have ry: "rb_rep h (plug ((opp d, p, cp, t) # cs) (dnode d a (y, RB_BLACK) b))" using assms by (simp add: dnode_opp)
  have ra: "rb_rep h (plug ((d, y, RB_BLACK, b) # (opp d, p, cp, t) # cs) a)" using ry by simp
  have rb: "rb_rep h (plug ((opp d, y, RB_BLACK, a) # (opp d, p, cp, t) # cs) b)" using ry by (simp add: dnode_opp)
  have red_iff: "(\<exists>l x r. u = Node l (x, RB_RED) r) \<longleftrightarrow> color_of u = RB_RED" for u
    by (cases u rule: color_of.cases) auto
  show "is_black h (child d h y) \<longleftrightarrow> color_of a = RB_BLACK" "is_black h (child (opp d) h y) \<longleftrightarrow> color_of b = RB_BLACK"
    using rb_rep_ptr_color(2) [OF ra] rb_rep_ptr_color(2) [OF rb] rb_rep_read(3,4) [OF ry] by (simp_all add: red_iff)
qed

text \<open>A sibling whose children are black is painted red, and the missing black moves up.\<close>

lemma remove_sibling_recolor:
  assumes rep: "rb_rep h (plug cs (dnode d t (p, cp) (dnode d a (y, RB_BLACK) b)))"
    and "deficient ((d, p, cp, dnode d a (y, RB_BLACK) b) # cs) t" and "color_of t = RB_BLACK"
    and col: "color_of a = RB_BLACK" "color_of b = RB_BLACK"
  shows "\<exists>h' T. remove_sibling d p y h = Some (Inr (top_ptr cs, Some p), h') \<and> rb_rep h' (plug cs T) \<and> root_ptr T = Some p \<and>
      color_of T = cp \<and> deficient cs T \<and> elems (plug cs T) = elems (plug cs (dnode d t (p, cp) (dnode d a (y, RB_BLACK) b)))"
proof -
  let ?T = "dnode d t (p, cp) (dnode d a (y, RB_RED) b)"
  have "rb_rep h (plug ((opp d, p, cp, t) # cs) (dnode d a (y, RB_BLACK) b))" using rep by (simp add: dnode_opp)
  from rb_rep_recolor [OF this, of RB_RED] have r: "rb_rep (rb_set_color y RB_RED h) (plug cs ?T)" by (simp add: dnode_opp)
  from rb_rep_read(1) [OF this]
  have "remove_sibling d p y h = Some (Inr (top_ptr cs, Some p), rb_set_color y RB_RED h)"
    using col remove_sibling_colors [OF rep] by (simp add: remove_sibling_def)
  moreover obtain n where n: "rbh t n" "rbh a n" "rbh b n" "ctx_bh cs (if cp = RB_BLACK then Suc (Suc n) else Suc n)"
    using assms(2) by (auto simp: deficient_def)
  have "rbh ?T (if cp = RB_BLACK then Suc n else n)" using n by simp
  have "root_color cs RB_BLACK = RB_BLACK" using assms(2) by (cases cs rule: top_color.cases) (auto simp: deficient_def)
  with \<open>rbh ?T _\<close> assms n have "deficient cs ?T" by (auto simp: deficient_def paint_black_id split: if_splits)
  moreover have "elems (plug cs ?T) = elems (plug cs (dnode d t (p, cp) (dnode d a (y, RB_BLACK) b)))"
    by (simp add: elems_plug elems_dnode)
  moreover have "root_ptr ?T = Some p" "color_of ?T = cp" by simp_all
  ultimately show ?thesis using r by blast
qed

lemma remove_sibling_ok:
  assumes rep: "rb_rep h (plug cs (dnode d t (p, cp) (dnode d a (y, RB_BLACK) b)))"
    and def: "deficient ((d, p, cp, dnode d a (y, RB_BLACK) b) # cs) t" and t: "color_of t = RB_BLACK"
  shows "(\<exists>h' T. remove_sibling d p y h = Some (Inr (top_ptr cs, Some p), h') \<and> rb_rep h' (plug cs T) \<and> root_ptr T = Some p \<and>
      color_of T = cp \<and> deficient cs T \<and> elems (plug cs T) = elems (plug cs (dnode d t (p, cp) (dnode d a (y, RB_BLACK) b)))) \<or>
    (\<exists>h' t'. remove_sibling d p y h = Some (Inl (rbh_root h'), h') \<and> rb_rep h' t' \<and> rb_valid t' \<and>
      elems t' = elems (plug cs (dnode d t (p, cp) (dnode d a (y, RB_BLACK) b))))"
proof -
  note blk = remove_sibling_colors [OF rep]
  obtain n where n: "rbh t n" "rbh a n" "rbh b n" "ctx_bh cs (if cp = RB_BLACK then Suc (Suc n) else Suc n)"
    using def by (auto simp: deficient_def)
  have inv: "invc t" "invc a" "invc b" "ctx_c cs" "cp = RB_RED \<Longrightarrow> top_color cs = RB_BLACK" "root_color cs cp = RB_BLACK"
    using def t by (auto simp: deficient_def paint_black_id)
  consider "color_of a = RB_BLACK" "color_of b = RB_BLACK" | "color_of b = RB_RED" | "color_of a = RB_RED" "color_of b = RB_BLACK"
    using rb_color.exhaust by metis
  then show ?thesis
  proof cases
    case 1
    show ?thesis by (rule disjI1) (rule remove_sibling_recolor [OF rep def t 1])
  next
    case 2
    then have "remove_sibling d p y h = remove_finish d p y h" using blk by (simp add: remove_sibling_def)
    then show ?thesis using remove_finish_ok [OF rep 2 n inv(1,2) _ inv(4-6)] inv(3) invc_paint by simp
  next
    case 3
    then obtain a1 z a2 where a: "a = dnode d a1 (z, RB_RED) a2" using dnode_cases [of a d] by auto
    obtain h' where h': "rb_rotate (opp d) y (rb_set_color y RB_RED (if_elem (child d h y) (\<lambda>x. rb_set_color x RB_BLACK) h)) = Some h'"
      "rb_rep h' (plug cs (dnode d t (p, cp) (dnode d a1 (z, RB_BLACK) (dnode d a2 (y, RB_RED) b))))" "child (opp d) h' p = Some z"
      using rb_rep_near [OF rep a] by blast
    then have "remove_sibling d p y h = remove_finish d p z h'" using blk 3 by (simp add: remove_sibling_def)
    moreover have "\<exists>h'' t'. remove_finish d p z h' = Some (Inl (rbh_root h''), h'') \<and> rb_rep h'' t' \<and> rb_valid t' \<and>
      elems t' = elems (plug cs (dnode d t (p, cp) (dnode d a1 (z, RB_BLACK) (dnode d a2 (y, RB_RED) b))))"
      by (rule remove_finish_ok [OF h'(2)]) (use n inv 3 in \<open>auto simp: a\<close>)
    moreover have "elems (plug cs (dnode d t (p, cp) (dnode d a1 (z, RB_BLACK) (dnode d a2 (y, RB_RED) b)))) =
      elems (plug cs (dnode d t (p, cp) (dnode d a (y, RB_BLACK) b)))" by (simp add: a elems_plug elems_dnode)
    ultimately show ?thesis by simp
  qed
qed

section \<open>The repair loop\<close>

lemma root_plug: "cs \<noteq> [] \<Longrightarrow> \<exists>x \<in> ctx_addrs cs. root_ptr (plug cs t) = Some x"
proof (induction cs t rule: plug.induct)
  case (2 d x c s cs t)
  then show ?case by (cases "cs = []") auto
qed simp

text \<open>The loop goes on while the deficient subtree is black and not the whole tree.\<close>

lemma remove_color_loop_done:
  assumes "rb_rep h (plug cs t)" and "cs = [] \<or> color_of t = RB_RED"
  shows "remove_color_loop (top_ptr cs) (root_ptr t) h = Some (root_ptr t, h)"
proof -
  have "rbh_root h = root_ptr t" if "cs = []" using rb_rep_root [OF assms(1)] that by simp
  moreover have "\<not> is_black h (root_ptr t)" if "color_of t = RB_RED"
    using rb_rep_ptr_color(2) [OF assms(1)] that by (cases t rule: color_of.cases) auto
  ultimately show ?thesis using assms(2) by (subst remove_color_loop.simps) auto
qed

lemma remove_color_loop_turn:
  assumes rep: "rb_rep h (plug ((d, p, c, s) # cs) t)" and "color_of t = RB_BLACK" and "s \<noteq> Leaf"
  shows "remove_color_loop (Some p) (root_ptr t) h = do {
      (turn, h1) \<leftarrow> remove_side d p h;
      case turn of Inl elm1 \<Rightarrow> Some (elm1, h1) | Inr (parent1, elm1) \<Rightarrow> remove_color_loop parent1 elm1 h1 }"
proof -
  obtain r where r: "r \<in> ctx_addrs ((d, p, c, s) # cs)" "rbh_root h = Some r"
    using root_plug [of "(d, p, c, s) # cs" t] rb_rep_root [OF rep] by auto
  have dis: "addrs t \<inter> ctx_addrs ((d, p, c, s) # cs) = {}" using rep by (simp only: rb_rep_plug)
  then have 1: "root_ptr t \<noteq> rbh_root h" using r root_ptr_addrs [of t r] by auto
  have 2: "is_black h (root_ptr t)" using rb_rep_ptr_color(2) [OF rep] assms(2) by auto
  have "root_ptr s \<noteq> root_ptr t"
    using dis assms(3) root_ptr_addrs [of s] root_ptr_addrs [of t] by (cases "root_ptr s") fastforce+
  moreover have "rb_rep h (plug cs (dnode d t (p, c) s))" using rep by simp
  ultimately have "rbe_left h p = root_ptr t \<longleftrightarrow> d = LFT"
    using rb_rep_read(3,4) [of h cs d t p c s] by (cases d) auto
  then show ?thesis using 1 2 by (subst remove_color_loop.simps) (cases d; simp add: remove_color_side)
qed

lemma remove_side_black:
  assumes "rb_rep h (plug cs (dnode d t (p, cp) (dnode d a (y, RB_BLACK) b)))"
  shows "remove_side d p h = remove_sibling d p y h"
proof -
  have y: "rb_rep h (plug ((opp d, p, cp, t) # cs) (dnode d a (y, RB_BLACK) b))" using assms by (simp add: dnode_opp)
  show ?thesis using rb_rep_read(4) [OF assms] rb_rep_read(2) [OF y] by (simp add: remove_side_def)
qed

text \<open>A red sibling is rotated above \<open>parent\<close>, which gets a black child of it as its sibling.\<close>

lemma remove_side_red:
  assumes rep: "rb_rep h (plug cs (dnode d t (p, RB_BLACK) (dnode d (dnode d a1 (z, k) a2) (y, RB_RED) b)))"
  shows "\<exists>h1. remove_side d p h = remove_sibling d p z h1 \<and>
    rb_rep h1 (plug ((d, y, RB_BLACK, b) # cs) (dnode d t (p, RB_RED) (dnode d a1 (z, k) a2)))"
proof -
  let ?a = "dnode d a1 (z, k) a2"
  have y: "rb_rep h (plug ((opp d, p, RB_BLACK, t) # cs) (dnode d ?a (y, RB_RED) b))" using rep by (simp add: dnode_opp)
  have "rb_rep (RB_SET_BLACKRED y p h) (plug cs (dnode d t (p, RB_RED) (dnode d ?a (y, RB_BLACK) b)))"
    using rb_rep_blackred [of h cs "opp d" d ?a y RB_RED b p RB_BLACK t] rep by (simp add: dnode_opp)
  from rb_rep_rotate [OF this] obtain h1 where h1: "rb_rotate d p (RB_SET_BLACKRED y p h) = Some h1"
    "rb_rep h1 (plug ((d, y, RB_BLACK, b) # cs) (dnode d t (p, RB_RED) ?a))" by auto
  from rb_rep_read(4) [OF h1(2)] h1 rb_rep_read(4) [OF rep] rb_rep_read(2) [OF y] show ?thesis
    by (auto simp: remove_side_def)
qed

lemma deficient_sibling: "deficient ((d, p, c, s) # cs) t \<Longrightarrow> color_of t = RB_BLACK \<Longrightarrow> s \<noteq> Leaf"
  by (auto simp: deficient_def)

lemma remove_side_red_ok:
  assumes rep: "rb_rep h (plug cs (dnode d t (p, c) (dnode d a (y, RB_RED) b)))"
    and def: "deficient ((d, p, c, dnode d a (y, RB_RED) b) # cs) t" and t: "color_of t = RB_BLACK"
  shows "(\<exists>h' cs' T. remove_side d p h = Some (Inr (top_ptr cs', Some p), h') \<and> rb_rep h' (plug cs' T) \<and> root_ptr T = Some p \<and>
      color_of T = RB_RED \<and> deficient cs' T \<and> elems (plug cs' T) = elems (plug cs (dnode d t (p, c) (dnode d a (y, RB_RED) b)))) \<or>
    (\<exists>h' t'. remove_side d p h = Some (Inl (rbh_root h'), h') \<and> rb_rep h' t' \<and> rb_valid t' \<and>
      elems t' = elems (plug cs (dnode d t (p, c) (dnode d a (y, RB_RED) b))))"
proof -
  have c: "c = RB_BLACK" using def by (auto simp: deficient_def)
  have "color_of a = RB_BLACK" "a \<noteq> Leaf" using def by (auto simp: deficient_def c)
  then obtain a1 z a2 where a: "a = dnode d a1 (z, RB_BLACK) a2" using dnode_cases [of a d] by auto
  let ?cs = "(d, y, RB_BLACK, b) # cs"
  obtain h1 where h1: "remove_side d p h = remove_sibling d p z h1"
    "rb_rep h1 (plug ?cs (dnode d t (p, RB_RED) (dnode d a1 (z, RB_BLACK) a2)))"
    using remove_side_red [of h cs d t p a1 z RB_BLACK a2 y b] rep by (auto simp: c a)
  have "deficient ((d, p, RB_RED, dnode d a1 (z, RB_BLACK) a2) # ?cs) t" using def by (auto simp: deficient_def c a)
  moreover have "elems (plug ?cs (dnode d t (p, RB_RED) (dnode d a1 (z, RB_BLACK) a2))) =
      elems (plug cs (dnode d t (p, c) (dnode d a (y, RB_RED) b)))"
    by (simp add: a elems_plug elems_dnode)
  ultimately show ?thesis using remove_sibling_ok [OF h1(2) _ t] unfolding h1(1) by (metis (no_types))
qed

text \<open>What the loop has to reach: a valid tree, but for the colour of the element it stops at.\<close>

definition repaired :: "ptr \<Rightarrow> ptr \<Rightarrow> rb_heap \<Rightarrow> loc list \<Rightarrow> bool" where
  "repaired parent elm h xs \<longleftrightarrow> (\<exists>h' cs' t'. remove_color_loop parent elm h = Some (root_ptr t', h') \<and>
     rb_rep h' (plug cs' t') \<and> elems (plug cs' t') = xs \<and> rb_valid (plug cs' (paint RB_BLACK t')))"

lemma repaired_done:
  "rb_rep h (plug cs t) \<Longrightarrow> deficient cs t \<Longrightarrow> cs = [] \<or> color_of t = RB_RED \<Longrightarrow>
   repaired (top_ptr cs) (root_ptr t) h (elems (plug cs t))"
  using remove_color_loop_done deficient_done unfolding repaired_def by blast

lemma repaired_finish:
  assumes "remove_color_loop parent elm h = Some (rbh_root h', h')" "rb_rep h' t'" "rb_valid t'"
  shows "repaired parent elm h (elems t')"
proof -
  have "rb_rep h' (plug [] t')" "rb_valid (plug [] (paint RB_BLACK t'))"
    using assms(2,3) by (simp_all add: paint_black_id rb_valid_def)
  then show ?thesis using assms(1) rb_rep_root [OF assms(2)] unfolding repaired_def by fastforce
qed

lemma remove_color_loop_repairs:
  "rb_rep h (plug cs t) \<Longrightarrow> deficient cs t \<Longrightarrow> repaired (top_ptr cs) (root_ptr t) h (elems (plug cs t))"
proof (induction "length cs" arbitrary: cs t h rule: less_induct)
  case less
  note rep = less.prems(1) and def = less.prems(2)
  show ?case
  proof (cases "cs = [] \<or> color_of t = RB_RED")
    case False
    then obtain d p c s cs1 where cs: "cs = (d, p, c, s) # cs1" by (metis neq_Nil_conv prod_cases4)
    have t: "color_of t = RB_BLACK" using False by simp
    have s: "s \<noteq> Leaf" using deficient_sibling def t by (simp add: cs)
    then obtain a y k b where s_eq: "s = dnode d a (y, k) b" using dnode_cases by blast
    note turn = remove_color_loop_turn [OF rep [unfolded cs] t s]
    have rep': "rb_rep h (plug cs1 (dnode d t (p, c) (dnode d a (y, k) b)))" using rep by (simp add: cs s_eq)
    have e: "elems (plug cs1 (dnode d t (p, c) (dnode d a (y, k) b))) = elems (plug cs t)" by (simp add: cs s_eq)
    consider
        h' cs' T where "remove_side d p h = Some (Inr (top_ptr cs', Some p), h')" "rb_rep h' (plug cs' T)" "root_ptr T = Some p"
          "deficient cs' T" "elems (plug cs' T) = elems (plug cs t)" "color_of T = RB_RED \<or> cs' = cs1"
      | h' t' where "remove_side d p h = Some (Inl (rbh_root h'), h')" "rb_rep h' t'" "rb_valid t'" "elems t' = elems (plug cs t)"
      using remove_sibling_ok [of h cs1 d t p c a y b] remove_side_red_ok [of h cs1 d t p c a y b] remove_side_black [of h cs1 d t p c a y b]
        rep' def t e by (cases k) (auto simp: cs s_eq)
    then show ?thesis
    proof cases
      case 1
      have "repaired (top_ptr cs') (root_ptr T) h' (elems (plug cs' T))"
        using 1(6) repaired_done [OF 1(2,4)] less.hyps [OF _ 1(2,4)] by (auto simp: cs)
      then show ?thesis using turn 1(1,3,5) by (simp add: repaired_def cs)
    next
      case 2
      then show ?thesis using repaired_finish [OF _ 2(2,3)] turn by (simp add: cs)
    qed
  qed (use repaired_done [OF rep def] in blast)
qed

lemma RB_REMOVE_COLOR_repairs:
  assumes "rb_rep h (plug cs t)" and "deficient cs t"
  shows "\<exists>h' t'. RB_REMOVE_COLOR (top_ptr cs) (root_ptr t) h = Some h' \<and> rb_rep h' t' \<and> rb_valid t' \<and>
    elems t' = elems (plug cs t)"
proof -
  obtain h' cs' t' where l: "remove_color_loop (top_ptr cs) (root_ptr t) h = Some (root_ptr t', h')" "rb_rep h' (plug cs' t')"
    "elems (plug cs' t') = elems (plug cs t)" "rb_valid (plug cs' (paint RB_BLACK t'))"
    using remove_color_loop_repairs [OF assms] unfolding repaired_def by blast
  have "rb_rep (if_elem (root_ptr t') (\<lambda>x. rb_set_color x RB_BLACK) h') (plug cs' (paint RB_BLACK t'))"
  proof (cases "t' = Leaf")
    case False
    then obtain a x k b where "t' = dnode LFT a (x, k) b" using dnode_cases [of t' LFT] by blast
    then show ?thesis using rb_rep_recolor [of h' cs' LFT a x k b RB_BLACK] l(2) by simp
  qed (use l in simp)
  then show ?thesis using l by (auto simp: RB_REMOVE_COLOR_def elems_plug)
qed

section \<open>Unlinking\<close>

lemma plug_append: "plug (cs @ ds) t = plug ds (plug cs t)"
  by (induction cs t rule: plug.induct) auto

lemma in_addrs_plug: "x \<in> addrs t \<Longrightarrow> \<exists>cs l c r. t = plug cs (Node l (x, c) r)"
proof (induction t)
  case (Node l e r)
  obtain y k where e: "e = (y, k)" by (cases e)
  then consider "y = x" | "x \<in> addrs l" | "x \<in> addrs r" using Node.prems by auto
  then show ?case
  proof cases
    case 1
    then show ?thesis by (intro exI [of _ "[]"]) (simp add: e)
  next
    case 2
    then obtain cs a c b where "l = plug cs (Node a (x, c) b)" using Node.IH(1) by blast
    then have "Node l e r = plug (cs @ [(LFT, y, k, r)]) (Node a (x, c) b)" by (simp add: e plug_append dnode_def)
    then show ?thesis by blast
  next
    case 3
    then obtain cs a c b where "r = plug cs (Node a (x, c) b)" using Node.IH(2) by blast
    then have "Node l e r = plug (cs @ [(RGT, y, k, l)]) (Node a (x, c) b)" by (simp add: e plug_append dnode_def)
    then show ?thesis by blast
  qed
qed simp

lemma rb_rep_unlink:
  assumes rep: "rb_rep h (plug cs (dnode d t (x, k) Leaf))"
  shows "rb_rep (relink (top_ptr cs) x (root_ptr t) (if_elem (root_ptr t) (\<lambda>x. rb_set_parent x (top_ptr cs)) h)) (plug cs t)"
proof -
  let ?h1 = "if_elem (root_ptr t) (\<lambda>x. rb_set_parent x (top_ptr cs)) h"
  let ?h' = "relink (top_ptr cs) x (root_ptr t) ?h1"
  have ctx: "ctx_at h cs (Some x)" "ctx_dist cs" "x \<notin> ctx_addrs cs" "dist t" "addrs t \<inter> ctx_addrs cs = {}"
    and t: "rb_at h (root_ptr t) (Some x) t"
    using rep rb_at_root_iff [of h "child d h x" "Some x" t] by (auto simp: rb_rep_plug)
  have "\<And>z. root_ptr t = Some z \<Longrightarrow> z \<notin> ctx_addrs cs" using ctx(5) root_ptr_addrs by blast
  then have "agree h ?h1 (ctx_addrs cs)" by simp
  then have "ctx_at ?h1 cs (Some x)" using ctx(1) by (simp add: ctx_at_agree)
  then have 1: "ctx_at ?h' cs (root_ptr t)" using relink_ctx ctx(2,3) by blast
  have "\<And>p. top_ptr cs = Some p \<Longrightarrow> p \<notin> addrs t" using ctx(5) top_ptr_addrs by blast
  then have "agree ?h1 ?h' (addrs t)" by simp
  then have "rb_at ?h' (root_ptr t) (top_ptr cs) t"
    using rb_at_agree rb_at_reparent [OF t ctx(4)] by blast
  then show ?thesis using 1 ctx by (simp add: rb_rep_plug)
qed

lemma remove_outer_rep:
  assumes "rb_rep h (plug cs (dnode d t (x, k) Leaf))"
  shows "\<exists>h'. remove_outer x (root_ptr t) h = (k, top_ptr cs, root_ptr t, h') \<and> rb_rep h' (plug cs t)"
  using rb_rep_unlink [OF assms] rb_rep_read(1,2) [OF assms] by (simp add: remove_outer_def Let_def)

text \<open>What is left to repair when an element with at most one child has been unlinked.\<close>

lemma unlinked_valid:
  assumes "rb_valid (plug cs (dnode d t (x, k) Leaf))"
  shows "if k = RB_RED then rb_valid (plug cs t) else deficient cs t"
proof -
  obtain n where n: "rbh (dnode d t (x, k) Leaf) n" "ctx_bh cs n" using assms by (auto simp: rb_valid_plug)
  have inv: "ctx_c cs" "invc t" "k = RB_RED \<Longrightarrow> color_of t = RB_BLACK" "k = RB_RED \<Longrightarrow> cs \<noteq> []" "root_color cs k = RB_BLACK"
    using assms by (auto simp: rb_valid_plug)
  then have "root_color cs c = RB_BLACK" if "cs \<noteq> []" for c using that by (cases cs rule: top_color.cases) auto
  then have rc: "root_color cs RB_BLACK = RB_BLACK" "k = RB_RED \<Longrightarrow> root_color cs (color_of t) = RB_BLACK"
    using inv(4) by (cases cs; simp)+
  show ?thesis
  proof (cases k)
    case RB_RED
    then show ?thesis using n inv rc(2) by (auto simp: rb_valid_plug)
  next
    case RB_BLACK
    then obtain m where "n = Suc m" "rbh t m" using n(1) by (cases n) auto
    then show ?thesis using RB_BLACK n(2) inv(1,2) rc(1) invc_paint by (auto simp: deficient_def)
  qed
qed

section \<open>Replacing an element by its successor\<close>

lemma rb_leftmost_plug:
  "rb_rep h (plug cs t) \<Longrightarrow> root_ptr t = Some x \<Longrightarrow>
   \<exists>ds y k r. t = plug ds (Node Leaf (y, k) r) \<and> before ds = [] \<and> rb_leftmost x h = Some y"
proof (induction t arbitrary: cs x)
  case (Node l e r)
  obtain k where e: "e = (x, k)" using Node.prems(2) by (cases e) auto
  note read = rb_rep_read_node(3) [OF Node.prems(1) [unfolded e]]
  show ?case
  proof (cases "root_ptr l")
    case None
    then have "rb_leftmost x h = Some x" using read by (subst rb_leftmost.simps) simp
    moreover have "Node l e r = plug [] (Node Leaf (x, k) r)" using None by (simp add: e)
    ultimately show ?thesis by (metis before.simps(1))
  next
    case (Some z)
    have "rb_rep h (plug ((LFT, x, k, r) # cs) l)" using Node.prems(1) by (simp add: e dnode_def)
    from Node.IH(1) [OF this Some] obtain ds y k' r' where
      ds: "l = plug ds (Node Leaf (y, k') r')" "before ds = []" "rb_leftmost z h = Some y" by blast
    have "rb_leftmost x h = Some y" using read Some ds(3) by (subst rb_leftmost.simps) simp
    moreover have "before (ds @ [(LFT, x, k, r)]) = []"
      using ds(2) by (induction ds rule: before.induct) (auto split: if_split_asm)
    moreover have "Node l e r = plug (ds @ [(LFT, x, k, r)]) (Node Leaf (y, k') r')"
      by (simp add: e plug_append ds(1) dnode_def)
    ultimately show ?thesis by blast
  qed
qed simp

lemma augment_loop_ends:
  "rb_rep h (plug cs t) \<Longrightarrow> top_ptr cs = Some q \<Longrightarrow> augment_loop q h = Some h"
proof (induction cs t arbitrary: q rule: plug.induct)
  case (2 d x c s cs t)
  have rep: "rb_rep h (plug cs (dnode d t (x, c) s))" using 2 by simp
  have q: "q = x" using 2 by simp
  show ?case
    using rb_rep_read(1) [OF rep] "2.IH" [OF rep] q by (subst augment_loop.simps) (simp split: option.split)
qed simp

text \<open>The element \<open>y\<close>, linked nowhere, takes the place of \<open>old\<close>.\<close>

lemma copy_entry_child: "copy_entry y old h =
  rb_set_color y (rbe_color h old) (rb_set_parent y (rbe_parent h old)
    (set_child RGT y (child RGT h old) (set_child LFT y (child LFT h old) h)))"
  by (simp add: copy_entry_def)

lemma rb_rep_replace:
  assumes rep: "rb_rep h (plug cs (Node l (old, c) r))" and y: "y \<notin> addrs (plug cs (Node l (old, c) r))"
    and h4: "h4 = relink (top_ptr cs) old (Some y) (copy_entry y old h)"
    and h6: "h6 = if_elem (root_ptr r) (\<lambda>x. rb_set_parent x (Some y)) (if_elem (root_ptr l) (\<lambda>x. rb_set_parent x (Some y)) h4)"
  shows "rb_rep h6 (plug cs (Node l (y, c) r))"
proof -
  define h3 where "h3 = copy_entry y old h"
  define h5 where "h5 = if_elem (root_ptr l) (\<lambda>x. rb_set_parent x (Some y)) h4"
  have dis: "ctx_dist cs" "old \<notin> ctx_addrs cs" "dist l" "dist r" "addrs l \<inter> addrs r = {}"
    "(addrs l \<union> addrs r) \<inter> ctx_addrs cs = {}" "y \<notin> addrs l" "y \<notin> addrs r" "y \<noteq> old" "y \<notin> ctx_addrs cs"
    using rep y by (auto simp: rb_rep_plug)
  have ctx: "ctx_at h cs (Some old)" and lr: "rb_at h (root_ptr l) (Some old) l" "rb_at h (root_ptr r) (Some old) r"
    using rep rb_at_root_iff [of h "rbe_left h old" "Some old" l] rb_at_root_iff [of h "rbe_right h old" "Some old" r]
    by (auto simp: rb_rep_plug)
  have out: "top_ptr cs = Some p \<Longrightarrow> p \<notin> addrs l \<union> addrs r \<union> {y}" "root_ptr l = Some p \<Longrightarrow> p \<notin> addrs r \<union> ctx_addrs cs \<union> {y}"
    "root_ptr r = Some p \<Longrightarrow> p \<notin> addrs l \<union> ctx_addrs cs \<union> {y}" for p
    using dis top_ptr_addrs [of cs p] root_ptr_addrs [of l p] root_ptr_addrs [of r p] by blast+
  have ag3: "agree h h3 S" if "y \<notin> S" for S
    using that by (simp add: h3_def copy_entry_child del: set_child.simps child.simps)
  have ag4: "agree h3 h4 (addrs l)" "agree h3 h4 (addrs r)" using out(1) by (simp_all add: h4 h3_def)
  have ag5: "agree h4 h5 (addrs r)" "agree h4 h5 (ctx_addrs cs)" using out(2) by (simp_all add: h5_def)
  have h6': "h6 = if_elem (root_ptr r) (\<lambda>x. rb_set_parent x (Some y)) h5" by (simp add: h6 h5_def)
  have ag6: "agree h5 h6 (addrs l)" "agree h5 h6 (ctx_addrs cs)" using out(3) by (simp_all add: h6')
  have "rbh_root h3 = rbh_root h" by (simp add: h3_def copy_entry_child del: set_child.simps child.simps)
  then have "ctx_at h3 cs (Some old)" using ctx ctx_at_agree [OF ag3 [OF dis(10)]] by simp
  from relink_ctx [OF this dis(1,2)] have "ctx_at h4 cs (Some y)" by (simp add: h4 h3_def)
  then have 1: "ctx_at h6 cs (Some y)"
    using ctx_at_agree [OF agree_trans [OF ag5(2) ag6(2)]] by (simp add: h6' h5_def)
  have "rb_at h4 (root_ptr l) (Some old) l" using lr(1) rb_at_agree [OF ag3 [OF dis(7)]] rb_at_agree [OF ag4(1)] by simp
  from rb_at_reparent [OF this dis(3)] have 2: "rb_at h6 (root_ptr l) (Some y) l"
    using rb_at_agree [OF ag6(1)] by (simp add: h5_def)
  have "rb_at h5 (root_ptr r) (Some old) r"
    using lr(2) rb_at_agree [OF ag3 [OF dis(8)]] rb_at_agree [OF ag4(2)] rb_at_agree [OF ag5(1)] by simp
  from rb_at_reparent [OF this dis(4)] have 3: "rb_at h6 (root_ptr r) (Some y) r" by (simp add: h6')
  note read = rb_rep_read_node [OF rep]
  have ne: "top_ptr cs \<noteq> Some y" "root_ptr l \<noteq> Some y" "root_ptr r \<noteq> Some y" using out by blast+
  have "child d h6 y = child d h3 y" "rbe_parent h6 y = rbe_parent h3 y" "rbe_color h6 y = rbe_color h3 y" for d
    using ne by (simp_all add: h6' h5_def h4 h3_def)
  then have flds: "child d h6 y = child d h old" "rbe_parent h6 y = top_ptr cs" "rbe_color h6 y = c" for d
    using read by (cases d; simp add: h3_def copy_entry_child del: set_child.simps child.simps)+
  from flds(1) [of LFT] flds(1) [of RGT] read have "rbe_left h6 y = root_ptr l" "rbe_right h6 y = root_ptr r" by simp_all
  then show ?thesis using 1 2 3 flds(2,3) dis by (auto simp: rb_rep_plug)
qed

text \<open>An address in a context is irrelevant for the invariants.\<close>

lemma deficient_rename: "deficient (ds @ (d, x, c, s) # cs) t = deficient (ds @ (d, y, c, s) # cs) t"
  and rb_valid_rename: "rb_valid (plug (ds @ (d, x, c, s) # cs) t) = rb_valid (plug (ds @ (d, y, c, s) # cs) t)"
proof -
  have top: "top_color (ds @ (d, x, c, s) # cs) = top_color (ds @ (d, y, c, s) # cs)" for ds
    by (cases ds rule: top_color.cases) auto
  have "ctx_c (ds @ (d, x, c, s) # cs) = ctx_c (ds @ (d, y, c, s) # cs)"
    by (induction ds rule: ctx_c.induct) (auto simp: top)
  moreover note top [of ds]
  moreover have "ctx_bh (ds @ (d, x, c, s) # cs) n = ctx_bh (ds @ (d, y, c, s) # cs) n" for n
    by (induction ds n rule: ctx_bh.induct) auto
  moreover have "root_color (ds @ (d, x, c, s) # cs) k = root_color (ds @ (d, y, c, s) # cs) k" for k
    by (induction ds k rule: root_color.induct) auto
  ultimately show "deficient (ds @ (d, x, c, s) # cs) t = deficient (ds @ (d, y, c, s) # cs) t"
    "rb_valid (plug (ds @ (d, x, c, s) # cs) t) = rb_valid (plug (ds @ (d, y, c, s) # cs) t)"
    by (simp_all add: deficient_def rb_valid_plug)
qed

lemma ctx_addrs_append: "ctx_addrs (ds @ cs) = ctx_addrs ds \<union> ctx_addrs cs"
  by (induction ds rule: ctx_addrs.induct) auto

lemma before_append: "before (ds @ cs) = before cs @ before ds" and behind_append: "behind (ds @ cs) = behind ds @ behind cs"
  by (induction ds rule: before.induct) auto

lemma remove_inner_run:
  assumes "rbe_right h old = Some r" "rb_leftmost r h = Some y" "rbe_right h y = ch" "rbe_parent h y = P" "rbe_color h y = k"
    and h2: "h2 = relink P y ch (if_elem ch (\<lambda>x. rb_set_parent x P) h)" and "rbe_parent h2 y = P"
    and h4: "h4 = relink (rbe_parent (copy_entry y old h2) old) old (Some y) (copy_entry y old h2)" and "rbe_left h4 old = Some l"
    and h6: "h6 = if_elem (rbe_right h4 old) (\<lambda>x. rb_set_parent x (Some y)) (rb_set_parent l (Some y) h4)"
    and top: "(if P = Some old then Some y else P) = Some q" and "augment_loop q h6 = Some h6"
  shows "remove_inner old h = Some (k, Some q, ch, h6)"
proof -
  have "rbe_right (rb_set_parent l (Some y) h4) old = rbe_right h4 old" by (simp add: rb_set_parent_def)
  then show ?thesis
    unfolding remove_inner_def Let_def
    by (simp only: assms(1-5) h2 [symmetric] h4 [symmetric] assms(7,9) h6 [symmetric] top assms(12) bind.bind_lunit option.case)
qed

lemma ctx_dist_mid: "ctx_dist (ds @ (d, x, c, l) # cs) \<Longrightarrow> x \<notin> ctx_addrs ds"
  by (induction ds rule: ctx_dist.induct) (auto simp: ctx_addrs_append)

lemma top_ptr_rename:
  assumes "old \<notin> ctx_addrs ds"
  shows "(if top_ptr (ds @ (RGT, old, c, l) # cs) = Some old then Some y else top_ptr (ds @ (RGT, old, c, l) # cs)) =
    top_ptr (ds @ (RGT, y, c, l) # cs)"
  using assms by (cases ds rule: top_ptr.cases) auto

lemma remove_inner_ok:
  assumes rep: "rb_rep h (plug cs (Node l (old, c) r))" and l: "l \<noteq> Leaf" and r: "r \<noteq> Leaf"
    and valid: "rb_valid (plug cs (Node l (old, c) r))"
  shows "\<exists>h' C t k. remove_inner old h = Some (k, top_ptr C, root_ptr t, h') \<and> rb_rep h' (plug C t) \<and>
    (if k = RB_RED then rb_valid (plug C t) else deficient C t) \<and>
    elems (plug C t) = before cs @ elems l @ elems r @ behind cs"
proof -
  obtain lx rx where lx: "root_ptr l = Some lx" and rx: "root_ptr r = Some rx" using l r by (metis root_ptr_None not_Some_eq)
  have reprr: "rb_rep h (plug ((RGT, old, c, l) # cs) r)" using rep by (simp add: dnode_def)
  obtain ds y k t where r_eq: "r = plug ds (Node Leaf (y, k) t)" and ds: "before ds = []" and left: "rb_leftmost rx h = Some y"
    using rb_leftmost_plug [OF reprr rx] by blast
  let ?C = "ds @ (RGT, old, c, l) # cs" and ?C' = "ds @ (RGT, y, c, l) # cs"
  have repy: "rb_rep h (plug ?C (dnode RGT t (y, k) Leaf))" using reprr by (simp add: plug_append r_eq dnode_def)
  define h2 where "h2 = relink (top_ptr ?C) y (root_ptr t) (if_elem (root_ptr t) (\<lambda>x. rb_set_parent x (top_ptr ?C)) h)"
  have rep2: "rb_rep h2 (plug ?C t)" unfolding h2_def by (rule rb_rep_unlink [OF repy])
  then have rep2': "rb_rep h2 (plug cs (Node l (old, c) (plug ds t)))" by (simp add: plug_append dnode_def)
  have valid': "rb_valid (plug ?C (dnode RGT t (y, k) Leaf))" using valid by (simp add: plug_append r_eq dnode_def)
  have "y \<notin> addrs t \<union> ctx_addrs ?C" using repy by (simp add: rb_rep_plug)
  then have y: "y \<notin> addrs (plug cs (Node l (old, c) (plug ds t)))" by (simp add: ctx_addrs_append)
  define h4 where "h4 = relink (top_ptr cs) old (Some y) (copy_entry y old h2)"
  define h6 where "h6 = if_elem (root_ptr (plug ds t)) (\<lambda>x. rb_set_parent x (Some y)) (if_elem (root_ptr l) (\<lambda>x. rb_set_parent x (Some y)) h4)"
  have rep6: "rb_rep h6 (plug cs (Node l (y, c) (plug ds t)))" by (rule rb_rep_replace [OF rep2' y h4_def h6_def])
  then have rep6': "rb_rep h6 (plug ?C' t)" by (simp add: plug_append dnode_def)
  have old_y: "old \<noteq> y" using y by auto
  have py: "rbe_parent h y = top_ptr ?C" "rbe_color h y = k" "child d h y = (if d = RGT then root_ptr t else None)" for d
    using rb_rep_read [OF repy] by (cases d; simp)+
  have ty: "root_ptr t \<noteq> Some y" using y root_ptr_addrs [of t y] by auto
  then have py2: "rbe_parent h2 y = top_ptr ?C" using py(1) by (simp add: h2_def)
  have old3: "child d (copy_entry y old h2) old = child d h2 old" "rbe_parent (copy_entry y old h2) old = rbe_parent h2 old" for d
    using old_y by (cases d; simp add: copy_entry_child del: set_child.simps child.simps)+
  have top_old: "top_ptr cs \<noteq> Some old" using rep top_ptr_addrs [of cs old] by (auto simp: rb_rep_plug)
  have old4: "rbe_left h4 old = Some lx" "rbe_right h4 old = root_ptr (plug ds t)" "rbe_parent (copy_entry y old h2) old = top_ptr cs"
    using rb_rep_read_node [OF rep2'] old3(1) [of LFT] old3(1) [of RGT] old3(2) lx top_old
      relink_fields(3) [of "top_ptr cs" old LFT] relink_fields(3) [of "top_ptr cs" old RGT]
    by (simp_all add: h4_def)
  have top_eq: "(if top_ptr ?C = Some old then Some y else top_ptr ?C) = top_ptr ?C'"
    by (rule top_ptr_rename) (use ctx_dist_mid rep2 [unfolded rb_rep_plug] in blast)
  obtain q where q: "top_ptr ?C' = Some q" by (cases ds rule: top_ptr.cases) auto
  have right: "rbe_right h old = Some rx" using rb_rep_read_node(4) [OF rep] rx by simp
  have h6_alt: "h6 = if_elem (rbe_right h4 old) (\<lambda>x. rb_set_parent x (Some y)) (rb_set_parent lx (Some y) h4)"
    by (simp add: h6_def old4(2) lx)
  have ry: "rbe_right h y = root_ptr t" using py(3) [of RGT] by simp
  have h4_alt: "h4 = relink (rbe_parent (copy_entry y old h2) old) old (Some y) (copy_entry y old h2)"
    by (simp only: h4_def old4(3))
  have "remove_inner old h = Some (k, Some q, root_ptr t, h6)"
    by (rule remove_inner_run [OF right left ry py(1,2) h2_def py2 h4_alt old4(1) h6_alt _ augment_loop_ends [OF rep6' q]])
      (simp only: top_eq q)
  then have run: "remove_inner old h = Some (k, top_ptr ?C', root_ptr t, h6)" by (simp only: q)
  have "if k = RB_RED then rb_valid (plug ?C' t) else deficient ?C' t"
    using unlinked_valid [OF valid'] deficient_rename rb_valid_rename by metis
  moreover have "elems (plug ?C' t) = before cs @ elems l @ elems r @ behind cs"
    by (simp add: elems_plug r_eq before_append behind_append ds)
  ultimately show ?thesis using run rep6' by blast
qed

section \<open>Removal\<close>

lemma unlink_ok:
  assumes "rb_rep h (plug cs (dnode d t (x, k) Leaf))" and "rb_valid (plug cs (dnode d t (x, k) Leaf))"
  shows "\<exists>h'. remove_outer x (root_ptr t) h = (k, top_ptr cs, root_ptr t, h') \<and> rb_rep h' (plug cs t) \<and>
    (if k = RB_RED then rb_valid (plug cs t) else deficient cs t)"
  using remove_outer_rep [OF assms(1)] unlinked_valid [OF assms(2)] by blast

lemma unlinked_repair:
  assumes "rb_rep h (plug cs t)" and "if k = RB_RED then rb_valid (plug cs t) else deficient cs t"
  shows "\<exists>h' t'. (if k = RB_BLACK then RB_REMOVE_COLOR (top_ptr cs) (root_ptr t) h else Some h) = Some h' \<and>
    rb_rep h' t' \<and> rb_valid t' \<and> elems t' = elems (plug cs t)"
  using assms RB_REMOVE_COLOR_repairs [of h cs t] by (cases k) auto

lemma RB_REMOVE_ok:
  assumes rep: "rb_rep h t" and valid: "rb_valid t" and x: "x \<in> addrs t"
  shows "\<exists>h' t'. RB_REMOVE x h = Some (x, h') \<and> rb_rep h' t' \<and> rb_valid t' \<and> elems t' = remove1 x (elems t)"
proof -
  obtain cs l k r where t: "t = plug cs (Node l (x, k) r)" using in_addrs_plug [OF x] by blast
  note rep = rep [unfolded t] and valid = valid [unfolded t]
  note read = rb_rep_read_node [OF rep]
  let ?start = "if rbe_left h x = None then Some (remove_outer x (rbe_right h x) h)
    else if rbe_right h x = None then Some (remove_outer x (rbe_left h x) h) else remove_inner x h"
  have "\<exists>k' C T h1. ?start = Some (k', top_ptr C, root_ptr T, h1) \<and> rb_rep h1 (plug C T) \<and>
    (if k' = RB_RED then rb_valid (plug C T) else deficient C T) \<and> elems (plug C T) = before cs @ elems l @ elems r @ behind cs"
  proof (cases "l = Leaf \<or> r = Leaf")
    case True
    then obtain d a where n: "Node l (x, k) r = dnode d a (x, k) Leaf" and a: "a = (if l = Leaf then r else l)"
      by (cases "l = Leaf") (auto simp: dnode_def intro: that [of RGT r] that [of LFT l])
    have st: "?start = Some (remove_outer x (root_ptr a) h)" using True read(3,4) a by auto
    obtain h' where h': "remove_outer x (root_ptr a) h = (k, top_ptr cs, root_ptr a, h')" "rb_rep h' (plug cs a)"
      "if k = RB_RED then rb_valid (plug cs a) else deficient cs a" using unlink_ok [OF rep [unfolded n] valid [unfolded n]] by blast
    have "elems (plug cs a) = before cs @ elems l @ elems r @ behind cs" using True a by (auto simp: elems_plug)
    with st [unfolded h'(1)] h'(2,3) show ?thesis by blast
  next
    case False
    then have "?start = remove_inner x h" using read(3,4) by simp
    then show ?thesis using remove_inner_ok [OF rep _ _ valid] False by (simp only:) blast
  qed
  then obtain k' C T h1 where s: "?start = Some (k', top_ptr C, root_ptr T, h1)" "rb_rep h1 (plug C T)"
    "if k' = RB_RED then rb_valid (plug C T) else deficient C T" "elems (plug C T) = before cs @ elems l @ elems r @ behind cs"
    by blast
  obtain h' t' where f: "(if k' = RB_BLACK then RB_REMOVE_COLOR (top_ptr C) (root_ptr T) h1 else Some h1) = Some h'"
    "rb_rep h' t'" "rb_valid t'" "elems t' = elems (plug C T)" using unlinked_repair [OF s(2,3)] by blast
  have "RB_REMOVE x h = Some (x, h')" unfolding RB_REMOVE_def s(1) by (simp add: f(1))
  moreover have "x \<notin> set (before cs @ elems l)"
    using rep by (auto simp: rb_rep_def dist_iff elems_plug)
  then have "remove1 x (elems t) = before cs @ elems l @ elems r @ behind cs"
    by (simp add: t elems_plug remove1_append)
  ultimately show ?thesis using f s(4) by auto
qed

end
