(* ===== verification/RBIter.thy ===== *)
theory RBIter
  imports RBInsert RBRemove
begin

text \<open>
  Search and traversal of the red-black tree: \<open>RB_FIND\<close> and \<open>RB_NFIND\<close> look up the in-order
  sequence, \<open>RB_NEXT\<close> and \<open>RB_PREV\<close> step along it, the loops visit all of it. The last section has
  the interface \<open>ordered_elems\<close> and the properties of the tree.
\<close>

section \<open>Search\<close>

lemma rb_find_loop_ok:
  assumes cmp: "cmp_agrees cmp key"
  shows "rb_rep h (plug cs t) \<Longrightarrow> ordered_by key (elems t) \<Longrightarrow>
    rb_find_loop cmp e (root_ptr t) h = Some (List.find (\<lambda>x. key x = key e) (elems t))"
proof (induction t arbitrary: cs)
  case Leaf
  show ?case by (subst rb_find_loop.simps) simp
next
  case (Node l n r)
  obtain x k where n: "n = (x, k)" by (cases n)
  note read = rb_rep_read_node [OF Node.prems(1) [unfolded n]]
  have l: "rb_rep h (plug ((LFT, x, k, r) # cs) l)" and r: "rb_rep h (plug ((RGT, x, k, l) # cs) r)"
    using Node.prems(1) by (simp_all add: n dnode_def)
  have ord: "ordered_by key (elems l)" "ordered_by key (elems r)" and
    lx: "\<And>y. y \<in> addrs l \<Longrightarrow> key y < key x" and rx: "\<And>y. y \<in> addrs r \<Longrightarrow> key x < key y"
    using Node.prems(2) by (auto simp: n sorted_wrt_append)
  have run: "rb_find_loop cmp e (Some x) h = (if key e < key x then rb_find_loop cmp e (root_ptr l) h
    else if key x < key e then rb_find_loop cmp e (root_ptr r) h else Some (Some x))"
    using read by (subst rb_find_loop.simps) (simp add: Let_def cmp_agrees_neg [OF cmp] cmp_agrees_pos [OF cmp])
  consider "key e < key x" | "key x < key e" | "key x = key e" by force
  then show ?case
  proof cases
    case 1
    then have "List.find (\<lambda>x. key x = key e) (elems r) = None" using rx by (fastforce simp: find_None_iff)
    then show ?thesis using 1 run Node.IH(1) [OF l ord(1)] by (auto simp: n find_append split: option.split)
  next
    case 2
    then have "List.find (\<lambda>x. key x = key e) (elems l) = None" using lx by (fastforce simp: find_None_iff)
    then show ?thesis using 2 run Node.IH(2) [OF r ord(2)] by (auto simp: n find_append)
  next
    case 3
    then have "List.find (\<lambda>x. key x = key e) (elems l) = None" using lx by (fastforce simp: find_None_iff)
    then show ?thesis using 3 run by (simp add: n find_append)
  qed
qed

lemma rb_nfind_loop_ok:
  assumes cmp: "cmp_agrees cmp key"
  shows "rb_rep h (plug cs t) \<Longrightarrow> ordered_by key (elems t) \<Longrightarrow>
    rb_nfind_loop cmp e (root_ptr t) res h =
      Some (case List.find (\<lambda>x. key e \<le> key x) (elems t) of None \<Rightarrow> res | Some x \<Rightarrow> Some x)"
proof (induction t arbitrary: cs res)
  case Leaf
  show ?case by (subst rb_nfind_loop.simps) simp
next
  case (Node l n r)
  obtain x k where n: "n = (x, k)" by (cases n)
  note read = rb_rep_read_node [OF Node.prems(1) [unfolded n]]
  have l: "rb_rep h (plug ((LFT, x, k, r) # cs) l)" and r: "rb_rep h (plug ((RGT, x, k, l) # cs) r)"
    using Node.prems(1) by (simp_all add: n dnode_def)
  have ord: "ordered_by key (elems l)" "ordered_by key (elems r)" and lx: "\<And>y. y \<in> addrs l \<Longrightarrow> key y < key x"
    using Node.prems(2) by (auto simp: n sorted_wrt_append)
  have run: "rb_nfind_loop cmp e (Some x) res h = (if key e < key x then rb_nfind_loop cmp e (root_ptr l) (Some x) h
    else if key x < key e then rb_nfind_loop cmp e (root_ptr r) res h else Some (Some x))"
    using read by (subst rb_nfind_loop.simps) (simp add: Let_def cmp_agrees_neg [OF cmp] cmp_agrees_pos [OF cmp])
  show ?case
  proof (cases "key e < key x")
    case True
    then show ?thesis using run Node.IH(1) [OF l ord(1)] by (auto simp: n find_append split: option.split)
  next
    case False
    then have "List.find (\<lambda>x. key e \<le> key x) (elems l) = None" using lx by (fastforce simp: find_None_iff)
    then show ?thesis using False run Node.IH(2) [OF r ord(2)] by (auto simp: n find_append)
  qed
qed

section \<open>Stepping\<close>

text \<open>The first element of a sequence, as a pointer.\<close>

definition head_ptr :: "loc list \<Rightarrow> ptr" where
  "head_ptr xs = (case xs of [] \<Rightarrow> None | x # _ \<Rightarrow> Some x)"

lemma head_ptr_simps [simp]:
  "head_ptr [] = None" "head_ptr (x # xs) = Some x" "head_ptr (xs @ ys) = (if xs = [] then head_ptr ys else head_ptr xs)"
  by (cases xs; simp add: head_ptr_def)+

lemma elems_Nil [simp]: "elems t = [] \<longleftrightarrow> t = Leaf"
  by (cases t rule: root_ptr.cases) auto

lemma rb_leftmost_ok: "rb_rep h (plug cs t) \<Longrightarrow> root_ptr t = Some x \<Longrightarrow>
    (do { y \<leftarrow> rb_leftmost x h; Some (Some y) }) = Some (head_ptr (elems t))"
proof (induction t arbitrary: cs x)
  case (Node l n r)
  obtain k where n: "n = (x, k)" using Node.prems(2) by (cases n) auto
  have l: "rb_rep h (plug ((LFT, x, k, r) # cs) l)" using Node.prems(1) by (simp add: n dnode_def)
  show ?case
    using Node.IH(1) [OF l] rb_rep_read_node(3) [OF Node.prems(1) [unfolded n]]
    by (subst rb_leftmost.simps) (auto simp: n split: option.split)
qed simp

lemma rb_rightmost_ok: "rb_rep h (plug cs t) \<Longrightarrow> root_ptr t = Some x \<Longrightarrow>
    (do { y \<leftarrow> rb_rightmost x h; Some (Some y) }) = Some (head_ptr (rev (elems t)))"
proof (induction t arbitrary: cs x)
  case (Node l n r)
  obtain k where n: "n = (x, k)" using Node.prems(2) by (cases n) auto
  have r: "rb_rep h (plug ((RGT, x, k, l) # cs) r)" using Node.prems(1) by (simp add: n dnode_def)
  show ?case
    using Node.IH(2) [OF r] rb_rep_read_node(4) [OF Node.prems(1) [unfolded n]]
    by (subst rb_rightmost.simps) (auto simp: n split: option.split)
qed simp

text \<open>In a context that leaves through the left child, the parent comes next; otherwise the walk goes on up.\<close>

lemma frame_children:
  assumes "rb_rep h (plug ((d, p, k, s) # cs) t)" and "root_ptr t = Some x"
  shows "rbe_parent h x = Some p" "rbe_left h p = Some x \<longleftrightarrow> d = LFT" "rbe_right h p = Some x \<longleftrightarrow> d = RGT"
proof -
  obtain l c r where t: "t = Node l (x, c) r" using assms(2) by (auto simp: root_ptr_Some)
  show "rbe_parent h x = Some p" using rb_rep_read_node(1) [OF assms(1) [unfolded t]] by simp
  have "root_ptr s \<noteq> Some x" using assms(1) root_ptr_addrs [of s x] by (auto simp: rb_rep_plug t)
  moreover have "rb_rep h (plug cs (dnode d t (p, k) s))" using assms(1) by simp
  ultimately show "rbe_left h p = Some x \<longleftrightarrow> d = LFT" "rbe_right h p = Some x \<longleftrightarrow> d = RGT"
    using rb_rep_read(3,4) [of h cs d t p k s] assms(2) by (cases d; simp)+
qed

lemma climb_right_ok: "rb_rep h (plug cs t) \<Longrightarrow> root_ptr t = Some x \<Longrightarrow>
  (do { y \<leftarrow> climb_right x h; Some (rbe_parent h y) }) = Some (head_ptr (behind cs))"
proof (induction cs t arbitrary: x rule: plug.induct)
  case (1 t)
  then obtain l c r where t: "t = Node l (x, c) r" by (auto simp: root_ptr_Some)
  have "rbe_parent h x = None" using "1.prems"(1) by (auto simp: t rb_rep_def)
  then show ?case by (subst climb_right.simps) simp
next
  case (2 d p k s cs t)
  note f = frame_children [OF "2.prems"]
  have "rb_rep h (plug cs (dnode d t (p, k) s))" "root_ptr (dnode d t (p, k) s) = Some p" using "2.prems"(1) by simp_all
  from "2.IH" [OF this] f show ?case by (subst climb_right.simps) (cases d; simp)
qed

lemma climb_left_ok: "rb_rep h (plug cs t) \<Longrightarrow> root_ptr t = Some x \<Longrightarrow>
  (do { y \<leftarrow> climb_left x h; Some (rbe_parent h y) }) = Some (head_ptr (rev (before cs)))"
proof (induction cs t arbitrary: x rule: plug.induct)
  case (1 t)
  then obtain l c r where t: "t = Node l (x, c) r" by (auto simp: root_ptr_Some)
  have "rbe_parent h x = None" using "1.prems"(1) by (auto simp: t rb_rep_def)
  then show ?case by (subst climb_left.simps) simp
next
  case (2 d p k s cs t)
  note f = frame_children [OF "2.prems"]
  have "rb_rep h (plug cs (dnode d t (p, k) s))" "root_ptr (dnode d t (p, k) s) = Some p" using "2.prems"(1) by simp_all
  from "2.IH" [OF this] f show ?case by (subst climb_left.simps) (cases d; simp)
qed

lemma RB_NEXT_at:
  assumes rep: "rb_rep h (plug cs (Node l (x, k) r))"
  shows "RB_NEXT x h = Some (head_ptr (elems r @ behind cs))"
proof (cases "root_ptr r")
  case (Some y)
  have "rb_rep h (plug ((RGT, x, k, l) # cs) r)" using rep by (simp add: dnode_def)
  from rb_leftmost_ok [OF this Some] show ?thesis
    using rb_rep_read_node(4) [OF rep] Some by (auto simp: RB_NEXT_def)
next
  case None
  have climb: "(do { y \<leftarrow> climb_right x h; Some (rbe_parent h y) }) = Some (head_ptr (behind cs))"
    by (rule climb_right_ok [OF rep]) simp
  have "rbe_parent h x = head_ptr (behind cs)"
    if "case rbe_parent h x of None \<Rightarrow> False | Some p \<Rightarrow> rbe_left h p = Some x"
  proof (cases cs rule: top_ptr.cases)
    case (2 d p k' s cs')
    with frame_children [OF rep [unfolded 2]] that show ?thesis by simp
  qed (use that rb_rep_read_node(1) [OF rep] in simp)
  then show ?thesis using climb None rb_rep_read_node(4) [OF rep] by (simp add: RB_NEXT_def)
qed

lemma RB_PREV_at:
  assumes rep: "rb_rep h (plug cs (Node l (x, k) r))"
  shows "RB_PREV x h = Some (head_ptr (rev (before cs @ elems l)))"
proof (cases "root_ptr l")
  case (Some y)
  have "rb_rep h (plug ((LFT, x, k, r) # cs) l)" using rep by (simp add: dnode_def)
  from rb_rightmost_ok [OF this Some] show ?thesis
    using rb_rep_read_node(3) [OF rep] Some by (auto simp: RB_PREV_def)
next
  case None
  have climb: "(do { y \<leftarrow> climb_left x h; Some (rbe_parent h y) }) = Some (head_ptr (rev (before cs)))"
    by (rule climb_left_ok [OF rep]) simp
  have "rbe_parent h x = head_ptr (rev (before cs))"
    if "case rbe_parent h x of None \<Rightarrow> False | Some p \<Rightarrow> rbe_right h p = Some x"
  proof (cases cs rule: top_ptr.cases)
    case (2 d p k' s cs')
    with frame_children [OF rep [unfolded 2]] that show ?thesis by simp
  qed (use that rb_rep_read_node(1) [OF rep] in simp)
  then show ?thesis using climb None rb_rep_read_node(3) [OF rep] by (simp add: RB_PREV_def)
qed

lemma rb_step:
  assumes rep: "rb_rep h t" and el: "elems t = xs @ x # ys"
  shows "RB_NEXT x h = Some (head_ptr ys)" and "RB_PREV x h = Some (head_ptr (rev xs))"
proof -
  have "x \<in> addrs t" using el by (simp flip: set_elems)
  then obtain cs l k r where t: "t = plug cs (Node l (x, k) r)" using in_addrs_plug by blast
  have "distinct (xs @ x # ys)" using rep by (simp add: rb_rep_def dist_iff flip: el)
  then have "x \<notin> set xs" "x \<notin> set ys" by auto
  moreover have "xs @ x # ys = (before cs @ elems l) @ x # (elems r @ behind cs)" by (simp add: t elems_plug flip: el)
  ultimately have "xs = before cs @ elems l" "ys = elems r @ behind cs"
    using append_Cons_eq_iff [of x xs ys "before cs @ elems l" "elems r @ behind cs"] by blast+
  then show "RB_NEXT x h = Some (head_ptr ys)" "RB_PREV x h = Some (head_ptr (rev xs))"
    using RB_NEXT_at RB_PREV_at rep t by auto
qed

lemma rb_minmax_loop_ok:
  "rb_rep h (plug cs t) \<Longrightarrow> rb_minmax_loop val (root_ptr t) par h =
    Some (if t = Leaf then par else head_ptr (if val < 0 then elems t else rev (elems t)))"
proof (induction t arbitrary: cs par)
  case Leaf
  show ?case by (subst rb_minmax_loop.simps) simp
next
  case (Node l n r)
  obtain x k where n: "n = (x, k)" by (cases n)
  note read = rb_rep_read_node [OF Node.prems(1) [unfolded n]]
  have l: "rb_rep h (plug ((LFT, x, k, r) # cs) l)" and r: "rb_rep h (plug ((RGT, x, k, l) # cs) r)"
    using Node.prems(1) by (simp_all add: n dnode_def)
  show ?case
    using Node.IH(1) [OF l, of "Some x"] Node.IH(2) [OF r, of "Some x"] read
    by (subst rb_minmax_loop.simps) (simp add: n)
qed

lemma rb_extremes:
  assumes "rb_rep h t"
  shows "RB_MIN h = Some (head_ptr (elems t))" "RB_MAX h = Some (head_ptr (rev (elems t)))"
  using rb_minmax_loop_ok [of h "[]" t _ None] assms rb_rep_root [OF assms]
  by (auto simp: RB_MIN_def RB_MAX_def RB_MINMAX_def)

section \<open>Loops\<close>

lemma foreach_loop_visits:
  assumes step: "\<And>xs x ys. zs = xs @ x # ys \<Longrightarrow> next' x h = Some (head_ptr ys)"
    and body: "\<And>e s. body e (s, h) = Some (f e s, h)"
  shows "zs = xs @ ys \<Longrightarrow> rb_foreach_loop next' body (head_ptr ys) (s, h) = Some (fold f ys s, h)"
proof (induction ys arbitrary: xs s)
  case Nil
  show ?case by (subst rb_foreach_loop.simps) simp
next
  case (Cons y ys)
  have "zs = (xs @ [y]) @ ys" using Cons.prems by simp
  from Cons.IH [OF this] step [OF Cons.prems] body show ?case by (subst rb_foreach_loop.simps) simp
qed

lemma foreach_visits:
  assumes rep: "rb_rep h t" and body: "\<And>e s. body e (s, h) = Some (f e s, h)"
  shows "RB_FOREACH body (s, h) = Some (fold f (elems t) s, h)"
    and "RB_FOREACH_REVERSE body (s, h) = Some (fold f (rev (elems t)) s, h)"
proof -
  have prev: "RB_PREV x h = Some (head_ptr ys)" if "rev (elems t) = xs @ x # ys" for xs x ys
    using rb_step(2) [OF rep, of "rev ys" x "rev xs"] that by (simp add: rev_swap)
  show "RB_FOREACH body (s, h) = Some (fold f (elems t) s, h)"
    using foreach_loop_visits [of "elems t" RB_NEXT h body f "[]"] rb_step(1) [OF rep] body rb_extremes(1) [OF rep]
    by (simp add: RB_FOREACH_def)
  show "RB_FOREACH_REVERSE body (s, h) = Some (fold f (rev (elems t)) s, h)"
    using foreach_loop_visits [of "rev (elems t)" RB_PREV h body f "[]"] prev body rb_extremes(2) [OF rep]
    by (simp add: RB_FOREACH_REVERSE_def)
qed

text \<open>The body that unlinks each element and records it, as the users of the safe loops write it.\<close>

definition unlink_body :: "loc list rb_body" where
  "unlink_body e s = do { (x, h1) \<leftarrow> RB_REMOVE e (snd s); Some (fst s @ [x], h1) }"

lemma safe_loop_drains:
  "rb_rep h t \<Longrightarrow> rb_valid t \<Longrightarrow> \<exists>h'. rb_foreach_safe_loop RB_NEXT unlink_body (head_ptr (elems t)) (done', h) =
     Some (done' @ elems t, h') \<and> rbh_root h' = None"
proof (induction "elems t" arbitrary: t h done')
  case Nil
  then have t: "t = Leaf" by (metis elems_Nil)
  then show ?case using Nil.prems by (subst rb_foreach_safe_loop.simps) (simp add: rb_rep_def)
next
  case (Cons x xs)
  have "x \<in> addrs t" using Cons.hyps(2) by (metis list.set_intros(1) set_elems)
  from RB_REMOVE_ok [OF Cons.prems this] Cons.hyps(2) obtain h1 t1 where
    r: "RB_REMOVE x h = Some (x, h1)" "rb_rep h1 t1" "rb_valid t1" "xs = elems t1" by (metis remove1.simps(2))
  have "RB_NEXT x h = Some (head_ptr xs)" using rb_step(1) [OF Cons.prems(1), of "[]" x xs] Cons.hyps(2) by simp
  then show ?case
    using Cons.hyps(1) [OF r(4,2,3), of "done' @ [x]"] r Cons.hyps(2) [symmetric]
    by (subst rb_foreach_safe_loop.simps) (simp add: unlink_body_def)
qed

section \<open>The interface\<close>

text \<open>The heap holds a red-black tree whose in-order sequence is \<open>xs\<close>, in the order of the keys.\<close>

definition rb_tree :: "(loc \<Rightarrow> 'k :: linorder) \<Rightarrow> rb_heap \<Rightarrow> loc list \<Rightarrow> bool" where
  "rb_tree key h xs \<longleftrightarrow> ordered_by key xs \<and> (\<exists>t. rb_rep h t \<and> rb_valid t \<and> elems t = xs)"

lemma RB_INSERT_tree:
  assumes cmp: "cmp_agrees cmp key" and tree: "rb_tree key h xs"
  shows "\<exists>h'. RB_INSERT cmp e h = Some (List.find (\<lambda>x. key x = key e) xs, h') \<and>
    rb_tree key h' (if \<exists>x \<in> set xs. key x = key e then xs else insort_key key e xs)"
proof -
  from tree obtain t where t: "rb_rep h t" "rb_valid t" "elems t = xs" and ord: "ordered_by key xs"
    by (auto simp: rb_tree_def)
  have set: "addrs t = set xs" using t(3) by (simp flip: set_elems)
  from RB_INSERT_ok [OF cmp t(1,2), of e] ord consider
      y where "y \<in> set xs" "key y = key e" "RB_INSERT cmp e h = Some (Some y, h)"
    | h' t' where "\<forall>y \<in> set xs. key y \<noteq> key e" "RB_INSERT cmp e h = Some (None, h')" "rb_rep h' t'" "rb_valid t'"
        "elems t' = insort_key key e xs"
    by (auto simp: set t(3))
  then show ?thesis
  proof cases
    case 1
    then show ?thesis using find_key_in [OF ord 1(1,2)] tree by auto
  next
    case 2
    then have "ordered_by key (insort_key key e xs)" by (intro ordered_by_insort [OF ord]) blast
    moreover have "List.find (\<lambda>x. key x = key e) xs = None" using 2(1) by (simp add: find_None_iff)
    ultimately show ?thesis using 2 by (auto simp: rb_tree_def)
  qed
qed

lemma RB_REMOVE_tree:
  assumes tree: "rb_tree key h xs" and e: "e \<in> set xs"
  shows "\<exists>h'. RB_REMOVE e h = Some (e, h') \<and> rb_tree key h' (remove1 e xs)"
proof -
  from tree obtain t where t: "rb_rep h t" "rb_valid t" "elems t = xs" and ord: "ordered_by key xs"
    by (auto simp: rb_tree_def)
  have "e \<in> addrs t" using e t(3) by (simp flip: set_elems)
  from RB_REMOVE_ok [OF t(1,2) this] obtain h' t' where
    "RB_REMOVE e h = Some (e, h')" "rb_rep h' t'" "rb_valid t'" "elems t' = remove1 e xs" by (auto simp: t(3))
  moreover have "ordered_by key (remove1 e xs)" using ord by (induction xs) (auto dest: notin_set_remove1)
  ultimately show ?thesis by (auto simp: rb_tree_def)
qed

lemma RB_FIND_tree:
  assumes "cmp_agrees cmp key" and "rb_tree key h xs"
  shows "RB_FIND cmp e h = Some (List.find (\<lambda>x. key x = key e) xs)"
    and "RB_NFIND cmp e h = Some (List.find (\<lambda>x. key e \<le> key x) xs)"
proof -
  obtain t where t: "rb_rep h t" "elems t = xs" "ordered_by key (elems t)" using assms(2) by (auto simp: rb_tree_def)
  show "RB_FIND cmp e h = Some (List.find (\<lambda>x. key x = key e) xs)"
    using rb_find_loop_ok [OF assms(1), of h "[]" t e] t rb_rep_root [OF t(1)] by (simp add: RB_FIND_def)
  show "RB_NFIND cmp e h = Some (List.find (\<lambda>x. key e \<le> key x) xs)"
    using rb_nfind_loop_ok [OF assms(1), of h "[]" t e None] t rb_rep_root [OF t(1)]
    by (simp add: RB_NFIND_def split: option.split)
qed

text \<open>The removal takes the element itself and has no comparison; the search leaves the heap alone.\<close>

definition rb_remove_op :: "(loc \<Rightarrow> loc \<Rightarrow> int) \<Rightarrow> loc \<Rightarrow> rb_heap \<Rightarrow> (ptr \<times> rb_heap) option" where
  "rb_remove_op cmp e h = do { (x, h1) \<leftarrow> RB_REMOVE e h; Some (Some x, h1) }"

definition rb_find_op :: "(loc \<Rightarrow> loc \<Rightarrow> int) \<Rightarrow> loc \<Rightarrow> rb_heap \<Rightarrow> (ptr \<times> rb_heap) option" where
  "rb_find_op cmp e h = do { x \<leftarrow> RB_FIND cmp e h; Some (x, h) }"

interpretation rb: ordered_elems rb_tree "\<lambda>_. True" RB_INSERT rb_remove_op rb_find_op
proof unfold_locales
  fix key :: "loc \<Rightarrow> 'a :: linorder" and s xs cmp e x
  show "rb_tree key s xs \<Longrightarrow> ordered_by key xs" by (simp add: rb_tree_def)
  show "\<exists>s'. RB_INSERT cmp e s = Some (None, s') \<and> rb_tree key s' (insort_key key e xs)"
    if "cmp_agrees cmp key" "rb_tree key s xs" "True" "\<And>x. x \<in> set xs \<Longrightarrow> key x \<noteq> key e"
    using RB_INSERT_tree [OF that(1,2), of e] find_key_None [of xs key "key e"] that(4) by fastforce
  show "\<exists>s'. RB_INSERT cmp e s = Some (Some x, s') \<and> rb_tree key s' xs"
    if "cmp_agrees cmp key" "rb_tree key s xs" "x \<in> set xs" "key x = key e"
  proof -
    have "ordered_by key xs" using that(2) by (simp add: rb_tree_def)
    from find_key_in [OF this that(3,4)] have "List.find (\<lambda>x. key x = key e) xs = Some x" .
    moreover have "\<exists>x \<in> set xs. key x = key e" using that(3,4) by blast
    ultimately show ?thesis using RB_INSERT_tree [OF that(1,2), of e] by simp
  qed
  show "\<exists>s'. rb_remove_op cmp e s = Some (Some e, s') \<and> rb_tree key s' (remove1 e xs)"
    if "cmp_agrees cmp key" "rb_tree key s xs" "e \<in> set xs"
    using RB_REMOVE_tree [OF that(2,3)] by (auto simp: rb_remove_op_def)
  show "\<exists>s'. rb_find_op cmp e s = Some (List.find (\<lambda>x. key x = key e) xs, s') \<and> rb_tree key s' xs"
    if "cmp_agrees cmp key" "rb_tree key s xs"
    using RB_FIND_tree(1) [OF that] that(2) by (simp add: rb_find_op_def)
qed

section \<open>Properties of the red-black tree\<close>

text \<open>
  C22. \<open>RB_INSERT\<close> returns the element with an equal key when there is one and leaves the tree
  as it was; otherwise it returns \<open>NULL\<close>, the element is in its place, and the tree is again
  red-black: a black root, no red element with a red child, as many black elements on all paths.
\<close>

theorem RB_INSERT_keeps_red_black:
  assumes "cmp_agrees cmp key" and "rb_tree key h xs"
  shows "\<exists>h'. RB_INSERT cmp e h = Some (List.find (\<lambda>x. key x = key e) xs, h') \<and>
    rb_tree key h' (if \<exists>x \<in> set xs. key x = key e then xs else insort_key key e xs)"
  by (rule RB_INSERT_tree [OF assms])

text \<open>
  C21. \<open>RB_REMOVE\<close> of a linked element, whatever its children, returns it and leaves a red-black
  tree of the other elements in the same order.
\<close>

theorem RB_REMOVE_keeps_red_black:
  assumes "rb_tree key h xs" and "e \<in> set xs"
  shows "\<exists>h'. RB_REMOVE e h = Some (e, h') \<and> rb_tree key h' (remove1 e xs)"
  by (rule RB_REMOVE_tree [OF assms])

text \<open>
  \<open>RB_FIND\<close> returns the element with the key of its argument, \<open>RB_NFIND\<close> the first one whose
  key is at or above it; both return \<open>NULL\<close> without one.
\<close>

theorem RB_FIND_NFIND_lookup:
  assumes "cmp_agrees cmp key" and "rb_tree key h xs"
  shows "RB_FIND cmp e h = Some (List.find (\<lambda>x. key x = key e) xs) \<and>
    RB_NFIND cmp e h = Some (List.find (\<lambda>x. key e \<le> key x) xs)"
  using RB_FIND_tree [OF assms] by simp

text \<open>
  C37. \<open>RB_FOREACH\<close> and \<open>RB_FOREACH_REVERSE\<close>, over a body that does not touch the links, end and
  visit every element once, in increasing and in decreasing order of the keys.
\<close>

theorem RB_FOREACH_in_order:
  assumes "rb_tree key h xs" and "\<And>e s. body e (s, h) = Some (f e s, h)"
  shows "RB_FOREACH body (s, h) = Some (fold f xs s, h) \<and>
    RB_FOREACH_REVERSE body (s, h) = Some (fold f (rev xs) s, h)"
  using assms foreach_visits [of h _ body f s] by (auto simp: rb_tree_def)

text \<open>
  C36. \<open>RB_FOREACH_SAFE\<close> with a body that removes the element it is given visits every element in
  order and leaves the empty tree: the next element is asked for before the body runs.
\<close>

theorem RB_FOREACH_SAFE_drains:
  assumes "rb_tree key h xs"
  shows "\<exists>h'. RB_FOREACH_SAFE unlink_body ([], h) = Some (xs, h') \<and> RB_EMPTY h'"
proof -
  obtain t where t: "rb_rep h t" "rb_valid t" "elems t = xs" using assms by (auto simp: rb_tree_def)
  show ?thesis
    using safe_loop_drains [OF t(1,2), of "[]"] rb_extremes(1) [OF t(1)] t(3) by (simp add: RB_FOREACH_SAFE_def RB_EMPTY_def)
qed

text \<open>
  Balance: a red-black tree of \<open>n\<close> elements in the heap is at most \<open>2 log (n + 1)\<close> high, so no search,
  insertion or removal walks a longer path.
\<close>

theorem RB_height_logarithmic:
  assumes "rb_tree key h xs"
  shows "\<exists>t. rb_rep h t \<and> elems t = xs \<and> 2 ^ height t \<le> (length xs + 1) ^ 2"
  using assms rb_valid_height by (auto simp: rb_tree_def)

lemma RB_INIT_tree: "rb_tree key (RB_INIT h) []"
  by (auto simp: rb_tree_def RB_INIT_def rb_rep_def intro!: exI [of _ Leaf])

text \<open>
  C20. Any sequence of insertions, lookups and removals of elements in the tree, from \<open>RB_INIT\<close> on,
  never dereferences \<open>NULL\<close>, returns the results it has on the sorted list of elements and ends in a
  red-black tree of that list.
\<close>

theorem rb_run_refines:
  assumes "cmp_agrees cmp key" and "list_ops key ops [] = Some (rs, xs)"
  shows "\<exists>h'. run_ops (RB_INSERT cmp) (rb_remove_op cmp) (rb_find_op cmp) ops (RB_INIT h) = Some (rs, h') \<and>
    rb_tree key h' xs"
  by (rule rb.run_simulates [OF assms(1) RB_INIT_tree assms(2)]) simp

section \<open>A concrete red-black tree\<close>

text \<open>Elements whose address is their key: black 2 above red 1 and red 4.\<close>

definition rb3 :: rb_heap where
  "rb3 = \<lparr>rbe_left = (\<lambda>_. None)(2 := Some 1), rbe_right = (\<lambda>_. None)(2 := Some 4),
     rbe_parent = (\<lambda>_. None)(1 := Some 2, 4 := Some 2), rbe_color = (\<lambda>_. RB_RED)(2 := RB_BLACK), rbh_root = Some 2\<rparr>"

lemma rb3_tree: "rb_tree (\<lambda>a. a) rb3 [1, 2, 4]"
proof -
  let ?t = "Node (Node Leaf (1, RB_RED) Leaf) (2, RB_BLACK) (Node Leaf (4, RB_RED) Leaf)"
  have "rb_rep rb3 ?t" by (simp add: rb_rep_def rb3_def)
  moreover have "rb_valid ?t" by (auto simp: rb_valid_def)
  ultimately show ?thesis unfolding rb_tree_def by (intro conjI exI [of _ ?t]) simp_all
qed

text \<open>The insertion of 5 needs a recolouring, the removal of 2 moves its successor 4 into its place.\<close>

theorem RB_INSERT_keeps_red_black_witness:
  "\<exists>h'. RB_INSERT cmp_nat 5 rb3 = Some (None, h') \<and> rb_tree (\<lambda>a. a) h' [1, 2, 4, 5]"
  using RB_INSERT_keeps_red_black [OF cmp_nat_agrees rb3_tree, of 5] by simp

theorem RB_REMOVE_keeps_red_black_witness:
  "\<exists>h'. RB_REMOVE 2 rb3 = Some (2, h') \<and> rb_tree (\<lambda>a. a) h' [1, 4]"
  using RB_REMOVE_keeps_red_black [OF rb3_tree, of 2] by simp

theorem RB_FIND_NFIND_lookup_witness:
  "RB_FIND cmp_nat 3 rb3 = Some None \<and> RB_NFIND cmp_nat 3 rb3 = Some (Some 4)"
  using RB_FIND_NFIND_lookup [OF cmp_nat_agrees rb3_tree, of 3] by simp

theorem RB_FOREACH_in_order_witness:
  "RB_FOREACH (\<lambda>e (s, h). Some (s @ [e], h)) ([], rb3) = Some ([1, 2, 4], rb3)"
  using RB_FOREACH_in_order [OF rb3_tree, of "\<lambda>e (s, h). Some (s @ [e], h)" "\<lambda>e s. s @ [e]" "[]"] by simp

theorem RB_FOREACH_SAFE_drains_witness:
  "\<exists>h'. RB_FOREACH_SAFE unlink_body ([], rb3) = Some ([1, 2, 4], h') \<and> RB_EMPTY h'"
  by (rule RB_FOREACH_SAFE_drains [OF rb3_tree])

theorem RB_height_logarithmic_witness:
  "\<exists>t. rb_rep rb3 t \<and> elems t = [1, 2, 4] \<and> 2 ^ height t \<le> (length [1, 2, 4 :: nat] + 1) ^ 2"
  by (rule RB_height_logarithmic [OF rb3_tree])

theorem rb_run_refines_witness:
  "\<exists>h'. run_ops (RB_INSERT cmp_nat) (rb_remove_op cmp_nat) (rb_find_op cmp_nat)
     [Insert 2, Insert 1, Insert 4, Insert 1, Find 4, Remove 2, Find 2] (RB_INIT rb3)
     = Some ([None, None, None, Some 1, Some 4, Some 2, None], h') \<and> rb_tree (\<lambda>a. a) h' [1, 4]"
  by (rule rb_run_refines [OF cmp_nat_agrees]) simp

end
