(* ===== verification/V8Values.thy ===== *)
theory V8Values
  imports V8Handles
begin

text \<open>
  The inline functions of \<open>v8.h\<close> over values and callbacks: \<open>ReturnValue\<close>, \<open>FunctionCallbackInfo\<close>,
  \<open>PropertyCallbackInfo\<close>, the quick type tests of \<open>Value\<close>, the roots of an isolate, internal fields and
  embedder data, the accounting of external memory, \<open>ScriptOriginOptions\<close> and \<open>ScriptOrigin\<close>. A \<open>Local\<close>
  is the address of the slot that holds the object; the engine's out-of-line functions are the
  fields of \<open>value_api\<close>.
\<close>

section \<open>The engine's functions\<close>

record 's value_api =
  CreateHandle_heap :: "obj \<Rightarrow> obj \<Rightarrow> 's \<Rightarrow> addr \<times> 's"
  SlowGetInternalField :: "addr \<Rightarrow> int32_t \<Rightarrow> 's \<Rightarrow> addr \<times> 's"
  SlowGetAlignedPointerFromInternalField :: "addr \<Rightarrow> int32_t \<Rightarrow> 's \<Rightarrow> addr \<times> 's"
  Number_New :: "addr \<Rightarrow> 64 word \<Rightarrow> 's \<Rightarrow> local \<times> 's"
  Integer_New :: "addr \<Rightarrow> int32_t \<Rightarrow> 's \<Rightarrow> local \<times> 's"
  Integer_NewFromUnsigned :: "addr \<Rightarrow> uint32_t \<Rightarrow> 's \<Rightarrow> local \<times> 's"
  CheckMemoryPressure :: "addr \<Rightarrow> 's \<Rightarrow> 's"
  ReportExternalAllocationLimitReached :: "addr \<Rightarrow> 's \<Rightarrow> 's"

section \<open>Roots\<close>

definition Undefined :: "addr \<Rightarrow> local" where "Undefined isolate = GetRoot isolate kUndefinedValueRootIndex"
definition Null :: "addr \<Rightarrow> local" where "Null isolate = GetRoot isolate kNullValueRootIndex"
definition True_value :: "addr \<Rightarrow> local" where "True_value isolate = GetRoot isolate kTrueValueRootIndex"
definition False_value :: "addr \<Rightarrow> local" where "False_value isolate = GetRoot isolate kFalseValueRootIndex"
definition String_Empty :: "addr \<Rightarrow> local" where "String_Empty isolate = GetRoot isolate kEmptyStringRootIndex"

definition Boolean_New :: "addr \<Rightarrow> bool \<Rightarrow> local" where
  "Boolean_New isolate value = (if value then True_value isolate else False_value isolate)"

section \<open>Type tests of Value\<close>

definition QuickIsUndefined :: "memory \<Rightarrow> local \<Rightarrow> bool" where
  "QuickIsUndefined m this =
     (let ob = load64 m this
      in if \<not> HasHeapObjectTag ob then False
         else if GetInstanceType m ob \<noteq> kOddballType then False
         else GetOddballKind m ob = kUndefinedOddballKind)"

definition QuickIsNull :: "memory \<Rightarrow> local \<Rightarrow> bool" where
  "QuickIsNull m this =
     (let ob = load64 m this
      in if \<not> HasHeapObjectTag ob then False
         else if GetInstanceType m ob \<noteq> kOddballType then False
         else GetOddballKind m ob = kNullOddballKind)"

definition QuickIsNullOrUndefined :: "memory \<Rightarrow> local \<Rightarrow> bool" where
  "QuickIsNullOrUndefined m this =
     (let ob = load64 m this
      in if \<not> HasHeapObjectTag ob then False
         else if GetInstanceType m ob \<noteq> kOddballType then False
         else let kind = GetOddballKind m ob
              in kind = kNullOddballKind \<or> kind = kUndefinedOddballKind)"

text \<open>\<open>GetInstanceType\<close> is an \<open>int\<close>: the comparison is signed.\<close>

definition QuickIsString :: "memory \<Rightarrow> local \<Rightarrow> bool" where
  "QuickIsString m this =
     (let ob = load64 m this
      in if \<not> HasHeapObjectTag ob then False
         else sint (GetInstanceType m ob) < sint kFirstNonstringType)"

definition Value_IsUndefined :: "memory \<Rightarrow> local \<Rightarrow> bool" where "Value_IsUndefined m this = QuickIsUndefined m this"
definition Value_IsNull :: "memory \<Rightarrow> local \<Rightarrow> bool" where "Value_IsNull m this = QuickIsNull m this"
definition Value_IsNullOrUndefined :: "memory \<Rightarrow> local \<Rightarrow> bool" where
  "Value_IsNullOrUndefined m this = QuickIsNullOrUndefined m this"
definition Value_IsString :: "memory \<Rightarrow> local \<Rightarrow> bool" where "Value_IsString m this = QuickIsString m this"

section \<open>External strings\<close>

definition GetExternalStringResource :: "memory \<Rightarrow> local \<Rightarrow> addr" where
  "GetExternalStringResource m this =
     (let ob = load64 m this
      in if IsExternalTwoByteString (GetInstanceType m ob)
         then ReadField_ptr m ob kStringResourceOffset
         else 0)"

text \<open>The resource and the encoding stored in \<open>*encoding_out\<close>.\<close>

definition GetExternalStringResourceBase :: "memory \<Rightarrow> local \<Rightarrow> addr \<times> int32_t" where
  "GetExternalStringResourceBase m this =
     (let ob = load64 m this;
          type = GetInstanceType m ob AND kFullStringRepresentationMask;
          encoding = type AND kStringEncodingMask
      in (if type = kExternalOneByteRepresentationTag \<or> type = kExternalTwoByteRepresentationTag
          then ReadField_ptr m ob kStringResourceOffset else 0, encoding))"

section \<open>Internal fields and embedder data\<close>

definition is_plain_object :: "int32_t \<Rightarrow> bool" where
  "is_plain_object instance_type \<longleftrightarrow>
     instance_type = kJSObjectType \<or> instance_type = kJSApiObjectType \<or> instance_type = kJSSpecialApiObjectType"

definition GetInternalField :: "('e v8) value_api \<Rightarrow> addr \<Rightarrow> int32_t \<Rightarrow> 'e v8 \<Rightarrow> local \<times> 'e v8" where
  "GetInternalField V this index st =
     (let ob = load64 (mem st) this
      in if is_plain_object (GetInstanceType (mem st) ob)
         then let offset = field_offset kJSObjectHeaderSize index;
                  value = ReadField_ptr (mem st) ob offset
              in CreateHandle_heap V ob value st
         else SlowGetInternalField V this index st)"

definition GetAlignedPointerFromInternalField :: "('e v8) value_api \<Rightarrow> addr \<Rightarrow> int32_t \<Rightarrow> 'e v8 \<Rightarrow> addr \<times> 'e v8" where
  "GetAlignedPointerFromInternalField V this index st =
     (let ob = load64 (mem st) this
      in if is_plain_object (GetInstanceType (mem st) ob)
         then (ReadField_ptr (mem st) ob (field_offset kJSObjectHeaderSize index), st)
         else SlowGetAlignedPointerFromInternalField V this index st)"

definition Context_GetEmbedderData :: "('e v8) value_api \<Rightarrow> addr \<Rightarrow> int32_t \<Rightarrow> 'e v8 \<Rightarrow> local \<times> 'e v8" where
  "Context_GetEmbedderData V this index st =
     (let context = load64 (mem st) this
      in CreateHandle_heap V context (ReadEmbedderData (mem st) this index) st)"

definition Context_GetAlignedPointerFromEmbedderData :: "memory \<Rightarrow> addr \<Rightarrow> int32_t \<Rightarrow> addr" where
  "Context_GetAlignedPointerFromEmbedderData m this index = ReadEmbedderData m this index"

definition Isolate_SetData :: "addr \<Rightarrow> uint32_t \<Rightarrow> addr \<Rightarrow> 'e v8 \<Rightarrow> 'e v8" where
  "Isolate_SetData this slot data st = st\<lparr>mem := SetEmbedderData (mem st) this slot data\<rparr>"

definition Isolate_GetData :: "'e v8 \<Rightarrow> addr \<Rightarrow> uint32_t \<Rightarrow> addr" where
  "Isolate_GetData st this slot = GetEmbedderData (mem st) this slot"

definition GetNumberOfDataSlots :: uint32_t where "GetNumberOfDataSlots = kNumIsolateDataSlots"

section \<open>Return values\<close>

text \<open>A \<open>ReturnValue\<close> is the address \<open>value_\<close> of its slot; \<open>value_[-1]\<close> is 8 bytes below.\<close>

definition RV_GetIsolate :: "memory \<Rightarrow> addr \<Rightarrow> addr" where
  "RV_GetIsolate m rv = load64 m (rv - 2 * kApiPointerSize)"

definition RV_GetDefaultValue :: "memory \<Rightarrow> addr \<Rightarrow> obj" where
  "RV_GetDefaultValue m rv = load64 m (rv - kApiPointerSize)"

definition RV_SetInternal :: "addr \<Rightarrow> obj \<Rightarrow> 'e v8 \<Rightarrow> 'e v8" where
  "RV_SetInternal rv value st = st\<lparr>mem := store64 (mem st) rv value\<rparr>"

definition RV_Set_local :: "addr \<Rightarrow> local \<Rightarrow> 'e v8 \<Rightarrow> 'e v8" where
  "RV_Set_local rv handle st =
     (if Local_IsEmpty handle then RV_SetInternal rv (RV_GetDefaultValue (mem st) rv) st
      else RV_SetInternal rv (load64 (mem st) handle) st)"

definition RV_Set_persistent :: "addr \<Rightarrow> addr \<Rightarrow> 'e v8 \<Rightarrow> 'e v8" where
  "RV_Set_persistent rv handle st =
     (if PB_IsEmpty st handle then RV_SetInternal rv (RV_GetDefaultValue (mem st) rv) st
      else RV_SetInternal rv (load64 (mem st) (handle_val st handle)) st)"

definition RV_Set_global :: "addr \<Rightarrow> addr \<Rightarrow> 'e v8 \<Rightarrow> 'e v8" where
  "RV_Set_global rv handle st =
     (if PB_IsEmpty st handle then RV_SetInternal rv (RV_GetDefaultValue (mem st) rv) st
      else RV_SetInternal rv (load64 (mem st) (handle_val st handle)) st)"

text \<open>A \<open>double\<close> is passed on as its bits.\<close>

definition RV_Set_double :: "('e v8) value_api \<Rightarrow> addr \<Rightarrow> 64 word \<Rightarrow> 'e v8 \<Rightarrow> 'e v8" where
  "RV_Set_double V rv i st =
     (let (l, st1) = Number_New V (RV_GetIsolate (mem st) rv) i st in RV_Set_local rv l st1)"

definition RV_Set_int32 :: "('e v8) value_api \<Rightarrow> addr \<Rightarrow> int32_t \<Rightarrow> 'e v8 \<Rightarrow> 'e v8" where
  "RV_Set_int32 V rv i st =
     (if IsValidSmi (scast i) then RV_SetInternal rv (IntToSmi i) st
      else let (l, st1) = Integer_New V (RV_GetIsolate (mem st) rv) i st in RV_Set_local rv l st1)"

definition RV_Set_uint32 :: "('e v8) value_api \<Rightarrow> addr \<Rightarrow> uint32_t \<Rightarrow> 'e v8 \<Rightarrow> 'e v8" where
  "RV_Set_uint32 V rv i st =
     (let fits_into_int32_t = (i AND push_bit 31 1 = 0)
      in if fits_into_int32_t then RV_Set_int32 V rv i st
         else let (l, st1) = Integer_NewFromUnsigned V (RV_GetIsolate (mem st) rv) i st in RV_Set_local rv l st1)"

definition RV_Set_bool :: "addr \<Rightarrow> bool \<Rightarrow> 'e v8 \<Rightarrow> 'e v8" where
  "RV_Set_bool rv value st =
     (let root_index = (if value then kTrueValueRootIndex else kFalseValueRootIndex)
      in RV_SetInternal rv (load64 (mem st) (GetRoot (RV_GetIsolate (mem st) rv) root_index)) st)"

definition RV_SetNull :: "addr \<Rightarrow> 'e v8 \<Rightarrow> 'e v8" where
  "RV_SetNull rv st =
     RV_SetInternal rv (load64 (mem st) (GetRoot (RV_GetIsolate (mem st) rv) kNullValueRootIndex)) st"

definition RV_SetUndefined :: "addr \<Rightarrow> 'e v8 \<Rightarrow> 'e v8" where
  "RV_SetUndefined rv st =
     RV_SetInternal rv (load64 (mem st) (GetRoot (RV_GetIsolate (mem st) rv) kUndefinedValueRootIndex)) st"

definition RV_SetEmptyString :: "addr \<Rightarrow> 'e v8 \<Rightarrow> 'e v8" where
  "RV_SetEmptyString rv st =
     RV_SetInternal rv (load64 (mem st) (GetRoot (RV_GetIsolate (mem st) rv) kEmptyStringRootIndex)) st"

definition RV_Get :: "('e v8) v8_api \<Rightarrow> addr \<Rightarrow> 'e v8 \<Rightarrow> local \<times> 'e v8" where
  "RV_Get E rv st =
     (let isolate = RV_GetIsolate (mem st) rv
      in if load64 (mem st) rv = load64 (mem st) (GetRoot isolate kTheHoleValueRootIndex)
         then (Undefined isolate, st)
         else Local_New_ptr E isolate rv st)"

section \<open>Function callbacks\<close>

record FunctionCallbackInfo =
  implicit_args :: addr
  fci_values :: addr
  fci_length :: int32_t

definition fci_kHolderIndex :: "64 word" where "fci_kHolderIndex = 0"
definition fci_kIsolateIndex :: "64 word" where "fci_kIsolateIndex = 1"
definition fci_kReturnValueDefaultValueIndex :: "64 word" where "fci_kReturnValueDefaultValueIndex = 2"
definition fci_kReturnValueIndex :: "64 word" where "fci_kReturnValueIndex = 3"
definition fci_kDataIndex :: "64 word" where "fci_kDataIndex = 4"
definition fci_kNewTargetIndex :: "64 word" where "fci_kNewTargetIndex = 5"
definition fci_kArgsLength :: "64 word" where "fci_kArgsLength = 6"

definition FCI_slot :: "FunctionCallbackInfo \<Rightarrow> 64 word \<Rightarrow> addr" where
  "FCI_slot info index = implicit_args info + index * kApiPointerSize"

definition FCI_GetIsolate :: "memory \<Rightarrow> FunctionCallbackInfo \<Rightarrow> addr" where
  "FCI_GetIsolate m info = load64 m (FCI_slot info fci_kIsolateIndex)"

definition FCI_Length :: "FunctionCallbackInfo \<Rightarrow> int32_t" where "FCI_Length info = fci_length info"

definition FCI_arg :: "memory \<Rightarrow> FunctionCallbackInfo \<Rightarrow> int32_t \<Rightarrow> local" where
  "FCI_arg m info i =
     (if sint i < 0 \<or> sint (fci_length info) \<le> sint i then Undefined (FCI_GetIsolate m info)
      else fci_values info - scast i * kApiPointerSize)"

definition FCI_This :: "FunctionCallbackInfo \<Rightarrow> local" where "FCI_This info = fci_values info + kApiPointerSize"
definition FCI_Holder :: "FunctionCallbackInfo \<Rightarrow> local" where "FCI_Holder info = FCI_slot info fci_kHolderIndex"
definition FCI_NewTarget :: "FunctionCallbackInfo \<Rightarrow> local" where "FCI_NewTarget info = FCI_slot info fci_kNewTargetIndex"
definition FCI_Data :: "FunctionCallbackInfo \<Rightarrow> local" where "FCI_Data info = FCI_slot info fci_kDataIndex"
definition FCI_GetReturnValue :: "FunctionCallbackInfo \<Rightarrow> addr" where
  "FCI_GetReturnValue info = FCI_slot info fci_kReturnValueIndex"
definition FCI_IsConstructCall :: "memory \<Rightarrow> FunctionCallbackInfo \<Rightarrow> bool" where
  "FCI_IsConstructCall m info = (\<not> Value_IsUndefined m (FCI_NewTarget info))"

section \<open>Property callbacks\<close>

text \<open>A \<open>PropertyCallbackInfo\<close> is the address \<open>args_\<close>.\<close>

definition pci_kShouldThrowOnErrorIndex :: "64 word" where "pci_kShouldThrowOnErrorIndex = 0"
definition pci_kHolderIndex :: "64 word" where "pci_kHolderIndex = 1"
definition pci_kIsolateIndex :: "64 word" where "pci_kIsolateIndex = 2"
definition pci_kReturnValueDefaultValueIndex :: "64 word" where "pci_kReturnValueDefaultValueIndex = 3"
definition pci_kReturnValueIndex :: "64 word" where "pci_kReturnValueIndex = 4"
definition pci_kDataIndex :: "64 word" where "pci_kDataIndex = 5"
definition pci_kThisIndex :: "64 word" where "pci_kThisIndex = 6"

definition PCI_slot :: "addr \<Rightarrow> 64 word \<Rightarrow> addr" where "PCI_slot args index = args + index * kApiPointerSize"
definition PCI_GetIsolate :: "memory \<Rightarrow> addr \<Rightarrow> addr" where "PCI_GetIsolate m args = load64 m (PCI_slot args pci_kIsolateIndex)"
definition PCI_Data :: "addr \<Rightarrow> local" where "PCI_Data args = PCI_slot args pci_kDataIndex"
definition PCI_This :: "addr \<Rightarrow> local" where "PCI_This args = PCI_slot args pci_kThisIndex"
definition PCI_Holder :: "addr \<Rightarrow> local" where "PCI_Holder args = PCI_slot args pci_kHolderIndex"
definition PCI_GetReturnValue :: "addr \<Rightarrow> addr" where "PCI_GetReturnValue args = PCI_slot args pci_kReturnValueIndex"
definition PCI_ShouldThrowOnError :: "memory \<Rightarrow> addr \<Rightarrow> bool" where
  "PCI_ShouldThrowOnError m args = (load64 m (PCI_slot args pci_kShouldThrowOnErrorIndex) \<noteq> IntToSmi 0)"

section \<open>External memory\<close>

text \<open>
  The counters are \<open>int64_t\<close>, here 64-bit words read as signed numbers; a sum that leaves the
  range is undefined in the source and wraps here.
\<close>

definition kMemoryReducerActivationLimit :: "64 word" where "kMemoryReducerActivationLimit = 32 * 1024 * 1024"

definition external_memory :: "'e v8 \<Rightarrow> addr \<Rightarrow> 64 word" where
  "external_memory st this = load64 (mem st) (this + kExternalMemoryOffset)"
definition external_memory_limit :: "'e v8 \<Rightarrow> addr \<Rightarrow> 64 word" where
  "external_memory_limit st this = load64 (mem st) (this + kExternalMemoryLimitOffset)"
definition external_memory_at_last_mc :: "'e v8 \<Rightarrow> addr \<Rightarrow> 64 word" where
  "external_memory_at_last_mc st this = load64 (mem st) (this + kExternalMemoryAtLastMarkCompactOffset)"

definition AdjustAmountOfExternalAllocatedMemory ::
  "('e v8) value_api \<Rightarrow> addr \<Rightarrow> int64_t \<Rightarrow> 'e v8 \<Rightarrow> int64_t \<times> 'e v8" where
  "AdjustAmountOfExternalAllocatedMemory V this change_in_bytes st =
     (let amount = external_memory st this + change_in_bytes;
          st1 = st\<lparr>mem := store64 (mem st) (this + kExternalMemoryOffset) amount\<rparr>;
          diff = external_memory_at_last_mc st1 this - external_memory st1 this;
          allocation_diff_since_last_mc = (if sint diff < 0 then - diff else diff);
          st2 = (if sint allocation_diff_since_last_mc > sint kMemoryReducerActivationLimit
                 then CheckMemoryPressure V this st1 else st1);
          st3 = (if sint change_in_bytes < 0
                 then st2\<lparr>mem := store64 (mem st2) (this + kExternalMemoryLimitOffset)
                        (external_memory_limit st2 this + change_in_bytes)\<rparr>
                 else st2);
          st4 = (if sint change_in_bytes > 0 \<and> sint amount > sint (external_memory_limit st3 this)
                 then ReportExternalAllocationLimitReached V this st3 else st3)
      in (external_memory st4 this, st4))"

section \<open>Script origins\<close>

definition kIsSharedCrossOrigin :: int32_t where "kIsSharedCrossOrigin = 1"
definition kIsOpaque :: int32_t where "kIsOpaque = push_bit 1 1"
definition kIsWasm :: int32_t where "kIsWasm = push_bit 2 1"
definition kIsModule :: int32_t where "kIsModule = push_bit 3 1"

definition ScriptOriginOptions :: "bool \<Rightarrow> bool \<Rightarrow> bool \<Rightarrow> bool \<Rightarrow> int32_t" where
  "ScriptOriginOptions is_shared_cross_origin is_opaque is_wasm is_module =
     (((if is_shared_cross_origin then kIsSharedCrossOrigin else 0) OR
       (if is_wasm then kIsWasm else 0)) OR (if is_opaque then kIsOpaque else 0)) OR
      (if is_module then kIsModule else 0)"

definition ScriptOriginOptions_flags :: "int32_t \<Rightarrow> int32_t" where
  "ScriptOriginOptions_flags flags = flags AND (((kIsSharedCrossOrigin OR kIsOpaque) OR kIsWasm) OR kIsModule)"

definition IsSharedCrossOrigin :: "int32_t \<Rightarrow> bool" where "IsSharedCrossOrigin flags \<longleftrightarrow> flags AND kIsSharedCrossOrigin \<noteq> 0"
definition IsOpaque :: "int32_t \<Rightarrow> bool" where "IsOpaque flags \<longleftrightarrow> flags AND kIsOpaque \<noteq> 0"
definition IsWasm :: "int32_t \<Rightarrow> bool" where "IsWasm flags \<longleftrightarrow> flags AND kIsWasm \<noteq> 0"
definition IsModule :: "int32_t \<Rightarrow> bool" where "IsModule flags \<longleftrightarrow> flags AND kIsModule \<noteq> 0"
definition Flags :: "int32_t \<Rightarrow> int32_t" where "Flags flags = flags"

record ScriptOrigin =
  resource_name :: local
  resource_line_offset :: local
  resource_column_offset :: local
  origin_options :: int32_t
  script_id :: local
  source_map_url :: local
  host_defined_options :: local

text \<open>\<open>IsTrue\<close> of the handle's value is the engine's.\<close>

definition ScriptOrigin_new ::
  "(local \<Rightarrow> bool) \<Rightarrow> local \<Rightarrow> local \<Rightarrow> local \<Rightarrow> local \<Rightarrow> local \<Rightarrow> local \<Rightarrow> local \<Rightarrow> local \<Rightarrow> local \<Rightarrow> local \<Rightarrow> ScriptOrigin" where
  "ScriptOrigin_new IsTrue res_name line_offset column_offset is_shared sid source_map is_opaque is_wasm is_module options =
     \<lparr>resource_name = res_name, resource_line_offset = line_offset, resource_column_offset = column_offset,
      origin_options = ScriptOriginOptions
        (\<not> Local_IsEmpty is_shared \<and> IsTrue is_shared)
        (\<not> Local_IsEmpty is_opaque \<and> IsTrue is_opaque)
        (\<not> Local_IsEmpty is_wasm \<and> IsTrue is_wasm)
        (\<not> Local_IsEmpty is_module \<and> IsTrue is_module),
      script_id = sid, source_map_url = source_map, host_defined_options = options\<rparr>"

record ScriptSource =
  source_string :: local
  src_resource_name :: local
  src_line_offset :: local
  src_column_offset :: local
  src_resource_options :: int32_t
  src_source_map_url :: local
  src_host_defined_options :: local
  cached_data :: addr

definition Source_new :: "local \<Rightarrow> ScriptOrigin \<Rightarrow> addr \<Rightarrow> ScriptSource" where
  "Source_new string origin data =
     \<lparr>source_string = string, src_resource_name = resource_name origin,
      src_line_offset = resource_line_offset origin, src_column_offset = resource_column_offset origin,
      src_resource_options = origin_options origin, src_source_map_url = source_map_url origin,
      src_host_defined_options = host_defined_options origin, cached_data = data\<rparr>"

definition Source_new_plain :: "local \<Rightarrow> addr \<Rightarrow> ScriptSource" where
  "Source_new_plain string data =
     \<lparr>source_string = string, src_resource_name = 0, src_line_offset = 0, src_column_offset = 0,
      src_resource_options = ScriptOriginOptions False False False False, src_source_map_url = 0,
      src_host_defined_options = 0, cached_data = data\<rparr>"

section \<open>Properties\<close>

lemma slot_apart:
  assumes "i < 1000" and "j < 1000" and "i \<noteq> j"
  shows "apart (p + of_nat (8 * i)) 8 (p + of_nat (8 * j)) 8"
  by (rule apart_of_nat) (use assms in auto)

text \<open>
  The layout \<open>ReturnValue\<close> relies on: in the arguments of a function call and of a property
  access, the words one and two below the return value's slot are the default value and the
  isolate, and setting the return value changes neither, nor the data and holder slots.
\<close>

theorem return_value_layout:
  "RV_GetIsolate m (FCI_GetReturnValue info) = FCI_GetIsolate m info
   \<and> RV_GetDefaultValue m (FCI_GetReturnValue info) = load64 m (FCI_slot info fci_kReturnValueDefaultValueIndex)
   \<and> RV_GetIsolate m (PCI_GetReturnValue args) = PCI_GetIsolate m args
   \<and> RV_GetDefaultValue m (PCI_GetReturnValue args) = load64 m (PCI_slot args pci_kReturnValueDefaultValueIndex)
   \<and> FCI_GetIsolate (mem (RV_SetInternal (FCI_GetReturnValue info) v st)) info = FCI_GetIsolate (mem st) info
   \<and> load64 (mem (RV_SetInternal (FCI_GetReturnValue info) v st)) (FCI_Data info) = load64 (mem st) (FCI_Data info)
   \<and> load64 (mem (RV_SetInternal (FCI_GetReturnValue info) v st)) (FCI_Holder info) = load64 (mem st) (FCI_Holder info)
   \<and> PCI_GetIsolate (mem (RV_SetInternal (PCI_GetReturnValue args) v st)) args = PCI_GetIsolate (mem st) args"
proof -
  note s = slot_apart [of 3 1 "implicit_args info"] slot_apart [of 3 4 "implicit_args info"]
    slot_apart [of 3 0 "implicit_args info"] slot_apart [of 4 2 args]
  note l = s [THEN load64_store64_apart, simplified]
  show ?thesis
    using l
    by (simp add: RV_GetIsolate_def RV_GetDefaultValue_def FCI_GetReturnValue_def FCI_GetIsolate_def FCI_slot_def
        PCI_GetReturnValue_def PCI_GetIsolate_def PCI_slot_def RV_SetInternal_def FCI_Data_def FCI_Holder_def
        fci_kReturnValueIndex_def fci_kIsolateIndex_def fci_kReturnValueDefaultValueIndex_def fci_kDataIndex_def
        fci_kHolderIndex_def pci_kReturnValueIndex_def pci_kIsolateIndex_def pci_kReturnValueDefaultValueIndex_def
        kApiPointerSize_def) (simp add: add.commute)
qed

text \<open>
  Returning integers: an \<open>int32_t\<close> is always stored as a tagged small integer, without
  calling the engine, and reads back; a \<open>uint32_t\<close> is stored that way below \<open>2\<^sup>3\<^sup>1\<close> and handed
  to \<open>Integer::NewFromUnsigned\<close> from there on.
\<close>

theorem return_integers:
  "RV_Set_int32 V rv i st = RV_SetInternal rv (IntToSmi i) st
   \<and> SmiValue (load64 (mem (RV_Set_int32 V rv i st)) rv) = i
   \<and> RV_Set_uint32 V rv u st =
       (if uint u < 2 ^ 31 then RV_SetInternal rv (IntToSmi u) st
        else let (l, st1) = Integer_NewFromUnsigned V (RV_GetIsolate (mem st) rv) u st in RV_Set_local rv l st1)"
proof -
  have int: "RV_Set_int32 V rv j st = RV_SetInternal rv (IntToSmi j) st" for j
  proof -
    have "IsValidSmi (scast j)"
      unfolding IsValidSmi_def IsValidSmi8_range
      using sint_ge [of j] sint_lt [of j] sint_up_scast [of j, where ?'b = 64] by (simp add: is_up)
    then show ?thesis by (simp add: RV_Set_int32_def)
  qed
  have top: "u AND push_bit 31 1 = 0 \<longleftrightarrow> uint u < 2 ^ 31"
  proof -
    have "0 \<le> uint u" "uint u < 2 * 2 ^ 31" using uint_bounded [of u] by simp_all
    then have "uint u div 2 ^ 31 \<in> {0, 1}" by (auto simp: div_pos_geq)
    then have "bit (uint u) 31 \<longleftrightarrow> \<not> uint u < 2 ^ 31"
      using \<open>0 \<le> uint u\<close> by (auto simp: bit_iff_odd zdiv_eq_0_iff)
    then have "bit u 31 \<longleftrightarrow> \<not> uint u < 2 ^ 31" by (simp add: bit_uint_iff)
    moreover have "u AND push_bit 31 1 = 0 \<longleftrightarrow> \<not> bit u 31"
      by (simp only: push_bit_of_1 and_exp_eq_0_iff_not_bit)
    ultimately show ?thesis by blast
  qed
  show ?thesis
    using int top SmiToInt8_IntToSmi8 by (simp add: RV_Set_uint32_def RV_SetInternal_def SmiValue_def IntToSmi_def)
qed

text \<open>
  The arguments of a call: inside the length \<open>args[i]\<close> is the slot \<open>i\<close> words below the first
  argument, so distinct indices have distinct slots and none is the receiver's; outside, negative indices
  included, it is the undefined root of the isolate.
\<close>

theorem call_arguments:
  assumes "0 \<le> sint i" "sint i < sint (fci_length info)" and "\<not> (0 \<le> sint k \<and> sint k < sint (fci_length info))"
    and "0 \<le> sint j" "sint j < sint (fci_length info)"
  shows "FCI_arg m info i = fci_values info - of_int (8 * sint i)
    \<and> FCI_arg m info i \<noteq> FCI_This info
    \<and> (FCI_arg m info i = FCI_arg m info j \<longleftrightarrow> i = j)
    \<and> FCI_arg m info k = Undefined (FCI_GetIsolate m info)"
proof -
  have slot: "FCI_arg m info x = fci_values info - of_int (8 * sint x)"
    if "0 \<le> sint x" "sint x < sint (fci_length info)" for x
    using that by (simp add: FCI_arg_def kApiPointerSize_def mult.commute)
  have small: "of_int (8 * a) = (of_int (8 * b) :: addr) \<longleftrightarrow> a = b" if "0 \<le> a" "a \<le> 2 ^ 31" "0 \<le> b" "b \<le> 2 ^ 31" for a b
  proof
    assume "of_int (8 * a) = (of_int (8 * b) :: addr)"
    then have "uint (word_of_int (8 * a) :: addr) = uint (word_of_int (8 * b) :: addr)" by simp
    then have "(8 * a) mod 2 ^ 64 = (8 * b) mod 2 ^ 64" by (simp only: uint_word_of_int) simp
    then show "a = b" using that by (simp add: mod_pos_pos_trivial)
  qed simp
  have r: "sint x \<le> 2 ^ 31" for x :: int32_t using sint_lt [of x] by simp
  have "of_int (8 * sint i) \<noteq> (of_int (8 * - 1) :: addr)"
  proof
    assume "of_int (8 * sint i) = (of_int (8 * - 1) :: addr)"
    then have "(of_int (8 * (sint i + 1)) :: addr) = of_int (8 * 0)" by (simp add: algebra_simps)
    then show False using small [of "sint i + 1" 0] assms(1) sint_lt [of i] by simp
  qed
  then have "FCI_arg m info i \<noteq> FCI_This info"
    using slot [OF assms(1,2)] by (simp add: FCI_This_def kApiPointerSize_def) (metis add.inverse_inverse diff_conv_add_uminus add_left_cancel)
  moreover have "FCI_arg m info i = FCI_arg m info j \<longleftrightarrow> i = j"
    using slot [OF assms(1,2)] slot [OF assms(4,5)] small [OF assms(1) r assms(4) r] signed_word_eqI by auto
  moreover have "FCI_arg m info k = Undefined (FCI_GetIsolate m info)"
    using assms(3) by (auto simp: FCI_arg_def)
  ultimately show ?thesis using slot [OF assms(1,2)] by simp
qed

text \<open>
  The quick tests agree with each other: null-or-undefined is the union of null and
  undefined, which exclude each other and strings, and a small integer is none of them.
\<close>

theorem quick_tests_consistent:
  "QuickIsNullOrUndefined m this = (QuickIsNull m this \<or> QuickIsUndefined m this)
   \<and> \<not> (QuickIsNull m this \<and> QuickIsUndefined m this)
   \<and> \<not> (QuickIsString m this \<and> QuickIsNullOrUndefined m this)
   \<and> (load64 m this = IntToSmi v \<longrightarrow> \<not> QuickIsNullOrUndefined m this \<and> \<not> QuickIsString m this)"
  using IntToSmi8_tag(1) [of v]
  by (auto simp: QuickIsNullOrUndefined_def QuickIsNull_def QuickIsUndefined_def QuickIsString_def Let_def
      kNullOddballKind_def kUndefinedOddballKind_def kOddballType_def kFirstNonstringType_def IntToSmi_def)


text \<open>Engine calls that leave an isolate's counters alone.\<close>

definition keeps_counters :: "addr \<Rightarrow> ('e v8 \<Rightarrow> 'e v8) \<Rightarrow> bool" where
  "keeps_counters this f \<longleftrightarrow> (\<forall>st. external_memory (f st) this = external_memory st this \<and>
     external_memory_limit (f st) this = external_memory_limit st this)"

lemma counters_apart:
  "load64 (store64 m (this + kExternalMemoryOffset) v) (this + kExternalMemoryLimitOffset) =
     load64 m (this + kExternalMemoryLimitOffset)"
  "load64 (store64 m (this + kExternalMemoryLimitOffset) v) (this + kExternalMemoryOffset) =
     load64 m (this + kExternalMemoryOffset)"
  using slot_apart [of 4 5 this, THEN load64_store64_apart, simplified]
    slot_apart [of 5 4 this, THEN load64_store64_apart, simplified]
  by (simp_all add: offset_defs)

text \<open>
  External memory: when the two engine calls leave the counters alone, the function adds the
  change to the counter and returns the new value, lowers the limit exactly for a negative change,
  and reports exactly when a positive change brings the counter above the limit.
\<close>

theorem AdjustAmount_accounts:
  assumes "keeps_counters this (CheckMemoryPressure V this)"
    and "keeps_counters this (ReportExternalAllocationLimitReached V this)"
    and run: "AdjustAmountOfExternalAllocatedMemory V this change st = (r, st')"
  shows "r = external_memory st this + change \<and> external_memory st' this = r
    \<and> external_memory_limit st' this = external_memory_limit st this + (if sint change < 0 then change else 0)
    \<and> (sint change \<le> 0 \<or> sint r \<le> sint (external_memory_limit st this) \<longrightarrow>
         AdjustAmountOfExternalAllocatedMemory (V\<lparr>ReportExternalAllocationLimitReached := f\<rparr>) this change st = (r, st'))"
proof -
  note k = assms(1,2) [unfolded keeps_counters_def external_memory_def external_memory_limit_def]
  have counters: "r = external_memory st this + change \<and> external_memory st' this = r
    \<and> external_memory_limit st' this = external_memory_limit st this + (if sint change < 0 then change else 0)"
    using run k
    unfolding AdjustAmountOfExternalAllocatedMemory_def Let_def external_memory_def external_memory_limit_def
    by (auto simp: counters_apart split: if_split_asm)
  show ?thesis
    using run k counters
    unfolding AdjustAmountOfExternalAllocatedMemory_def Let_def external_memory_def external_memory_limit_def
    by (auto simp: counters_apart split: if_split_asm)
qed

text \<open>
  Script origin options: the four flags given to the constructor read back, each alone, and
  the integer form rebuilds the same options.
\<close>

theorem ScriptOriginOptions_roundtrip:
  "IsSharedCrossOrigin (ScriptOriginOptions a b c d) = a \<and> IsOpaque (ScriptOriginOptions a b c d) = b
   \<and> IsWasm (ScriptOriginOptions a b c d) = c \<and> IsModule (ScriptOriginOptions a b c d) = d
   \<and> ScriptOriginOptions_flags (Flags (ScriptOriginOptions a b c d)) = ScriptOriginOptions a b c d"
  by (cases a; cases b; cases c; cases d)
     (simp_all add: IsSharedCrossOrigin_def IsOpaque_def IsWasm_def IsModule_def ScriptOriginOptions_flags_def Flags_def
       ScriptOriginOptions_def kIsSharedCrossOrigin_def kIsOpaque_def kIsWasm_def kIsModule_def)

section \<open>Concrete instances\<close>

definition null_values :: "('e v8) value_api" where
  "null_values = \<lparr>CreateHandle_heap = \<lambda>h ob st. (0, st), SlowGetInternalField = \<lambda>a i st. (0, st),
     SlowGetAlignedPointerFromInternalField = \<lambda>a i st. (0, st), Number_New = \<lambda>i d st. (0, st),
     Integer_New = \<lambda>i d st. (0, st), Integer_NewFromUnsigned = \<lambda>i d st. (0, st),
     CheckMemoryPressure = \<lambda>i st. st, ReportExternalAllocationLimitReached = \<lambda>i st. st\<rparr>"

theorem call_arguments_witness:
  "FCI_arg (\<lambda>_. 0) \<lparr>implicit_args = 4096, fci_values = 8192, fci_length = 3\<rparr> 2 = 8176 \<and>
   FCI_arg (\<lambda>_. 0) \<lparr>implicit_args = 4096, fci_values = 8192, fci_length = 3\<rparr> (- 1) =
     Undefined (FCI_GetIsolate (\<lambda>_. 0) \<lparr>implicit_args = 4096, fci_values = 8192, fci_length = 3\<rparr>)"
  using call_arguments [of 2 "\<lparr>implicit_args = 4096, fci_values = 8192, fci_length = 3\<rparr>" "- 1" 0 "\<lambda>_. 0"] by simp

theorem quick_tests_consistent_witness:
  "\<not> QuickIsNullOrUndefined (store64 (\<lambda>_. 0) 64 (IntToSmi 5)) 64"
  using quick_tests_consistent [of "store64 (\<lambda>_. 0) 64 (IntToSmi 5)" 64 5] by (metis load64_store64)

theorem AdjustAmount_accounts_witness:
  "\<exists>st'. AdjustAmountOfExternalAllocatedMemory null_values 4096 (- 5) bump0 =
     (external_memory bump0 4096 - 5, st') \<and> external_memory_limit st' 4096 = external_memory_limit bump0 4096 - 5"
proof -
  obtain r st' where run: "AdjustAmountOfExternalAllocatedMemory null_values 4096 (- 5) bump0 = (r, st')"
    by (metis surj_pair)
  from AdjustAmount_accounts [OF _ _ run] show ?thesis
    using run by (simp add: keeps_counters_def null_values_def)
qed

end
