(* ===== verification/V8Util.thy ===== *)
theory V8Util
  imports V8Values StdMap
begin

text \<open>
  The persistent containers of \<open>v8-util.h\<close>: \<open>StdMapTraits\<close>, \<open>PersistentValueMapBase\<close>,
  \<open>PersistentValueMap\<close>, \<open>GlobalValueMap\<close>, their default traits, and \<open>PersistentValueVector\<close>. A
  container stores raw cell addresses (\<open>PersistentContainerValue\<close>) and is responsible for them. The
  containers live at addresses, in \<open>pv_maps\<close> and \<open>pv_vecs\<close>, because the weak callbacks find them
  there. A \<open>Global\<close> that is passed or returned by value is its cell address, whose
  ownership moves with it; a \<open>Global\<close> variable has an address of its own.
\<close>

section \<open>State\<close>

record ('k, 'x) containers =
  pv_maps :: "addr \<Rightarrow> ('k, addr) std_map"
  pv_vecs :: "addr \<Rightarrow> addr list"
  pv_isolate :: "addr \<Rightarrow> addr"
  rest :: 'x

type_synonym ('k, 'x) cstate = "('k, 'x) containers v8"

definition kPersistentContainerNotFound :: addr where "kPersistentContainerNotFound = 0"

datatype PersistentContainerCallbackType = kNotWeak | kWeakWithParameter | kWeakWithInternalFields

definition impl_of :: "('k, 'x) cstate \<Rightarrow> addr \<Rightarrow> ('k, addr) std_map" where
  "impl_of st this = pv_maps (engine st) this"

definition set_impl :: "addr \<Rightarrow> ('k, addr) std_map \<Rightarrow> ('k, 'x) cstate \<Rightarrow> ('k, 'x) cstate" where
  "set_impl this m st = st\<lparr>engine := (engine st)\<lparr>pv_maps := (pv_maps (engine st))(this := m)\<rparr>\<rparr>"

definition isolate_of :: "('k, 'x) cstate \<Rightarrow> addr \<Rightarrow> addr" where
  "isolate_of st this = pv_isolate (engine st) this"

section \<open>StdMapTraits\<close>

definition Traits_Empty :: "('k, addr) std_map \<Rightarrow> bool" where "Traits_Empty impl = (impl = [])"
definition Traits_Size :: "('k, addr) std_map \<Rightarrow> nat" where "Traits_Size impl = length impl"
definition Traits_Swap :: "('k, addr) std_map \<Rightarrow> ('k, addr) std_map \<Rightarrow> ('k, addr) std_map \<times> ('k, addr) std_map" where
  "Traits_Swap a b = (b, a)"

definition Traits_Set :: "('k :: linorder, addr) std_map \<Rightarrow> 'k \<Rightarrow> addr \<Rightarrow> ('k, addr) std_map \<times> addr" where
  "Traits_Set impl key value =
     (let (impl1, inserted) = map_insert impl key value
      in if \<not> inserted
         then (map_assign impl1 key value, the (map_find impl1 key))
         else (impl1, kPersistentContainerNotFound))"

definition Traits_Get :: "('k :: linorder, addr) std_map \<Rightarrow> 'k \<Rightarrow> addr" where
  "Traits_Get impl key = (case map_find impl key of None \<Rightarrow> kPersistentContainerNotFound | Some v \<Rightarrow> v)"

definition Traits_Remove :: "('k :: linorder, addr) std_map \<Rightarrow> 'k \<Rightarrow> ('k, addr) std_map \<times> addr" where
  "Traits_Remove impl key =
     (case map_find impl key of
        None \<Rightarrow> (impl, kPersistentContainerNotFound)
      | Some v \<Rightarrow> (map_erase impl key, v))"

section \<open>The traits of weak callbacks\<close>

record ('k, 's) weak_traits =
  kCallbackType :: PersistentContainerCallbackType
  WeakCallbackParameter :: "addr \<Rightarrow> 'k \<Rightarrow> local \<Rightarrow> 's \<Rightarrow> addr \<times> 's"
  MapFromWeakCallbackInfo :: "WeakCallbackInfo \<Rightarrow> addr"
  KeyFromWeakCallbackInfo :: "WeakCallbackInfo \<Rightarrow> 'k"
  DisposeCallbackData :: "addr \<Rightarrow> 's \<Rightarrow> 's"
  Traits_Dispose :: "addr \<Rightarrow> addr \<Rightarrow> 'k \<Rightarrow> 's \<Rightarrow> 's"
  Traits_OnWeakCallback :: "WeakCallbackInfo \<Rightarrow> 's \<Rightarrow> 's"
  DisposeWeak :: "WeakCallbackInfo \<Rightarrow> 's \<Rightarrow> 's"

text \<open>
  The destructor of a \<open>Global\<close> passed by value. The default traits do nothing in \<open>Dispose\<close>, so
  that is what happens to the value there. \<open>k0\<close> is \<open>K()\<close>.
\<close>

definition drop_global :: "('e v8) v8_api \<Rightarrow> addr \<Rightarrow> 'e v8 \<Rightarrow> 'e v8" where
  "drop_global E v st = (if v = 0 then st else DisposeGlobal E v st)"

definition DefaultPersistentValueMapTraits :: "('e v8) v8_api \<Rightarrow> 'k \<Rightarrow> ('k, 'e v8) weak_traits" where
  "DefaultPersistentValueMapTraits E k0 =
     \<lparr>kCallbackType = kNotWeak, WeakCallbackParameter = \<lambda>map_addr key value st. (0, st),
      MapFromWeakCallbackInfo = \<lambda>data. 0, KeyFromWeakCallbackInfo = \<lambda>data. k0,
      DisposeCallbackData = \<lambda>data st. st, Traits_Dispose = \<lambda>isolate value key st. drop_global E value st,
      Traits_OnWeakCallback = \<lambda>data st. st, DisposeWeak = \<lambda>data st. st\<rparr>"

definition DefaultGlobalMapTraits :: "('e v8) v8_api \<Rightarrow> 'k \<Rightarrow> ('k, 'e v8) weak_traits" where
  "DefaultGlobalMapTraits E k0 =
     \<lparr>kCallbackType = kNotWeak, WeakCallbackParameter = \<lambda>map_addr key value st. (0, st),
      MapFromWeakCallbackInfo = \<lambda>data. 0, KeyFromWeakCallbackInfo = \<lambda>data. k0,
      DisposeCallbackData = \<lambda>data st. st, Traits_Dispose = \<lambda>isolate value key st. drop_global E value st,
      Traits_OnWeakCallback = \<lambda>data st. st, DisposeWeak = \<lambda>data st. st\<rparr>"

section \<open>PersistentValueMapBase\<close>

definition PVM_Size :: "('k, 'x) cstate \<Rightarrow> addr \<Rightarrow> nat" where
  "PVM_Size st this = Traits_Size (impl_of st this)"

definition PVM_IsWeak :: "('k, 's) weak_traits \<Rightarrow> bool" where
  "PVM_IsWeak T \<longleftrightarrow> kCallbackType T \<noteq> kNotWeak"

definition PVM_Get ::
  "(('k :: linorder, 'x) cstate) v8_api \<Rightarrow> addr \<Rightarrow> 'k \<Rightarrow> ('k, 'x) cstate \<Rightarrow> local \<times> ('k, 'x) cstate" where
  "PVM_Get E this key st = Local_New_ptr E (isolate_of st this) (Traits_Get (impl_of st this) key) st"

definition PVM_Contains :: "('k :: linorder, 'x) cstate \<Rightarrow> addr \<Rightarrow> 'k \<Rightarrow> bool" where
  "PVM_Contains st this key \<longleftrightarrow> Traits_Get (impl_of st this) key \<noteq> kPersistentContainerNotFound"

definition SetReturnValueFromVal :: "addr \<Rightarrow> addr \<Rightarrow> 'e v8 \<Rightarrow> bool \<times> 'e v8" where
  "SetReturnValueFromVal returnValue value st =
     (let hasValue = (value \<noteq> kPersistentContainerNotFound)
      in (hasValue, if hasValue then RV_SetInternal returnValue (load64 (mem st) value) st else st))"

definition PVM_SetReturnValue ::
  "addr \<Rightarrow> 'k :: linorder \<Rightarrow> addr \<Rightarrow> ('k, 'x) cstate \<Rightarrow> bool \<times> ('k, 'x) cstate" where
  "PVM_SetReturnValue this key returnValue st =
     SetReturnValueFromVal returnValue (Traits_Get (impl_of st this) key) st"

text \<open>A failed \<open>assert\<close> ends the process: \<open>None\<close>.\<close>

definition PVM_RegisterExternallyReferencedObject ::
  "(('k :: linorder, 'x) cstate) v8_api \<Rightarrow> addr \<Rightarrow> 'k \<Rightarrow> ('k, 'x) cstate \<Rightarrow> ('k, 'x) cstate option" where
  "PVM_RegisterExternallyReferencedObject E this key st =
     (if \<not> PVM_Contains st this key then None
      else Some (RegisterExternallyReferencedObject E (Traits_Get (impl_of st this) key) (isolate_of st this) st))"

text \<open>\<open>ClearAndLeak\<close>, \<open>Leak\<close> on a \<open>Global\<close> variable; \<open>Release\<close> gives its argument back as a \<open>Global\<close>.\<close>

definition ClearAndLeak :: "addr \<Rightarrow> 'e v8 \<Rightarrow> addr \<times> 'e v8" where
  "ClearAndLeak persistent st = (handle_val st persistent, set_val persistent 0 st)"

definition Leak :: "addr \<Rightarrow> 'e v8 \<Rightarrow> addr" where
  "Leak persistent st = handle_val st persistent"

definition cell_IsWeak :: "memory \<Rightarrow> addr \<Rightarrow> bool" where
  "cell_IsWeak m v = (if v = 0 then False else GetNodeState m v = kNodeStateIsWeakValue)"

definition Release :: "('k, 'e v8) weak_traits \<Rightarrow> ('e v8) v8_api \<Rightarrow> addr \<Rightarrow> 'e v8 \<Rightarrow> addr \<times> 'e v8" where
  "Release T E v st =
     (if kCallbackType T \<noteq> kNotWeak \<and> cell_IsWeak (mem st) v
      then let (data, st1) = V8_ClearWeak E v st in (v, DisposeCallbackData T data st1)
      else (v, st))"

definition PVM_Remove ::
  "('k :: linorder, ('k, 'x) cstate) weak_traits \<Rightarrow> (('k, 'x) cstate) v8_api \<Rightarrow> addr \<Rightarrow> 'k
   \<Rightarrow> ('k, 'x) cstate \<Rightarrow> addr \<times> ('k, 'x) cstate" where
  "PVM_Remove T E this key st =
     (let (impl, v) = Traits_Remove (impl_of st this) key in Release T E v (set_impl this impl st))"

definition PVM_RemoveWeak ::
  "(('k :: linorder, 'x) cstate) v8_api \<Rightarrow> addr \<Rightarrow> 'k \<Rightarrow> ('k, 'x) cstate \<Rightarrow> ('k, 'x) cstate" where
  "PVM_RemoveWeak E this key st =
     (let (impl, v) = Traits_Remove (impl_of st this) key in drop_global E v (set_impl this impl st))"

text \<open>
  \<open>Clear\<close>: the loop over the entries swapped out, and the outer loop, which goes on as long as the
  disposal callbacks put new entries into the map. \<open>open_scope\<close> and \<open>close_scope\<close> are the
  constructor and destructor of the \<open>HandleScope\<close>.
\<close>

fun dispose_entries ::
  "('k, 'e v8) weak_traits \<Rightarrow> ('e v8) v8_api \<Rightarrow> addr \<Rightarrow> ('k, addr) std_map \<Rightarrow> 'e v8 \<Rightarrow> 'e v8" where
  "dispose_entries T E isolate [] st = st"
| "dispose_entries T E isolate ((k, v) # impl) st =
     (let (p, st1) = Release T E v st in dispose_entries T E isolate impl (Traits_Dispose T isolate p k st1))"

partial_function (option) clear_loop ::
  "('k :: linorder, ('k, 'x) cstate) weak_traits \<Rightarrow> (('k, 'x) cstate) v8_api \<Rightarrow> addr
   \<Rightarrow> ('k, 'x) cstate \<Rightarrow> ('k, 'x) cstate option" where
  "clear_loop T E this st =
     (if Traits_Empty (impl_of st this) then Some st
      else let (own_impl, impl) = Traits_Swap (impl_of st this) [];
               st1 = set_impl this own_impl st
           in clear_loop T E this (dispose_entries T E (isolate_of st1 this) impl st1))"

definition PVM_Clear ::
  "(addr \<Rightarrow> ('k :: linorder, 'x) cstate \<Rightarrow> ('k, 'x) cstate) \<Rightarrow> (('k, 'x) cstate \<Rightarrow> ('k, 'x) cstate)
   \<Rightarrow> ('k, ('k, 'x) cstate) weak_traits \<Rightarrow> (('k, 'x) cstate) v8_api \<Rightarrow> addr
   \<Rightarrow> ('k, 'x) cstate \<Rightarrow> ('k, 'x) cstate option" where
  "PVM_Clear open_scope close_scope T E this st = do {
     st1 \<leftarrow> clear_loop T E this (open_scope (isolate_of st this) st);
     Some (close_scope st1)
   }"

text \<open>\<open>PersistentValueReference\<close> is its \<open>value_\<close>.\<close>

definition PVM_GetReference :: "('k :: linorder, 'x) cstate \<Rightarrow> addr \<Rightarrow> 'k \<Rightarrow> addr" where
  "PVM_GetReference st this key = Traits_Get (impl_of st this) key"

definition Ref_NewLocal :: "('e v8) v8_api \<Rightarrow> addr \<Rightarrow> addr \<Rightarrow> 'e v8 \<Rightarrow> local \<times> 'e v8" where
  "Ref_NewLocal E ref isolate st = Local_New_ptr E isolate ref st"

definition Ref_IsEmpty :: "addr \<Rightarrow> bool" where "Ref_IsEmpty ref \<longleftrightarrow> ref = kPersistentContainerNotFound"

definition Ref_SetReturnValue :: "addr \<Rightarrow> addr \<Rightarrow> 'e v8 \<Rightarrow> bool \<times> 'e v8" where
  "Ref_SetReturnValue ref returnValue st = SetReturnValueFromVal returnValue ref st"

definition Ref_new :: addr where "Ref_new = kPersistentContainerNotFound"
definition Ref_copy :: "addr \<Rightarrow> addr" where "Ref_copy other = other"
definition Ref_of_value :: "addr \<Rightarrow> addr" where "Ref_of_value value = value"

text \<open>The assignments to \<open>value_\<close>: the result is the new reference, the first argument the old one.\<close>

definition Ref_Reset :: "addr \<Rightarrow> addr" where "Ref_Reset ref = kPersistentContainerNotFound"
definition Ref_assign :: "addr \<Rightarrow> addr \<Rightarrow> addr" where "Ref_assign ref other = other"
definition Ref_assign_value :: "addr \<Rightarrow> addr \<Rightarrow> addr" where "Ref_assign_value ref value = value"

text \<open>Construction and destruction of the containers.\<close>

definition set_isolate :: "addr \<Rightarrow> addr \<Rightarrow> ('k, 'x) cstate \<Rightarrow> ('k, 'x) cstate" where
  "set_isolate this isolate st = st\<lparr>engine := (engine st)\<lparr>pv_isolate := (pv_isolate (engine st))(this := isolate)\<rparr>\<rparr>"

definition PVM_new :: "addr \<Rightarrow> addr \<Rightarrow> ('k, 'x) cstate \<Rightarrow> ('k, 'x) cstate" where
  "PVM_new this isolate st = set_impl this [] (set_isolate this isolate st)"

definition PVM_delete ::
  "(addr \<Rightarrow> ('k :: linorder, 'x) cstate \<Rightarrow> ('k, 'x) cstate) \<Rightarrow> (('k, 'x) cstate \<Rightarrow> ('k, 'x) cstate)
   \<Rightarrow> ('k, ('k, 'x) cstate) weak_traits \<Rightarrow> (('k, 'x) cstate) v8_api \<Rightarrow> addr
   \<Rightarrow> ('k, 'x) cstate \<Rightarrow> ('k, 'x) cstate option" where
  "PVM_delete open_scope close_scope T E this st = PVM_Clear open_scope close_scope T E this st"

section \<open>PersistentValueMap and GlobalValueMap\<close>

text \<open>
  \<open>SetUnique\<close>; \<open>cb\<close> is the callback it installs, \<open>WeakCallback\<close>. The result is the old value.
\<close>

definition SetUnique ::
  "('k :: linorder, ('k, 'x) cstate) weak_traits \<Rightarrow> (('k, 'x) cstate) v8_api \<Rightarrow> addr \<Rightarrow> addr \<Rightarrow> 'k \<Rightarrow> addr
   \<Rightarrow> ('k, 'x) cstate \<Rightarrow> addr \<times> ('k, 'x) cstate" where
  "SetUnique T E cb this key persistent st =
     (let st1 =
        (if kCallbackType T \<noteq> kNotWeak
         then let callback_type = (if kCallbackType T = kWeakWithInternalFields then kInternalFields else kParameter);
                  (value, sta) = Local_New_persistent E (isolate_of st this) persistent st;
                  (parameter, stb) = WeakCallbackParameter T this key value sta
              in PB_SetWeak E persistent parameter cb callback_type stb
         else st);
        (v, st2) = ClearAndLeak persistent st1;
        (impl, old_value) = Traits_Set (impl_of st2 this) key v
      in Release T E old_value (set_impl this impl st2))"

text \<open>\<open>Set\<close> from a \<open>Local\<close>: the variable \<open>persistent\<close> is at \<open>tmp\<close> and is destroyed at the end.\<close>

definition PVM_Set_local ::
  "('k :: linorder, ('k, 'x) cstate) weak_traits \<Rightarrow> (('k, 'x) cstate) v8_api \<Rightarrow> addr \<Rightarrow> addr \<Rightarrow> addr \<Rightarrow> 'k \<Rightarrow> local
   \<Rightarrow> ('k, 'x) cstate \<Rightarrow> addr \<times> ('k, 'x) cstate" where
  "PVM_Set_local T E cb tmp this key value st =
     (let st1 = Global_new_local E tmp (isolate_of st this) value st;
          (old, st2) = SetUnique T E cb this key tmp st1
      in (old, Global_delete E tmp st2))"

definition PVM_Set_global ::
  "('k :: linorder, ('k, 'x) cstate) weak_traits \<Rightarrow> (('k, 'x) cstate) v8_api \<Rightarrow> addr \<Rightarrow> addr \<Rightarrow> 'k \<Rightarrow> addr
   \<Rightarrow> ('k, 'x) cstate \<Rightarrow> addr \<times> ('k, 'x) cstate" where
  "PVM_Set_global T E cb this key value st =
     (let (old, st1) = SetUnique T E cb this key value st in (old, Global_delete E value st1))"

text \<open>\<open>Set\<close> with a reference: the old value and the new value of \<open>*reference\<close>.\<close>

definition PVM_Set_reference ::
  "('k :: linorder, ('k, 'x) cstate) weak_traits \<Rightarrow> (('k, 'x) cstate) v8_api \<Rightarrow> addr \<Rightarrow> addr \<Rightarrow> 'k \<Rightarrow> addr
   \<Rightarrow> ('k, 'x) cstate \<Rightarrow> addr \<times> addr \<times> ('k, 'x) cstate" where
  "PVM_Set_reference T E cb this key value st =
     (let reference = Leak value st;
          (old, st1) = SetUnique T E cb this key value st
      in (old, reference, Global_delete E value st1))"

text \<open>\<open>GlobalValueMap\<close> has setters of its own, with the same bodies; \<open>cb\<close> is \<open>OnWeakCallback\<close>.\<close>

definition GVM_SetUnique ::
  "('k :: linorder, ('k, 'x) cstate) weak_traits \<Rightarrow> (('k, 'x) cstate) v8_api \<Rightarrow> addr \<Rightarrow> addr \<Rightarrow> 'k \<Rightarrow> addr
   \<Rightarrow> ('k, 'x) cstate \<Rightarrow> addr \<times> ('k, 'x) cstate" where
  "GVM_SetUnique T E cb this key persistent st =
     (let st1 =
        (if kCallbackType T \<noteq> kNotWeak
         then let callback_type = (if kCallbackType T = kWeakWithInternalFields then kInternalFields else kParameter);
                  (value, sta) = Local_New_persistent E (isolate_of st this) persistent st;
                  (parameter, stb) = WeakCallbackParameter T this key value sta
              in PB_SetWeak E persistent parameter cb callback_type stb
         else st);
        (v, st2) = ClearAndLeak persistent st1;
        (impl, old_value) = Traits_Set (impl_of st2 this) key v
      in Release T E old_value (set_impl this impl st2))"

definition GVM_Set_local ::
  "('k :: linorder, ('k, 'x) cstate) weak_traits \<Rightarrow> (('k, 'x) cstate) v8_api \<Rightarrow> addr \<Rightarrow> addr \<Rightarrow> addr \<Rightarrow> 'k \<Rightarrow> local
   \<Rightarrow> ('k, 'x) cstate \<Rightarrow> addr \<times> ('k, 'x) cstate" where
  "GVM_Set_local T E cb tmp this key value st =
     (let st1 = Global_new_local E tmp (isolate_of st this) value st;
          (old, st2) = GVM_SetUnique T E cb this key tmp st1
      in (old, Global_delete E tmp st2))"

definition GVM_Set_global ::
  "('k :: linorder, ('k, 'x) cstate) weak_traits \<Rightarrow> (('k, 'x) cstate) v8_api \<Rightarrow> addr \<Rightarrow> addr \<Rightarrow> 'k \<Rightarrow> addr
   \<Rightarrow> ('k, 'x) cstate \<Rightarrow> addr \<times> ('k, 'x) cstate" where
  "GVM_Set_global T E cb this key value st =
     (let (old, st1) = GVM_SetUnique T E cb this key value st in (old, Global_delete E value st1))"

definition GVM_Set_reference ::
  "('k :: linorder, ('k, 'x) cstate) weak_traits \<Rightarrow> (('k, 'x) cstate) v8_api \<Rightarrow> addr \<Rightarrow> addr \<Rightarrow> 'k \<Rightarrow> addr
   \<Rightarrow> ('k, 'x) cstate \<Rightarrow> addr \<times> addr \<times> ('k, 'x) cstate" where
  "GVM_Set_reference T E cb this key value st =
     (let reference = Leak value st;
          (old, st1) = GVM_SetUnique T E cb this key value st
      in (old, reference, Global_delete E value st1))"

lemma GVM_setters:
  "GVM_SetUnique = SetUnique" "GVM_Set_local = PVM_Set_local" "GVM_Set_global = PVM_Set_global"
  "GVM_Set_reference = PVM_Set_reference"
proof -
  show u: "GVM_SetUnique = SetUnique" by (intro ext) (simp only: GVM_SetUnique_def SetUnique_def)
  show "GVM_Set_local = PVM_Set_local" by (intro ext) (simp only: GVM_Set_local_def PVM_Set_local_def u)
  show "GVM_Set_global = PVM_Set_global" by (intro ext) (simp only: GVM_Set_global_def PVM_Set_global_def u)
  show "GVM_Set_reference = PVM_Set_reference" by (intro ext) (simp only: GVM_Set_reference_def PVM_Set_reference_def u)
qed

definition PVM_WeakCallback ::
  "('k :: linorder, ('k, 'x) cstate) weak_traits \<Rightarrow> (('k, 'x) cstate) v8_api \<Rightarrow> WeakCallbackInfo
   \<Rightarrow> ('k, 'x) cstate \<Rightarrow> ('k, 'x) cstate" where
  "PVM_WeakCallback T E data st =
     (if kCallbackType T \<noteq> kNotWeak
      then let persistentValueMap = MapFromWeakCallbackInfo T data;
               key = KeyFromWeakCallbackInfo T data;
               (v, st1) = PVM_Remove T E persistentValueMap key st;
               st2 = Traits_Dispose T (wci_isolate data) v key st1
           in DisposeCallbackData T (wci_parameter data) st2
      else st)"

definition GVM_OnWeakCallback ::
  "('k :: linorder, ('k, 'x) cstate) weak_traits \<Rightarrow> (('k, 'x) cstate) v8_api \<Rightarrow> addr \<Rightarrow> WeakCallbackInfo
   \<Rightarrow> ('k, 'x) cstate \<Rightarrow> ('k, 'x) cstate" where
  "GVM_OnWeakCallback T E second_cb data st =
     (if kCallbackType T \<noteq> kNotWeak
      then let map_addr = MapFromWeakCallbackInfo T data;
               key = KeyFromWeakCallbackInfo T data;
               st1 = PVM_RemoveWeak E map_addr key st;
               st2 = Traits_OnWeakCallback T data st1
           in SetSecondPassCallback data second_cb st2
      else st)"

definition GVM_SecondWeakCallback :: "('k, 's) weak_traits \<Rightarrow> WeakCallbackInfo \<Rightarrow> 's \<Rightarrow> 's" where
  "GVM_SecondWeakCallback T data st = DisposeWeak T data st"

section \<open>PersistentValueVector\<close>

definition vec_of :: "('k, 'x) cstate \<Rightarrow> addr \<Rightarrow> addr list" where "vec_of st this = pv_vecs (engine st) this"

definition set_vec :: "addr \<Rightarrow> addr list \<Rightarrow> ('k, 'x) cstate \<Rightarrow> ('k, 'x) cstate" where
  "set_vec this xs st = st\<lparr>engine := (engine st)\<lparr>pv_vecs := (pv_vecs (engine st))(this := xs)\<rparr>\<rparr>"

definition VecTraits_Append :: "addr list \<Rightarrow> addr \<Rightarrow> addr list" where "VecTraits_Append impl value = impl @ [value]"
definition VecTraits_IsEmpty :: "addr list \<Rightarrow> bool" where "VecTraits_IsEmpty impl = (impl = [])"
definition VecTraits_Size :: "addr list \<Rightarrow> nat" where "VecTraits_Size impl = length impl"
definition VecTraits_Get :: "addr list \<Rightarrow> nat \<Rightarrow> addr" where
  "VecTraits_Get impl i = (if i < length impl then impl ! i else kPersistentContainerNotFound)"
definition VecTraits_Clear :: "addr list \<Rightarrow> addr list" where "VecTraits_Clear impl = []"

definition PVV_Append_local ::
  "(('k, 'x) cstate) v8_api \<Rightarrow> addr \<Rightarrow> addr \<Rightarrow> local \<Rightarrow> ('k, 'x) cstate \<Rightarrow> ('k, 'x) cstate" where
  "PVV_Append_local E tmp this value st =
     (let st1 = Global_new_local E tmp (isolate_of st this) value st;
          (v, st2) = ClearAndLeak tmp st1
      in Global_delete E tmp (set_vec this (VecTraits_Append (vec_of st2 this) v) st2))"

definition PVV_Append_global ::
  "(('k, 'x) cstate) v8_api \<Rightarrow> addr \<Rightarrow> addr \<Rightarrow> ('k, 'x) cstate \<Rightarrow> ('k, 'x) cstate" where
  "PVV_Append_global E this persistent st =
     (let (v, st1) = ClearAndLeak persistent st
      in Global_delete E persistent (set_vec this (VecTraits_Append (vec_of st1 this) v) st1))"

definition PVV_IsEmpty :: "('k, 'x) cstate \<Rightarrow> addr \<Rightarrow> bool" where "PVV_IsEmpty st this = VecTraits_IsEmpty (vec_of st this)"
definition PVV_Size :: "('k, 'x) cstate \<Rightarrow> addr \<Rightarrow> nat" where "PVV_Size st this = VecTraits_Size (vec_of st this)"

definition PVV_Get ::
  "(('k, 'x) cstate) v8_api \<Rightarrow> addr \<Rightarrow> nat \<Rightarrow> ('k, 'x) cstate \<Rightarrow> local \<times> ('k, 'x) cstate" where
  "PVV_Get E this index st = Local_New_ptr E (isolate_of st this) (VecTraits_Get (vec_of st this) index) st"

text \<open>\<open>Clear\<close>: in each turn the destructor of \<open>p\<close> disposes the value.\<close>

fun clear_upto :: "(('k, 'x) cstate) v8_api \<Rightarrow> addr \<Rightarrow> nat \<Rightarrow> ('k, 'x) cstate \<Rightarrow> ('k, 'x) cstate" where
  "clear_upto E this 0 st = st"
| "clear_upto E this (Suc i) st =
     (let st1 = clear_upto E this i st in drop_global E (VecTraits_Get (vec_of st1 this) i) st1)"

definition PVV_Clear :: "(('k, 'x) cstate) v8_api \<Rightarrow> addr \<Rightarrow> ('k, 'x) cstate \<Rightarrow> ('k, 'x) cstate" where
  "PVV_Clear E this st =
     (let st1 = clear_upto E this (VecTraits_Size (vec_of st this)) st
      in set_vec this (VecTraits_Clear (vec_of st1 this)) st1)"

definition PVV_new :: "addr \<Rightarrow> addr \<Rightarrow> ('k, 'x) cstate \<Rightarrow> ('k, 'x) cstate" where
  "PVV_new this isolate st = set_vec this [] (set_isolate this isolate st)"

definition PVV_delete :: "(('k, 'x) cstate) v8_api \<Rightarrow> addr \<Rightarrow> ('k, 'x) cstate \<Rightarrow> ('k, 'x) cstate" where
  "PVV_delete E this st = PVV_Clear E this st"

section \<open>The backing map\<close>

text \<open>The cells of others, after \<open>v\<close> (if it is a cell) was handed to them.\<close>

abbreviation handed :: "addr \<Rightarrow> addr set \<Rightarrow> addr set" where
  "handed v C0 \<equiv> (if v = 0 then C0 else insert v C0)"

text \<open>
  What the containers need of the map in their traits: \<open>Set\<close> and \<open>Remove\<close> return what \<open>Get\<close>
  returned for the key before, \<open>0\<close> standing for "not found".
\<close>

locale backing_map =
  fixes empty_map :: 'm
    and set_op :: "'m \<Rightarrow> 'k \<Rightarrow> addr \<Rightarrow> 'm \<times> addr"
    and get_op :: "'m \<Rightarrow> 'k \<Rightarrow> addr"
    and remove_op :: "'m \<Rightarrow> 'k \<Rightarrow> 'm \<times> addr"
    and ok :: "'m \<Rightarrow> bool"
  assumes get_empty: "ok empty_map \<and> get_op empty_map = (\<lambda>_. 0)"
    and get_set: "ok m \<Longrightarrow> set_op m k v = (m', old) \<Longrightarrow> ok m' \<and> old = get_op m k \<and> get_op m' = (get_op m)(k := v)"
    and get_remove: "ok m \<Longrightarrow> remove_op m k = (m', v) \<Longrightarrow> ok m' \<and> v = get_op m k \<and> get_op m' = (get_op m)(k := 0)"
begin

lemma set_then_remove:
  assumes "ok m" and "set_op m k v = (m1, old)" and "remove_op m1 k = (m2, w)"
  shows "w = v \<and> get_op m2 = (get_op m)(k := 0)"
  using get_set [OF assms(1,2)] get_remove [OF _ assms(3)] by simp

lemma own_set:
  assumes "ok m" and "own C0 C UNIV (get_op m)" and "v \<notin> C" and "v \<noteq> 0" and "set_op m k v = (m', old)"
  shows "own (handed old C0) (insert v C) UNIV (get_op m')"
proof (cases "get_op m k = 0")
  case True
  then show ?thesis using own_add [OF assms(2-4), of k] get_set [OF assms(1,5)] by simp
next
  case False
  have "own (insert (get_op m k) C0) (insert v C) (insert k UNIV) ((get_op m)(k := 0, k := v))"
    by (rule own_add [OF own_release [OF assms(2) _ False]]) (use assms(3,4) in auto)
  then show ?thesis using get_set [OF assms(1,5)] False by simp
qed

lemma own_set_empty:
  assumes "ok m" and "own C0 C UNIV (get_op m)" and "set_op m k 0 = (m', old)"
  shows "own (handed old C0) C UNIV (get_op m')"
  using own_release [OF assms(2), of k] assms(2) get_set [OF assms(1,3)]
  by (cases "get_op m k = 0") (auto simp: fun_upd_idem)

lemma own_remove:
  assumes "ok m" and "own C0 C UNIV (get_op m)" and "remove_op m k = (m', v)"
  shows "own (handed v C0) C UNIV (get_op m')"
  using own_release [OF assms(2), of k] assms(2) get_remove [OF assms(1,3)]
  by (cases "get_op m k = 0") (auto simp: fun_upd_idem)

end

interpretation smt: backing_map "[]" Traits_Set Traits_Get Traits_Remove map_ok
proof unfold_locales
  show "map_ok [] \<and> Traits_Get ([] :: ('a :: linorder, addr) std_map) = (\<lambda>_. 0)"
    by (simp add: Traits_Get_def kPersistentContainerNotFound_def fun_eq_iff)
next
  fix m m' :: "('a :: linorder, addr) std_map" and k v old
  assume m: "map_ok m" and s: "Traits_Set m k v = (m', old)"
  show "map_ok m' \<and> old = Traits_Get m k \<and> Traits_Get m' = (Traits_Get m)(k := v)"
    using s m sm.find_assign [OF m] sm.ok_assign [OF m]
    by (auto simp: Traits_Set_def map_insert_def Traits_Get_def fun_eq_iff split: option.splits)
next
  fix m m' :: "('a :: linorder, addr) std_map" and k v
  assume m: "map_ok m" and s: "Traits_Remove m k = (m', v)"
  show "map_ok m' \<and> v = Traits_Get m k \<and> Traits_Get m' = (Traits_Get m)(k := 0)"
    using s m sm.find_erase [OF m] sm.ok_erase [OF m]
    by (auto simp: Traits_Remove_def Traits_Get_def kPersistentContainerNotFound_def fun_eq_iff split: option.splits)
qed


section \<open>Ownership of the stored cells\<close>

text \<open>
  In addition to \<open>cells_contract\<close>: the engine leaves the containers alone, and which cells are
  in use does not depend on them.
\<close>

definition container_contract :: "(('k, 'x) cstate) v8_api \<Rightarrow> (('k, 'x) cstate \<Rightarrow> addr set) \<Rightarrow> (('k, 'x) cstate \<Rightarrow> bool) \<Rightarrow> bool" where
  "container_contract E cells alive \<longleftrightarrow> cells_contract E cells alive \<and>
     (\<forall>st f. cells (st\<lparr>engine := (engine st)\<lparr>pv_maps := f\<rparr>\<rparr>) = cells st \<and>
             alive (st\<lparr>engine := (engine st)\<lparr>pv_maps := f\<rparr>\<rparr>) = alive st) \<and>
     (\<forall>st f. cells (st\<lparr>engine := (engine st)\<lparr>pv_vecs := f\<rparr>\<rparr>) = cells st \<and>
             alive (st\<lparr>engine := (engine st)\<lparr>pv_vecs := f\<rparr>\<rparr>) = alive st) \<and>
     (\<forall>isolate p st c st'. GlobalizeReference E isolate p st = (c, st') \<longrightarrow>
        pv_maps (engine st') = pv_maps (engine st) \<and> pv_vecs (engine st') = pv_vecs (engine st)) \<and>
     (\<forall>c st. pv_maps (engine (DisposeGlobal E c st)) = pv_maps (engine st) \<and>
        pv_vecs (engine (DisposeGlobal E c st)) = pv_vecs (engine st))"

lemma container_cells: "container_contract E cells alive \<Longrightarrow> cells_contract E cells alive"
  by (simp add: container_contract_def)

lemma impl_simps [simp]:
  "impl_of (set_impl this m st) x = (if x = this then m else impl_of st x)"
  "impl_of (set_val p v st) x = impl_of st x" "vec_of (set_val p v st) x = vec_of st x"
  "vec_of (set_impl this m st) x = vec_of st x" "impl_of (set_vec this xs st) x = impl_of st x"
  "vec_of (set_vec this xs st) x = (if x = this then xs else vec_of st x)"
  "handle_val (set_impl this m st) = handle_val st" "handle_val (set_vec this xs st) = handle_val st"
  "mem (set_impl this m st) = mem st" "mem (set_vec this xs st) = mem st"
  by (simp_all add: impl_of_def set_impl_def set_val_def vec_of_def set_vec_def)

lemma cells_set_impl [simp]:
  assumes "container_contract E cells alive"
  shows "cells (set_impl this m st) = cells st" "alive (set_impl this m st) = alive st"
    "cells (set_vec this xs st) = cells st" "alive (set_vec this xs st) = alive st"
  using assms by (simp_all add: container_contract_def set_impl_def set_vec_def)

lemma dispose_containers [simp]:
  assumes "container_contract E cells alive"
  shows "impl_of (DisposeGlobal E c st) x = impl_of st x" "vec_of (DisposeGlobal E c st) x = vec_of st x"
  using assms by (simp_all add: container_contract_def impl_of_def vec_of_def)

lemma globalize_containers:
  assumes "container_contract E cells alive" and "PB_New E isolate p st = (v, st')"
  shows "impl_of st' x = impl_of st x" "vec_of st' x = vec_of st x"
  using assms by (auto simp: container_contract_def impl_of_def vec_of_def PB_New_def split: if_split_asm)

text \<open>Disposing one owned value.\<close>

lemma drop_global_own:
  assumes "container_contract E cells alive" and "own C0 (cells st) UNIV f" and "alive st"
  shows "own C0 (cells (drop_global E (f k) st)) UNIV (f(k := 0))" and "alive (drop_global E (f k) st)"
    and "impl_of (drop_global E (f k) st) x = impl_of st x" and "vec_of (drop_global E (f k) st) x = vec_of st x"
    and "handle_val (drop_global E (f k) st) = handle_val st"
proof -
  have c: "f k \<noteq> 0 \<Longrightarrow> f k \<in> cells st" using own_cell [OF assms(2), of k] by simp
  note d = DisposeGlobal_cells [OF container_cells [OF assms(1)] c assms(3)]
  show "own C0 (cells (drop_global E (f k) st)) UNIV (f(k := 0))"
    using own_drop [OF assms(2), of k] d(1) assms(2) by (simp add: drop_global_def fun_upd_idem)
  show "alive (drop_global E (f k) st)" "handle_val (drop_global E (f k) st) = handle_val st"
    using d(2,4) assms(3) by (simp_all add: drop_global_def)
  show "impl_of (drop_global E (f k) st) x = impl_of st x" "vec_of (drop_global E (f k) st) x = vec_of st x"
    using assms(1) by (simp_all add: drop_global_def)
qed

lemma Traits_Get_Cons:
  fixes m :: "('a :: linorder, addr) std_map"
  assumes "map_ok ((k, v) # m)"
  shows "Traits_Get ((k, v) # m) k = v" and "Traits_Get m = (Traits_Get ((k, v) # m))(k := 0)"
proof -
  have get: "Traits_Get l x = (case map_of l x of None \<Rightarrow> 0 | Some w \<Rightarrow> w)" if "map_ok l" for l :: "('a, addr) std_map" and x
    using that by (simp add: Traits_Get_def kPersistentContainerNotFound_def map_find_map_of split: option.split)
  have m: "map_ok m" "map_of m k = None"
    using assms by (auto simp: map_ok_Cons map_of_eq_None_iff)
  show "Traits_Get ((k, v) # m) k = v" "Traits_Get m = (Traits_Get ((k, v) # m))(k := 0)"
    using m(2) by (auto simp: fun_eq_iff get [OF assms] get [OF m(1)])
qed

lemma Traits_Get_Nil: "Traits_Get [] = (\<lambda>_. 0)"
  using smt.get_empty by simp

lemma dispose_entries_default:
  "dispose_entries (DefaultPersistentValueMapTraits E k0) E isolate ((k, v) # m) st =
   dispose_entries (DefaultPersistentValueMapTraits E k0) E isolate m (drop_global E v st)"
  by (simp add: Release_def DefaultPersistentValueMapTraits_def)

lemma dispose_entries_own:
  assumes "container_contract E cells alive"
  shows "map_ok m \<Longrightarrow> own C0 (cells st) UNIV (Traits_Get m) \<Longrightarrow> alive st \<Longrightarrow>
    cells (dispose_entries (DefaultPersistentValueMapTraits E k0) E isolate m st) = C0 \<and>
    alive (dispose_entries (DefaultPersistentValueMapTraits E k0) E isolate m st) \<and>
    impl_of (dispose_entries (DefaultPersistentValueMapTraits E k0) E isolate m st) x = impl_of st x"
proof (induction m arbitrary: st)
  case Nil
  then show ?case by (simp add: Traits_Get_Nil) (rule own_all_empty)
next
  case (Cons e m)
  obtain k v where e: "e = (k, v)" by (cases e)
  note g = Traits_Get_Cons [OF Cons.prems(1) [unfolded e]]
  note d = drop_global_own [OF assms Cons.prems(2,3), of k, unfolded e g(1)]
  have "map_ok m" using Cons.prems(1) by (simp add: e map_ok_Cons)
  moreover have "own C0 (cells (drop_global E v st)) UNIV (Traits_Get m)" unfolding g(2) by (rule d(1))
  ultimately show ?case
    using Cons.IH [of "drop_global E v st"] d(2,3) by (simp only: e dispose_entries_default)
qed

lemma PB_New_fresh:
  assumes "container_contract E cells alive" and "PB_New E isolate p st = (v, st')" and "alive st'"
  shows "if p = 0 then v = 0 \<and> st' = st else new_cell cells st (load64 (mem st) p) v st'"
  using assms GlobalizeReference_new_cell [OF container_cells [OF assms(1)]] by (simp add: PB_New_def split: if_split_asm)

lemma own_set_value:
  assumes c: "container_contract E cells alive" and "map_ok m" and "own C0 (cells st) UNIV (Traits_Get m)"
    and "PB_New E isolate p st = (v, st')" and "alive st'" and "Traits_Set m key v = (m', old)"
  shows "own (handed old C0) (cells st') UNIV (Traits_Get m')"
  using PB_New_fresh [OF c assms(4,5)] smt.own_set [OF assms(2,3) _ _ assms(6)] smt.own_set_empty [OF assms(2,3)] assms(6)
  by (cases "p = 0") (simp_all add: new_cell_def)

lemma PVM_Set_local_default:
  assumes "PB_New E (isolate_of st this) value st = (v, st1)"
    and "Traits_Set (impl_of st1 this) key v = (m', old)"
  shows "PVM_Set_local (DefaultPersistentValueMapTraits E k0) E cb tmp this key value st =
    (old, set_impl this m' (set_val tmp 0 st1))"
  using assms
  by (simp add: PVM_Set_local_def Global_new_local_def SetUnique_def DefaultPersistentValueMapTraits_def ClearAndLeak_def
      Release_def Global_delete_def PB_Reset_def PB_IsEmpty_def set_val_def impl_of_def Let_def)


abbreviation map_owns where
  "map_owns cells C0 st this \<equiv> own C0 (cells st) UNIV (Traits_Get (impl_of st this))"

abbreviation vec_owns where
  "vec_owns cells C0 st this \<equiv> own C0 (cells st) UNIV (VecTraits_Get (vec_of st this))"

lemma clear_loop_own:
  assumes c: "container_contract E cells alive" and "map_ok (impl_of st this)" and "map_owns cells C0 st this" and "alive st"
  shows "\<exists>st'. clear_loop (DefaultPersistentValueMapTraits E k0) E this st = Some st' \<and> impl_of st' this = [] \<and>
    cells st' = C0 \<and> alive st'"
proof (cases "impl_of st this = []")
  case True
  then show ?thesis
    using assms(3,4) by (subst clear_loop.simps) (auto simp: Traits_Empty_def Traits_Get_Nil dest: own_all_empty)
next
  case False
  let ?st1 = "set_impl this [] st"
  let ?st2 = "dispose_entries (DefaultPersistentValueMapTraits E k0) E (isolate_of ?st1 this) (impl_of st this) ?st1"
  have d: "cells ?st2 = C0" "alive ?st2" "impl_of ?st2 this = []"
    using dispose_entries_own [OF c assms(2), of C0 ?st1 k0 "isolate_of ?st1 this" this] assms(3,4) c by auto
  have "clear_loop (DefaultPersistentValueMapTraits E k0) E this st = clear_loop (DefaultPersistentValueMapTraits E k0) E this ?st2"
    using False by (subst clear_loop.simps) (simp add: Traits_Empty_def Traits_Swap_def Let_def)
  also have "\<dots> = Some ?st2" using d(3) by (subst clear_loop.simps) (simp add: Traits_Empty_def)
  finally show ?thesis using d by auto
qed

lemma VecTraits_Get_append: "VecTraits_Get (xs @ [v]) = (VecTraits_Get xs)(length xs := v)"
  by (auto simp: VecTraits_Get_def kPersistentContainerNotFound_def fun_eq_iff nth_append)

lemma clear_upto_own:
  assumes c: "container_contract E cells alive" and "vec_owns cells C0 st this" and "alive st"
  shows "own C0 (cells (clear_upto E this i st)) UNIV (\<lambda>j. if j < i then 0 else VecTraits_Get (vec_of st this) j) \<and>
    alive (clear_upto E this i st) \<and> vec_of (clear_upto E this i st) this = vec_of st this"
proof (induction i)
  case 0
  then show ?case using assms by simp
next
  case (Suc i)
  let ?f = "\<lambda>j. if j < i then 0 else VecTraits_Get (vec_of st this) j"
  have "?f(i := 0) = (\<lambda>j. if j < Suc i then 0 else VecTraits_Get (vec_of st this) j)"
    by (auto simp: fun_eq_iff)
  then show ?case
    using drop_global_own [OF c, of C0 "clear_upto E this i st" ?f i] Suc by simp
qed

section \<open>Properties\<close>

text \<open>
  C32. Storing a value: \<open>Set\<close> gives the map a cell of its own for the object, returns the old
  value's cell to the caller and changes no other entry; the map keeps owning exactly the cells it stores.
\<close>

theorem value_map_set:
  assumes "container_contract E cells alive" and "map_ok (impl_of st this)" and "map_owns cells C0 st this"
    and "value \<noteq> 0"
    and run: "PVM_Set_local (DefaultPersistentValueMapTraits E k0) E cb tmp this key value st = (old, st')" and "alive st'"
  shows "old = PVM_GetReference st this key \<and> map_ok (impl_of st' this)
    \<and> (\<forall>k. k \<noteq> key \<longrightarrow> PVM_GetReference st' this k = PVM_GetReference st this k)
    \<and> PVM_Contains st' this key
    \<and> load64 (mem st') (PVM_GetReference st' this key) = load64 (mem st) value
    \<and> map_owns cells (handed old C0) st' this"
proof -
  obtain v st1 where new: "PB_New E (isolate_of st this) value st = (v, st1)" by (metis surj_pair)
  note impl = globalize_containers(1) [OF assms(1) new, of this]
  obtain m' old' where set: "Traits_Set (impl_of st1 this) key v = (m', old')" by (metis surj_pair)
  have st': "st' = set_impl this m' (set_val tmp 0 st1)" "old = old'"
    using PVM_Set_local_default [OF new set] run by auto
  have al: "alive st1" using assms(1,6) container_cells [OF assms(1)] by (simp add: st')
  note s = smt.get_set [OF assms(2) set [unfolded impl]]
  have fresh: "new_cell cells st (load64 (mem st) value) v st1"
    using PB_New_fresh [OF assms(1) new al] assms(4) by simp
  have "own (handed old C0) (cells st1) UNIV (Traits_Get m')"
    using own_set_value [OF assms(1-3) new al set [unfolded impl]] st'(2) by (simp only:)
  then show ?thesis
    using s fresh st' assms(1) container_cells [OF assms(1)]
    by (simp add: PVM_GetReference_def PVM_Contains_def new_cell_def kPersistentContainerNotFound_def split: if_split_asm)
qed

text \<open>
  Removing a value: the caller gets the cell, the map no longer contains the key and still
  owns exactly the cells it stores.
\<close>

theorem value_map_remove:
  assumes "container_contract E cells alive" and "map_ok (impl_of st this)" and "map_owns cells C0 st this"
    and run: "PVM_Remove (DefaultPersistentValueMapTraits E k0) E this key st = (v, st')"
  shows "v = PVM_GetReference st this key \<and> \<not> PVM_Contains st' this key \<and> map_ok (impl_of st' this)
    \<and> (\<forall>k. k \<noteq> key \<longrightarrow> PVM_GetReference st' this k = PVM_GetReference st this k)
    \<and> map_owns cells (handed v C0) st' this"
proof -
  obtain m' v' where rem: "Traits_Remove (impl_of st this) key = (m', v')" by (metis surj_pair)
  have "st' = set_impl this m' st" "v = v'"
    using run by (auto simp: PVM_Remove_def rem Release_def DefaultPersistentValueMapTraits_def)
  then show ?thesis
    using smt.get_remove [OF assms(2) rem] smt.own_remove [OF assms(2,3) rem] assms(1)
    by (simp add: PVM_GetReference_def PVM_Contains_def kPersistentContainerNotFound_def split: if_split_asm)
qed

text \<open>
  \<open>Clear\<close> (and so the destructor) of a map with the default traits ends, leaves the map empty
  and disposes every cell the map owned, each once.
\<close>

theorem value_map_clear:
  assumes "container_contract E cells alive" and "map_ok (impl_of st this)" and "map_owns cells C0 st this" and "alive st"
    and "\<And>i s. impl_of (open_scope i s) this = impl_of s this \<and> cells (open_scope i s) = cells s \<and> alive (open_scope i s) = alive s"
    and "\<And>s. impl_of (close_scope s) this = impl_of s this \<and> cells (close_scope s) = cells s"
  shows "\<exists>st'. PVM_Clear open_scope close_scope (DefaultPersistentValueMapTraits E k0) E this st = Some st' \<and>
    PVM_Size st' this = 0 \<and> cells st' = C0"
proof -
  let ?s = "open_scope (isolate_of st this) st"
  obtain st1 where "clear_loop (DefaultPersistentValueMapTraits E k0) E this ?s = Some st1" "impl_of st1 this = []" "cells st1 = C0"
    using clear_loop_own [OF assms(1), of ?s this C0 k0] assms(2-5) by auto
  then show ?thesis using assms(6) by (simp add: PVM_Clear_def PVM_Size_def Traits_Size_def)
qed

text \<open>
  The vector of persistent values: appending stores a new cell with the object at the end,
  and \<open>Clear\<close> empties the vector and disposes every stored cell once.
\<close>

theorem value_vector_owns:
  assumes "container_contract E cells alive" and "vec_owns cells C0 st this" and "value \<noteq> 0"
    and st': "st' = PVV_Append_local E tmp this value st" and "alive st'"
  shows "PVV_Size st' this = PVV_Size st this + 1
    \<and> load64 (mem st') (VecTraits_Get (vec_of st' this) (PVV_Size st this)) = load64 (mem st) value
    \<and> vec_owns cells C0 st' this
    \<and> cells (PVV_Clear E this st') = C0 \<and> PVV_Size (PVV_Clear E this st') this = 0"
proof -
  obtain v st1 where new: "PB_New E (isolate_of st this) value st = (v, st1)" by (metis surj_pair)
  note vec = globalize_containers(2) [OF assms(1) new, of this]
  have run: "st' = set_vec this (vec_of st this @ [v]) (set_val tmp 0 st1)"
    using new vec st'
    by (simp add: PVV_Append_local_def Global_new_local_def ClearAndLeak_def VecTraits_Append_def Global_delete_def
        PB_Reset_def PB_IsEmpty_def set_val_def vec_of_def)
  have al: "alive st1" using assms(1,5) container_cells [OF assms(1)] by (simp add: run)
  have fresh: "new_cell cells st (load64 (mem st) value) v st1"
    using PB_New_fresh [OF assms(1) new al] assms(3) by simp
  have o: "vec_owns cells C0 st' this"
    using own_add [OF assms(2), of v "length (vec_of st this)"] fresh assms(1) container_cells [OF assms(1)]
    by (simp add: run VecTraits_Get_append new_cell_def) (simp add: VecTraits_Get_def kPersistentContainerNotFound_def)
  have "(\<lambda>j. if j < length (vec_of st' this) then 0 else VecTraits_Get (vec_of st' this) j) = (\<lambda>_. 0)"
    by (auto simp: VecTraits_Get_def kPersistentContainerNotFound_def fun_eq_iff)
  then have "cells (clear_upto E this (length (vec_of st' this)) st') = C0"
    using clear_upto_own [OF assms(1) o assms(5), of "length (vec_of st' this)"] own_all_empty by metis
  then show ?thesis
    using o assms(1) fresh
    by (simp add: PVV_Clear_def VecTraits_Size_def VecTraits_Clear_def PVV_Size_def Let_def)
       (simp add: run VecTraits_Get_append new_cell_def)
qed

section \<open>The containers on a concrete engine\<close>

abbreviation set_rest :: "bump_engine \<Rightarrow> (nat, bump_engine) containers \<Rightarrow> (nat, bump_engine) containers" where
  "set_rest b e \<equiv> e\<lparr>rest := b\<rparr>"

abbreviation pool :: "((nat, bump_engine) cstate) v8_api" where "pool \<equiv> bump_api rest set_rest"
abbreviation pool_traits :: "(nat, (nat, bump_engine) cstate) weak_traits" where
  "pool_traits \<equiv> DefaultPersistentValueMapTraits pool 0"

definition pool0 :: "(nat, bump_engine) cstate" where
  "pool0 = \<lparr>mem = \<lambda>_. 7, handle_val = \<lambda>_. 0,
     engine = \<lparr>pv_maps = \<lambda>_. [], pv_vecs = \<lambda>_. [], pv_isolate = \<lambda>_. 5, rest = \<lparr>cell_count = 0, disposed = {}\<rparr>\<rparr>\<rparr>"

lemma pool_ok: "container_contract pool (bump_cells rest) (bump_alive rest)"
  using bump_contract [of rest set_rest]
  by (auto simp: container_contract_def bump_cells_def bump_alive_def bump_api_def bump_new_def bump_dispose_def Let_def)

lemma pool0_owns: "map_owns (bump_cells rest) {} pool0 1" "vec_owns (bump_cells rest) {} pool0 2"
  by (simp_all add: own_def pool0_def impl_of_def vec_of_def bump_cells_def Traits_Get_Nil VecTraits_Get_def
      bij_betw_def kPersistentContainerNotFound_def)

text \<open>A map at address 1 that holds a value under key 3.\<close>

abbreviation pool1 :: "(nat, bump_engine) cstate" where
  "pool1 \<equiv> snd (PVM_Set_local pool_traits pool 0 9 1 3 64 pool0)"

lemmas pool_run_defs = PVM_Set_local_def SetUnique_def Global_new_local_def PB_New_def bump_api_def bump_new_def
  pool0_def bump_cell_def set_val_def ClearAndLeak_def Release_def DefaultPersistentValueMapTraits_def
  Traits_Set_def map_insert_def Global_delete_def PB_Reset_def PB_IsEmpty_def set_impl_def impl_of_def
  isolate_of_def kPersistentContainerNotFound_def

lemma pool_set: "PVM_Set_local pool_traits pool 0 9 1 3 64 pool0 = (0, pool1)"
  by (simp add: pool_run_defs Let_def)

lemma pool1_vals: "impl_of pool1 1 = [(3, 16)]" "bump_alive rest pool1" "bump_cells rest pool1 = {16}"
  by (simp_all add: pool_run_defs Let_def bump_alive_def bump_cells_def)

lemma pool1_owns: "map_owns (bump_cells rest) {} pool1 1"
  by (auto simp: pool1_vals own_def bij_betw_def inj_on_def Traits_Get_def kPersistentContainerNotFound_def
      split: option.splits if_splits)

theorem value_map_set_witness:
  "PVM_Contains pool1 1 3 \<and> load64 (mem pool1) (PVM_GetReference pool1 1 3) = load64 (mem pool0) 64"
  using value_map_set [OF pool_ok _ pool0_owns(1) _ pool_set pool1_vals(2)] by (simp add: pool0_def impl_of_def)

theorem value_map_remove_witness:
  "\<exists>st. PVM_Remove pool_traits pool 1 3 pool1 = (16, st) \<and> \<not> PVM_Contains st 1 3"
proof -
  obtain v st where r: "PVM_Remove pool_traits pool 1 3 pool1 = (v, st)" by (metis surj_pair)
  have "map_ok (impl_of pool1 1)" by (simp add: pool1_vals map_ok_def)
  from value_map_remove [OF pool_ok this pool1_owns r] r pool1_vals(1) show ?thesis
    by (simp add: PVM_GetReference_def Traits_Get_def)
qed

theorem value_map_clear_witness:
  "\<exists>st. PVM_Clear (\<lambda>i s. s) (\<lambda>s. s) pool_traits pool 1 pool1 = Some st \<and> PVM_Size st 1 = 0 \<and> bump_cells rest st = {}"
  by (rule value_map_clear [OF pool_ok _ pool1_owns pool1_vals(2)]) (simp_all add: pool1_vals map_ok_def)

theorem value_vector_owns_witness:
  "\<exists>st. st = PVV_Append_local pool 9 2 64 pool0 \<and> PVV_Size st 2 = 1 \<and> bump_cells rest (PVV_Clear pool 2 st) = {}"
proof -
  let ?st = "PVV_Append_local pool 9 2 64 pool0"
  have "bump_alive rest ?st"
    by (simp add: pool_run_defs Let_def PVV_Append_local_def VecTraits_Append_def set_vec_def bump_alive_def)
  from value_vector_owns [OF pool_ok pool0_owns(2) _ refl this] show ?thesis
    by (auto simp: PVV_Size_def VecTraits_Size_def pool0_def vec_of_def)
qed

end
