(* ===== verification/V8Casts.thy ===== *)
theory V8Casts
  imports V8Handles
begin

text \<open>
  The \<open>Cast\<close> functions of \<open>v8.h\<close>, from a pointer to a base class to one to a subclass, and the casts of
  handles built on them. A build with \<open>V8_ENABLE_CHECKS\<close> asks the engine about the class of the object
  first; a failed check ends the process, which is \<open>None\<close> here.
\<close>

section \<open>Classes and checks\<close>

datatype v8_class =
    T_FunctionTemplate | T_ObjectTemplate | T_Signature | T_AccessorSignature | T_String | T_Boolean
  | T_Name | T_Symbol | T_Private | T_Number | T_Integer | T_Int32
  | T_Uint32 | T_BigInt | T_Date | T_StringObject | T_SymbolObject | T_NumberObject
  | T_BigIntObject | T_BooleanObject | T_RegExp | T_Object | T_Array | T_Map
  | T_Set | T_Promise | T_Proxy | T_WasmCompiledModule | T_Promise_Resolver | T_ArrayBuffer
  | T_ArrayBufferView | T_TypedArray | T_Uint8Array | T_Int8Array | T_Uint16Array | T_Int16Array
  | T_Uint32Array | T_Int32Array | T_Float32Array | T_Float64Array | T_BigInt64Array | T_BigUint64Array
  | T_Uint8ClampedArray | T_DataView | T_SharedArrayBuffer | T_Function | T_External

text \<open>\<open>CheckCast c\<close>: whether the object behind the pointer passes the check of class \<open>c\<close>.\<close>

record check_api =
  V8_ENABLE_CHECKS :: bool
  CheckCast :: "v8_class \<Rightarrow> addr \<Rightarrow> bool"
  CheckInitializedImpl :: "addr \<Rightarrow> bool"

definition check_cast :: "check_api \<Rightarrow> v8_class \<Rightarrow> addr \<Rightarrow> unit option" where
  "check_cast A c data = (if V8_ENABLE_CHECKS A \<and> \<not> CheckCast A c data then None else Some ())"

definition CheckInitialized :: "check_api \<Rightarrow> addr \<Rightarrow> unit option" where
  "CheckInitialized A isolate = (if V8_ENABLE_CHECKS A \<and> \<not> CheckInitializedImpl A isolate then None else Some ())"

section \<open>The casts\<close>

definition FunctionTemplate_Cast :: "check_api \<Rightarrow> addr \<Rightarrow> addr option" where
  "FunctionTemplate_Cast A data = do { check_cast A T_FunctionTemplate data; Some data }"

definition ObjectTemplate_Cast :: "check_api \<Rightarrow> addr \<Rightarrow> addr option" where
  "ObjectTemplate_Cast A data = do { check_cast A T_ObjectTemplate data; Some data }"

definition Signature_Cast :: "check_api \<Rightarrow> addr \<Rightarrow> addr option" where
  "Signature_Cast A data = do { check_cast A T_Signature data; Some data }"

definition AccessorSignature_Cast :: "check_api \<Rightarrow> addr \<Rightarrow> addr option" where
  "AccessorSignature_Cast A data = do { check_cast A T_AccessorSignature data; Some data }"

definition String_Cast :: "check_api \<Rightarrow> addr \<Rightarrow> addr option" where
  "String_Cast A value = do { check_cast A T_String value; Some value }"

definition Boolean_Cast :: "check_api \<Rightarrow> addr \<Rightarrow> addr option" where
  "Boolean_Cast A value = do { check_cast A T_Boolean value; Some value }"

definition Name_Cast :: "check_api \<Rightarrow> addr \<Rightarrow> addr option" where
  "Name_Cast A value = do { check_cast A T_Name value; Some value }"

definition Symbol_Cast :: "check_api \<Rightarrow> addr \<Rightarrow> addr option" where
  "Symbol_Cast A value = do { check_cast A T_Symbol value; Some value }"

definition Private_Cast :: "check_api \<Rightarrow> addr \<Rightarrow> addr option" where
  "Private_Cast A data = do { check_cast A T_Private data; Some data }"

definition Number_Cast :: "check_api \<Rightarrow> addr \<Rightarrow> addr option" where
  "Number_Cast A value = do { check_cast A T_Number value; Some value }"

definition Integer_Cast :: "check_api \<Rightarrow> addr \<Rightarrow> addr option" where
  "Integer_Cast A value = do { check_cast A T_Integer value; Some value }"

definition Int32_Cast :: "check_api \<Rightarrow> addr \<Rightarrow> addr option" where
  "Int32_Cast A value = do { check_cast A T_Int32 value; Some value }"

definition Uint32_Cast :: "check_api \<Rightarrow> addr \<Rightarrow> addr option" where
  "Uint32_Cast A value = do { check_cast A T_Uint32 value; Some value }"

definition BigInt_Cast :: "check_api \<Rightarrow> addr \<Rightarrow> addr option" where
  "BigInt_Cast A value = do { check_cast A T_BigInt value; Some value }"

definition Date_Cast :: "check_api \<Rightarrow> addr \<Rightarrow> addr option" where
  "Date_Cast A value = do { check_cast A T_Date value; Some value }"

definition StringObject_Cast :: "check_api \<Rightarrow> addr \<Rightarrow> addr option" where
  "StringObject_Cast A value = do { check_cast A T_StringObject value; Some value }"

definition SymbolObject_Cast :: "check_api \<Rightarrow> addr \<Rightarrow> addr option" where
  "SymbolObject_Cast A value = do { check_cast A T_SymbolObject value; Some value }"

definition NumberObject_Cast :: "check_api \<Rightarrow> addr \<Rightarrow> addr option" where
  "NumberObject_Cast A value = do { check_cast A T_NumberObject value; Some value }"

definition BigIntObject_Cast :: "check_api \<Rightarrow> addr \<Rightarrow> addr option" where
  "BigIntObject_Cast A value = do { check_cast A T_BigIntObject value; Some value }"

definition BooleanObject_Cast :: "check_api \<Rightarrow> addr \<Rightarrow> addr option" where
  "BooleanObject_Cast A value = do { check_cast A T_BooleanObject value; Some value }"

definition RegExp_Cast :: "check_api \<Rightarrow> addr \<Rightarrow> addr option" where
  "RegExp_Cast A value = do { check_cast A T_RegExp value; Some value }"

definition Object_Cast :: "check_api \<Rightarrow> addr \<Rightarrow> addr option" where
  "Object_Cast A value = do { check_cast A T_Object value; Some value }"

definition Array_Cast :: "check_api \<Rightarrow> addr \<Rightarrow> addr option" where
  "Array_Cast A value = do { check_cast A T_Array value; Some value }"

definition Map_Cast :: "check_api \<Rightarrow> addr \<Rightarrow> addr option" where
  "Map_Cast A value = do { check_cast A T_Map value; Some value }"

definition Set_Cast :: "check_api \<Rightarrow> addr \<Rightarrow> addr option" where
  "Set_Cast A value = do { check_cast A T_Set value; Some value }"

definition Promise_Cast :: "check_api \<Rightarrow> addr \<Rightarrow> addr option" where
  "Promise_Cast A value = do { check_cast A T_Promise value; Some value }"

definition Proxy_Cast :: "check_api \<Rightarrow> addr \<Rightarrow> addr option" where
  "Proxy_Cast A value = do { check_cast A T_Proxy value; Some value }"

definition WasmCompiledModule_Cast :: "check_api \<Rightarrow> addr \<Rightarrow> addr option" where
  "WasmCompiledModule_Cast A value = do { check_cast A T_WasmCompiledModule value; Some value }"

definition Promise_Resolver_Cast :: "check_api \<Rightarrow> addr \<Rightarrow> addr option" where
  "Promise_Resolver_Cast A value = do { check_cast A T_Promise_Resolver value; Some value }"

definition ArrayBuffer_Cast :: "check_api \<Rightarrow> addr \<Rightarrow> addr option" where
  "ArrayBuffer_Cast A value = do { check_cast A T_ArrayBuffer value; Some value }"

definition ArrayBufferView_Cast :: "check_api \<Rightarrow> addr \<Rightarrow> addr option" where
  "ArrayBufferView_Cast A value = do { check_cast A T_ArrayBufferView value; Some value }"

definition TypedArray_Cast :: "check_api \<Rightarrow> addr \<Rightarrow> addr option" where
  "TypedArray_Cast A value = do { check_cast A T_TypedArray value; Some value }"

definition Uint8Array_Cast :: "check_api \<Rightarrow> addr \<Rightarrow> addr option" where
  "Uint8Array_Cast A value = do { check_cast A T_Uint8Array value; Some value }"

definition Int8Array_Cast :: "check_api \<Rightarrow> addr \<Rightarrow> addr option" where
  "Int8Array_Cast A value = do { check_cast A T_Int8Array value; Some value }"

definition Uint16Array_Cast :: "check_api \<Rightarrow> addr \<Rightarrow> addr option" where
  "Uint16Array_Cast A value = do { check_cast A T_Uint16Array value; Some value }"

definition Int16Array_Cast :: "check_api \<Rightarrow> addr \<Rightarrow> addr option" where
  "Int16Array_Cast A value = do { check_cast A T_Int16Array value; Some value }"

definition Uint32Array_Cast :: "check_api \<Rightarrow> addr \<Rightarrow> addr option" where
  "Uint32Array_Cast A value = do { check_cast A T_Uint32Array value; Some value }"

definition Int32Array_Cast :: "check_api \<Rightarrow> addr \<Rightarrow> addr option" where
  "Int32Array_Cast A value = do { check_cast A T_Int32Array value; Some value }"

definition Float32Array_Cast :: "check_api \<Rightarrow> addr \<Rightarrow> addr option" where
  "Float32Array_Cast A value = do { check_cast A T_Float32Array value; Some value }"

definition Float64Array_Cast :: "check_api \<Rightarrow> addr \<Rightarrow> addr option" where
  "Float64Array_Cast A value = do { check_cast A T_Float64Array value; Some value }"

definition BigInt64Array_Cast :: "check_api \<Rightarrow> addr \<Rightarrow> addr option" where
  "BigInt64Array_Cast A value = do { check_cast A T_BigInt64Array value; Some value }"

definition BigUint64Array_Cast :: "check_api \<Rightarrow> addr \<Rightarrow> addr option" where
  "BigUint64Array_Cast A value = do { check_cast A T_BigUint64Array value; Some value }"

definition Uint8ClampedArray_Cast :: "check_api \<Rightarrow> addr \<Rightarrow> addr option" where
  "Uint8ClampedArray_Cast A value = do { check_cast A T_Uint8ClampedArray value; Some value }"

definition DataView_Cast :: "check_api \<Rightarrow> addr \<Rightarrow> addr option" where
  "DataView_Cast A value = do { check_cast A T_DataView value; Some value }"

definition SharedArrayBuffer_Cast :: "check_api \<Rightarrow> addr \<Rightarrow> addr option" where
  "SharedArrayBuffer_Cast A value = do { check_cast A T_SharedArrayBuffer value; Some value }"

definition Function_Cast :: "check_api \<Rightarrow> addr \<Rightarrow> addr option" where
  "Function_Cast A value = do { check_cast A T_Function value; Some value }"

definition External_Cast :: "check_api \<Rightarrow> addr \<Rightarrow> addr option" where
  "External_Cast A value = do { check_cast A T_External value; Some value }"

lemmas cast_defs =
  FunctionTemplate_Cast_def ObjectTemplate_Cast_def Signature_Cast_def AccessorSignature_Cast_def String_Cast_def
  Boolean_Cast_def Name_Cast_def Symbol_Cast_def Private_Cast_def Number_Cast_def
  Integer_Cast_def Int32_Cast_def Uint32_Cast_def BigInt_Cast_def Date_Cast_def
  StringObject_Cast_def SymbolObject_Cast_def NumberObject_Cast_def BigIntObject_Cast_def BooleanObject_Cast_def
  RegExp_Cast_def Object_Cast_def Array_Cast_def Map_Cast_def Set_Cast_def
  Promise_Cast_def Proxy_Cast_def WasmCompiledModule_Cast_def Promise_Resolver_Cast_def ArrayBuffer_Cast_def
  ArrayBufferView_Cast_def TypedArray_Cast_def Uint8Array_Cast_def Int8Array_Cast_def Uint16Array_Cast_def
  Int16Array_Cast_def Uint32Array_Cast_def Int32Array_Cast_def Float32Array_Cast_def Float64Array_Cast_def
  BigInt64Array_Cast_def BigUint64Array_Cast_def Uint8ClampedArray_Cast_def DataView_Cast_def SharedArrayBuffer_Cast_def
  Function_Cast_def External_Cast_def

definition Value_Cast :: "addr \<Rightarrow> addr" where "Value_Cast value = value"

text \<open>\<open>PerformCastCheck\<close>: the check of the static type, for classes derived from \<open>Data\<close> only.\<close>

definition PerformCastCheck :: "bool \<Rightarrow> (addr \<Rightarrow> addr option) \<Rightarrow> addr \<Rightarrow> unit option" where
  "PerformCastCheck is_data T_Cast data = (if is_data then do { T_Cast data; Some () } else Some ())"

section \<open>Casts of handles\<close>

definition Local_Cast :: "check_api \<Rightarrow> (addr \<Rightarrow> addr option) \<Rightarrow> local \<Rightarrow> local option" where
  "Local_Cast A T_Cast that =
     (if V8_ENABLE_CHECKS A \<and> Local_IsEmpty that then Some Local_empty else T_Cast that)"

definition Local_As :: "check_api \<Rightarrow> (addr \<Rightarrow> addr option) \<Rightarrow> local \<Rightarrow> local option" where
  "Local_As A S_Cast this = Local_Cast A S_Cast this"

text \<open>A \<open>Persistent\<close> is cast in place: the result is a reference to the same handle.\<close>

definition Persistent_Cast :: "check_api \<Rightarrow> (addr \<Rightarrow> addr option) \<Rightarrow> 'e v8 \<Rightarrow> addr \<Rightarrow> addr option" where
  "Persistent_Cast A T_Cast st that =
     (if V8_ENABLE_CHECKS A \<and> \<not> PB_IsEmpty st that then do { T_Cast (handle_val st that); Some that } else Some that)"

definition Persistent_As :: "check_api \<Rightarrow> (addr \<Rightarrow> addr option) \<Rightarrow> 'e v8 \<Rightarrow> addr \<Rightarrow> addr option" where
  "Persistent_As A S_Cast st this = Persistent_Cast A S_Cast st this"

section \<open>Both builds\<close>

text \<open>The table of the casts, and what each of them does.\<close>

fun cast_of :: "v8_class \<Rightarrow> check_api \<Rightarrow> addr \<Rightarrow> addr option" where
  "cast_of T_FunctionTemplate = FunctionTemplate_Cast"
| "cast_of T_ObjectTemplate = ObjectTemplate_Cast"
| "cast_of T_Signature = Signature_Cast"
| "cast_of T_AccessorSignature = AccessorSignature_Cast"
| "cast_of T_String = String_Cast"
| "cast_of T_Boolean = Boolean_Cast"
| "cast_of T_Name = Name_Cast"
| "cast_of T_Symbol = Symbol_Cast"
| "cast_of T_Private = Private_Cast"
| "cast_of T_Number = Number_Cast"
| "cast_of T_Integer = Integer_Cast"
| "cast_of T_Int32 = Int32_Cast"
| "cast_of T_Uint32 = Uint32_Cast"
| "cast_of T_BigInt = BigInt_Cast"
| "cast_of T_Date = Date_Cast"
| "cast_of T_StringObject = StringObject_Cast"
| "cast_of T_SymbolObject = SymbolObject_Cast"
| "cast_of T_NumberObject = NumberObject_Cast"
| "cast_of T_BigIntObject = BigIntObject_Cast"
| "cast_of T_BooleanObject = BooleanObject_Cast"
| "cast_of T_RegExp = RegExp_Cast"
| "cast_of T_Object = Object_Cast"
| "cast_of T_Array = Array_Cast"
| "cast_of T_Map = Map_Cast"
| "cast_of T_Set = Set_Cast"
| "cast_of T_Promise = Promise_Cast"
| "cast_of T_Proxy = Proxy_Cast"
| "cast_of T_WasmCompiledModule = WasmCompiledModule_Cast"
| "cast_of T_Promise_Resolver = Promise_Resolver_Cast"
| "cast_of T_ArrayBuffer = ArrayBuffer_Cast"
| "cast_of T_ArrayBufferView = ArrayBufferView_Cast"
| "cast_of T_TypedArray = TypedArray_Cast"
| "cast_of T_Uint8Array = Uint8Array_Cast"
| "cast_of T_Int8Array = Int8Array_Cast"
| "cast_of T_Uint16Array = Uint16Array_Cast"
| "cast_of T_Int16Array = Int16Array_Cast"
| "cast_of T_Uint32Array = Uint32Array_Cast"
| "cast_of T_Int32Array = Int32Array_Cast"
| "cast_of T_Float32Array = Float32Array_Cast"
| "cast_of T_Float64Array = Float64Array_Cast"
| "cast_of T_BigInt64Array = BigInt64Array_Cast"
| "cast_of T_BigUint64Array = BigUint64Array_Cast"
| "cast_of T_Uint8ClampedArray = Uint8ClampedArray_Cast"
| "cast_of T_DataView = DataView_Cast"
| "cast_of T_SharedArrayBuffer = SharedArrayBuffer_Cast"
| "cast_of T_Function = Function_Cast"
| "cast_of T_External = External_Cast"

lemma cast_of_run: "cast_of c A data = (if V8_ENABLE_CHECKS A \<and> \<not> CheckCast A c data then None else Some data)"
  by (cases c) (simp_all add: cast_defs check_cast_def)

text \<open>
  No check is ever made on an empty handle, and where the checked build returns, both builds
  return the handle they were given.
\<close>

lemma Local_Cast_run:
  "Local_Cast A (cast_of c A) that =
     (if V8_ENABLE_CHECKS A \<and> that \<noteq> 0 \<and> \<not> CheckCast A c that then None else Some that)"
  by (simp add: Local_Cast_def Local_IsEmpty_def Local_empty_def cast_of_run)

lemma Persistent_Cast_run:
  "Persistent_Cast A (cast_of c A) st that =
     (if V8_ENABLE_CHECKS A \<and> handle_val st that \<noteq> 0 \<and> \<not> CheckCast A c (handle_val st that) then None else Some that)"
  by (simp add: Persistent_Cast_def PB_IsEmpty_def cast_of_run)

end
