(* ===== verification/V8Config.thy ===== *)
theory V8Config
  imports V8Values
begin

text \<open>
  The configuration and report classes of \<open>v8.h\<close>: \<open>ResourceConstraints\<close> with its units,
  the statistics of the heap, extensions, cached data and script sources, the contents of array
  buffers, property handlers and the parameters of an isolate. A member \<open>x_\<close> with its getter \<open>x()\<close> is the
  selector \<open>x\<close> of a record. A pointer is an address, \<open>NULL\<close> is 0; callbacks are addresses of functions.
  Sizes are 64-bit words.
\<close>

type_synonym size_t = "64 word"

section \<open>ResourceConstraints\<close>

record ResourceConstraints =
  max_semi_space_size_in_kb :: size_t
  max_old_space_size :: size_t
  max_executable_size :: size_t
  stack_limit :: addr
  code_range_size :: size_t
  max_zone_pool_size :: size_t

definition max_semi_space_size :: "ResourceConstraints \<Rightarrow> size_t" where
  "max_semi_space_size this = max_semi_space_size_in_kb this div 1024"

definition set_max_semi_space_size :: "size_t \<Rightarrow> ResourceConstraints \<Rightarrow> ResourceConstraints" where
  "set_max_semi_space_size limit_in_mb this = this\<lparr>max_semi_space_size_in_kb := limit_in_mb * 1024\<rparr>"

definition set_max_semi_space_size_in_kb :: "size_t \<Rightarrow> ResourceConstraints \<Rightarrow> ResourceConstraints" where
  "set_max_semi_space_size_in_kb limit_in_kb this = this\<lparr>max_semi_space_size_in_kb := limit_in_kb\<rparr>"

definition set_max_old_space_size :: "size_t \<Rightarrow> ResourceConstraints \<Rightarrow> ResourceConstraints" where
  "set_max_old_space_size limit_in_mb this = this\<lparr>max_old_space_size := limit_in_mb\<rparr>"

definition set_max_executable_size :: "size_t \<Rightarrow> ResourceConstraints \<Rightarrow> ResourceConstraints" where
  "set_max_executable_size limit_in_mb this = this\<lparr>max_executable_size := limit_in_mb\<rparr>"

definition set_stack_limit :: "addr \<Rightarrow> ResourceConstraints \<Rightarrow> ResourceConstraints" where
  "set_stack_limit value this = this\<lparr>stack_limit := value\<rparr>"

definition set_code_range_size :: "size_t \<Rightarrow> ResourceConstraints \<Rightarrow> ResourceConstraints" where
  "set_code_range_size limit_in_mb this = this\<lparr>code_range_size := limit_in_mb\<rparr>"

definition set_max_zone_pool_size :: "size_t \<Rightarrow> ResourceConstraints \<Rightarrow> ResourceConstraints" where
  "set_max_zone_pool_size bytes this = this\<lparr>max_zone_pool_size := bytes\<rparr>"

text \<open>
  A semi-space size given in MB comes back in MB as long as it fits in a word in KB; a larger one
  loses its high bits. A limit given in KB is rounded down.
\<close>

lemma semi_space_mb: "unat (max_semi_space_size (set_max_semi_space_size mb c)) = unat mb mod 2 ^ 54"
proof -
  have "unat mb * 1024 mod (2 ^ 54 * 1024) = unat mb mod 2 ^ 54 * 1024" by (rule mod_mult_mult2)
  then show ?thesis
    by (simp add: max_semi_space_size_def set_max_semi_space_size_def unat_div unat_word_ariths)
qed

lemma semi_space_mb_iff: "max_semi_space_size (set_max_semi_space_size mb c) = mb \<longleftrightarrow> mb < 2 ^ 54"
proof -
  have "max_semi_space_size (set_max_semi_space_size mb c) = mb \<longleftrightarrow> unat mb mod 2 ^ 54 = unat mb"
    by (simp only: word_unat_eq_iff semi_space_mb)
  also have "\<dots> \<longleftrightarrow> unat mb < 2 ^ 54" by (simp add: mod_eq_self_iff_div_eq_0 div_eq_0_iff)
  also have "\<dots> \<longleftrightarrow> mb < 2 ^ 54" by (simp add: word_less_nat_alt)
  finally show ?thesis .
qed

lemma semi_space_kb: "unat (max_semi_space_size (set_max_semi_space_size_in_kb kb c)) = unat kb div 1024"
  by (simp add: max_semi_space_size_def set_max_semi_space_size_in_kb_def unat_div)

section \<open>Statistics\<close>

record HeapStatistics =
  total_heap_size :: size_t
  total_heap_size_executable :: size_t
  total_physical_size :: size_t
  total_available_size :: size_t
  used_heap_size :: size_t
  heap_size_limit :: size_t
  malloced_memory :: size_t
  peak_malloced_memory :: size_t
  does_zap_garbage_flag :: bool
  number_of_native_contexts :: size_t
  number_of_detached_contexts :: size_t

text \<open>The \<open>bool\<close> member as a \<open>size_t\<close>.\<close>

definition does_zap_garbage :: "HeapStatistics \<Rightarrow> size_t" where
  "does_zap_garbage this = of_bool (does_zap_garbage_flag this)"

record HeapSpaceStatistics =
  space_name :: addr
  space_size :: size_t
  space_used_size :: size_t
  space_available_size :: size_t
  physical_space_size :: size_t

record HeapObjectStatistics =
  object_type :: addr
  object_sub_type :: addr
  object_count :: size_t
  object_size :: size_t

record HeapCodeStatistics =
  code_and_metadata_size :: size_t
  bytecode_and_metadata_size :: size_t

section \<open>Positions, messages and extensions\<close>

record Location =
  GetLineNumber :: int32_t
  GetColumnNumber :: int32_t

definition Location_new :: "int32_t \<Rightarrow> int32_t \<Rightarrow> Location" where
  "Location_new line_number column_number = \<lparr>GetLineNumber = line_number, GetColumnNumber = column_number\<rparr>"

datatype PromiseRejectEvent =
    kPromiseRejectWithNoHandler | kPromiseHandlerAddedAfterReject | kPromiseRejectAfterResolved
  | kPromiseResolveAfterResolved

record PromiseRejectMessage =
  prm_GetPromise :: local
  prm_GetEvent :: PromiseRejectEvent
  prm_GetValue :: local
  prm_stack_trace :: local

definition PromiseRejectMessage_new :: "local \<Rightarrow> PromiseRejectEvent \<Rightarrow> local \<Rightarrow> local \<Rightarrow> PromiseRejectMessage" where
  "PromiseRejectMessage_new promise event value stack_trace =
     \<lparr>prm_GetPromise = promise, prm_GetEvent = event, prm_GetValue = value, prm_stack_trace = stack_trace\<rparr>"

record ExternalOneByteStringResourceImpl =
  res_data :: addr
  res_length :: size_t

definition ExternalOneByteStringResourceImpl_empty :: ExternalOneByteStringResourceImpl where
  "ExternalOneByteStringResourceImpl_empty = \<lparr>res_data = 0, res_length = 0\<rparr>"

definition ExternalOneByteStringResourceImpl_new :: "addr \<Rightarrow> size_t \<Rightarrow> ExternalOneByteStringResourceImpl" where
  "ExternalOneByteStringResourceImpl_new data' length' = \<lparr>res_data = data', res_length = length'\<rparr>"

record Extension =
  ext_name :: addr
  ext_source_length :: size_t
  ext_source :: ExternalOneByteStringResourceImpl
  dependency_count :: int32_t
  dependencies :: addr
  auto_enable :: bool

definition set_auto_enable :: "bool \<Rightarrow> Extension \<Rightarrow> Extension" where
  "set_auto_enable value this = this\<lparr>auto_enable := value\<rparr>"

definition GetNativeFunctionTemplate :: "Extension \<Rightarrow> addr \<Rightarrow> local \<Rightarrow> local" where
  "GetNativeFunctionTemplate this isolate name = Local_empty"

record ExtensionConfiguration =
  name_count :: int32_t
  ext_names :: addr

definition ExtensionConfiguration_empty :: ExtensionConfiguration where
  "ExtensionConfiguration_empty = \<lparr>name_count = 0, ext_names = 0\<rparr>"

definition ExtensionConfiguration_new :: "int32_t \<Rightarrow> addr \<Rightarrow> ExtensionConfiguration" where
  "ExtensionConfiguration_new count names = \<lparr>name_count = count, ext_names = names\<rparr>"

text \<open>The addresses of the first name and of the place after the last; names are pointers.\<close>

definition ExtensionConfiguration_begin :: "ExtensionConfiguration \<Rightarrow> addr" where
  "ExtensionConfiguration_begin this = ext_names this"

definition ExtensionConfiguration_end :: "ExtensionConfiguration \<Rightarrow> addr" where
  "ExtensionConfiguration_end this = ext_names this + scast (name_count this) * 8"

text \<open>\<open>JSStackComparableAddress\<close>: the member of the handler in memory.\<close>

definition JSStackComparableAddress :: "(addr \<Rightarrow> addr) \<Rightarrow> addr \<Rightarrow> addr" where
  "JSStackComparableAddress js_stack_comparable_address handler =
     (if handler = 0 then 0 else js_stack_comparable_address handler)"

section \<open>Cached data and script sources\<close>

datatype BufferPolicy = BufferNotOwned | BufferOwned

record CachedData =
  cd_data :: addr
  cd_length :: int32_t
  rejected :: bool
  buffer_policy :: BufferPolicy

definition CachedData_empty :: CachedData where
  "CachedData_empty = \<lparr>cd_data = 0, cd_length = 0, rejected = False, buffer_policy = BufferNotOwned\<rparr>"

text \<open>The destructor of \<open>CachedData\<close> is the engine's: \<open>delete_cd\<close>. \<open>delete\<close> of \<open>NULL\<close> does nothing.\<close>

definition Source_delete :: "(addr \<Rightarrow> 's \<Rightarrow> 's) \<Rightarrow> ScriptSource \<Rightarrow> 's \<Rightarrow> 's" where
  "Source_delete delete_cd this st = (if cached_data this = 0 then st else delete_cd (cached_data this) st)"

definition Source_GetCachedData :: "ScriptSource \<Rightarrow> addr" where "Source_GetCachedData this = cached_data this"

definition Source_GetResourceOptions :: "ScriptSource \<Rightarrow> int32_t" where
  "Source_GetResourceOptions this = src_resource_options this"

section \<open>Contents of array buffers\<close>

datatype AllocationMode = kNormal | kReservation

record Contents =
  contents_Data :: addr
  ByteLength :: size_t
  AllocationBase :: addr
  AllocationLength :: size_t
  contents_AllocationMode :: AllocationMode

text \<open>\<open>SharedArrayBuffer::Contents\<close> repeats the class.\<close>

definition Contents_empty :: Contents where
  "Contents_empty = \<lparr>contents_Data = 0, ByteLength = 0, AllocationBase = 0, AllocationLength = 0,
     contents_AllocationMode = kNormal\<rparr>"

definition SharedContents_empty :: Contents where
  "SharedContents_empty = \<lparr>contents_Data = 0, ByteLength = 0, AllocationBase = 0, AllocationLength = 0,
     contents_AllocationMode = kNormal\<rparr>"

section \<open>Property handlers\<close>

record PropertyHandlerConfiguration =
  getter :: addr
  setter :: addr
  query :: addr
  deleter :: addr
  enumerator :: addr
  definer :: addr
  descriptor :: addr
  handler_data :: local
  handler_flags :: int32_t

text \<open>
  The two constructors of \<open>NamedPropertyHandlerConfiguration\<close>, with a query and with a descriptor,
  and those of \<open>IndexedPropertyHandlerConfiguration\<close>.
\<close>

definition NamedPropertyHandler_query ::
  "addr \<Rightarrow> addr \<Rightarrow> addr \<Rightarrow> addr \<Rightarrow> addr \<Rightarrow> local \<Rightarrow> int32_t \<Rightarrow> PropertyHandlerConfiguration" where
  "NamedPropertyHandler_query g s q d e dat f =
     \<lparr>getter = g, setter = s, query = q, deleter = d, enumerator = e, definer = 0, descriptor = 0,
      handler_data = dat, handler_flags = f\<rparr>"

definition NamedPropertyHandler_descriptor ::
  "addr \<Rightarrow> addr \<Rightarrow> addr \<Rightarrow> addr \<Rightarrow> addr \<Rightarrow> addr \<Rightarrow> local \<Rightarrow> int32_t \<Rightarrow> PropertyHandlerConfiguration" where
  "NamedPropertyHandler_descriptor g s ds d e df dat f =
     \<lparr>getter = g, setter = s, query = 0, deleter = d, enumerator = e, definer = df, descriptor = ds,
      handler_data = dat, handler_flags = f\<rparr>"

definition IndexedPropertyHandler_query ::
  "addr \<Rightarrow> addr \<Rightarrow> addr \<Rightarrow> addr \<Rightarrow> addr \<Rightarrow> local \<Rightarrow> int32_t \<Rightarrow> PropertyHandlerConfiguration" where
  "IndexedPropertyHandler_query g s q d e dat f =
     \<lparr>getter = g, setter = s, query = q, deleter = d, enumerator = e, definer = 0, descriptor = 0,
      handler_data = dat, handler_flags = f\<rparr>"

definition IndexedPropertyHandler_descriptor ::
  "addr \<Rightarrow> addr \<Rightarrow> addr \<Rightarrow> addr \<Rightarrow> addr \<Rightarrow> addr \<Rightarrow> local \<Rightarrow> int32_t \<Rightarrow> PropertyHandlerConfiguration" where
  "IndexedPropertyHandler_descriptor g s ds d e df dat f =
     \<lparr>getter = g, setter = s, query = 0, deleter = d, enumerator = e, definer = df, descriptor = ds,
      handler_data = dat, handler_flags = f\<rparr>"

section \<open>Parameters of an isolate\<close>

record CreateParams =
  entry_hook :: addr
  code_event_handler :: addr
  constraints :: ResourceConstraints
  snapshot_blob :: addr
  counter_lookup_callback :: addr
  create_histogram_callback :: addr
  add_histogram_sample_callback :: addr
  array_buffer_allocator :: addr
  external_references :: addr
  allow_atomics_wait :: bool

text \<open>The default constructor; that of \<open>ResourceConstraints\<close> is the engine's.\<close>

definition CreateParams_new :: "ResourceConstraints \<Rightarrow> CreateParams" where
  "CreateParams_new default_constraints =
     \<lparr>entry_hook = 0, code_event_handler = 0, constraints = default_constraints, snapshot_blob = 0,
      counter_lookup_callback = 0, create_histogram_callback = 0, add_histogram_sample_callback = 0,
      array_buffer_allocator = 0, external_references = 0, allow_atomics_wait = True\<rparr>"

record InternalFieldsCallback =
  ifc_callback :: addr
  ifc_data :: addr

definition SerializeInternalFieldsCallback_new :: "addr \<Rightarrow> addr \<Rightarrow> InternalFieldsCallback" where
  "SerializeInternalFieldsCallback_new function data_arg = \<lparr>ifc_callback = function, ifc_data = data_arg\<rparr>"

definition DeserializeInternalFieldsCallback_new :: "addr \<Rightarrow> addr \<Rightarrow> InternalFieldsCallback" where
  "DeserializeInternalFieldsCallback_new function data_arg = \<lparr>ifc_callback = function, ifc_data = data_arg\<rparr>"

section \<open>Scopes\<close>

text \<open>
  \<open>Isolate::Scope\<close> and \<open>Context::Scope\<close> enter in the constructor and exit in the destructor; \<open>in_scope\<close>
  is a block that holds one. \<open>enter\<close> and \<open>exit\<close> are the engine's functions.
\<close>

record 's scope_api =
  enter_isolate :: "addr \<Rightarrow> 's \<Rightarrow> 's"
  exit_isolate :: "addr \<Rightarrow> 's \<Rightarrow> 's"
  enter_context :: "local \<Rightarrow> 's \<Rightarrow> 's"
  exit_context :: "local \<Rightarrow> 's \<Rightarrow> 's"

definition Isolate_Scope_new :: "'s scope_api \<Rightarrow> addr \<Rightarrow> 's \<Rightarrow> addr \<times> 's" where
  "Isolate_Scope_new S isolate st = (isolate, enter_isolate S isolate st)"

definition Isolate_Scope_delete :: "'s scope_api \<Rightarrow> addr \<Rightarrow> 's \<Rightarrow> 's" where
  "Isolate_Scope_delete S isolate st = exit_isolate S isolate st"

definition Context_Scope_new :: "'s scope_api \<Rightarrow> local \<Rightarrow> 's \<Rightarrow> local \<times> 's" where
  "Context_Scope_new S context st = (context, enter_context S context st)"

definition Context_Scope_delete :: "'s scope_api \<Rightarrow> local \<Rightarrow> 's \<Rightarrow> 's" where
  "Context_Scope_delete S context st = exit_context S context st"

end
