(* ===== verification/V8Api.thy ===== *)
theory V8Api
  imports V8Casts V8Config
begin

text \<open>
  The remaining inline functions of \<open>v8.h\<close>: the pointer operators of the handle classes, \<open>Maybe<void>\<close>, escaping a handle from its
  scope, the conversions of values in the current context, snapshot data, lockers, and the small classes around strings, script
  origins and compiled modules. The engine's functions they forward to are the fields of \<open>api_rest\<close>.
\<close>

section \<open>Handles\<close>

definition Local_of :: "addr \<Rightarrow> local" where "Local_of that = that"
definition Local_deref :: "local \<Rightarrow> addr" where "Local_deref this = this"
definition MaybeLocal_empty :: addr where "MaybeLocal_empty = 0"
definition Eternal_empty :: addr where "Eternal_empty = 0"

definition PB_neq :: "'e v8 \<Rightarrow> addr \<Rightarrow> addr \<Rightarrow> bool" where "PB_neq st this that = (\<not> PB_eq st this that)"

definition PB_neq_local :: "'e v8 \<Rightarrow> addr \<Rightarrow> local \<Rightarrow> bool" where
  "PB_neq_local st this that = (\<not> PB_eq_local st this that)"

definition PB_ClearWeak_void :: "('e v8) v8_api \<Rightarrow> addr \<Rightarrow> 'e v8 \<Rightarrow> 'e v8" where
  "PB_ClearWeak_void E this st = snd (PB_ClearWeak E this st)"

text \<open>The private constructors from a pointer, and the pointer operators.\<close>

definition PersistentBase_of :: "addr \<Rightarrow> addr \<Rightarrow> 'e v8 \<Rightarrow> 'e v8" where
  "PersistentBase_of this v st = set_val this v st"

definition Persistent_of :: "addr \<Rightarrow> addr \<Rightarrow> 'e v8 \<Rightarrow> 'e v8" where
  "Persistent_of this that st = PersistentBase_of this that st"

definition Persistent_deref :: "'e v8 \<Rightarrow> addr \<Rightarrow> addr" where "Persistent_deref st this = handle_val st this"
definition Global_deref :: "'e v8 \<Rightarrow> addr \<Rightarrow> addr" where "Global_deref st this = handle_val st this"

section \<open>Maybe void\<close>

record MaybeVoid =
  is_valid :: bool

definition MaybeVoid_Nothing :: MaybeVoid where "MaybeVoid_Nothing = \<lparr>is_valid = False\<rparr>"
definition JustVoid :: MaybeVoid where "JustVoid = \<lparr>is_valid = True\<rparr>"
definition MaybeVoid_IsNothing :: "MaybeVoid \<Rightarrow> bool" where "MaybeVoid_IsNothing this = (\<not> is_valid this)"
definition MaybeVoid_IsJust :: "MaybeVoid \<Rightarrow> bool" where "MaybeVoid_IsJust this = is_valid this"
definition MaybeVoid_eq :: "MaybeVoid \<Rightarrow> MaybeVoid \<Rightarrow> bool" where
  "MaybeVoid_eq this other = (MaybeVoid_IsJust this = MaybeVoid_IsJust other)"
definition MaybeVoid_neq :: "MaybeVoid \<Rightarrow> MaybeVoid \<Rightarrow> bool" where
  "MaybeVoid_neq this other = (\<not> MaybeVoid_eq this other)"

section \<open>The engine's functions\<close>

record 's api_rest =
  Escape_slot :: "addr \<Rightarrow> addr \<Rightarrow> 's \<Rightarrow> addr \<times> 's"
  current_isolate :: "'s \<Rightarrow> addr"
  current_context :: "addr \<Rightarrow> 's \<Rightarrow> local \<times> 's"
  ToBoolean_in :: "local \<Rightarrow> local \<Rightarrow> 's \<Rightarrow> addr \<times> 's"
  ToString_in :: "local \<Rightarrow> local \<Rightarrow> 's \<Rightarrow> addr \<times> 's"
  ToObject_in :: "local \<Rightarrow> local \<Rightarrow> 's \<Rightarrow> addr \<times> 's"
  ToInteger_in :: "local \<Rightarrow> local \<Rightarrow> 's \<Rightarrow> addr \<times> 's"
  NewFromUtf8 :: "addr \<Rightarrow> string \<Rightarrow> 's \<Rightarrow> addr \<times> 's"
  Template_Set_name :: "local \<Rightarrow> local \<Rightarrow> local \<Rightarrow> 's \<Rightarrow> 's"
  isolate_snapshot_data :: "addr \<Rightarrow> nat \<Rightarrow> 's \<Rightarrow> addr \<times> 's"
  context_snapshot_data :: "addr \<Rightarrow> nat \<Rightarrow> 's \<Rightarrow> addr \<times> 's"
  add_context_data :: "addr \<Rightarrow> local \<Rightarrow> obj \<Rightarrow> 's \<Rightarrow> nat \<times> 's"
  add_data :: "addr \<Rightarrow> obj \<Rightarrow> 's \<Rightarrow> nat \<times> 's"
  Object_InternalFieldCount :: "addr \<Rightarrow> 's \<Rightarrow> int32_t"
  Object_CreationContext :: "addr \<Rightarrow> 's \<Rightarrow> local \<times> 's"
  NewInstance_args :: "addr \<Rightarrow> local \<Rightarrow> local list \<Rightarrow> 's \<Rightarrow> addr \<times> 's"
  Locker_Initialize :: "addr \<Rightarrow> addr \<Rightarrow> 's \<Rightarrow> 's"
  Unlocker_Initialize :: "addr \<Rightarrow> addr \<Rightarrow> 's \<Rightarrow> 's"

section \<open>Scopes and lockers\<close>

text \<open>A \<open>HandleScope\<close> is its member \<open>isolate_\<close>; an escapable one is given by its address.\<close>

definition HandleScope_GetIsolate :: "addr \<Rightarrow> addr" where "HandleScope_GetIsolate isolate = isolate"

definition EscapableHandleScope_Escape :: "'s api_rest \<Rightarrow> addr \<Rightarrow> local \<Rightarrow> 's \<Rightarrow> local \<times> 's" where
  "EscapableHandleScope_Escape R this value st =
     (let (slot, st1) = Escape_slot R this (Local_deref value) st in (Local_of slot, st1))"

definition Locker_new :: "'s api_rest \<Rightarrow> addr \<Rightarrow> addr \<Rightarrow> 's \<Rightarrow> 's" where
  "Locker_new R this isolate st = Locker_Initialize R this isolate st"

definition Unlocker_new :: "'s api_rest \<Rightarrow> addr \<Rightarrow> addr \<Rightarrow> 's \<Rightarrow> 's" where
  "Unlocker_new R this isolate st = Unlocker_Initialize R this isolate st"

section \<open>Values in the current context\<close>

text \<open>An exception in the conversion leaves an empty \<open>MaybeLocal\<close>, and the caller gets an empty \<open>Local\<close>.\<close>

definition in_current_context :: "'s api_rest \<Rightarrow> 's \<Rightarrow> local \<times> 's" where
  "in_current_context R st = current_context R (current_isolate R st) st"

definition Value_ToBoolean :: "'s api_rest \<Rightarrow> local \<Rightarrow> 's \<Rightarrow> local \<times> 's" where
  "Value_ToBoolean R this st =
     (let (context, st1) = in_current_context R st; (r, st2) = ToBoolean_in R this context st1
      in (MaybeLocal_FromMaybe r Local_empty, st2))"

definition Value_ToString :: "'s api_rest \<Rightarrow> local \<Rightarrow> 's \<Rightarrow> local \<times> 's" where
  "Value_ToString R this st =
     (let (context, st1) = in_current_context R st; (r, st2) = ToString_in R this context st1
      in (MaybeLocal_FromMaybe r Local_empty, st2))"

definition Value_ToObject :: "'s api_rest \<Rightarrow> local \<Rightarrow> 's \<Rightarrow> local \<times> 's" where
  "Value_ToObject R this st =
     (let (context, st1) = in_current_context R st; (r, st2) = ToObject_in R this context st1
      in (MaybeLocal_FromMaybe r Local_empty, st2))"

definition Value_ToInteger :: "'s api_rest \<Rightarrow> local \<Rightarrow> 's \<Rightarrow> local \<times> 's" where
  "Value_ToInteger R this st =
     (let (context, st1) = in_current_context R st; (r, st2) = ToInteger_in R this context st1
      in (MaybeLocal_FromMaybe r Local_empty, st2))"

definition Template_Set_cstr :: "'s api_rest \<Rightarrow> local \<Rightarrow> addr \<Rightarrow> string \<Rightarrow> local \<Rightarrow> 's \<Rightarrow> 's option" where
  "Template_Set_cstr R this isolate name value st =
     (let (n, st1) = NewFromUtf8 R isolate name st
      in map_option (\<lambda>name_handle. Template_Set_name R this name_handle value st1) (MaybeLocal_ToLocalChecked n))"

definition NewInstance :: "'s api_rest \<Rightarrow> addr \<Rightarrow> local \<Rightarrow> 's \<Rightarrow> addr \<times> 's" where
  "NewInstance R this context st = NewInstance_args R this context [] st"

section \<open>Objects behind persistent handles\<close>

definition InternalFieldCount_persistent :: "('e v8) api_rest \<Rightarrow> addr \<Rightarrow> 'e v8 \<Rightarrow> int32_t" where
  "InternalFieldCount_persistent R object st = Object_InternalFieldCount R (handle_val st object) st"

definition GetAlignedPointerFromInternalField_persistent ::
  "('e v8) value_api \<Rightarrow> addr \<Rightarrow> int32_t \<Rightarrow> 'e v8 \<Rightarrow> addr \<times> 'e v8" where
  "GetAlignedPointerFromInternalField_persistent V object index st =
     GetAlignedPointerFromInternalField V (handle_val st object) index st"

definition CreationContext_persistent :: "('e v8) api_rest \<Rightarrow> addr \<Rightarrow> 'e v8 \<Rightarrow> local \<times> 'e v8" where
  "CreationContext_persistent R object st = Object_CreationContext R (handle_val st object) st"

section \<open>Snapshot data\<close>

text \<open>A null pointer from the snapshot is not checked and gives an empty handle.\<close>

definition checked_data :: "bool \<Rightarrow> (addr \<Rightarrow> addr option) \<Rightarrow> addr \<times> 's \<Rightarrow> (addr \<times> 's) option" where
  "checked_data is_data T_Cast r =
     (case r of (data, st) \<Rightarrow> do {
        _ \<leftarrow> (if data \<noteq> 0 then PerformCastCheck is_data T_Cast data else Some ());
        Some (Local_of data, st) })"

definition Isolate_GetDataFromSnapshotOnce ::
  "'s api_rest \<Rightarrow> bool \<Rightarrow> (addr \<Rightarrow> addr option) \<Rightarrow> addr \<Rightarrow> nat \<Rightarrow> 's \<Rightarrow> (addr \<times> 's) option" where
  "Isolate_GetDataFromSnapshotOnce R is_data T_Cast this index st =
     checked_data is_data T_Cast (isolate_snapshot_data R this index st)"

definition Context_GetDataFromSnapshotOnce ::
  "'s api_rest \<Rightarrow> bool \<Rightarrow> (addr \<Rightarrow> addr option) \<Rightarrow> addr \<Rightarrow> nat \<Rightarrow> 's \<Rightarrow> (addr \<times> 's) option" where
  "Context_GetDataFromSnapshotOnce R is_data T_Cast this index st =
     checked_data is_data T_Cast (context_snapshot_data R this index st)"

text \<open>The object is read through the handle: an empty one is a null pointer, undefined.\<close>

definition SnapshotCreator_AddData_context ::
  "('e v8) api_rest \<Rightarrow> addr \<Rightarrow> local \<Rightarrow> local \<Rightarrow> 'e v8 \<Rightarrow> (nat \<times> 'e v8) option" where
  "SnapshotCreator_AddData_context R this context ob st =
     (if Local_deref ob = 0 then None
      else Some (add_context_data R this context (load64 (mem st) (Local_deref ob)) st))"

definition SnapshotCreator_AddData :: "('e v8) api_rest \<Rightarrow> addr \<Rightarrow> local \<Rightarrow> 'e v8 \<Rightarrow> (nat \<times> 'e v8) option" where
  "SnapshotCreator_AddData R this ob st =
     (if Local_deref ob = 0 then None else Some (add_data R this (load64 (mem st) (Local_deref ob)) st))"

section \<open>Callbacks and script origins\<close>

definition ReturnValue_new :: "addr \<Rightarrow> addr" where "ReturnValue_new slot = slot"

definition FunctionCallbackInfo_new :: "addr \<Rightarrow> addr \<Rightarrow> int32_t \<Rightarrow> FunctionCallbackInfo" where
  "FunctionCallbackInfo_new args values len = \<lparr>implicit_args = args, fci_values = values, fci_length = len\<rparr>"

definition ScriptOrigin_ResourceName :: "ScriptOrigin \<Rightarrow> local" where "ScriptOrigin_ResourceName this = resource_name this"
definition ScriptOrigin_HostDefinedOptions :: "ScriptOrigin \<Rightarrow> local" where
  "ScriptOrigin_HostDefinedOptions this = host_defined_options this"
definition ScriptOrigin_ResourceLineOffset :: "ScriptOrigin \<Rightarrow> local" where
  "ScriptOrigin_ResourceLineOffset this = resource_line_offset this"
definition ScriptOrigin_ResourceColumnOffset :: "ScriptOrigin \<Rightarrow> local" where
  "ScriptOrigin_ResourceColumnOffset this = resource_column_offset this"
definition ScriptOrigin_ScriptID :: "ScriptOrigin \<Rightarrow> local" where "ScriptOrigin_ScriptID this = script_id this"
definition ScriptOrigin_SourceMapUrl :: "ScriptOrigin \<Rightarrow> local" where "ScriptOrigin_SourceMapUrl this = source_map_url this"

section \<open>Small classes\<close>

record RegisterState =
  pc :: addr
  sp :: addr
  fp :: addr

definition RegisterState_new :: RegisterState where "RegisterState_new = \<lparr>pc = 0, sp = 0, fp = 0\<rparr>"

text \<open>\<open>String::Utf8Value\<close> and \<open>String::Value\<close>: a pointer and a length.\<close>

record StringValue =
  str_ptr :: addr
  str_length :: int32_t

definition StringValue_deref :: "StringValue \<Rightarrow> addr" where "StringValue_deref this = str_ptr this"
definition StringValue_length :: "StringValue \<Rightarrow> int32_t" where "StringValue_length this = str_length this"

text \<open>Defaults a subclass may override; \<open>delete this\<close> runs \<open>destroy\<close>.\<close>

definition ExternalStringResourceBase_IsCompressible :: bool where "ExternalStringResourceBase_IsCompressible = False"
definition ExternalStringResourceBase_Dispose :: "(addr \<Rightarrow> 's \<Rightarrow> 's) \<Rightarrow> addr \<Rightarrow> 's \<Rightarrow> 's" where
  "ExternalStringResourceBase_Dispose destroy this st = destroy this st"
definition NumberOfWrappersToTrace :: size_t where "NumberOfWrappersToTrace = 0"

datatype ForceCompletionAction = FORCE_COMPLETION | DO_NOT_FORCE_COMPLETION

record AdvanceTracingActions =
  force_completion :: ForceCompletionAction

definition AdvanceTracingActions_new :: "ForceCompletionAction \<Rightarrow> AdvanceTracingActions" where
  "AdvanceTracingActions_new action = \<lparr>force_completion = action\<rparr>"

record StreamedSource =
  streamed_impl :: addr

definition StreamedSource_impl :: "StreamedSource \<Rightarrow> addr" where "StreamedSource_impl this = streamed_impl this"

record PropertyDescriptor =
  private_data :: addr

definition get_private :: "PropertyDescriptor \<Rightarrow> addr" where "get_private this = private_data this"

text \<open>
  \<open>WasmCompiledModule::TransferrableModule\<close>: two owned buffers. The constructor moves its arguments, which are
  left empty; \<open>AsCallerOwned\<close> gives the pointer without giving up the ownership.
\<close>

type_synonym OwnedBuffer = "addr \<times> size_t"

record TransferrableModule =
  compiled_code :: OwnedBuffer
  wire_bytes :: OwnedBuffer

definition move_buffer :: "OwnedBuffer \<Rightarrow> OwnedBuffer \<times> OwnedBuffer" where
  "move_buffer b = (b, (0, snd b))"

definition TransferrableModule_new ::
  "OwnedBuffer \<Rightarrow> OwnedBuffer \<Rightarrow> TransferrableModule \<times> OwnedBuffer \<times> OwnedBuffer" where
  "TransferrableModule_new code bytes =
     (let (c, code') = move_buffer code; (b, bytes') = move_buffer bytes
      in (\<lparr>compiled_code = c, wire_bytes = b\<rparr>, code', bytes'))"

definition AsCallerOwned :: "OwnedBuffer \<Rightarrow> addr \<times> size_t" where "AsCallerOwned buff = (fst buff, snd buff)"

section \<open>Laws\<close>

text \<open>Equality of handles is an equivalence on the handles of a memory, and the inequalities are its negation.\<close>

lemma handle_eq_equiv:
  "handle_eq m a a" "handle_eq m a b \<Longrightarrow> handle_eq m b a" "handle_eq m a b \<Longrightarrow> handle_eq m b c \<Longrightarrow> handle_eq m a c"
  by (auto simp: handle_eq_def split: if_splits)

lemma PB_eq_equiv: "equivp (\<lambda>x y. PB_eq st x y)"
  unfolding PB_eq_def
proof (rule equivpI)
  show "reflp (\<lambda>x y. handle_eq (mem st) (handle_val st x) (handle_val st y))"
    by (rule reflpI) (rule handle_eq_equiv)
  show "symp (\<lambda>x y. handle_eq (mem st) (handle_val st x) (handle_val st y))"
    by (rule sympI) (rule handle_eq_equiv)
  show "transp (\<lambda>x y. handle_eq (mem st) (handle_val st x) (handle_val st y))"
    by (rule transpI) (rule handle_eq_equiv(3))
qed

lemma MaybeVoid_eq_iff: "MaybeVoid_eq x y \<longleftrightarrow> x = y"
  by (cases x; cases y) (simp add: MaybeVoid_eq_def MaybeVoid_IsJust_def)

end
