(* ===== verification/V8Platform.thy ===== *)
theory V8Platform
  imports V8Api
begin

text \<open>
  The interfaces an embedder can implement, \<open>v8-platform.h\<close>, \<open>v8-inspector.h\<close>, \<open>v8-profiler.h\<close> and
  \<open>libplatform/v8-tracing.h\<close>: the default implementations of their virtual functions and the inline members of their classes. A class
  whose virtual functions call each other is a record with one field per function, \<open>None\<close> where the subclass
  does not override it; \<open>abort()\<close> is the result \<open>None\<close>.
\<close>

section \<open>Platform\<close>

datatype ExpectedRuntime = kShortRunningTask | kLongRunningTask

text \<open>The overridable functions of \<open>v8::Platform\<close>; a task and a task runner are pointers.\<close>

record 's Platform =
  ov_GetPageAllocator :: "addr option"
  ov_OnCriticalMemoryPressure :: "('s \<Rightarrow> 's) option"
  ov_OnCriticalMemoryPressure_length :: "(size_t \<Rightarrow> 's \<Rightarrow> bool \<times> 's) option"
  ov_NumberOfWorkerThreads :: "int32_t option"
  ov_NumberOfAvailableBackgroundThreads :: "size_t option"
  ov_GetForegroundTaskRunner :: "(addr \<Rightarrow> 's \<Rightarrow> addr \<times> 's) option"
  ov_GetBackgroundTaskRunner :: "(addr \<Rightarrow> 's \<Rightarrow> addr \<times> 's) option"
  ov_GetWorkerThreadsTaskRunner :: "(addr \<Rightarrow> 's \<Rightarrow> addr \<times> 's) option"
  ov_CallOnBackgroundThread :: "(addr \<Rightarrow> ExpectedRuntime \<Rightarrow> 's \<Rightarrow> 's) option"
  ov_CallOnWorkerThread :: "(addr \<Rightarrow> 's \<Rightarrow> 's) option"
  ov_CallBlockingTaskOnWorkerThread :: "(addr \<Rightarrow> 's \<Rightarrow> 's) option"
  ov_CallIdleOnForegroundThread :: "(addr \<Rightarrow> addr \<Rightarrow> 's \<Rightarrow> 's) option"
  ov_IdleTasksEnabled :: "(addr \<Rightarrow> bool) option"
  ov_GetStackTracePrinter :: "addr option"

definition GetPageAllocator :: "'s Platform \<Rightarrow> addr" where
  "GetPageAllocator P = (case ov_GetPageAllocator P of Some a \<Rightarrow> a | None \<Rightarrow> 0)"

definition OnCriticalMemoryPressure :: "'s Platform \<Rightarrow> 's \<Rightarrow> 's" where
  "OnCriticalMemoryPressure P st = (case ov_OnCriticalMemoryPressure P of Some f \<Rightarrow> f st | None \<Rightarrow> st)"

definition OnCriticalMemoryPressure_length :: "'s Platform \<Rightarrow> size_t \<Rightarrow> 's \<Rightarrow> bool \<times> 's" where
  "OnCriticalMemoryPressure_length P len st =
     (case ov_OnCriticalMemoryPressure_length P of Some f \<Rightarrow> f len st | None \<Rightarrow> (False, st))"

definition NumberOfAvailableBackgroundThreads :: "'s Platform \<Rightarrow> size_t" where
  "NumberOfAvailableBackgroundThreads P =
     (case ov_NumberOfAvailableBackgroundThreads P of Some n \<Rightarrow> n | None \<Rightarrow> 0)"

text \<open>\<open>static_cast<int>\<close> of a \<open>size_t\<close> keeps the low 32 bits.\<close>

definition NumberOfWorkerThreads :: "'s Platform \<Rightarrow> int32_t" where
  "NumberOfWorkerThreads P =
     (case ov_NumberOfWorkerThreads P of Some n \<Rightarrow> n | None \<Rightarrow> ucast (NumberOfAvailableBackgroundThreads P))"

definition GetForegroundTaskRunner :: "'s Platform \<Rightarrow> addr \<Rightarrow> 's \<Rightarrow> addr \<times> 's" where
  "GetForegroundTaskRunner P isolate st =
     (case ov_GetForegroundTaskRunner P of Some f \<Rightarrow> f isolate st | None \<Rightarrow> (0, st))"

definition GetBackgroundTaskRunner :: "'s Platform \<Rightarrow> addr \<Rightarrow> 's \<Rightarrow> (addr \<times> 's) option" where
  "GetBackgroundTaskRunner P isolate st =
     (case ov_GetBackgroundTaskRunner P of Some f \<Rightarrow> Some (f isolate st) | None \<Rightarrow> None)"

definition GetWorkerThreadsTaskRunner :: "'s Platform \<Rightarrow> addr \<Rightarrow> 's \<Rightarrow> (addr \<times> 's) option" where
  "GetWorkerThreadsTaskRunner P isolate st =
     (case ov_GetWorkerThreadsTaskRunner P of Some f \<Rightarrow> Some (f isolate st) | None \<Rightarrow> GetBackgroundTaskRunner P isolate st)"

definition CallOnBackgroundThread :: "'s Platform \<Rightarrow> addr \<Rightarrow> ExpectedRuntime \<Rightarrow> 's \<Rightarrow> 's option" where
  "CallOnBackgroundThread P task expected_runtime st =
     (case ov_CallOnBackgroundThread P of Some f \<Rightarrow> Some (f task expected_runtime st) | None \<Rightarrow> None)"

definition CallOnWorkerThread :: "'s Platform \<Rightarrow> addr \<Rightarrow> 's \<Rightarrow> 's option" where
  "CallOnWorkerThread P task st =
     (case ov_CallOnWorkerThread P of Some f \<Rightarrow> Some (f task st)
      | None \<Rightarrow> CallOnBackgroundThread P task kShortRunningTask st)"

definition CallBlockingTaskOnWorkerThread :: "'s Platform \<Rightarrow> addr \<Rightarrow> 's \<Rightarrow> 's option" where
  "CallBlockingTaskOnWorkerThread P task st =
     (case ov_CallBlockingTaskOnWorkerThread P of Some f \<Rightarrow> Some (f task st) | None \<Rightarrow> CallOnWorkerThread P task st)"

definition CallIdleOnForegroundThread :: "'s Platform \<Rightarrow> addr \<Rightarrow> addr \<Rightarrow> 's \<Rightarrow> 's" where
  "CallIdleOnForegroundThread P isolate task st =
     (case ov_CallIdleOnForegroundThread P of Some f \<Rightarrow> f isolate task st | None \<Rightarrow> st)"

definition IdleTasksEnabled :: "'s Platform \<Rightarrow> addr \<Rightarrow> bool" where
  "IdleTasksEnabled P isolate = (case ov_IdleTasksEnabled P of Some f \<Rightarrow> f isolate | None \<Rightarrow> False)"

definition GetStackTracePrinter :: "'s Platform \<Rightarrow> addr" where
  "GetStackTracePrinter P = (case ov_GetStackTracePrinter P of Some f \<Rightarrow> f | None \<Rightarrow> 0)"

section \<open>The default tracing controller\<close>

text \<open>\<open>no\<close> is the address of the static byte that says no category is enabled.\<close>

definition GetCategoryGroupEnabled :: "addr \<Rightarrow> string \<Rightarrow> addr" where "GetCategoryGroupEnabled no name = no"
definition AddTraceEvent :: "64 word" where "AddTraceEvent = 0"
definition AddTraceEventWithTimestamp :: "64 word" where "AddTraceEventWithTimestamp = 0"

section \<open>Trace buffers\<close>

definition kTraceMaxNumArgs :: nat where "kTraceMaxNumArgs = 2"
definition kChunkSize :: nat where "kChunkSize = 64"
definition kRingBufferChunks :: nat where "kRingBufferChunks = 1024"

text \<open>\<open>TraceObject\<close>: each getter returns its member.\<close>

record TraceObject =
  trace_pid :: int32_t
  trace_tid :: int32_t
  phase :: byte
  trace_name :: addr
  trace_scope :: addr
  category_enabled_flag :: addr
  trace_id :: "64 word"
  bind_id :: "64 word"
  num_args :: int32_t
  arg_names :: "addr list"
  arg_types :: "byte list"
  arg_values :: "64 word list"
  arg_convertables :: "addr list"
  parameter_copy_storage :: addr
  trace_flags :: uint32_t
  trace_ts :: int64_t
  trace_tts :: int64_t
  duration :: "64 word"
  cpu_duration :: "64 word"

record TraceBufferChunk =
  next_free :: nat
  chunk :: "TraceObject list"
  chunk_seq :: uint32_t

definition IsFull :: "TraceBufferChunk \<Rightarrow> bool" where "IsFull this = (next_free this = kChunkSize)"

text \<open>An index outside the array of 64 is undefined.\<close>

definition GetEventAt :: "TraceBufferChunk \<Rightarrow> nat \<Rightarrow> TraceObject option" where
  "GetEventAt this index = (if index < length (chunk this) then Some (chunk this ! index) else None)"

definition TraceBufferChunk_size :: "TraceBufferChunk \<Rightarrow> nat" where "TraceBufferChunk_size this = next_free this"
definition TraceBufferChunk_seq :: "TraceBufferChunk \<Rightarrow> uint32_t" where "TraceBufferChunk_seq this = chunk_seq this"

datatype TraceRecordMode =
  RECORD_UNTIL_FULL | RECORD_CONTINUOUSLY | RECORD_AS_MUCH_AS_POSSIBLE | ECHO_TO_CONSOLE

text \<open>The constructor of \<open>TraceConfig\<close> leaves the record mode as it finds it.\<close>

record TraceConfig =
  record_mode :: TraceRecordMode
  enable_systrace :: bool
  enable_argument_filter :: bool
  included_categories :: "string list"

definition TraceConfig_new :: "TraceRecordMode \<Rightarrow> TraceConfig" where
  "TraceConfig_new uninitialized =
     \<lparr>record_mode = uninitialized, enable_systrace = False, enable_argument_filter = False, included_categories = []\<rparr>"

definition GetTraceRecordMode :: "TraceConfig \<Rightarrow> TraceRecordMode" where "GetTraceRecordMode this = record_mode this"
definition IsSystraceEnabled :: "TraceConfig \<Rightarrow> bool" where "IsSystraceEnabled this = enable_systrace this"
definition IsArgumentFilterEnabled :: "TraceConfig \<Rightarrow> bool" where "IsArgumentFilterEnabled this = enable_argument_filter this"
definition SetTraceRecordMode :: "TraceRecordMode \<Rightarrow> TraceConfig \<Rightarrow> TraceConfig" where
  "SetTraceRecordMode mode this = this\<lparr>record_mode := mode\<rparr>"
definition EnableSystrace :: "TraceConfig \<Rightarrow> TraceConfig" where "EnableSystrace this = this\<lparr>enable_systrace := True\<rparr>"
definition EnableArgumentFilter :: "TraceConfig \<Rightarrow> TraceConfig" where
  "EnableArgumentFilter this = this\<lparr>enable_argument_filter := True\<rparr>"

section \<open>The inspector\<close>

text \<open>\<open>StringView\<close>: one pointer, read as 8-bit or 16-bit characters.\<close>

record StringView =
  is8Bit :: bool
  view_length :: size_t
  characters :: addr

definition StringView_empty :: StringView where "StringView_empty = \<lparr>is8Bit = True, view_length = 0, characters = 0\<rparr>"
definition StringView_new8 :: "addr \<Rightarrow> size_t \<Rightarrow> StringView" where
  "StringView_new8 chars len = \<lparr>is8Bit = True, view_length = len, characters = chars\<rparr>"
definition StringView_new16 :: "addr \<Rightarrow> size_t \<Rightarrow> StringView" where
  "StringView_new16 chars len = \<lparr>is8Bit = False, view_length = len, characters = chars\<rparr>"
definition characters8 :: "StringView \<Rightarrow> addr" where "characters8 this = characters this"
definition characters16 :: "StringView \<Rightarrow> addr" where "characters16 this = characters this"

record V8ContextInfo =
  info_context :: local
  contextGroupId :: int32_t
  humanReadableName :: StringView
  info_origin :: StringView
  auxData :: StringView
  hasMemoryOnConsole :: bool

definition V8ContextInfo_new :: "local \<Rightarrow> int32_t \<Rightarrow> StringView \<Rightarrow> V8ContextInfo" where
  "V8ContextInfo_new context group_id name =
     \<lparr>info_context = context, contextGroupId = group_id, humanReadableName = name, info_origin = StringView_empty,
      auxData = StringView_empty, hasMemoryOnConsole = False\<rparr>"

text \<open>The answers of the default \<open>V8InspectorClient\<close>; its other functions do nothing.\<close>

definition valueSubtype :: addr where "valueSubtype = 0"
definition formatAccessorsAsProperties :: bool where "formatAccessorsAsProperties = False"
definition isInspectableHeapObject :: bool where "isInspectableHeapObject = True"
definition ensureDefaultContextInGroup :: local where "ensureDefaultContextInGroup = Local_empty"
definition memoryInfo :: addr where "memoryInfo = MaybeLocal_empty"
definition canExecuteScripts :: bool where "canExecuteScripts = True"
definition resourceNameToUrl :: addr where "resourceNameToUrl = 0"

section \<open>The profiler\<close>

datatype StateTag = JS | GC | PARSER | BYTECODE_COMPILER | COMPILER | OTHER | EXTERNAL | IDLE

record TickSample =
  tick_state :: StateTag
  tick_pc :: addr
  external_callback_entry :: addr
  frames_count :: "8 word"
  has_external_callback :: bool
  update_stats :: bool

definition TickSample_new :: TickSample where
  "TickSample_new = \<lparr>tick_state = OTHER, tick_pc = 0, external_callback_entry = 0, frames_count = 0,
     has_external_callback = False, update_stats = True\<rparr>"

definition kMaxFramesCountLog2 :: nat where "kMaxFramesCountLog2 = 8"
definition kMaxFramesCount :: nat where "kMaxFramesCount = push_bit kMaxFramesCountLog2 1 - 1"

datatype WriteResult = kContinue | kAbort

definition GetChunkSize :: int32_t where "GetChunkSize = 1024"
definition WriteHeapStatsChunk :: WriteResult where "WriteHeapStatsChunk = kAbort"
definition EmbedderNode_WrapperNode :: addr where "EmbedderNode_WrapperNode = 0"
definition EmbedderNode_IsRootNode :: bool where "EmbedderNode_IsRootNode = False"
definition EmbedderNode_IsEmbedderNode :: bool where "EmbedderNode_IsEmbedderNode = True"
definition EmbedderNode_NamePrefix :: addr where "EmbedderNode_NamePrefix = 0"

text \<open>\<open>RetainedObjectInfo\<close>: \<open>GetLabel\<close> is the subclass's.\<close>

definition GetGroupLabel :: "('s \<Rightarrow> addr \<times> 's) \<Rightarrow> 's \<Rightarrow> addr \<times> 's" where "GetGroupLabel GetLabel st = GetLabel st"
definition GetElementCount :: int64_t where "GetElementCount = -1"
definition GetSizeInBytes :: int64_t where "GetSizeInBytes = -1"

record HeapStatsUpdate =
  hsu_index :: uint32_t
  hsu_count :: uint32_t
  hsu_size :: uint32_t

definition HeapStatsUpdate_new :: "uint32_t \<Rightarrow> uint32_t \<Rightarrow> uint32_t \<Rightarrow> HeapStatsUpdate" where
  "HeapStatsUpdate_new index count sz = \<lparr>hsu_index = index, hsu_count = count, hsu_size = sz\<rparr>"

text \<open>
  The enumeration \<open>CodeEventType\<close>. The list \<open>CODE_EVENTS_LIST(V)\<close> stands on the line of the \<open>#define\<close> of \<open>V\<close>, so that it is part of
  the macro's body, and the macro is undefined again without having been used: one constant is left.
\<close>

datatype CodeEventType = kUnknownType

section \<open>Properties\<close>

text \<open>
  Where a worker task goes. A platform that overrides one of the two ways to run a task in the background gets every task posted in
  any of the three ways, through the most specific override, once; with no override at all, posting a
  task aborts the process.
\<close>

lemma worker_task_dispatch:
  assumes "ov_CallBlockingTaskOnWorkerThread P = None"
  shows "CallBlockingTaskOnWorkerThread P task st = CallOnWorkerThread P task st \<and>
    CallOnWorkerThread P task st =
      (case (ov_CallOnWorkerThread P, ov_CallOnBackgroundThread P) of
         (Some f, _) \<Rightarrow> Some (f task st)
       | (None, Some g) \<Rightarrow> Some (g task kShortRunningTask st)
       | (None, None) \<Rightarrow> None)"
  using assms
  by (simp add: CallBlockingTaskOnWorkerThread_def CallOnWorkerThread_def CallOnBackgroundThread_def split: option.split)

lemma GetEventAt_in_chunk: "length (chunk c) = kChunkSize \<Longrightarrow> next_free c \<le> kChunkSize \<Longrightarrow> i < TraceBufferChunk_size c \<Longrightarrow>
  GetEventAt c i \<noteq> None"
  by (simp add: GetEventAt_def TraceBufferChunk_size_def)

text \<open>The bit field \<open>frames_count\<close> holds every number of frames the array \<open>stack\<close> has room for.\<close>

lemma frames_count_fits: "n \<le> kMaxFramesCount \<Longrightarrow> unat (of_nat n :: 8 word) = n"
  by (simp add: kMaxFramesCount_def kMaxFramesCountLog2_def push_bit_eq_mult unat_of_nat)

lemma code_event_types: "(UNIV :: CodeEventType set) = {kUnknownType}"
  using CodeEventType.exhaust by auto

end
