(* ===== verification/ObjectWrap.thy ===== *)
theory ObjectWrap
  imports V8Values
begin

text \<open>
  \<open>node::ObjectWrap\<close> of \<open>node_object_wrap.h\<close>: a C++ object whose life is tied to a JavaScript object. It
  holds a persistent handle that is weak while nothing in the event loop refers to it (\<open>refs_\<close> is 0)
  and strong otherwise; when the engine collects the JavaScript object it calls \<open>WeakCallback\<close>,
  which destroys the wrapper. A failed \<open>assert\<close> and the signed overflow of \<open>refs_\<close> are \<open>None\<close>.
\<close>

section \<open>State and operations\<close>

text \<open>
  \<open>refs_of\<close> gives \<open>refs_\<close> of every live wrapper. The member \<open>handle_\<close> of the wrapper at \<open>this\<close> is the
  handle object at \<open>this\<close>.
\<close>

record 'e wraps =
  v8_of :: "'e v8"
  refs_of :: "addr \<rightharpoonup> int"

record 's wrap_api =
  InternalFieldCount :: "addr \<Rightarrow> 's \<Rightarrow> int"
  SetAlignedPointerInInternalField :: "addr \<Rightarrow> int \<Rightarrow> addr \<Rightarrow> 's \<Rightarrow> 's"
  GetCurrent :: "'s \<Rightarrow> addr"
  WeakCallback_address :: addr

definition ObjectWrap_new :: "addr \<Rightarrow> 'e wraps \<Rightarrow> 'e wraps" where
  "ObjectWrap_new this s = s\<lparr>v8_of := Persistent_new this (v8_of s), refs_of := (refs_of s)(this \<mapsto> 0)\<rparr>"

text \<open>The destructor: the body of \<open>~ObjectWrap\<close>, the destructor of \<open>handle_\<close>, the object is gone.\<close>

definition ObjectWrap_delete :: "('e v8) v8_api \<Rightarrow> addr \<Rightarrow> 'e wraps \<Rightarrow> 'e wraps option" where
  "ObjectWrap_delete E this s = do {
     st1 \<leftarrow> (if PB_IsEmpty (v8_of s) this then Some (v8_of s)
             else if \<not> PB_IsNearDeath (v8_of s) this then None
             else Some (PB_Reset E this (snd (PB_ClearWeak E this (v8_of s)))));
     Some (s\<lparr>v8_of := Persistent_delete E NonCopyable_kResetInDestructor this st1, refs_of := (refs_of s)(this := None)\<rparr>)
   }"

definition Unwrap :: "('e v8) wrap_api \<Rightarrow> ('e v8) value_api \<Rightarrow> local \<Rightarrow> 'e wraps \<Rightarrow> (addr \<times> 'e wraps) option" where
  "Unwrap W V h s =
     (if Local_IsEmpty h then None
      else if \<not> InternalFieldCount W h (v8_of s) > 0 then None
      else let (p, st) = GetAlignedPointerFromInternalField V h 0 (v8_of s) in Some (p, s\<lparr>v8_of := st\<rparr>))"

definition ObjectWrap_handle_isolate :: "('e v8) v8_api \<Rightarrow> addr \<Rightarrow> addr \<Rightarrow> 'e wraps \<Rightarrow> local \<times> 'e wraps" where
  "ObjectWrap_handle_isolate E this isolate s =
     (let (h, st) = Local_New_persistent E isolate this (v8_of s) in (h, s\<lparr>v8_of := st\<rparr>))"

definition ObjectWrap_handle :: "('e v8) wrap_api \<Rightarrow> ('e v8) v8_api \<Rightarrow> addr \<Rightarrow> 'e wraps \<Rightarrow> local \<times> 'e wraps" where
  "ObjectWrap_handle W E this s = ObjectWrap_handle_isolate E this (GetCurrent W (v8_of s)) s"

definition ObjectWrap_MakeWeak :: "('e v8) wrap_api \<Rightarrow> ('e v8) v8_api \<Rightarrow> addr \<Rightarrow> 'e wraps \<Rightarrow> 'e wraps" where
  "ObjectWrap_MakeWeak W E this s =
     s\<lparr>v8_of := PB_SetWeak E this this (WeakCallback_address W) kParameter (v8_of s)\<rparr>"

definition ObjectWrap_Wrap ::
  "('e v8) wrap_api \<Rightarrow> ('e v8) v8_api \<Rightarrow> addr \<Rightarrow> local \<Rightarrow> 'e wraps \<Rightarrow> 'e wraps option" where
  "ObjectWrap_Wrap W E this h s =
     (if \<not> PB_IsEmpty (v8_of s) this then None
      else if \<not> InternalFieldCount W h (v8_of s) > 0 then None
      else let st1 = SetAlignedPointerInInternalField W h 0 this (v8_of s);
               st2 = PB_Reset_local E this (GetCurrent W st1) h st1
           in Some (ObjectWrap_MakeWeak W E this (s\<lparr>v8_of := st2\<rparr>)))"

text \<open>The operations below are called on a live wrapper; on any other address they are undefined.\<close>

definition ObjectWrap_Ref :: "('e v8) v8_api \<Rightarrow> addr \<Rightarrow> 'e wraps \<Rightarrow> 'e wraps option" where
  "ObjectWrap_Ref E this s = do {
     refs \<leftarrow> refs_of s this;
     if PB_IsEmpty (v8_of s) this then None
     else if refs \<ge> 2 ^ 31 - 1 then None
     else Some (s\<lparr>v8_of := snd (PB_ClearWeak E this (v8_of s)), refs_of := (refs_of s)(this \<mapsto> refs + 1)\<rparr>)
   }"

definition ObjectWrap_Unref :: "('e v8) wrap_api \<Rightarrow> ('e v8) v8_api \<Rightarrow> addr \<Rightarrow> 'e wraps \<Rightarrow> 'e wraps option" where
  "ObjectWrap_Unref W E this s = do {
     refs \<leftarrow> refs_of s this;
     if PB_IsEmpty (v8_of s) this then None
     else if PB_IsWeak (v8_of s) this then None
     else if \<not> refs > 0 then None
     else let s1 = s\<lparr>refs_of := (refs_of s)(this \<mapsto> refs - 1)\<rparr>
          in Some (if refs - 1 = 0 then ObjectWrap_MakeWeak W E this s1 else s1)
   }"

definition ObjectWrap_WeakCallback :: "('e v8) v8_api \<Rightarrow> WeakCallbackInfo \<Rightarrow> 'e wraps \<Rightarrow> 'e wraps option" where
  "ObjectWrap_WeakCallback E data s = do {
     let wrap = wci_parameter data;
     refs \<leftarrow> refs_of s wrap;
     if refs \<noteq> 0 then None
     else ObjectWrap_delete E wrap (s\<lparr>v8_of := PB_Reset E wrap (v8_of s)\<rparr>)
   }"

section \<open>What the engine promises\<close>

text \<open>
  Beyond \<open>cells_contract\<close>: \<open>MakeWeak\<close> makes the node of a cell weak and \<open>ClearWeak\<close> makes it neither weak nor
  near death; apart from that no call changes the state of a node, and the setter of an internal
  field changes neither cells nor handles.
\<close>

definition node_kept :: "'e v8 \<Rightarrow> 'e v8 \<Rightarrow> addr set \<Rightarrow> bool" where
  "node_kept st st' C \<longleftrightarrow> (\<forall>x \<in> C. GetNodeState (mem st') x = GetNodeState (mem st) x)"

definition same_cells :: "('e v8 \<Rightarrow> addr set) \<Rightarrow> ('e v8 \<Rightarrow> bool) \<Rightarrow> 'e v8 \<Rightarrow> 'e v8 \<Rightarrow> bool" where
  "same_cells cells alive st st' \<longleftrightarrow> cells st' = cells st \<and> alive st' = alive st \<and> handle_val st' = handle_val st"

definition nodes_contract :: "('e v8) v8_api \<Rightarrow> ('e v8 \<Rightarrow> addr set) \<Rightarrow> ('e v8 \<Rightarrow> bool) \<Rightarrow> bool" where
  "nodes_contract E cells alive \<longleftrightarrow>
     (\<forall>isolate p st c st'. GlobalizeReference E isolate p st = (c, st') \<longrightarrow> alive st' \<longrightarrow> node_kept st st' (cells st)) \<and>
     (\<forall>c st. c \<in> cells st \<longrightarrow> alive st \<longrightarrow> node_kept st (DisposeGlobal E c st) (cells st - {c}))"

definition weakens :: "('e v8 \<Rightarrow> addr set) \<Rightarrow> ('e v8 \<Rightarrow> bool) \<Rightarrow> (byte \<Rightarrow> bool) \<Rightarrow> addr \<Rightarrow> ('e v8 \<Rightarrow> 'e v8) \<Rightarrow> bool" where
  "weakens cells alive P c f \<longleftrightarrow>
     (\<forall>st. alive (f st) \<longrightarrow> alive st) \<and>
     (\<forall>st. c \<in> cells st \<longrightarrow> same_cells cells alive st (f st) \<and> node_kept st (f st) (cells st - {c}) \<and>
       P (GetNodeState (mem (f st)) c))"

definition strong_state :: "byte \<Rightarrow> bool" where
  "strong_state b \<longleftrightarrow> b \<noteq> kNodeStateIsWeakValue \<and> b \<noteq> kNodeStateIsPendingValue \<and> b \<noteq> kNodeStateIsNearDeathValue"

definition weak_contract ::
  "('e v8) wrap_api \<Rightarrow> ('e v8) v8_api \<Rightarrow> ('e v8 \<Rightarrow> addr set) \<Rightarrow> ('e v8 \<Rightarrow> bool) \<Rightarrow> bool" where
  "weak_contract W E cells alive \<longleftrightarrow> cells_contract E cells alive \<and> nodes_contract E cells alive \<and>
     (\<forall>c q cb. weakens cells alive (\<lambda>b. b = kNodeStateIsWeakValue) c (MakeWeak E c q cb kParameter)) \<and>
     (\<forall>c. weakens cells alive strong_state c (\<lambda>st. snd (V8_ClearWeak E c st))) \<and>
     (\<forall>h i p st. same_cells cells alive st (SetAlignedPointerInInternalField W h i p st) \<and>
        node_kept st (SetAlignedPointerInInternalField W h i p st) (cells st))"

section \<open>Life of wrappers\<close>

text \<open>
  What a program and the collector can do. Collection: the object of a weak handle is
  unreachable; the engine changes the state of that node in a way of its own and calls
  \<open>WeakCallback\<close> with the wrapper that was passed to \<open>MakeWeak\<close>.
\<close>

inductive wrap_step ::
  "('e v8) wrap_api \<Rightarrow> ('e v8) v8_api \<Rightarrow> ('e v8 \<Rightarrow> addr set) \<Rightarrow> ('e v8 \<Rightarrow> bool) \<Rightarrow> 'e wraps \<Rightarrow> 'e wraps \<Rightarrow> bool"
  for W E cells alive where
  new: "refs_of s this = None \<Longrightarrow> wrap_step W E cells alive s (ObjectWrap_new this s)"
| wrap: "this \<in> dom (refs_of s) \<Longrightarrow> h \<noteq> 0 \<Longrightarrow> ObjectWrap_Wrap W E this h s = Some s' \<Longrightarrow>
    wrap_step W E cells alive s s'"
| ref: "ObjectWrap_Ref E this s = Some s' \<Longrightarrow> wrap_step W E cells alive s s'"
| unref: "ObjectWrap_Unref W E this s = Some s' \<Longrightarrow> wrap_step W E cells alive s s'"
| destroy: "this \<in> dom (refs_of s) \<Longrightarrow> ObjectWrap_delete E this s = Some s' \<Longrightarrow> wrap_step W E cells alive s s'"
| collect: "PB_IsWeak (v8_of s) this \<Longrightarrow> this \<in> dom (refs_of s) \<Longrightarrow>
    same_cells cells alive (v8_of s) st1 \<Longrightarrow> node_kept (v8_of s) st1 (cells st1 - {handle_val st1 this}) \<Longrightarrow>
    wci_parameter data = this \<Longrightarrow> ObjectWrap_WeakCallback E data (s\<lparr>v8_of := st1\<rparr>) = Some s' \<Longrightarrow>
    wrap_step W E cells alive s s'"

inductive wrap_run ::
  "('e v8) wrap_api \<Rightarrow> ('e v8) v8_api \<Rightarrow> ('e v8 \<Rightarrow> addr set) \<Rightarrow> ('e v8 \<Rightarrow> bool) \<Rightarrow> 'e wraps \<Rightarrow> 'e wraps \<Rightarrow> bool"
  for W E cells alive s0 where
  start: "wrap_run W E cells alive s0 s0"
| step: "wrap_run W E cells alive s0 s \<Longrightarrow> wrap_step W E cells alive s s' \<Longrightarrow> wrap_run W E cells alive s0 s'"

text \<open>The invariant: wrappers own their cells; the handle of a wrapper is weak just when \<open>refs_\<close> is 0.\<close>

definition wrap_ok :: "'e v8 \<Rightarrow> addr \<Rightarrow> int \<Rightarrow> bool" where
  "wrap_ok st w r \<longleftrightarrow> 0 \<le> r \<and>
     (if PB_IsEmpty st w then r = 0 else (PB_IsWeak st w \<longleftrightarrow> r = 0) \<and> \<not> PB_IsNearDeath st w)"

definition wrap_inv :: "('e v8 \<Rightarrow> addr set) \<Rightarrow> addr set \<Rightarrow> 'e wraps \<Rightarrow> bool" where
  "wrap_inv cells C0 s \<longleftrightarrow> owns cells C0 (dom (refs_of s)) (v8_of s) \<and>
     (\<forall>w r. refs_of s w = Some r \<longrightarrow> wrap_ok (v8_of s) w r)"

lemma weak_contract_cells [dest]: "weak_contract W E cells alive \<Longrightarrow> cells_contract E cells alive"
  by (simp add: weak_contract_def)

lemma weak_contract_node:
  assumes "weak_contract W E cells alive"
  shows "GlobalizeReference E isolate p st = (c, st') \<Longrightarrow> alive st' \<Longrightarrow> node_kept st st' (cells st)"
    and "c \<in> cells st \<Longrightarrow> alive st \<Longrightarrow> node_kept st (DisposeGlobal E c st) (cells st - {c})"
    and "same_cells cells alive st (SetAlignedPointerInInternalField W h i q st)"
    and "node_kept st (SetAlignedPointerInInternalField W h i q st) (cells st)"
    and "weakens cells alive (\<lambda>b. b = kNodeStateIsWeakValue) c (MakeWeak E c q cb kParameter)"
    and "weakens cells alive strong_state c (\<lambda>st. snd (V8_ClearWeak E c st))"
  using assms by (simp_all add: weak_contract_def nodes_contract_def)

lemma weakensD:
  assumes "weakens cells alive P c f"
  shows "alive (f st) \<Longrightarrow> alive st" and "c \<in> cells st \<Longrightarrow> same_cells cells alive st (f st)"
    and "c \<in> cells st \<Longrightarrow> node_kept st (f st) (cells st - {c})" and "c \<in> cells st \<Longrightarrow> P (GetNodeState (mem (f st)) c)"
  using assms by (simp_all add: weakens_def)

text \<open>A step changes one wrapper; the others are as they were.\<close>

lemma wrap_ok_frame:
  assumes "handle_val st' w = handle_val st w"
    and "handle_val st w \<noteq> 0 \<Longrightarrow> GetNodeState (mem st') (handle_val st w) = GetNodeState (mem st) (handle_val st w)"
  shows "wrap_ok st' w r = wrap_ok st w r"
  using assms by (auto simp: wrap_ok_def PB_IsEmpty_def PB_IsWeak_def PB_IsNearDeath_def Let_def)

lemma own_distinct: "own C0 C S f \<Longrightarrow> x \<in> S \<Longrightarrow> y \<in> S \<Longrightarrow> x \<noteq> y \<Longrightarrow> f x \<noteq> 0 \<Longrightarrow> f x \<noteq> f y"
  by (auto simp: own_def bij_betw_def inj_on_def)

definition inv_but :: "('e v8 \<Rightarrow> addr set) \<Rightarrow> addr set \<Rightarrow> addr \<Rightarrow> 'e wraps \<Rightarrow> bool" where
  "inv_but cells C0 this s \<longleftrightarrow> owns cells C0 (dom (refs_of s)) (v8_of s) \<and>
     (\<forall>w r. w \<noteq> this \<longrightarrow> refs_of s w = Some r \<longrightarrow> wrap_ok (v8_of s) w r)"

lemma inv_but_iff: "inv_but cells C0 this s \<Longrightarrow> (\<And>r. refs_of s this = Some r \<Longrightarrow> wrap_ok (v8_of s) this r) \<Longrightarrow> wrap_inv cells C0 s"
  and wrap_inv_but: "wrap_inv cells C0 s \<Longrightarrow> inv_but cells C0 this s"
  unfolding inv_but_def wrap_inv_def by metis+

lemma inv_but_change:
  assumes inv: "inv_but cells C0 this s" and o: "owns cells C0 (dom (refs_of s')) (v8_of s')"
    and rest: "\<And>w. w \<noteq> this \<Longrightarrow> refs_of s' w = refs_of s w \<and> handle_val (v8_of s') w = handle_val (v8_of s) w"
    and kept: "node_kept (v8_of s) (v8_of s') (cells (v8_of s) - {handle_val (v8_of s) this})"
    and dom: "this \<in> dom (refs_of s)"
  shows "inv_but cells C0 this s'"
proof -
  have "wrap_ok (v8_of s') w r" if r: "refs_of s' w = Some r" and ne: "w \<noteq> this" for w r
  proof -
    have w: "refs_of s w = Some r" "handle_val (v8_of s') w = handle_val (v8_of s) w" using rest [OF ne] r by auto
    have "handle_val (v8_of s) w \<in> cells (v8_of s) - {handle_val (v8_of s) this}" if "handle_val (v8_of s) w \<noteq> 0"
      using inv that w(1) dom ne own_cell own_distinct unfolding inv_but_def by fastforce
    then have "wrap_ok (v8_of s') w r = wrap_ok (v8_of s) w r"
      using kept w(2) by (auto intro!: wrap_ok_frame simp: node_kept_def)
    then show ?thesis using inv w(1) ne by (simp add: inv_but_def)
  qed
  then show ?thesis using o by (simp add: inv_but_def)
qed

lemma inv_but_cell:
  assumes "inv_but cells C0 w s" and "refs_of s w = Some r" and "handle_val (v8_of s) w \<noteq> 0"
  shows "handle_val (v8_of s) w \<in> cells (v8_of s)"
  using assms own_cell [of C0 "cells (v8_of s)" "dom (refs_of s)" "handle_val (v8_of s)" w]
  unfolding inv_but_def by auto

lemma wrap_inv_cell:
  assumes "wrap_inv cells C0 s" and "refs_of s w = Some r"
  shows "handle_val (v8_of s) w \<noteq> 0 \<Longrightarrow> handle_val (v8_of s) w \<in> cells (v8_of s)" and "wrap_ok (v8_of s) w r"
  using inv_but_cell [OF wrap_inv_but [OF assms(1)] assms(2)] assms by (auto simp: wrap_inv_def)

lemma owns_same_cells: "same_cells cells alive st st' \<Longrightarrow> owns cells C0 S st' = owns cells C0 S st"
  by (simp add: same_cells_def)

text \<open>Changing the strength of a handle together with \<open>refs_\<close>.\<close>

lemma weakens_inv:
  assumes w: "weakens cells alive P (handle_val (v8_of s) this) f" and inv: "inv_but cells C0 this s"
    and r: "refs_of s this = Some r" and ne: "\<not> PB_IsEmpty (v8_of s) this"
    and P: "\<And>b. P b \<Longrightarrow> 0 \<le> r' \<and> (b = kNodeStateIsWeakValue \<longleftrightarrow> r' = 0) \<and> b \<noteq> kNodeStateIsPendingValue \<and> b \<noteq> kNodeStateIsNearDeathValue"
  shows "wrap_inv cells C0 (s\<lparr>v8_of := f (v8_of s), refs_of := (refs_of s)(this \<mapsto> r')\<rparr>)"
proof -
  have h: "handle_val (v8_of s) this \<in> cells (v8_of s)" using inv_but_cell [OF inv r] ne by (simp add: PB_IsEmpty_def)
  note f = weakensD(2-4) [OF w h]
  have hv: "handle_val (f (v8_of s)) = handle_val (v8_of s)" using f(1) by (simp add: same_cells_def)
  have "dom ((refs_of s)(this \<mapsto> r')) = dom (refs_of s)" using r by auto
  then have "owns cells C0 (dom ((refs_of s)(this \<mapsto> r'))) (f (v8_of s))"
    using inv owns_same_cells [OF f(1)] by (simp add: inv_but_def)
  then have "inv_but cells C0 this (s\<lparr>v8_of := f (v8_of s), refs_of := (refs_of s)(this \<mapsto> r')\<rparr>)"
    using r f(2) hv by (intro inv_but_change [OF inv]) auto
  then show ?thesis
    using P [OF f(3)] ne hv
    by (intro inv_but_iff [of _ _ this]) (auto simp: wrap_ok_def PB_IsEmpty_def PB_IsWeak_def PB_IsNearDeath_def)
qed

lemma weak_state [simp]:
  "kNodeStateIsWeakValue \<noteq> kNodeStateIsPendingValue" "kNodeStateIsWeakValue \<noteq> kNodeStateIsNearDeathValue"
  by (simp_all add: kNodeStateIsWeakValue_def kNodeStateIsPendingValue_def kNodeStateIsNearDeathValue_def)

lemma wraps_update_commute: "s\<lparr>refs_of := r, v8_of := v\<rparr> = s\<lparr>v8_of := v, refs_of := r\<rparr>"
  by simp

lemma MakeWeak_inv:
  assumes "weak_contract W E cells alive" and "inv_but cells C0 this s" and "refs_of s this = Some r"
    and "\<not> PB_IsEmpty (v8_of s) this"
  shows "wrap_inv cells C0 (ObjectWrap_MakeWeak W E this (s\<lparr>refs_of := (refs_of s)(this \<mapsto> 0)\<rparr>))"
  using weakens_inv [OF weak_contract_node(5) [OF assms(1)] assms(2-4), of 0 this "WeakCallback_address W"]
  by (simp add: ObjectWrap_MakeWeak_def PB_SetWeak_def wraps_update_commute)

lemma Ref_inv:
  assumes "weak_contract W E cells alive" and "wrap_inv cells C0 s" and "ObjectWrap_Ref E this s = Some s'"
  shows "wrap_inv cells C0 s'"
proof -
  obtain r where r: "refs_of s this = Some r" "\<not> PB_IsEmpty (v8_of s) this"
    and s': "s' = s\<lparr>v8_of := snd (PB_ClearWeak E this (v8_of s)), refs_of := (refs_of s)(this \<mapsto> r + 1)\<rparr>"
    using assms(3) by (auto simp: ObjectWrap_Ref_def split: if_split_asm dest!: bind_eq_SomeD)
  have "0 \<le> r" using assms(2) r(1) by (auto simp: wrap_inv_def wrap_ok_def)
  then show ?thesis
    using weakens_inv [OF weak_contract_node(6) [OF assms(1)] wrap_inv_but [OF assms(2)] r, of "r + 1"]
    by (simp add: s' PB_ClearWeak_def strong_state_def)
qed

lemma Unref_inv:
  assumes "weak_contract W E cells alive" and "wrap_inv cells C0 s" and "ObjectWrap_Unref W E this s = Some s'"
  shows "wrap_inv cells C0 s'"
proof -
  let ?s1 = "\<lambda>r. s\<lparr>refs_of := (refs_of s)(this \<mapsto> r - 1)\<rparr>"
  obtain r where r: "refs_of s this = Some r" "\<not> PB_IsEmpty (v8_of s) this" "\<not> PB_IsWeak (v8_of s) this" "0 < r"
    and s': "s' = (if r = 1 then ObjectWrap_MakeWeak W E this (?s1 r) else ?s1 r)"
    using assms(3) by (auto simp: ObjectWrap_Unref_def Let_def split: if_split_asm dest!: bind_eq_SomeD)
  have "wrap_inv cells C0 (?s1 r)" if "r \<noteq> 1"
  proof (rule inv_but_iff [of _ _ this])
    have "dom ((refs_of s)(this \<mapsto> r - 1)) = dom (refs_of s)" using r by auto
    then show "inv_but cells C0 this (?s1 r)" using wrap_inv_but [OF assms(2), of this] by (simp add: inv_but_def)
  qed (use assms(2) r that in \<open>auto simp: wrap_inv_def wrap_ok_def\<close>)
  then show ?thesis
    using MakeWeak_inv [OF assms(1) wrap_inv_but [OF assms(2)] r(1,2)] by (auto simp: s')
qed

lemma node_kept_trans: "node_kept a b C \<Longrightarrow> node_kept b c D \<Longrightarrow> C \<subseteq> D \<Longrightarrow> node_kept a c C"
  by (auto simp: node_kept_def)

lemma node_kept_subset: "node_kept a b D \<Longrightarrow> C \<subseteq> D \<Longrightarrow> node_kept a b C"
  by (auto simp: node_kept_def)

lemma node_kept_set_val [simp]: "node_kept a (set_val p v b) C = node_kept a b C"
  by (simp add: node_kept_def)

lemma Wrap_inv:
  assumes c: "weak_contract W E cells alive" and inv: "wrap_inv cells C0 s" and dom: "this \<in> dom (refs_of s)"
    and "h \<noteq> 0" and run: "ObjectWrap_Wrap W E this h s = Some s'" and al: "alive (v8_of s')"
  shows "wrap_inv cells C0 s'"
proof -
  let ?st1 = "SetAlignedPointerInInternalField W h 0 this (v8_of s)"
  note f = weak_contract_node(3,4) [OF c, of "v8_of s" h 0 this]
  have e: "handle_val (v8_of s) this = 0" using run by (simp add: ObjectWrap_Wrap_def PB_IsEmpty_def split: if_split_asm)
  obtain v st2 where new: "GlobalizeReference E (GetCurrent W ?st1) h ?st1 = (v, st2)" by (metis surj_pair)
  let ?s2 = "s\<lparr>v8_of := set_val this v st2\<rparr>"
  have s': "s' = ObjectWrap_MakeWeak W E this ?s2"
    using run e f(1) new \<open>h \<noteq> 0\<close>
    by (auto simp: ObjectWrap_Wrap_def PB_Reset_local_def PB_Reset_def PB_IsEmpty_def PB_New_def Local_IsEmpty_def same_cells_def
        Let_def split: if_split_asm)
  have "alive (set_val this v st2)"
    by (rule weakensD(1) [OF weak_contract_node(5) [OF c]]) (use al in \<open>simp add: s' ObjectWrap_MakeWeak_def PB_SetWeak_def\<close>)
  then have al2: "alive st2" using weak_contract_cells [OF c] by simp
  have cell: "new_cell cells ?st1 (load64 (mem ?st1) h) v st2"
    using GlobalizeReference_new_cell [OF weak_contract_cells [OF c] new al2 \<open>h \<noteq> 0\<close>] .
  obtain r where r: "refs_of s this = Some r" using dom by auto
  then have "r = 0" using inv e by (auto simp: wrap_inv_def wrap_ok_def PB_IsEmpty_def)
  have "owns cells C0 (dom (refs_of s)) ?st1" using inv owns_same_cells [OF f(1)] by (simp add: wrap_inv_def)
  then have "owns cells C0 (dom (refs_of s)) (set_val this v st2)"
    using owns_new_cell [OF weak_contract_cells [OF c] _ cell, of C0 "dom (refs_of s)" this] e f(1) dom
    by (simp add: same_cells_def insert_absorb)
  moreover have "node_kept (v8_of s) st2 (cells (v8_of s))"
    using node_kept_trans [OF f(2) weak_contract_node(1) [OF c new al2]] f(1) by (simp add: same_cells_def)
  ultimately have "inv_but cells C0 this ?s2"
    using inv dom cell f(1)
    by (intro inv_but_change [OF wrap_inv_but [OF inv]]) (auto simp: new_cell_def same_cells_def intro: node_kept_subset)
  then show ?thesis
    using MakeWeak_inv [OF c, of C0 this ?s2 0] cell r \<open>r = 0\<close> by (simp add: s' new_cell_def PB_IsEmpty_def fun_upd_idem)
qed

lemma new_inv:
  assumes c: "weak_contract W E cells alive" and inv: "wrap_inv cells C0 s" and "refs_of s this = None"
  shows "wrap_inv cells C0 (ObjectWrap_new this s)"
proof -
  have "this \<notin> dom (refs_of s)" using assms(3) by auto
  with inv c have "owns cells C0 (insert this (dom (refs_of s))) (set_val this 0 (v8_of s))"
    using own_empty by (fastforce simp: wrap_inv_def)
  moreover have "wrap_ok (set_val this 0 (v8_of s)) w r = wrap_ok (v8_of s) w r" if "w \<noteq> this" for w r
    using that by (intro wrap_ok_frame) auto
  moreover have "wrap_ok (set_val this 0 (v8_of s)) this 0" by (simp add: wrap_ok_def PB_IsEmpty_def)
  ultimately show ?thesis
    using inv by (auto simp: wrap_inv_def ObjectWrap_new_def Persistent_new_def)
qed

lemma delete_empty_inv:
  assumes inv: "inv_but cells C0 this s" and "PB_IsEmpty (v8_of s) this" and "ObjectWrap_delete E this s = Some s'"
  shows "wrap_inv cells C0 s'"
proof -
  have "s' = s\<lparr>refs_of := (refs_of s)(this := None)\<rparr>"
    using assms(2,3) by (simp add: ObjectWrap_delete_def Persistent_delete_def NonCopyable_kResetInDestructor_def)
  moreover have "owns cells C0 (dom (refs_of s) - {this}) (v8_of s)"
    using inv assms(2) own_delete by (auto simp: inv_but_def PB_IsEmpty_def)
  ultimately show ?thesis using inv by (auto simp: wrap_inv_def inv_but_def)
qed

text \<open>Outside of a collection no wrapped object can be destroyed.\<close>

lemma delete_aborts:
  assumes "wrap_inv cells C0 s" and "this \<in> dom (refs_of s)" and "\<not> PB_IsEmpty (v8_of s) this"
  shows "ObjectWrap_delete E this s = None"
  using assms by (auto simp: wrap_inv_def wrap_ok_def ObjectWrap_delete_def)

text \<open>A collected wrapper gives its cell back and is gone.\<close>

lemma WeakCallback_inv:
  assumes c: "weak_contract W E cells alive" and inv: "wrap_inv cells C0 s" and weak: "PB_IsWeak (v8_of s) this"
    and dom: "this \<in> dom (refs_of s)" and st1: "same_cells cells alive (v8_of s) st1"
    and kept: "node_kept (v8_of s) st1 (cells st1 - {handle_val st1 this})" and data: "wci_parameter data = this"
    and al: "alive (v8_of s)"
  shows "\<exists>s'. ObjectWrap_WeakCallback E data (s\<lparr>v8_of := st1\<rparr>) = Some s' \<and> wrap_inv cells C0 s' \<and>
    refs_of s' = (refs_of s)(this := None) \<and> cells (v8_of s') = cells (v8_of s) - {handle_val (v8_of s) this}"
proof -
  note cc = weak_contract_cells [OF c]
  obtain r where r: "refs_of s this = Some r" using dom by auto
  have ne: "handle_val (v8_of s) this \<noteq> 0" using weak by (simp add: PB_IsWeak_def PB_IsEmpty_def split: if_split_asm)
  have "r = 0" using wrap_inv_cell(2) [OF inv r] weak ne by (simp add: wrap_ok_def PB_IsEmpty_def)
  have h: "handle_val (v8_of s) this \<in> cells (v8_of s)" using wrap_inv_cell(1) [OF inv r ne] .
  let ?st2 = "PB_Reset E this st1"
  let ?s2 = "s\<lparr>v8_of := ?st2\<rparr>"
  have o: "owns cells C0 (dom (refs_of s)) st1" using inv owns_same_cells [OF st1] by (simp add: wrap_inv_def)
  have al1: "alive st1" and h1: "handle_val st1 this \<in> cells st1" "handle_val st1 this \<noteq> 0" "handle_val st1 = handle_val (v8_of s)"
    "cells st1 = cells (v8_of s)"
    using st1 al h ne by (simp_all add: same_cells_def)
  note res = owns_reset [OF cc o dom al1]
  have "node_kept st1 ?st2 (cells st1 - {handle_val st1 this})"
    using weak_contract_node(2) [OF c h1(1) al1] h1(2) by (simp add: PB_Reset_def PB_IsEmpty_def)
  then have "inv_but cells C0 this ?s2"
    using res h1 dom node_kept_trans [OF kept]
    by (intro inv_but_change [OF wrap_inv_but [OF inv]]) auto
  moreover obtain s' where s': "ObjectWrap_delete E this ?s2 = Some s'"
    using res(2) by (auto simp: ObjectWrap_delete_def PB_IsEmpty_def)
  ultimately have "wrap_inv cells C0 s'" using delete_empty_inv [of cells C0 this ?s2 E s'] res(2) by (simp add: PB_IsEmpty_def)
  moreover have "refs_of s' = (refs_of s)(this := None)" "v8_of s' = ?st2"
    using s' res(2) by (auto simp: ObjectWrap_delete_def PB_IsEmpty_def Persistent_delete_def NonCopyable_kResetInDestructor_def)
  moreover have "cells ?st2 = cells (v8_of s) - {handle_val (v8_of s) this}"
    using DisposeGlobal_cells(1) [OF cc h1(1) al1] h1 cc by (simp add: PB_Reset_def PB_IsEmpty_def)
  ultimately show ?thesis
    using s' r \<open>r = 0\<close> by (auto simp: ObjectWrap_WeakCallback_def data)
qed

lemma weak_calls_alive:
  assumes "weak_contract W E cells alive"
  shows "alive (PB_SetWeak E this q cb kParameter st) \<Longrightarrow> alive st" and "alive (snd (PB_ClearWeak E this st)) \<Longrightarrow> alive st"
    and "alive (PB_Reset E this st) \<Longrightarrow> alive st"
  unfolding PB_SetWeak_def PB_ClearWeak_def
  by (erule weakensD(1) [OF weak_contract_node(5) [OF assms]], erule weakensD(1) [OF weak_contract_node(6) [OF assms]],
      erule PB_Reset_alive [OF weak_contract_cells [OF assms]])

lemma delete_alive:
  assumes "weak_contract W E cells alive" and "ObjectWrap_delete E this s = Some s'" and "alive (v8_of s')"
  shows "alive (v8_of s)"
proof (cases "PB_IsEmpty (v8_of s) this")
  case False
  then have "v8_of s' = PB_Reset E this (snd (PB_ClearWeak E this (v8_of s)))"
    using assms(2) by (auto simp: ObjectWrap_delete_def Persistent_delete_def NonCopyable_kResetInDestructor_def split: if_split_asm)
  with assms(3) have "alive (PB_Reset E this (snd (PB_ClearWeak E this (v8_of s))))" by simp
  from weak_calls_alive(2) [OF assms(1) weak_calls_alive(3) [OF assms(1) this]] show ?thesis .
qed (use assms(2,3) in \<open>auto simp: ObjectWrap_delete_def Persistent_delete_def NonCopyable_kResetInDestructor_def\<close>)

lemma wrap_step_alive:
  assumes "wrap_step W E cells alive s s'" and c: "weak_contract W E cells alive" and "alive (v8_of s')"
  shows "alive (v8_of s)"
  using assms(1)
proof cases
  case (new this)
  then show ?thesis using assms(3) weak_contract_cells [OF c] by (simp add: ObjectWrap_new_def Persistent_new_def)
next
  case (wrap this h)
  let ?st1 = "SetAlignedPointerInInternalField W h 0 this (v8_of s)"
  have "alive (PB_Reset_local E this (GetCurrent W ?st1) h ?st1)"
    by (rule weak_calls_alive(1) [OF c])
       (use wrap assms(3) in \<open>auto simp: ObjectWrap_Wrap_def Let_def ObjectWrap_MakeWeak_def split: if_split_asm\<close>)
  then have "alive ?st1"
    using weak_contract_cells [OF c]
    by (auto simp: PB_Reset_local_def Let_def split: if_split_asm prod.split_asm dest: PB_New_alive PB_Reset_alive)
  then show ?thesis using weak_contract_node(3) [OF c] by (simp add: same_cells_def)
next
  case (ref this)
  then have "v8_of s' = snd (PB_ClearWeak E this (v8_of s))"
    by (auto simp: ObjectWrap_Ref_def split: if_split_asm dest!: bind_eq_SomeD)
  then show ?thesis using assms(3) weak_calls_alive(2) [OF c, of this "v8_of s"] by simp
next
  case (unref this)
  then have "v8_of s' \<in> {v8_of s, PB_SetWeak E this this (WeakCallback_address W) kParameter (v8_of s)}"
    by (auto simp: ObjectWrap_Unref_def ObjectWrap_MakeWeak_def Let_def split: if_split_asm dest!: bind_eq_SomeD)
  then show ?thesis using assms(3) weak_calls_alive(1) [OF c, of this this "WeakCallback_address W" "v8_of s"] by auto
next
  case (destroy this)
  then show ?thesis using delete_alive [OF c _ assms(3)] by simp
next
  case (collect this st1 data)
  then have "ObjectWrap_delete E this (s\<lparr>v8_of := PB_Reset E this st1\<rparr>) = Some s'"
    by (auto simp: ObjectWrap_WeakCallback_def Let_def split: if_split_asm dest!: bind_eq_SomeD)
  from delete_alive [OF c this assms(3)] have "alive (PB_Reset E this st1)" by simp
  then show ?thesis
    using weak_calls_alive(3) [OF c, of this st1] collect(3) by (simp add: same_cells_def)
qed

lemma wrap_step_inv:
  assumes "wrap_step W E cells alive s s'" and c: "weak_contract W E cells alive" and inv: "wrap_inv cells C0 s"
    and al: "alive (v8_of s')"
  shows "wrap_inv cells C0 s'"
  using assms(1)
proof cases
  case (destroy this)
  then have "PB_IsEmpty (v8_of s) this" using delete_aborts [OF inv] by fastforce
  then show ?thesis using delete_empty_inv [OF wrap_inv_but [OF inv]] destroy by blast
next
  case (collect this st1 data)
  then show ?thesis using WeakCallback_inv [OF c inv collect(1-5) wrap_step_alive [OF assms(1) c al]] by auto
qed (use new_inv [OF c inv] Wrap_inv [OF c inv] Ref_inv [OF c inv] Unref_inv [OF c inv] al in auto)

lemma wrap_run_inv:
  "wrap_run W E cells alive s0 s \<Longrightarrow> weak_contract W E cells alive \<Longrightarrow> wrap_inv cells C0 s0 \<Longrightarrow> alive (v8_of s) \<Longrightarrow>
   wrap_inv cells C0 s"
  by (induction rule: wrap_run.induct) (auto dest: wrap_step_inv wrap_step_alive)

section \<open>Properties\<close>

text \<open>
  C25. Wrappers follow their reference count: after any sequence of constructions, \<open>Wrap\<close>, \<open>Ref\<close>,
  \<open>Unref\<close>, destructions and collections, the handle of every wrapped object is weak exactly when \<open>refs_\<close>
  is 0, so that the collector takes only objects nothing refers to. \<open>Unref\<close> passes its assertions
  exactly when there is a reference to give up, \<open>Ref\<close> always (short of overflow of \<open>refs_\<close>), and
  destroying a wrapped object other than by collection fails an assertion.
\<close>

theorem wrap_handle_strength:
  assumes "weak_contract W E cells alive" and "wrap_run W E cells alive s0 s" and "refs_of s0 = Map.empty"
    and "alive (v8_of s)" and "refs_of s w = Some r" and "\<not> PB_IsEmpty (v8_of s) w"
  shows "0 \<le> r \<and> (PB_IsWeak (v8_of s) w \<longleftrightarrow> r = 0)
    \<and> (ObjectWrap_Unref W E w s \<noteq> None \<longleftrightarrow> 0 < r)
    \<and> (ObjectWrap_Ref E w s \<noteq> None \<longleftrightarrow> r < 2 ^ 31 - 1)
    \<and> ObjectWrap_delete E w s = None"
proof -
  have "wrap_inv cells (cells (v8_of s0)) s0" using assms(3) by (simp add: wrap_inv_def own_start)
  from wrap_run_inv [OF assms(2,1) this assms(4)] have inv: "wrap_inv cells (cells (v8_of s0)) s" .
  have ok: "wrap_ok (v8_of s) w r" using inv assms(5) by (simp add: wrap_inv_def)
  show ?thesis
    using ok assms(5,6) delete_aborts [OF inv, of w E]
    by (auto simp: wrap_ok_def ObjectWrap_Unref_def ObjectWrap_Ref_def Let_def)
qed

text \<open>
  Collection: when the engine collects the object of a weak handle and calls \<open>WeakCallback\<close>, whatever
  it did to the state of that node, the callback passes its assertions, disposes the wrapper's
  cell (and no other), and the wrapper is destroyed.
\<close>

theorem wrap_collected:
  assumes "weak_contract W E cells alive" and "wrap_run W E cells alive s0 s" and "refs_of s0 = Map.empty"
    and "alive (v8_of s)" and "w \<in> dom (refs_of s)" and "PB_IsWeak (v8_of s) w"
    and "same_cells cells alive (v8_of s) st1" and "node_kept (v8_of s) st1 (cells st1 - {handle_val st1 w})"
  shows "\<exists>s'. ObjectWrap_WeakCallback E (WeakCallbackInfo_new isolate w embedder_fields callback) (s\<lparr>v8_of := st1\<rparr>) = Some s' \<and>
    refs_of s' = (refs_of s)(w := None) \<and> cells (v8_of s') = cells (v8_of s) - {handle_val (v8_of s) w}"
proof -
  have "wrap_inv cells (cells (v8_of s0)) s0" using assms(3) by (simp add: wrap_inv_def own_start)
  from wrap_run_inv [OF assms(2,1) this assms(4)] have inv: "wrap_inv cells (cells (v8_of s0)) s" .
  have "wci_parameter (WeakCallbackInfo_new isolate w embedder_fields callback) = w" by (simp add: WeakCallbackInfo_new_def)
  from WeakCallback_inv [OF assms(1) inv assms(6,5,7,8) this assms(4)] show ?thesis by blast
qed

section \<open>Wrappers on a concrete engine\<close>

text \<open>The allocator of cells with node states kept in the flags byte of a cell.\<close>

definition set_node :: "addr \<Rightarrow> byte \<Rightarrow> bump_engine v8 \<Rightarrow> bump_engine v8" where
  "set_node c b st = st\<lparr>mem := UpdateNodeState (mem st) c b\<rparr>"

definition weak_bump :: "(bump_engine v8) v8_api" where
  "weak_bump = bump\<lparr>MakeWeak := \<lambda>c q cb t. set_node c kNodeStateIsWeakValue, V8_ClearWeak := \<lambda>c st. (0, set_node c 1 st)\<rparr>"

definition wrap_bump :: "(bump_engine v8) wrap_api" where
  "wrap_bump = \<lparr>InternalFieldCount = \<lambda>h st. 1, SetAlignedPointerInInternalField = \<lambda>h i p st. st,
     GetCurrent = \<lambda>st. 5, WeakCallback_address = 4096\<rparr>"

lemma GetNodeState_set_node: "b AND kNodeStateMask = b \<Longrightarrow> GetNodeState (mem (set_node c b st)) c = b"
  by (simp add: GetNodeState_def set_node_def UpdateNodeState_def Let_def bit.conj_disj_distrib2 and.assoc)

lemma set_node_weakens:
  assumes "b AND kNodeStateMask = b" and "P b"
  shows "weakens bump_in_use bump_up P c (set_node c b)"
  using assms GetNodeState_set_node [OF assms(1)]
  by (auto simp: weakens_def same_cells_def node_kept_def bump_cells_def bump_alive_def set_node_def UpdateNodeState_def
      GetNodeState_def Let_def)

lemma bump_new_node:
  assumes "bump_new (\<lambda>b. b) (\<lambda>b e. b) ob st = (c, st')" and "bump_up st'"
  shows "node_kept st st' (bump_in_use st)"
  unfolding node_kept_def
proof
  let ?n = "cell_count (engine st)"
  have n: "?n < 1000" "c = of_nat (16 * Suc ?n)" "mem st' = store64 (mem st) c ob"
    using assms by (auto simp: bump_new_def bump_alive_def bump_cell_def Let_def)
  fix x assume "x \<in> bump_in_use st"
  then obtain k where k: "x = of_nat (16 * k)" "k \<le> ?n" by (auto simp: bump_cells_def bump_cell_def)
  have "apart (0 + of_nat (16 * Suc ?n)) 8 (0 + of_nat (16 * k + 11)) 1"
    by (rule apart_of_nat) (use n(1) k(2) in auto)
  from apart_byte [OF this, of 0] have "8 \<le> unat (x + kNodeFlagsOffset - c)"
    by (simp add: k(1) n(2) kNodeFlagsOffset_def kApiPointerSize_def add.commute)
  then show "GetNodeState (mem st') x = GetNodeState (mem st) x"
    by (simp add: GetNodeState_def n(3) store64_def store_le_frame)
qed

lemma weak_bump_ok: "weak_contract wrap_bump weak_bump bump_in_use bump_up"
proof -
  have same: "GlobalizeReference weak_bump = GlobalizeReference bump" "CopyPersistent weak_bump = CopyPersistent bump"
    "DisposeGlobal weak_bump = DisposeGlobal bump" by (simp_all add: weak_bump_def)
  have "cells_contract weak_bump bump_in_use bump_up"
    using bump_ok unfolding cells_contract_def same .
  moreover have "nodes_contract weak_bump bump_in_use bump_up"
    unfolding nodes_contract_def
  proof (intro conjI allI impI)
    fix isolate p st c st'
    assume "GlobalizeReference weak_bump isolate p st = (c, st')" "bump_up st'"
    then show "node_kept st st' (bump_in_use st)" using bump_new_node [of _ st c st'] by (simp add: weak_bump_def bump_api_def)
  qed (simp add: weak_bump_def bump_api_def bump_dispose_def node_kept_def)
  moreover have "weakens bump_in_use bump_up (\<lambda>b. b = kNodeStateIsWeakValue) c (MakeWeak weak_bump c q cb kParameter)" for c q cb
    using set_node_weakens [of kNodeStateIsWeakValue "\<lambda>b. b = kNodeStateIsWeakValue" c]
    by (simp add: weak_bump_def kNodeStateMask_def kNodeStateIsWeakValue_def)
  moreover have "weakens bump_in_use bump_up strong_state c (\<lambda>st. snd (V8_ClearWeak weak_bump c st))" for c
    using set_node_weakens [of 1 strong_state c]
    by (simp add: weak_bump_def kNodeStateMask_def strong_state_def kNodeStateIsWeakValue_def kNodeStateIsPendingValue_def
        kNodeStateIsNearDeathValue_def)
  ultimately show ?thesis
    unfolding weak_contract_def by (simp add: wrap_bump_def same_cells_def node_kept_def)
qed

text \<open>A wrapper that has been wrapped and referred to once.\<close>

abbreviation wraps0 :: "bump_engine wraps" where "wraps0 \<equiv> \<lparr>v8_of = bump0, refs_of = Map.empty\<rparr>"
abbreviation wraps1 :: "bump_engine wraps" where
  "wraps1 \<equiv> the (ObjectWrap_Wrap wrap_bump weak_bump 1 64 (ObjectWrap_new 1 wraps0))"
abbreviation wraps2 :: "bump_engine wraps" where "wraps2 \<equiv> the (ObjectWrap_Ref weak_bump 1 wraps1)"

lemmas wrap_run_defs = ObjectWrap_Wrap_def ObjectWrap_new_def ObjectWrap_Ref_def Persistent_new_def PB_IsEmpty_def set_val_def
  wrap_bump_def weak_bump_def bump_api_def bump_new_def bump0_def bump_cell_def PB_Reset_local_def PB_Reset_def PB_New_def
  Local_IsEmpty_def ObjectWrap_MakeWeak_def PB_SetWeak_def PB_ClearWeak_def set_node_def bump_alive_def

lemma wraps_vals:
  "ObjectWrap_Wrap wrap_bump weak_bump 1 64 (ObjectWrap_new 1 wraps0) = Some wraps1" "bump_up (v8_of wraps1)"
  "refs_of wraps1 = [1 \<mapsto> 0]" "handle_val (v8_of wraps1) 1 = 16"
  "ObjectWrap_Ref weak_bump 1 wraps1 = Some wraps2" "bump_up (v8_of wraps2)"
  "refs_of wraps2 = [1 \<mapsto> 1]" "handle_val (v8_of wraps2) 1 = 16"
  by (simp_all add: wrap_run_defs Let_def)

lemma wraps_run: "wrap_run wrap_bump weak_bump bump_in_use bump_up wraps0 wraps1"
    "wrap_run wrap_bump weak_bump bump_in_use bump_up wraps0 wraps2"
proof -
  have "wrap_run wrap_bump weak_bump bump_in_use bump_up wraps0 (ObjectWrap_new 1 wraps0)"
    by (rule wrap_run.step [OF wrap_run.start wrap_step.new]) simp
  then show 1: "wrap_run wrap_bump weak_bump bump_in_use bump_up wraps0 wraps1"
    by (rule wrap_run.step) (rule wrap_step.wrap [OF _ _ wraps_vals(1)]; simp add: ObjectWrap_new_def)
  show "wrap_run wrap_bump weak_bump bump_in_use bump_up wraps0 wraps2"
    by (rule wrap_run.step [OF 1 wrap_step.ref [OF wraps_vals(5)]])
qed

theorem wrap_handle_strength_witness:
  "\<not> PB_IsWeak (v8_of wraps2) 1 \<and> ObjectWrap_Unref wrap_bump weak_bump 1 wraps2 \<noteq> None"
proof -
  have r: "refs_of wraps2 1 = Some 1" "\<not> PB_IsEmpty (v8_of wraps2) 1"
    using wraps_vals(7,8) by (simp_all only: PB_IsEmpty_def fun_upd_same) simp
  show ?thesis
    using wrap_handle_strength [OF weak_bump_ok wraps_run(2) _ wraps_vals(6) r] by simp
qed

theorem wrap_collected_witness:
  "\<exists>s'. ObjectWrap_WeakCallback weak_bump (WeakCallbackInfo_new 5 1 [0, 0] 8) (wraps1\<lparr>v8_of := set_node 16 3 (v8_of wraps1)\<rparr>) = Some s' \<and>
    refs_of s' = Map.empty \<and> bump_in_use (v8_of s') = {}"
proof -
  let ?st1 = "set_node 16 3 (v8_of wraps1)"
  have w: "1 \<in> dom (refs_of wraps1)" using wraps_vals(3) by simp
  have "weakens bump_in_use bump_up (\<lambda>b. b = 3) 16 (set_node 16 3)" by (rule set_node_weakens) (simp_all add: kNodeStateMask_def)
  moreover have cells: "bump_in_use (v8_of wraps1) = {16}" by (simp add: wrap_run_defs Let_def bump_cells_def)
  ultimately have same: "same_cells bump_in_use bump_up (v8_of wraps1) ?st1"
    by (simp add: weakensD(2))
  then have kept: "node_kept (v8_of wraps1) ?st1 (bump_in_use ?st1 - {handle_val ?st1 1})"
    using cells wraps_vals(4) by (simp add: node_kept_def same_cells_def)
  have weak: "PB_IsWeak (v8_of wraps1) 1"
    by (simp add: PB_IsWeak_def wrap_run_defs Let_def GetNodeState_def UpdateNodeState_def bit.conj_disj_distrib2 and.assoc)
       (simp add: kNodeStateMask_def kNodeStateIsWeakValue_def)
  from wrap_collected [OF weak_bump_ok wraps_run(1) _ wraps_vals(2) w weak same kept, of 5 "[0, 0]" 8] show ?thesis
    using wraps_vals(3,4) cells by auto
qed

end
