(* ===== verification/UvErrno.thy ===== *)
theory UvErrno
  imports Prelude
begin

text \<open>
  The error codes of \<open>uv/errno.h\<close> and the enumeration \<open>uv_errno_t\<close> of \<open>uv.h\<close>. What \<open><errno.h>\<close>
  defines and which macros the compiler predefines is a parameter, the platform.
\<close>

section \<open>The platform\<close>

text \<open>\<open>errno_h\<close>: the values of the macros of \<open><errno.h>\<close>; \<open>predefined\<close>: the macros of the compiler.\<close>

record platform =
  errno_h :: "string \<Rightarrow> int option"
  predefined :: "string list"

definition UV__ERR :: "platform \<Rightarrow> int \<Rightarrow> int" where
  "UV__ERR p x = (if (case errno_h p ''EDOM'' of None \<Rightarrow> 0 | Some e \<Rightarrow> e) > 0 then - x else x)"

text \<open>
  The conditional every code is defined by: the system's number when the macro is defined and
  this is not Windows, a number of libuv's own otherwise.
\<close>

definition system_or :: "platform \<Rightarrow> string \<Rightarrow> int \<Rightarrow> int" where
  "system_or p n fallback =
     (case errno_h p n of
        Some e \<Rightarrow> if ''_WIN32'' \<in> set (predefined p) then fallback else UV__ERR p e
      | None \<Rightarrow> fallback)"

definition bsd_like :: "platform \<Rightarrow> bool" where
  "bsd_like p \<longleftrightarrow> (\<exists>m \<in> set [''__APPLE__'', ''__DragonFly__'', ''__FreeBSD__'', ''__FreeBSD_kernel__'', ''__NetBSD__'',
     ''__OpenBSD__'']. m \<in> set (predefined p))"

section \<open>The codes\<close>

definition UV__EOF :: int where "UV__EOF = - 4095"
definition UV__UNKNOWN :: int where "UV__UNKNOWN = - 4094"
definition UV__EAI_ADDRFAMILY :: int where "UV__EAI_ADDRFAMILY = - 3000"
definition UV__EAI_AGAIN :: int where "UV__EAI_AGAIN = - 3001"
definition UV__EAI_BADFLAGS :: int where "UV__EAI_BADFLAGS = - 3002"
definition UV__EAI_CANCELED :: int where "UV__EAI_CANCELED = - 3003"
definition UV__EAI_FAIL :: int where "UV__EAI_FAIL = - 3004"
definition UV__EAI_FAMILY :: int where "UV__EAI_FAMILY = - 3005"
definition UV__EAI_MEMORY :: int where "UV__EAI_MEMORY = - 3006"
definition UV__EAI_NODATA :: int where "UV__EAI_NODATA = - 3007"
definition UV__EAI_NONAME :: int where "UV__EAI_NONAME = - 3008"
definition UV__EAI_OVERFLOW :: int where "UV__EAI_OVERFLOW = - 3009"
definition UV__EAI_SERVICE :: int where "UV__EAI_SERVICE = - 3010"
definition UV__EAI_SOCKTYPE :: int where "UV__EAI_SOCKTYPE = - 3011"
definition UV__EAI_BADHINTS :: int where "UV__EAI_BADHINTS = - 3013"
definition UV__EAI_PROTOCOL :: int where "UV__EAI_PROTOCOL = - 3014"

definition UV__E2BIG :: "platform \<Rightarrow> int" where "UV__E2BIG p = system_or p ''E2BIG'' (- 4093)"
definition UV__EACCES :: "platform \<Rightarrow> int" where "UV__EACCES p = system_or p ''EACCES'' (- 4092)"
definition UV__EADDRINUSE :: "platform \<Rightarrow> int" where "UV__EADDRINUSE p = system_or p ''EADDRINUSE'' (- 4091)"
definition UV__EADDRNOTAVAIL :: "platform \<Rightarrow> int" where "UV__EADDRNOTAVAIL p = system_or p ''EADDRNOTAVAIL'' (- 4090)"
definition UV__EAFNOSUPPORT :: "platform \<Rightarrow> int" where "UV__EAFNOSUPPORT p = system_or p ''EAFNOSUPPORT'' (- 4089)"
definition UV__EAGAIN :: "platform \<Rightarrow> int" where "UV__EAGAIN p = system_or p ''EAGAIN'' (- 4088)"
definition UV__EALREADY :: "platform \<Rightarrow> int" where "UV__EALREADY p = system_or p ''EALREADY'' (- 4084)"
definition UV__EBADF :: "platform \<Rightarrow> int" where "UV__EBADF p = system_or p ''EBADF'' (- 4083)"
definition UV__EBUSY :: "platform \<Rightarrow> int" where "UV__EBUSY p = system_or p ''EBUSY'' (- 4082)"
definition UV__ECANCELED :: "platform \<Rightarrow> int" where "UV__ECANCELED p = system_or p ''ECANCELED'' (- 4081)"
definition UV__ECHARSET :: "platform \<Rightarrow> int" where "UV__ECHARSET p = system_or p ''ECHARSET'' (- 4080)"
definition UV__ECONNABORTED :: "platform \<Rightarrow> int" where "UV__ECONNABORTED p = system_or p ''ECONNABORTED'' (- 4079)"
definition UV__ECONNREFUSED :: "platform \<Rightarrow> int" where "UV__ECONNREFUSED p = system_or p ''ECONNREFUSED'' (- 4078)"
definition UV__ECONNRESET :: "platform \<Rightarrow> int" where "UV__ECONNRESET p = system_or p ''ECONNRESET'' (- 4077)"
definition UV__EDESTADDRREQ :: "platform \<Rightarrow> int" where "UV__EDESTADDRREQ p = system_or p ''EDESTADDRREQ'' (- 4076)"
definition UV__EEXIST :: "platform \<Rightarrow> int" where "UV__EEXIST p = system_or p ''EEXIST'' (- 4075)"
definition UV__EFAULT :: "platform \<Rightarrow> int" where "UV__EFAULT p = system_or p ''EFAULT'' (- 4074)"
definition UV__EHOSTUNREACH :: "platform \<Rightarrow> int" where "UV__EHOSTUNREACH p = system_or p ''EHOSTUNREACH'' (- 4073)"
definition UV__EINTR :: "platform \<Rightarrow> int" where "UV__EINTR p = system_or p ''EINTR'' (- 4072)"
definition UV__EINVAL :: "platform \<Rightarrow> int" where "UV__EINVAL p = system_or p ''EINVAL'' (- 4071)"
definition UV__EIO :: "platform \<Rightarrow> int" where "UV__EIO p = system_or p ''EIO'' (- 4070)"
definition UV__EISCONN :: "platform \<Rightarrow> int" where "UV__EISCONN p = system_or p ''EISCONN'' (- 4069)"
definition UV__EISDIR :: "platform \<Rightarrow> int" where "UV__EISDIR p = system_or p ''EISDIR'' (- 4068)"
definition UV__ELOOP :: "platform \<Rightarrow> int" where "UV__ELOOP p = system_or p ''ELOOP'' (- 4067)"
definition UV__EMFILE :: "platform \<Rightarrow> int" where "UV__EMFILE p = system_or p ''EMFILE'' (- 4066)"
definition UV__EMSGSIZE :: "platform \<Rightarrow> int" where "UV__EMSGSIZE p = system_or p ''EMSGSIZE'' (- 4065)"
definition UV__ENAMETOOLONG :: "platform \<Rightarrow> int" where "UV__ENAMETOOLONG p = system_or p ''ENAMETOOLONG'' (- 4064)"
definition UV__ENETDOWN :: "platform \<Rightarrow> int" where "UV__ENETDOWN p = system_or p ''ENETDOWN'' (- 4063)"
definition UV__ENETUNREACH :: "platform \<Rightarrow> int" where "UV__ENETUNREACH p = system_or p ''ENETUNREACH'' (- 4062)"
definition UV__ENFILE :: "platform \<Rightarrow> int" where "UV__ENFILE p = system_or p ''ENFILE'' (- 4061)"
definition UV__ENOBUFS :: "platform \<Rightarrow> int" where "UV__ENOBUFS p = system_or p ''ENOBUFS'' (- 4060)"
definition UV__ENODEV :: "platform \<Rightarrow> int" where "UV__ENODEV p = system_or p ''ENODEV'' (- 4059)"
definition UV__ENOENT :: "platform \<Rightarrow> int" where "UV__ENOENT p = system_or p ''ENOENT'' (- 4058)"
definition UV__ENOMEM :: "platform \<Rightarrow> int" where "UV__ENOMEM p = system_or p ''ENOMEM'' (- 4057)"
definition UV__ENONET :: "platform \<Rightarrow> int" where "UV__ENONET p = system_or p ''ENONET'' (- 4056)"
definition UV__ENOSPC :: "platform \<Rightarrow> int" where "UV__ENOSPC p = system_or p ''ENOSPC'' (- 4055)"
definition UV__ENOSYS :: "platform \<Rightarrow> int" where "UV__ENOSYS p = system_or p ''ENOSYS'' (- 4054)"
definition UV__ENOTCONN :: "platform \<Rightarrow> int" where "UV__ENOTCONN p = system_or p ''ENOTCONN'' (- 4053)"
definition UV__ENOTDIR :: "platform \<Rightarrow> int" where "UV__ENOTDIR p = system_or p ''ENOTDIR'' (- 4052)"
definition UV__ENOTEMPTY :: "platform \<Rightarrow> int" where "UV__ENOTEMPTY p = system_or p ''ENOTEMPTY'' (- 4051)"
definition UV__ENOTSOCK :: "platform \<Rightarrow> int" where "UV__ENOTSOCK p = system_or p ''ENOTSOCK'' (- 4050)"
definition UV__ENOTSUP :: "platform \<Rightarrow> int" where "UV__ENOTSUP p = system_or p ''ENOTSUP'' (- 4049)"
definition UV__EPERM :: "platform \<Rightarrow> int" where "UV__EPERM p = system_or p ''EPERM'' (- 4048)"
definition UV__EPIPE :: "platform \<Rightarrow> int" where "UV__EPIPE p = system_or p ''EPIPE'' (- 4047)"
definition UV__EPROTO :: "platform \<Rightarrow> int" where "UV__EPROTO p = system_or p ''EPROTO'' (UV__ERR p 4046)"
definition UV__EPROTONOSUPPORT :: "platform \<Rightarrow> int" where "UV__EPROTONOSUPPORT p = system_or p ''EPROTONOSUPPORT'' (- 4045)"
definition UV__EPROTOTYPE :: "platform \<Rightarrow> int" where "UV__EPROTOTYPE p = system_or p ''EPROTOTYPE'' (- 4044)"
definition UV__EROFS :: "platform \<Rightarrow> int" where "UV__EROFS p = system_or p ''EROFS'' (- 4043)"
definition UV__ESHUTDOWN :: "platform \<Rightarrow> int" where "UV__ESHUTDOWN p = system_or p ''ESHUTDOWN'' (- 4042)"
definition UV__ESPIPE :: "platform \<Rightarrow> int" where "UV__ESPIPE p = system_or p ''ESPIPE'' (- 4041)"
definition UV__ESRCH :: "platform \<Rightarrow> int" where "UV__ESRCH p = system_or p ''ESRCH'' (- 4040)"
definition UV__ETIMEDOUT :: "platform \<Rightarrow> int" where "UV__ETIMEDOUT p = system_or p ''ETIMEDOUT'' (- 4039)"
definition UV__ETXTBSY :: "platform \<Rightarrow> int" where "UV__ETXTBSY p = system_or p ''ETXTBSY'' (- 4038)"
definition UV__EXDEV :: "platform \<Rightarrow> int" where "UV__EXDEV p = system_or p ''EXDEV'' (- 4037)"
definition UV__EFBIG :: "platform \<Rightarrow> int" where "UV__EFBIG p = system_or p ''EFBIG'' (- 4036)"
definition UV__ENOPROTOOPT :: "platform \<Rightarrow> int" where "UV__ENOPROTOOPT p = system_or p ''ENOPROTOOPT'' (- 4035)"
definition UV__ERANGE :: "platform \<Rightarrow> int" where "UV__ERANGE p = system_or p ''ERANGE'' (- 4034)"
definition UV__ENXIO :: "platform \<Rightarrow> int" where "UV__ENXIO p = system_or p ''ENXIO'' (- 4033)"
definition UV__EMLINK :: "platform \<Rightarrow> int" where "UV__EMLINK p = system_or p ''EMLINK'' (- 4032)"
definition UV__EHOSTDOWN :: "platform \<Rightarrow> int" where
  "UV__EHOSTDOWN p = system_or p ''EHOSTDOWN'' (if bsd_like p then - 64 else - 4031)"
definition UV__EREMOTEIO :: "platform \<Rightarrow> int" where "UV__EREMOTEIO p = system_or p ''EREMOTEIO'' (- 4030)"
definition UV__ENOTTY :: "platform \<Rightarrow> int" where "UV__ENOTTY p = system_or p ''ENOTTY'' (- 4029)"
definition UV__EFTYPE :: "platform \<Rightarrow> int" where "UV__EFTYPE p = system_or p ''EFTYPE'' (- 4028)"

section \<open>The enumeration\<close>

text \<open>\<open>UV_ERRNO_MAP\<close>: name, value and message of every code, in the order of the enumeration.\<close>

definition UV_ERRNO_MAP :: "platform \<Rightarrow> (string \<times> int \<times> string) list" where
  "UV_ERRNO_MAP p = [
     (''E2BIG'', UV__E2BIG p, ''argument list too long''),
     (''EACCES'', UV__EACCES p, ''permission denied''),
     (''EADDRINUSE'', UV__EADDRINUSE p, ''address already in use''),
     (''EADDRNOTAVAIL'', UV__EADDRNOTAVAIL p, ''address not available''),
     (''EAFNOSUPPORT'', UV__EAFNOSUPPORT p, ''address family not supported''),
     (''EAGAIN'', UV__EAGAIN p, ''resource temporarily unavailable''),
     (''EAI_ADDRFAMILY'', UV__EAI_ADDRFAMILY, ''address family not supported''),
     (''EAI_AGAIN'', UV__EAI_AGAIN, ''temporary failure''),
     (''EAI_BADFLAGS'', UV__EAI_BADFLAGS, ''bad ai_flags value''),
     (''EAI_BADHINTS'', UV__EAI_BADHINTS, ''invalid value for hints''),
     (''EAI_CANCELED'', UV__EAI_CANCELED, ''request canceled''),
     (''EAI_FAIL'', UV__EAI_FAIL, ''permanent failure''),
     (''EAI_FAMILY'', UV__EAI_FAMILY, ''ai_family not supported''),
     (''EAI_MEMORY'', UV__EAI_MEMORY, ''out of memory''),
     (''EAI_NODATA'', UV__EAI_NODATA, ''no address''),
     (''EAI_NONAME'', UV__EAI_NONAME, ''unknown node or service''),
     (''EAI_OVERFLOW'', UV__EAI_OVERFLOW, ''argument buffer overflow''),
     (''EAI_PROTOCOL'', UV__EAI_PROTOCOL, ''resolved protocol is unknown''),
     (''EAI_SERVICE'', UV__EAI_SERVICE, ''service not available for socket type''),
     (''EAI_SOCKTYPE'', UV__EAI_SOCKTYPE, ''socket type not supported''),
     (''EALREADY'', UV__EALREADY p, ''connection already in progress''),
     (''EBADF'', UV__EBADF p, ''bad file descriptor''),
     (''EBUSY'', UV__EBUSY p, ''resource busy or locked''),
     (''ECANCELED'', UV__ECANCELED p, ''operation canceled''),
     (''ECHARSET'', UV__ECHARSET p, ''invalid Unicode character''),
     (''ECONNABORTED'', UV__ECONNABORTED p, ''software caused connection abort''),
     (''ECONNREFUSED'', UV__ECONNREFUSED p, ''connection refused''),
     (''ECONNRESET'', UV__ECONNRESET p, ''connection reset by peer''),
     (''EDESTADDRREQ'', UV__EDESTADDRREQ p, ''destination address required''),
     (''EEXIST'', UV__EEXIST p, ''file already exists''),
     (''EFAULT'', UV__EFAULT p, ''bad address in system call argument''),
     (''EFBIG'', UV__EFBIG p, ''file too large''),
     (''EHOSTUNREACH'', UV__EHOSTUNREACH p, ''host is unreachable''),
     (''EINTR'', UV__EINTR p, ''interrupted system call''),
     (''EINVAL'', UV__EINVAL p, ''invalid argument''),
     (''EIO'', UV__EIO p, ''i/o error''),
     (''EISCONN'', UV__EISCONN p, ''socket is already connected''),
     (''EISDIR'', UV__EISDIR p, ''illegal operation on a directory''),
     (''ELOOP'', UV__ELOOP p, ''too many symbolic links encountered''),
     (''EMFILE'', UV__EMFILE p, ''too many open files''),
     (''EMSGSIZE'', UV__EMSGSIZE p, ''message too long''),
     (''ENAMETOOLONG'', UV__ENAMETOOLONG p, ''name too long''),
     (''ENETDOWN'', UV__ENETDOWN p, ''network is down''),
     (''ENETUNREACH'', UV__ENETUNREACH p, ''network is unreachable''),
     (''ENFILE'', UV__ENFILE p, ''file table overflow''),
     (''ENOBUFS'', UV__ENOBUFS p, ''no buffer space available''),
     (''ENODEV'', UV__ENODEV p, ''no such device''),
     (''ENOENT'', UV__ENOENT p, ''no such file or directory''),
     (''ENOMEM'', UV__ENOMEM p, ''not enough memory''),
     (''ENONET'', UV__ENONET p, ''machine is not on the network''),
     (''ENOPROTOOPT'', UV__ENOPROTOOPT p, ''protocol not available''),
     (''ENOSPC'', UV__ENOSPC p, ''no space left on device''),
     (''ENOSYS'', UV__ENOSYS p, ''function not implemented''),
     (''ENOTCONN'', UV__ENOTCONN p, ''socket is not connected''),
     (''ENOTDIR'', UV__ENOTDIR p, ''not a directory''),
     (''ENOTEMPTY'', UV__ENOTEMPTY p, ''directory not empty''),
     (''ENOTSOCK'', UV__ENOTSOCK p, ''socket operation on non-socket''),
     (''ENOTSUP'', UV__ENOTSUP p, ''operation not supported on socket''),
     (''EPERM'', UV__EPERM p, ''operation not permitted''),
     (''EPIPE'', UV__EPIPE p, ''broken pipe''),
     (''EPROTO'', UV__EPROTO p, ''protocol error''),
     (''EPROTONOSUPPORT'', UV__EPROTONOSUPPORT p, ''protocol not supported''),
     (''EPROTOTYPE'', UV__EPROTOTYPE p, ''protocol wrong type for socket''),
     (''ERANGE'', UV__ERANGE p, ''result too large''),
     (''EROFS'', UV__EROFS p, ''read-only file system''),
     (''ESHUTDOWN'', UV__ESHUTDOWN p, ''cannot send after transport endpoint shutdown''),
     (''ESPIPE'', UV__ESPIPE p, ''invalid seek''),
     (''ESRCH'', UV__ESRCH p, ''no such process''),
     (''ETIMEDOUT'', UV__ETIMEDOUT p, ''connection timed out''),
     (''ETXTBSY'', UV__ETXTBSY p, ''text file is busy''),
     (''EXDEV'', UV__EXDEV p, ''cross-device link not permitted''),
     (''UNKNOWN'', UV__UNKNOWN, ''unknown error''),
     (''EOF'', UV__EOF, ''end of file''),
     (''ENXIO'', UV__ENXIO p, ''no such device or address''),
     (''EMLINK'', UV__EMLINK p, ''too many links''),
     (''EHOSTDOWN'', UV__EHOSTDOWN p, ''host is down''),
     (''EREMOTEIO'', UV__EREMOTEIO p, ''remote I/O error''),
     (''ENOTTY'', UV__ENOTTY p, ''inappropriate ioctl for device''),
     (''EFTYPE'', UV__EFTYPE p, ''inappropriate file type or format'')]"

definition uv_errno_t :: "platform \<Rightarrow> int list" where
  "uv_errno_t p = map (\<lambda>(n, v, msg). v) (UV_ERRNO_MAP p)"

definition UV_ERRNO_MAX :: int where "UV_ERRNO_MAX = UV__EOF - 1"

section \<open>Distinctness\<close>

text \<open>The codes as a table: the macro they depend on, if any, and the number used without it.\<close>

definition errno_table :: "platform \<Rightarrow> (string option \<times> int) list" where
  "errno_table p = [
     (Some ''E2BIG'', - 4093), (Some ''EACCES'', - 4092), (Some ''EADDRINUSE'', - 4091),
     (Some ''EADDRNOTAVAIL'', - 4090), (Some ''EAFNOSUPPORT'', - 4089), (Some ''EAGAIN'', - 4088),
     (None, - 3000), (None, - 3001), (None, - 3002), (None, - 3013), (None, - 3003), (None, - 3004),
     (None, - 3005), (None, - 3006), (None, - 3007), (None, - 3008), (None, - 3009), (None, - 3014),
     (None, - 3010), (None, - 3011), (Some ''EALREADY'', - 4084), (Some ''EBADF'', - 4083),
     (Some ''EBUSY'', - 4082), (Some ''ECANCELED'', - 4081), (Some ''ECHARSET'', - 4080),
     (Some ''ECONNABORTED'', - 4079), (Some ''ECONNREFUSED'', - 4078), (Some ''ECONNRESET'', - 4077),
     (Some ''EDESTADDRREQ'', - 4076), (Some ''EEXIST'', - 4075), (Some ''EFAULT'', - 4074),
     (Some ''EFBIG'', - 4036), (Some ''EHOSTUNREACH'', - 4073), (Some ''EINTR'', - 4072),
     (Some ''EINVAL'', - 4071), (Some ''EIO'', - 4070), (Some ''EISCONN'', - 4069),
     (Some ''EISDIR'', - 4068), (Some ''ELOOP'', - 4067), (Some ''EMFILE'', - 4066),
     (Some ''EMSGSIZE'', - 4065), (Some ''ENAMETOOLONG'', - 4064), (Some ''ENETDOWN'', - 4063),
     (Some ''ENETUNREACH'', - 4062), (Some ''ENFILE'', - 4061), (Some ''ENOBUFS'', - 4060),
     (Some ''ENODEV'', - 4059), (Some ''ENOENT'', - 4058), (Some ''ENOMEM'', - 4057),
     (Some ''ENONET'', - 4056), (Some ''ENOPROTOOPT'', - 4035), (Some ''ENOSPC'', - 4055),
     (Some ''ENOSYS'', - 4054), (Some ''ENOTCONN'', - 4053), (Some ''ENOTDIR'', - 4052),
     (Some ''ENOTEMPTY'', - 4051), (Some ''ENOTSOCK'', - 4050), (Some ''ENOTSUP'', - 4049),
     (Some ''EPERM'', - 4048), (Some ''EPIPE'', - 4047), (Some ''EPROTO'', UV__ERR p 4046),
     (Some ''EPROTONOSUPPORT'', - 4045), (Some ''EPROTOTYPE'', - 4044), (Some ''ERANGE'', - 4034),
     (Some ''EROFS'', - 4043), (Some ''ESHUTDOWN'', - 4042), (Some ''ESPIPE'', - 4041),
     (Some ''ESRCH'', - 4040), (Some ''ETIMEDOUT'', - 4039), (Some ''ETXTBSY'', - 4038),
     (Some ''EXDEV'', - 4037), (None, - 4094), (None, - 4095), (Some ''ENXIO'', - 4033),
     (Some ''EMLINK'', - 4032), (Some ''EHOSTDOWN'', if bsd_like p then - 64 else - 4031),
     (Some ''EREMOTEIO'', - 4030), (Some ''ENOTTY'', - 4029), (Some ''EFTYPE'', - 4028)]"


lemmas uv_code_defs =
  UV__EOF_def UV__UNKNOWN_def UV__EAI_ADDRFAMILY_def UV__EAI_AGAIN_def UV__EAI_BADFLAGS_def UV__EAI_CANCELED_def
  UV__EAI_FAIL_def UV__EAI_FAMILY_def UV__EAI_MEMORY_def UV__EAI_NODATA_def UV__EAI_NONAME_def UV__EAI_OVERFLOW_def
  UV__EAI_SERVICE_def UV__EAI_SOCKTYPE_def UV__EAI_BADHINTS_def UV__EAI_PROTOCOL_def UV__E2BIG_def UV__EACCES_def
  UV__EADDRINUSE_def UV__EADDRNOTAVAIL_def UV__EAFNOSUPPORT_def UV__EAGAIN_def UV__EALREADY_def UV__EBADF_def
  UV__EBUSY_def UV__ECANCELED_def UV__ECHARSET_def UV__ECONNABORTED_def UV__ECONNREFUSED_def UV__ECONNRESET_def
  UV__EDESTADDRREQ_def UV__EEXIST_def UV__EFAULT_def UV__EHOSTUNREACH_def UV__EINTR_def UV__EINVAL_def
  UV__EIO_def UV__EISCONN_def UV__EISDIR_def UV__ELOOP_def UV__EMFILE_def UV__EMSGSIZE_def
  UV__ENAMETOOLONG_def UV__ENETDOWN_def UV__ENETUNREACH_def UV__ENFILE_def UV__ENOBUFS_def UV__ENODEV_def
  UV__ENOENT_def UV__ENOMEM_def UV__ENONET_def UV__ENOSPC_def UV__ENOSYS_def UV__ENOTCONN_def
  UV__ENOTDIR_def UV__ENOTEMPTY_def UV__ENOTSOCK_def UV__ENOTSUP_def UV__EPERM_def UV__EPIPE_def
  UV__EPROTO_def UV__EPROTONOSUPPORT_def UV__EPROTOTYPE_def UV__EROFS_def UV__ESHUTDOWN_def UV__ESPIPE_def
  UV__ESRCH_def UV__ETIMEDOUT_def UV__ETXTBSY_def UV__EXDEV_def UV__EFBIG_def UV__ENOPROTOOPT_def
  UV__ERANGE_def UV__ENXIO_def UV__EMLINK_def UV__EHOSTDOWN_def UV__EREMOTEIO_def UV__ENOTTY_def
  UV__EFTYPE_def

fun code_of :: "platform \<Rightarrow> string option \<times> int \<Rightarrow> int" where
  "code_of p (None, v) = v"
| "code_of p (Some n, v) = system_or p n v"

lemma uv_errno_table: "uv_errno_t p = map (code_of p) (errno_table p)"
  by (simp add: uv_errno_t_def UV_ERRNO_MAP_def errno_table_def uv_code_defs)

text \<open>
  What the platform has to satisfy: positive numbers below libuv's own, no two mapped macros
  with the same number and, where libuv assumes 64 for \<open>EHOSTDOWN\<close>, no other macro with this number.
\<close>

definition errno_names :: "platform \<Rightarrow> string list" where
  "errno_names p = List.map_filter fst (errno_table p)"

definition errno_ok :: "platform \<Rightarrow> bool" where
  "errno_ok p \<longleftrightarrow> (\<exists>e. errno_h p ''EDOM'' = Some e \<and> 0 < e) \<and>
     (\<forall>n e. errno_h p n = Some e \<longrightarrow> 0 < e \<and> e < 3000) \<and>
     (\<forall>n \<in> set (errno_names p). \<forall>m \<in> set (errno_names p). \<forall>e. errno_h p n = Some e \<and> errno_h p m = Some e \<longrightarrow> n = m) \<and>
     (bsd_like p \<longrightarrow> (\<forall>n \<in> set (errno_names p). errno_h p n = Some 64 \<longrightarrow> n = ''EHOSTDOWN''))"

lemma UV__ERR_ok [simp]: "errno_ok p \<Longrightarrow> UV__ERR p x = - x"
  by (auto simp: errno_ok_def UV__ERR_def)

lemma own_numbers_distinct: "errno_ok p \<Longrightarrow> distinct (map snd (errno_table p))"
  by (simp add: errno_table_def)

lemma errno_names_distinct: "distinct (errno_names p)"
  by (simp add: errno_names_def errno_table_def map_filter_simps)

definition own_number :: "platform \<Rightarrow> string option \<Rightarrow> int \<Rightarrow> bool" where
  "own_number p n v \<longleftrightarrow> UV_ERRNO_MAX < v \<and> v < 0 \<and> (v \<le> - 3000 \<or> v = - 64 \<and> n = Some ''EHOSTDOWN'' \<and> bsd_like p)"

lemma own_numbers: "errno_ok p \<Longrightarrow> list_all (\<lambda>(n, v). own_number p n v) (errno_table p)"
  by (simp add: errno_table_def own_number_def UV_ERRNO_MAX_def UV__EOF_def)

text \<open>An entry is libuv's own number, or the negated number of the system.\<close>

lemma code_of_cases:
  assumes "errno_ok p"
  obtains "code_of p (n, v) = v" "\<And>m. n = Some m \<Longrightarrow> errno_h p m = None \<or> ''_WIN32'' \<in> set (predefined p)"
  | m e where "n = Some m" "errno_h p m = Some e" "''_WIN32'' \<notin> set (predefined p)" "code_of p (n, v) = - e"
proof (cases n)
  case (Some m)
  then show thesis using that assms
    by (cases "errno_h p m"; cases "''_WIN32'' \<in> set (predefined p)") (auto simp: system_or_def)
qed (use that in simp)

lemma codes_differ:
  assumes ok: "errno_ok p" and own: "own_number p n v" "own_number p m w" and "v \<noteq> w"
    and names: "set_option n \<union> set_option m \<subseteq> set (errno_names p)" and "n \<noteq> m \<or> n = None"
  shows "code_of p (n, v) \<noteq> code_of p (m, w)"
proof -
  have mixed: "u \<noteq> - e"
    if "own_number p k u" "\<And>x. k = Some x \<Longrightarrow> errno_h p x = None \<or> ''_WIN32'' \<in> set (predefined p)"
      "errno_h p y = Some e" "y \<in> set (errno_names p)" "''_WIN32'' \<notin> set (predefined p)" for k u y e
  proof
    assume u: "u = - e"
    have "0 < e" "e < 3000" using ok that(3) by (auto simp: errno_ok_def)
    then have "e = 64" "k = Some ''EHOSTDOWN''" "bsd_like p" using that(1) u by (auto simp: own_number_def)
    then have "y = ''EHOSTDOWN''" using ok that(3,4) by (auto simp: errno_ok_def)
    then show False using that(2) [of "''EHOSTDOWN''"] that(3,5) \<open>k = Some ''EHOSTDOWN''\<close> by simp
  qed
  show ?thesis
  proof (cases rule: code_of_cases [OF ok, of n v])
    case 1
    then show ?thesis
      using mixed [OF own(1)] names \<open>v \<noteq> w\<close> by (cases rule: code_of_cases [OF ok, of m w]) auto
  next
    case (2 x e)
    note nv = this
    show ?thesis
    proof (cases rule: code_of_cases [OF ok, of m w])
      case 1
      then show ?thesis using mixed [OF own(2)] nv names by fastforce
    next
      case (2 y e')
      have "e \<noteq> e'"
      proof
        assume "e = e'"
        then have "x = y" using ok names nv(1,2) 2(1,2) unfolding errno_ok_def by auto
        then show False using nv(1) 2(1) assms(6) by simp
      qed
      then show ?thesis using nv(4) 2(4) by simp
    qed
  qed
qed

lemma codes_distinct:
  assumes "errno_ok p"
  shows "list_all (\<lambda>(n, v). own_number p n v) tab \<Longrightarrow> distinct (map snd tab) \<Longrightarrow> distinct (List.map_filter fst tab) \<Longrightarrow>
    set (List.map_filter fst tab) \<subseteq> set (errno_names p) \<Longrightarrow> distinct (map (code_of p) tab)"
proof (induction tab)
  case (Cons a tab)
  obtain n v where a: "a = (n, v)" by (cases a)
  have "code_of p (n, v) \<noteq> code_of p (m, w)" if mw: "(m, w) \<in> set tab" for m w
  proof (rule codes_differ [OF assms])
    show "own_number p n v" "own_number p m w" using Cons.prems(1) mw by (auto simp: a list_all_iff)
    show "v \<noteq> w" using Cons.prems(2) mw by (force simp: a)
    have m: "set_option m \<subseteq> set (List.map_filter fst tab)" using mw by (force simp: map_filter_def)
    then show "set_option n \<union> set_option m \<subseteq> set (errno_names p)"
      using Cons.prems(4) by (auto simp: a map_filter_simps split: option.splits)
    show "n \<noteq> m \<or> n = None" using Cons.prems(3) m by (auto simp: a map_filter_simps split: option.splits)
  qed
  moreover have "distinct (map (code_of p) tab)"
    using Cons.prems by (intro Cons.IH) (auto simp: a map_filter_simps split: option.splits)
  ultimately show ?case by (force simp: a)
qed simp

lemma code_of_range:
  assumes "errno_ok p" and "own_number p n v"
  shows "UV_ERRNO_MAX < code_of p (n, v)" "code_of p (n, v) < 0"
proof -
  have "UV_ERRNO_MAX < v \<and> v < 0" using assms(2) by (simp add: own_number_def)
  moreover have "UV_ERRNO_MAX < - e \<and> - e < 0" if "errno_h p m = Some e" for m e
  proof -
    have "0 < e" "e < 3000" using assms(1) that by (auto simp: errno_ok_def)
    then show ?thesis by (simp add: UV_ERRNO_MAX_def UV__EOF_def)
  qed
  ultimately show "UV_ERRNO_MAX < code_of p (n, v)" "code_of p (n, v) < 0"
    by (cases rule: code_of_cases [OF assms(1), of n v]; simp)+
qed

text \<open>
  The fallback of \<open>EPROTO\<close>, alone, goes through \<open>UV__ERR\<close>: on a system whose own numbers are negative
  (\<open>EDOM\<close> not above 0) and that has no \<open>EPROTO\<close>, it is a positive number.
\<close>

lemma EPROTO_fallback_sign:
  "errno_h p ''EPROTO'' = None \<Longrightarrow> errno_h p ''EDOM'' = Some e \<Longrightarrow> e \<le> 0 \<Longrightarrow> UV__EPROTO p = 4046"
  by (simp add: UV__EPROTO_def system_or_def UV__ERR_def)

section \<open>The property\<close>

text \<open>
  On a platform whose numbers are positive, below 3000 and distinct, all codes of \<open>uv_errno_t\<close> are
  distinct, negative and above \<open>UV_ERRNO_MAX\<close>: a result below zero tells exactly one error,
  whichever of the macros the system defines.
\<close>

theorem uv_errno_distinct:
  assumes "errno_ok p"
  shows "distinct (uv_errno_t p) \<and> (\<forall>v \<in> set (uv_errno_t p). UV_ERRNO_MAX < v \<and> v < 0)"
proof -
  have "UV_ERRNO_MAX < code_of p (n, v) \<and> code_of p (n, v) < 0" if "(n, v) \<in> set (errno_table p)" for n v
    using own_numbers [OF assms] that code_of_range [OF assms, of n v] by (auto simp: list_all_iff)
  moreover have "distinct (map (code_of p) (errno_table p))"
    using codes_distinct [OF assms own_numbers [OF assms] own_numbers_distinct [OF assms]] errno_names_distinct
    by (simp add: errno_names_def)
  ultimately show ?thesis by (auto simp: uv_errno_table)
qed

text \<open>A platform that has only some of the macros, among them one BSD names by a fixed number.\<close>

definition small_bsd :: platform where
  "small_bsd = \<lparr>errno_h = [''EDOM'' \<mapsto> 33, ''EPERM'' \<mapsto> 1, ''EAGAIN'' \<mapsto> 35, ''EINVAL'' \<mapsto> 22], predefined = [''__FreeBSD__'']\<rparr>"

theorem uv_errno_distinct_witness: "distinct (uv_errno_t small_bsd)"
proof -
  have "errno_ok small_bsd" by (auto simp: errno_ok_def small_bsd_def split: if_splits)
  from uv_errno_distinct [OF this] show ?thesis by simp
qed

end
