(* ===== verification/OpensslErr.thy ===== *)
theory OpensslErr
  imports Prelude
begin

text \<open>
  The error codes of OpenSSL, \<open>openssl/err.h\<close>: the numbers of the libraries, of the system functions and of the reasons, the macros
  that report an error for a library, and the packing of library, function and reason into one number. \<open>int\<close>s are
  mathematical, \<open>unsigned int\<close> is a 32-bit word and \<open>unsigned long\<close> one of 64 bits.
\<close>

section \<open>Libraries\<close>

definition ERR_LIB_NONE :: int where "ERR_LIB_NONE = 1"
definition ERR_LIB_SYS :: int where "ERR_LIB_SYS = 2"
definition ERR_LIB_BN :: int where "ERR_LIB_BN = 3"
definition ERR_LIB_RSA :: int where "ERR_LIB_RSA = 4"
definition ERR_LIB_DH :: int where "ERR_LIB_DH = 5"
definition ERR_LIB_EVP :: int where "ERR_LIB_EVP = 6"
definition ERR_LIB_BUF :: int where "ERR_LIB_BUF = 7"
definition ERR_LIB_OBJ :: int where "ERR_LIB_OBJ = 8"
definition ERR_LIB_PEM :: int where "ERR_LIB_PEM = 9"
definition ERR_LIB_DSA :: int where "ERR_LIB_DSA = 10"
definition ERR_LIB_X509 :: int where "ERR_LIB_X509 = 11"
definition ERR_LIB_ASN1 :: int where "ERR_LIB_ASN1 = 13"
definition ERR_LIB_CONF :: int where "ERR_LIB_CONF = 14"
definition ERR_LIB_CRYPTO :: int where "ERR_LIB_CRYPTO = 15"
definition ERR_LIB_EC :: int where "ERR_LIB_EC = 16"
definition ERR_LIB_SSL :: int where "ERR_LIB_SSL = 20"
definition ERR_LIB_BIO :: int where "ERR_LIB_BIO = 32"
definition ERR_LIB_PKCS7 :: int where "ERR_LIB_PKCS7 = 33"
definition ERR_LIB_X509V3 :: int where "ERR_LIB_X509V3 = 34"
definition ERR_LIB_PKCS12 :: int where "ERR_LIB_PKCS12 = 35"
definition ERR_LIB_RAND :: int where "ERR_LIB_RAND = 36"
definition ERR_LIB_DSO :: int where "ERR_LIB_DSO = 37"
definition ERR_LIB_ENGINE :: int where "ERR_LIB_ENGINE = 38"
definition ERR_LIB_OCSP :: int where "ERR_LIB_OCSP = 39"
definition ERR_LIB_UI :: int where "ERR_LIB_UI = 40"
definition ERR_LIB_COMP :: int where "ERR_LIB_COMP = 41"
definition ERR_LIB_ECDSA :: int where "ERR_LIB_ECDSA = 42"
definition ERR_LIB_ECDH :: int where "ERR_LIB_ECDH = 43"
definition ERR_LIB_STORE :: int where "ERR_LIB_STORE = 44"
definition ERR_LIB_FIPS :: int where "ERR_LIB_FIPS = 45"
definition ERR_LIB_CMS :: int where "ERR_LIB_CMS = 46"
definition ERR_LIB_TS :: int where "ERR_LIB_TS = 47"
definition ERR_LIB_HMAC :: int where "ERR_LIB_HMAC = 48"
definition ERR_LIB_CT :: int where "ERR_LIB_CT = 50"
definition ERR_LIB_ASYNC :: int where "ERR_LIB_ASYNC = 51"
definition ERR_LIB_KDF :: int where "ERR_LIB_KDF = 52"
definition ERR_LIB_USER :: int where "ERR_LIB_USER = 128"

section \<open>System functions\<close>

definition SYS_F_FOPEN :: int where "SYS_F_FOPEN = 1"
definition SYS_F_CONNECT :: int where "SYS_F_CONNECT = 2"
definition SYS_F_GETSERVBYNAME :: int where "SYS_F_GETSERVBYNAME = 3"
definition SYS_F_SOCKET :: int where "SYS_F_SOCKET = 4"
definition SYS_F_IOCTLSOCKET :: int where "SYS_F_IOCTLSOCKET = 5"
definition SYS_F_BIND :: int where "SYS_F_BIND = 6"
definition SYS_F_LISTEN :: int where "SYS_F_LISTEN = 7"
definition SYS_F_ACCEPT :: int where "SYS_F_ACCEPT = 8"
definition SYS_F_WSASTARTUP :: int where "SYS_F_WSASTARTUP = 9"
definition SYS_F_OPENDIR :: int where "SYS_F_OPENDIR = 10"
definition SYS_F_FREAD :: int where "SYS_F_FREAD = 11"
definition SYS_F_GETADDRINFO :: int where "SYS_F_GETADDRINFO = 12"
definition SYS_F_GETNAMEINFO :: int where "SYS_F_GETNAMEINFO = 13"
definition SYS_F_SETSOCKOPT :: int where "SYS_F_SETSOCKOPT = 14"
definition SYS_F_GETSOCKOPT :: int where "SYS_F_GETSOCKOPT = 15"
definition SYS_F_GETSOCKNAME :: int where "SYS_F_GETSOCKNAME = 16"
definition SYS_F_GETHOSTBYNAME :: int where "SYS_F_GETHOSTBYNAME = 17"
definition SYS_F_FFLUSH :: int where "SYS_F_FFLUSH = 18"

section \<open>Reasons\<close>

definition ERR_R_SYS_LIB :: int where "ERR_R_SYS_LIB = ERR_LIB_SYS"
definition ERR_R_BN_LIB :: int where "ERR_R_BN_LIB = ERR_LIB_BN"
definition ERR_R_RSA_LIB :: int where "ERR_R_RSA_LIB = ERR_LIB_RSA"
definition ERR_R_DH_LIB :: int where "ERR_R_DH_LIB = ERR_LIB_DH"
definition ERR_R_EVP_LIB :: int where "ERR_R_EVP_LIB = ERR_LIB_EVP"
definition ERR_R_BUF_LIB :: int where "ERR_R_BUF_LIB = ERR_LIB_BUF"
definition ERR_R_OBJ_LIB :: int where "ERR_R_OBJ_LIB = ERR_LIB_OBJ"
definition ERR_R_PEM_LIB :: int where "ERR_R_PEM_LIB = ERR_LIB_PEM"
definition ERR_R_DSA_LIB :: int where "ERR_R_DSA_LIB = ERR_LIB_DSA"
definition ERR_R_X509_LIB :: int where "ERR_R_X509_LIB = ERR_LIB_X509"
definition ERR_R_ASN1_LIB :: int where "ERR_R_ASN1_LIB = ERR_LIB_ASN1"
definition ERR_R_EC_LIB :: int where "ERR_R_EC_LIB = ERR_LIB_EC"
definition ERR_R_BIO_LIB :: int where "ERR_R_BIO_LIB = ERR_LIB_BIO"
definition ERR_R_PKCS7_LIB :: int where "ERR_R_PKCS7_LIB = ERR_LIB_PKCS7"
definition ERR_R_X509V3_LIB :: int where "ERR_R_X509V3_LIB = ERR_LIB_X509V3"
definition ERR_R_ENGINE_LIB :: int where "ERR_R_ENGINE_LIB = ERR_LIB_ENGINE"
definition ERR_R_ECDSA_LIB :: int where "ERR_R_ECDSA_LIB = ERR_LIB_ECDSA"
definition ERR_R_NESTED_ASN1_ERROR :: int where "ERR_R_NESTED_ASN1_ERROR = 58"
definition ERR_R_MISSING_ASN1_EOS :: int where "ERR_R_MISSING_ASN1_EOS = 63"
definition ERR_R_FATAL :: int where "ERR_R_FATAL = 64"
definition ERR_R_MALLOC_FAILURE :: int where "ERR_R_MALLOC_FAILURE = 1 OR ERR_R_FATAL"
definition ERR_R_SHOULD_NOT_HAVE_BEEN_CALLED :: int where "ERR_R_SHOULD_NOT_HAVE_BEEN_CALLED = 2 OR ERR_R_FATAL"
definition ERR_R_PASSED_NULL_PARAMETER :: int where "ERR_R_PASSED_NULL_PARAMETER = 3 OR ERR_R_FATAL"
definition ERR_R_INTERNAL_ERROR :: int where "ERR_R_INTERNAL_ERROR = 4 OR ERR_R_FATAL"
definition ERR_R_DISABLED :: int where "ERR_R_DISABLED = 5 OR ERR_R_FATAL"
definition ERR_R_INIT_FAIL :: int where "ERR_R_INIT_FAIL = 6 OR ERR_R_FATAL"
definition ERR_R_PASSED_INVALID_ARGUMENT :: int where "ERR_R_PASSED_INVALID_ARGUMENT = 7"

section \<open>Reporting\<close>

text \<open>\<open>ERR_put_error\<close> is the library's; without error texts (\<open>OPENSSL_NO_ERR\<close>) file and line are left out.\<close>

record 's err_api =
  OPENSSL_NO_ERR :: bool
  ERR_put_error :: "int \<Rightarrow> int \<Rightarrow> int \<Rightarrow> string option \<Rightarrow> int \<Rightarrow> 's \<Rightarrow> 's"

definition ERR_PUT_error :: "'s err_api \<Rightarrow> int \<Rightarrow> int \<Rightarrow> int \<Rightarrow> string \<Rightarrow> int \<Rightarrow> 's \<Rightarrow> 's" where
  "ERR_PUT_error A lib func reason file line st =
     (if \<not> OPENSSL_NO_ERR A then ERR_put_error A lib func reason (Some file) line st
      else ERR_put_error A lib func reason None 0 st)"

definition SYSerr :: "'s err_api \<Rightarrow> int \<Rightarrow> int \<Rightarrow> string \<Rightarrow> int \<Rightarrow> 's \<Rightarrow> 's" where
  "SYSerr A f r = ERR_PUT_error A ERR_LIB_SYS f r"

definition BNerr :: "'s err_api \<Rightarrow> int \<Rightarrow> int \<Rightarrow> string \<Rightarrow> int \<Rightarrow> 's \<Rightarrow> 's" where
  "BNerr A f r = ERR_PUT_error A ERR_LIB_BN f r"

definition RSAerr :: "'s err_api \<Rightarrow> int \<Rightarrow> int \<Rightarrow> string \<Rightarrow> int \<Rightarrow> 's \<Rightarrow> 's" where
  "RSAerr A f r = ERR_PUT_error A ERR_LIB_RSA f r"

definition DHerr :: "'s err_api \<Rightarrow> int \<Rightarrow> int \<Rightarrow> string \<Rightarrow> int \<Rightarrow> 's \<Rightarrow> 's" where
  "DHerr A f r = ERR_PUT_error A ERR_LIB_DH f r"

definition EVPerr :: "'s err_api \<Rightarrow> int \<Rightarrow> int \<Rightarrow> string \<Rightarrow> int \<Rightarrow> 's \<Rightarrow> 's" where
  "EVPerr A f r = ERR_PUT_error A ERR_LIB_EVP f r"

definition BUFerr :: "'s err_api \<Rightarrow> int \<Rightarrow> int \<Rightarrow> string \<Rightarrow> int \<Rightarrow> 's \<Rightarrow> 's" where
  "BUFerr A f r = ERR_PUT_error A ERR_LIB_BUF f r"

definition OBJerr :: "'s err_api \<Rightarrow> int \<Rightarrow> int \<Rightarrow> string \<Rightarrow> int \<Rightarrow> 's \<Rightarrow> 's" where
  "OBJerr A f r = ERR_PUT_error A ERR_LIB_OBJ f r"

definition PEMerr :: "'s err_api \<Rightarrow> int \<Rightarrow> int \<Rightarrow> string \<Rightarrow> int \<Rightarrow> 's \<Rightarrow> 's" where
  "PEMerr A f r = ERR_PUT_error A ERR_LIB_PEM f r"

definition DSAerr :: "'s err_api \<Rightarrow> int \<Rightarrow> int \<Rightarrow> string \<Rightarrow> int \<Rightarrow> 's \<Rightarrow> 's" where
  "DSAerr A f r = ERR_PUT_error A ERR_LIB_DSA f r"

definition X509err :: "'s err_api \<Rightarrow> int \<Rightarrow> int \<Rightarrow> string \<Rightarrow> int \<Rightarrow> 's \<Rightarrow> 's" where
  "X509err A f r = ERR_PUT_error A ERR_LIB_X509 f r"

definition ASN1err :: "'s err_api \<Rightarrow> int \<Rightarrow> int \<Rightarrow> string \<Rightarrow> int \<Rightarrow> 's \<Rightarrow> 's" where
  "ASN1err A f r = ERR_PUT_error A ERR_LIB_ASN1 f r"

definition CONFerr :: "'s err_api \<Rightarrow> int \<Rightarrow> int \<Rightarrow> string \<Rightarrow> int \<Rightarrow> 's \<Rightarrow> 's" where
  "CONFerr A f r = ERR_PUT_error A ERR_LIB_CONF f r"

definition CRYPTOerr :: "'s err_api \<Rightarrow> int \<Rightarrow> int \<Rightarrow> string \<Rightarrow> int \<Rightarrow> 's \<Rightarrow> 's" where
  "CRYPTOerr A f r = ERR_PUT_error A ERR_LIB_CRYPTO f r"

definition ECerr :: "'s err_api \<Rightarrow> int \<Rightarrow> int \<Rightarrow> string \<Rightarrow> int \<Rightarrow> 's \<Rightarrow> 's" where
  "ECerr A f r = ERR_PUT_error A ERR_LIB_EC f r"

definition SSLerr :: "'s err_api \<Rightarrow> int \<Rightarrow> int \<Rightarrow> string \<Rightarrow> int \<Rightarrow> 's \<Rightarrow> 's" where
  "SSLerr A f r = ERR_PUT_error A ERR_LIB_SSL f r"

definition BIOerr :: "'s err_api \<Rightarrow> int \<Rightarrow> int \<Rightarrow> string \<Rightarrow> int \<Rightarrow> 's \<Rightarrow> 's" where
  "BIOerr A f r = ERR_PUT_error A ERR_LIB_BIO f r"

definition PKCS7err :: "'s err_api \<Rightarrow> int \<Rightarrow> int \<Rightarrow> string \<Rightarrow> int \<Rightarrow> 's \<Rightarrow> 's" where
  "PKCS7err A f r = ERR_PUT_error A ERR_LIB_PKCS7 f r"

definition X509V3err :: "'s err_api \<Rightarrow> int \<Rightarrow> int \<Rightarrow> string \<Rightarrow> int \<Rightarrow> 's \<Rightarrow> 's" where
  "X509V3err A f r = ERR_PUT_error A ERR_LIB_X509V3 f r"

definition PKCS12err :: "'s err_api \<Rightarrow> int \<Rightarrow> int \<Rightarrow> string \<Rightarrow> int \<Rightarrow> 's \<Rightarrow> 's" where
  "PKCS12err A f r = ERR_PUT_error A ERR_LIB_PKCS12 f r"

definition RANDerr :: "'s err_api \<Rightarrow> int \<Rightarrow> int \<Rightarrow> string \<Rightarrow> int \<Rightarrow> 's \<Rightarrow> 's" where
  "RANDerr A f r = ERR_PUT_error A ERR_LIB_RAND f r"

definition DSOerr :: "'s err_api \<Rightarrow> int \<Rightarrow> int \<Rightarrow> string \<Rightarrow> int \<Rightarrow> 's \<Rightarrow> 's" where
  "DSOerr A f r = ERR_PUT_error A ERR_LIB_DSO f r"

definition ENGINEerr :: "'s err_api \<Rightarrow> int \<Rightarrow> int \<Rightarrow> string \<Rightarrow> int \<Rightarrow> 's \<Rightarrow> 's" where
  "ENGINEerr A f r = ERR_PUT_error A ERR_LIB_ENGINE f r"

definition OCSPerr :: "'s err_api \<Rightarrow> int \<Rightarrow> int \<Rightarrow> string \<Rightarrow> int \<Rightarrow> 's \<Rightarrow> 's" where
  "OCSPerr A f r = ERR_PUT_error A ERR_LIB_OCSP f r"

definition UIerr :: "'s err_api \<Rightarrow> int \<Rightarrow> int \<Rightarrow> string \<Rightarrow> int \<Rightarrow> 's \<Rightarrow> 's" where
  "UIerr A f r = ERR_PUT_error A ERR_LIB_UI f r"

definition COMPerr :: "'s err_api \<Rightarrow> int \<Rightarrow> int \<Rightarrow> string \<Rightarrow> int \<Rightarrow> 's \<Rightarrow> 's" where
  "COMPerr A f r = ERR_PUT_error A ERR_LIB_COMP f r"

definition ECDSAerr :: "'s err_api \<Rightarrow> int \<Rightarrow> int \<Rightarrow> string \<Rightarrow> int \<Rightarrow> 's \<Rightarrow> 's" where
  "ECDSAerr A f r = ERR_PUT_error A ERR_LIB_ECDSA f r"

definition ECDHerr :: "'s err_api \<Rightarrow> int \<Rightarrow> int \<Rightarrow> string \<Rightarrow> int \<Rightarrow> 's \<Rightarrow> 's" where
  "ECDHerr A f r = ERR_PUT_error A ERR_LIB_ECDH f r"

definition STOREerr :: "'s err_api \<Rightarrow> int \<Rightarrow> int \<Rightarrow> string \<Rightarrow> int \<Rightarrow> 's \<Rightarrow> 's" where
  "STOREerr A f r = ERR_PUT_error A ERR_LIB_STORE f r"

definition FIPSerr :: "'s err_api \<Rightarrow> int \<Rightarrow> int \<Rightarrow> string \<Rightarrow> int \<Rightarrow> 's \<Rightarrow> 's" where
  "FIPSerr A f r = ERR_PUT_error A ERR_LIB_FIPS f r"

definition CMSerr :: "'s err_api \<Rightarrow> int \<Rightarrow> int \<Rightarrow> string \<Rightarrow> int \<Rightarrow> 's \<Rightarrow> 's" where
  "CMSerr A f r = ERR_PUT_error A ERR_LIB_CMS f r"

definition TSerr :: "'s err_api \<Rightarrow> int \<Rightarrow> int \<Rightarrow> string \<Rightarrow> int \<Rightarrow> 's \<Rightarrow> 's" where
  "TSerr A f r = ERR_PUT_error A ERR_LIB_TS f r"

definition HMACerr :: "'s err_api \<Rightarrow> int \<Rightarrow> int \<Rightarrow> string \<Rightarrow> int \<Rightarrow> 's \<Rightarrow> 's" where
  "HMACerr A f r = ERR_PUT_error A ERR_LIB_HMAC f r"

definition CTerr :: "'s err_api \<Rightarrow> int \<Rightarrow> int \<Rightarrow> string \<Rightarrow> int \<Rightarrow> 's \<Rightarrow> 's" where
  "CTerr A f r = ERR_PUT_error A ERR_LIB_CT f r"

definition ASYNCerr :: "'s err_api \<Rightarrow> int \<Rightarrow> int \<Rightarrow> string \<Rightarrow> int \<Rightarrow> 's \<Rightarrow> 's" where
  "ASYNCerr A f r = ERR_PUT_error A ERR_LIB_ASYNC f r"

definition KDFerr :: "'s err_api \<Rightarrow> int \<Rightarrow> int \<Rightarrow> string \<Rightarrow> int \<Rightarrow> 's \<Rightarrow> 's" where
  "KDFerr A f r = ERR_PUT_error A ERR_LIB_KDF f r"

section \<open>Packing\<close>

definition ERR_PACK :: "int \<Rightarrow> int \<Rightarrow> int \<Rightarrow> 32 word" where
  "ERR_PACK l f r =
     (push_bit 24 (word_of_int l AND 0x0FF) OR
      push_bit 12 (word_of_int f AND 0xFFF)) OR
      (word_of_int r AND 0xFFF)"

definition ERR_GET_LIB :: "64 word \<Rightarrow> int" where "ERR_GET_LIB l = uint (drop_bit 24 l AND 0x0FF)"
definition ERR_GET_FUNC :: "64 word \<Rightarrow> int" where "ERR_GET_FUNC l = uint (drop_bit 12 l AND 0xFFF)"
definition ERR_GET_REASON :: "64 word \<Rightarrow> int" where "ERR_GET_REASON l = uint (l AND 0xFFF)"
definition ERR_FATAL_ERROR :: "64 word \<Rightarrow> int" where "ERR_FATAL_ERROR l = uint (l AND word_of_int ERR_R_FATAL)"

section \<open>The error queue\<close>

definition ERR_NUM_ERRORS :: nat where "ERR_NUM_ERRORS = 16"
definition ERR_TXT_MALLOCED :: int where "ERR_TXT_MALLOCED = 1"
definition ERR_TXT_STRING :: int where "ERR_TXT_STRING = 2"
definition ERR_FLAG_MARK :: int where "ERR_FLAG_MARK = 1"

record ERR_STATE =
  err_flags :: "int list"
  err_buffer :: "64 word list"
  err_data :: "ptr list"
  err_data_flags :: "int list"
  err_file :: "ptr list"
  err_line :: "int list"
  err_top :: int
  err_bottom :: int

record ERR_STRING_DATA =
  err_code :: "64 word"
  err_string :: string

section \<open>Properties\<close>

lemma masks: "(0xFF :: 'a :: len word) = mask 8" "(0xFFF :: 'a :: len word) = mask 12"
  by (simp_all add: mask_eq_exp_minus_1)

lemma ERR_PACK_fields:
  "drop_bit 24 (ucast (ERR_PACK l f r) :: 64 word) AND 0xFF = ucast (take_bit 8 (word_of_int l :: 32 word))"
  "drop_bit 12 (ucast (ERR_PACK l f r) :: 64 word) AND 0xFFF = ucast (take_bit 12 (word_of_int f :: 32 word))"
  "(ucast (ERR_PACK l f r) :: 64 word) AND 0xFFF = ucast (take_bit 12 (word_of_int r :: 32 word))"
  unfolding ERR_PACK_def masks take_bit_eq_mask [symmetric]
  by (rule bit_word_eqI; auto simp: bit_simps)+

lemma uint_field: "n \<le> 32 \<Longrightarrow> uint (ucast (take_bit n (word_of_int k :: 32 word)) :: 64 word) = k mod 2 ^ n"
  by (simp add: unsigned_ucast_eq unsigned_take_bit_eq unsigned_of_int min_def flip: take_bit_eq_mod)

text \<open>
  Packing and unpacking an error code. For all numbers of library, function and reason, the three parts of the packed code are the numbers
  reduced to 8, 12 and 12 bits: numbers in range come back unchanged, for every library of the header too, and no part
  disturbs another.
\<close>

theorem ERR_PACK_roundtrip:
  "ERR_GET_LIB (ucast (ERR_PACK l f r)) = l mod 256 \<and>
   ERR_GET_FUNC (ucast (ERR_PACK l f r)) = f mod 4096 \<and>
   ERR_GET_REASON (ucast (ERR_PACK l f r)) = r mod 4096"
  unfolding ERR_GET_LIB_def ERR_GET_FUNC_def ERR_GET_REASON_def ERR_PACK_fields
  by (simp add: uint_field)

text \<open>Only the reasons of the header below 64 are not fatal; a reason of a library of its own can be taken for fatal.\<close>

lemma ERR_FATAL_ERROR_iff: "ERR_FATAL_ERROR (ucast (ERR_PACK l f r)) \<noteq> 0 \<longleftrightarrow> bit r 6"
proof -
  have "ERR_FATAL_ERROR e \<noteq> 0 \<longleftrightarrow> bit e 6" for e :: "64 word"
    using and_exp_eq_0_iff_not_bit [of e 6] by (simp add: ERR_FATAL_ERROR_def ERR_R_FATAL_def unsigned_eq_0_iff)
  moreover have "bit (ERR_PACK l f r) 6 \<longleftrightarrow> bit r 6"
    unfolding ERR_PACK_def masks by (simp add: bit_simps)
  ultimately show ?thesis by (simp add: bit_simps)
qed

text \<open>
  The numbers of the libraries are distinct and fit their 8 bits. Two of the general reasons are the same number: an invalid
  argument cannot be told from an error of the buffer library.
\<close>

lemma ERR_LIB_distinct:
  "distinct [ERR_LIB_NONE, ERR_LIB_SYS, ERR_LIB_BN, ERR_LIB_RSA, ERR_LIB_DH, ERR_LIB_EVP, ERR_LIB_BUF, ERR_LIB_OBJ,
    ERR_LIB_PEM, ERR_LIB_DSA, ERR_LIB_X509, ERR_LIB_ASN1, ERR_LIB_CONF, ERR_LIB_CRYPTO, ERR_LIB_EC, ERR_LIB_SSL,
    ERR_LIB_BIO, ERR_LIB_PKCS7, ERR_LIB_X509V3, ERR_LIB_PKCS12, ERR_LIB_RAND, ERR_LIB_DSO, ERR_LIB_ENGINE,
    ERR_LIB_OCSP, ERR_LIB_UI, ERR_LIB_COMP, ERR_LIB_ECDSA, ERR_LIB_ECDH, ERR_LIB_STORE, ERR_LIB_FIPS, ERR_LIB_CMS,
    ERR_LIB_TS, ERR_LIB_HMAC, ERR_LIB_CT, ERR_LIB_ASYNC, ERR_LIB_KDF, ERR_LIB_USER] \<and> list_all (\<lambda>l. 0 < l \<and> l < 256) [ERR_LIB_NONE, ERR_LIB_SYS, ERR_LIB_BN, ERR_LIB_RSA, ERR_LIB_DH, ERR_LIB_EVP, ERR_LIB_BUF, ERR_LIB_OBJ,
    ERR_LIB_PEM, ERR_LIB_DSA, ERR_LIB_X509, ERR_LIB_ASN1, ERR_LIB_CONF, ERR_LIB_CRYPTO, ERR_LIB_EC, ERR_LIB_SSL,
    ERR_LIB_BIO, ERR_LIB_PKCS7, ERR_LIB_X509V3, ERR_LIB_PKCS12, ERR_LIB_RAND, ERR_LIB_DSO, ERR_LIB_ENGINE,
    ERR_LIB_OCSP, ERR_LIB_UI, ERR_LIB_COMP, ERR_LIB_ECDSA, ERR_LIB_ECDH, ERR_LIB_STORE, ERR_LIB_FIPS, ERR_LIB_CMS,
    ERR_LIB_TS, ERR_LIB_HMAC, ERR_LIB_CT, ERR_LIB_ASYNC, ERR_LIB_KDF, ERR_LIB_USER]"
  by (simp add: ERR_LIB_NONE_def ERR_LIB_SYS_def ERR_LIB_BN_def ERR_LIB_RSA_def ERR_LIB_DH_def ERR_LIB_EVP_def ERR_LIB_BUF_def
      ERR_LIB_OBJ_def ERR_LIB_PEM_def ERR_LIB_DSA_def ERR_LIB_X509_def ERR_LIB_ASN1_def ERR_LIB_CONF_def
      ERR_LIB_CRYPTO_def ERR_LIB_EC_def ERR_LIB_SSL_def ERR_LIB_BIO_def ERR_LIB_PKCS7_def ERR_LIB_X509V3_def
      ERR_LIB_PKCS12_def ERR_LIB_RAND_def ERR_LIB_DSO_def ERR_LIB_ENGINE_def ERR_LIB_OCSP_def ERR_LIB_UI_def
      ERR_LIB_COMP_def ERR_LIB_ECDSA_def ERR_LIB_ECDH_def ERR_LIB_STORE_def ERR_LIB_FIPS_def ERR_LIB_CMS_def
      ERR_LIB_TS_def ERR_LIB_HMAC_def ERR_LIB_CT_def ERR_LIB_ASYNC_def ERR_LIB_KDF_def ERR_LIB_USER_def)

lemma ERR_R_clash: "ERR_R_PASSED_INVALID_ARGUMENT = ERR_R_BUF_LIB"
  by (simp add: ERR_R_PASSED_INVALID_ARGUMENT_def ERR_R_BUF_LIB_def ERR_LIB_BUF_def)

end
