(* ===== verification/Zlib.thy ===== *)
theory Zlib
  imports Prelude
begin

text \<open>
  The code in \<open>zlib.h\<close>: constants, the structures shared with the application, the macros that pass version and
  structure size to the initialisation functions of the library, and the macro \<open>gzgetc\<close> that reads a byte from the buffer of a
  file without calling the library.
\<close>

section \<open>Constants\<close>

definition ZLIB_VERSION :: string where "ZLIB_VERSION = ''1.2.11''"
definition ZLIB_VERNUM :: int where "ZLIB_VERNUM = 0x12b0"
definition ZLIB_VER_MAJOR :: int where "ZLIB_VER_MAJOR = 1"
definition ZLIB_VER_MINOR :: int where "ZLIB_VER_MINOR = 2"
definition ZLIB_VER_REVISION :: int where "ZLIB_VER_REVISION = 11"
definition ZLIB_VER_SUBREVISION :: int where "ZLIB_VER_SUBREVISION = 0"
definition Z_NO_FLUSH :: int where "Z_NO_FLUSH = 0"
definition Z_PARTIAL_FLUSH :: int where "Z_PARTIAL_FLUSH = 1"
definition Z_SYNC_FLUSH :: int where "Z_SYNC_FLUSH = 2"
definition Z_FULL_FLUSH :: int where "Z_FULL_FLUSH = 3"
definition Z_FINISH :: int where "Z_FINISH = 4"
definition Z_BLOCK :: int where "Z_BLOCK = 5"
definition Z_TREES :: int where "Z_TREES = 6"
definition Z_OK :: int where "Z_OK = 0"
definition Z_STREAM_END :: int where "Z_STREAM_END = 1"
definition Z_NEED_DICT :: int where "Z_NEED_DICT = 2"
definition Z_ERRNO :: int where "Z_ERRNO = - 1"
definition Z_STREAM_ERROR :: int where "Z_STREAM_ERROR = - 2"
definition Z_DATA_ERROR :: int where "Z_DATA_ERROR = - 3"
definition Z_MEM_ERROR :: int where "Z_MEM_ERROR = - 4"
definition Z_BUF_ERROR :: int where "Z_BUF_ERROR = - 5"
definition Z_VERSION_ERROR :: int where "Z_VERSION_ERROR = - 6"
definition Z_NO_COMPRESSION :: int where "Z_NO_COMPRESSION = 0"
definition Z_BEST_SPEED :: int where "Z_BEST_SPEED = 1"
definition Z_BEST_COMPRESSION :: int where "Z_BEST_COMPRESSION = 9"
definition Z_DEFAULT_COMPRESSION :: int where "Z_DEFAULT_COMPRESSION = - 1"
definition Z_FILTERED :: int where "Z_FILTERED = 1"
definition Z_HUFFMAN_ONLY :: int where "Z_HUFFMAN_ONLY = 2"
definition Z_RLE :: int where "Z_RLE = 3"
definition Z_FIXED :: int where "Z_FIXED = 4"
definition Z_DEFAULT_STRATEGY :: int where "Z_DEFAULT_STRATEGY = 0"
definition Z_BINARY :: int where "Z_BINARY = 0"
definition Z_TEXT :: int where "Z_TEXT = 1"
definition Z_ASCII :: int where "Z_ASCII = Z_TEXT"
definition Z_UNKNOWN :: int where "Z_UNKNOWN = 2"
definition Z_DEFLATED :: int where "Z_DEFLATED = 8"
definition Z_NULL :: int where "Z_NULL = 0"

section \<open>Structures\<close>

text \<open>Pointers are addresses; \<open>uInt\<close> and \<open>uLong\<close> are 32 and 64 bits wide.\<close>

record z_stream =
  next_in :: nat
  avail_in :: uint32_t
  total_in :: "64 word"
  next_out :: nat
  avail_out :: uint32_t
  total_out :: "64 word"
  z_msg :: nat
  z_state :: nat
  zalloc :: nat
  zfree :: nat
  opaque :: nat
  data_type :: int32_t
  z_adler :: "64 word"
  z_reserved :: "64 word"

record gz_header =
  gz_text :: int32_t
  gz_time :: "64 word"
  gz_xflags :: int32_t
  gz_os :: int32_t
  gz_extra :: nat
  gz_extra_len :: uint32_t
  gz_extra_max :: uint32_t
  gz_name :: nat
  gz_name_max :: uint32_t
  gz_comment :: nat
  gz_comm_max :: uint32_t
  gz_hcrc :: int32_t
  gz_done :: int32_t

text \<open>
  The size of a structure in C: each member at the next multiple of its alignment, which is its size for the types in use,
  and the whole a multiple of the largest one. The members of \<open>z_stream\<close> for pointers of \<open>p\<close> and longs of \<open>l\<close> bytes.
\<close>

definition align_up :: "nat \<Rightarrow> nat \<Rightarrow> nat" where
  "align_up n a = (n + a - 1) div a * a"

definition struct_size :: "nat list \<Rightarrow> nat" where
  "struct_size members = align_up (fold (\<lambda>m n. align_up n m + m) members 0) (Max (set members))"

definition z_stream_members :: "nat \<Rightarrow> nat \<Rightarrow> nat list" where
  "z_stream_members p l = [p, 4, l, p, 4, l, p, p, p, p, p, 4, l, l]"

definition sizeof_z_stream :: "nat \<Rightarrow> nat \<Rightarrow> nat" where
  "sizeof_z_stream p l = struct_size (z_stream_members p l)"

section \<open>Initialisation\<close>

text \<open>The functions with the underscore are the library's; they compare the two last arguments with their own.\<close>

record 's zlib_api =
  pointer_size :: nat
  long_size :: nat
  deflateInit_fn :: "nat \<Rightarrow> int \<Rightarrow> string \<Rightarrow> nat \<Rightarrow> 's \<Rightarrow> int \<times> 's"
  inflateInit_fn :: "nat \<Rightarrow> string \<Rightarrow> nat \<Rightarrow> 's \<Rightarrow> int \<times> 's"
  deflateInit2_fn :: "nat \<Rightarrow> int \<Rightarrow> int \<Rightarrow> int \<Rightarrow> int \<Rightarrow> int \<Rightarrow> string \<Rightarrow> nat \<Rightarrow> 's \<Rightarrow> int \<times> 's"
  inflateInit2_fn :: "nat \<Rightarrow> int \<Rightarrow> string \<Rightarrow> nat \<Rightarrow> 's \<Rightarrow> int \<times> 's"
  inflateBackInit_fn :: "nat \<Rightarrow> int \<Rightarrow> nat \<Rightarrow> string \<Rightarrow> nat \<Rightarrow> 's \<Rightarrow> int \<times> 's"
  gzgetc_fn :: "nat \<Rightarrow> 's \<Rightarrow> int \<times> 's"

abbreviation stream_size :: "'s zlib_api \<Rightarrow> nat" where
  "stream_size Z \<equiv> sizeof_z_stream (pointer_size Z) (long_size Z)"

definition deflateInit :: "'s zlib_api \<Rightarrow> nat \<Rightarrow> int \<Rightarrow> 's \<Rightarrow> int \<times> 's" where
  "deflateInit Z strm level st = deflateInit_fn Z strm level ZLIB_VERSION (stream_size Z) st"

definition inflateInit :: "'s zlib_api \<Rightarrow> nat \<Rightarrow> 's \<Rightarrow> int \<times> 's" where
  "inflateInit Z strm st = inflateInit_fn Z strm ZLIB_VERSION (stream_size Z) st"

definition deflateInit2 :: "'s zlib_api \<Rightarrow> nat \<Rightarrow> int \<Rightarrow> int \<Rightarrow> int \<Rightarrow> int \<Rightarrow> int \<Rightarrow> 's \<Rightarrow> int \<times> 's" where
  "deflateInit2 Z strm level meth windowBits memLevel strategy st =
     deflateInit2_fn Z strm level meth windowBits memLevel strategy ZLIB_VERSION (stream_size Z) st"

definition inflateInit2 :: "'s zlib_api \<Rightarrow> nat \<Rightarrow> int \<Rightarrow> 's \<Rightarrow> int \<times> 's" where
  "inflateInit2 Z strm windowBits st = inflateInit2_fn Z strm windowBits ZLIB_VERSION (stream_size Z) st"

definition inflateBackInit :: "'s zlib_api \<Rightarrow> nat \<Rightarrow> int \<Rightarrow> nat \<Rightarrow> 's \<Rightarrow> int \<times> 's" where
  "inflateBackInit Z strm windowBits window st =
     inflateBackInit_fn Z strm windowBits window ZLIB_VERSION (stream_size Z) st"

section \<open>Reading a byte\<close>

record gzFile_s =
  have_bytes :: uint32_t
  next_byte :: "64 word"
  gz_pos :: int64_t

text \<open>
  The file structures and the memory their buffers are in, followed by whatever else the library keeps. The macro evaluates to an
  \<open>int\<close>: a byte, or what the function returns.
\<close>

record gz_state =
  gz_files :: "nat \<Rightarrow> gzFile_s"
  gz_mem :: "64 word \<Rightarrow> byte"

definition gzgetc :: "('z gz_state_scheme) zlib_api \<Rightarrow> nat \<Rightarrow> 'z gz_state_scheme \<Rightarrow> int \<times> 'z gz_state_scheme" where
  "gzgetc Z g st =
     (let f = gz_files st g
      in if have_bytes f \<noteq> 0 then
           (uint (gz_mem st (next_byte f)),
            st\<lparr>gz_files := (gz_files st)(g := f\<lparr>have_bytes := have_bytes f - 1, gz_pos := gz_pos f + 1,
                next_byte := next_byte f + 1\<rparr>)\<rparr>)
         else gzgetc_fn Z g st)"

text \<open>\<open>k\<close> calls in a row.\<close>

fun gz_reads :: "('z gz_state_scheme) zlib_api \<Rightarrow> nat \<Rightarrow> nat \<Rightarrow> 'z gz_state_scheme \<Rightarrow> int list \<times> 'z gz_state_scheme" where
  "gz_reads Z g 0 st = ([], st)"
| "gz_reads Z g (Suc k) st =
     (let (c, st1) = gzgetc Z g st; (cs, st2) = gz_reads Z g k st1 in (c # cs, st2))"

section \<open>Properties\<close>

lemma z_stream_sizes: "sizeof_z_stream 8 8 = 112" "sizeof_z_stream 4 4 = 56"
  by (simp_all add: sizeof_z_stream_def struct_size_def z_stream_members_def align_up_def)

text \<open>The state after \<open>k\<close> bytes of the buffer were consumed.\<close>

definition gz_advance :: "nat \<Rightarrow> nat \<Rightarrow> 'z gz_state_scheme \<Rightarrow> 'z gz_state_scheme" where
  "gz_advance g k st = st\<lparr>gz_files := (gz_files st)(g := (gz_files st g)
     \<lparr>have_bytes := have_bytes (gz_files st g) - of_nat k, gz_pos := gz_pos (gz_files st g) + of_nat k,
       next_byte := next_byte (gz_files st g) + of_nat k\<rparr>)\<rparr>"

lemma gz_advance_simps [simp]:
  "gz_mem (gz_advance g k st) = gz_mem st"
  "have_bytes (gz_files (gz_advance g k st) g) = have_bytes (gz_files st g) - of_nat k"
  "next_byte (gz_files (gz_advance g k st) g) = next_byte (gz_files st g) + of_nat k"
  "gz_advance g 0 st = st"
  by (simp_all add: gz_advance_def)

lemma gz_advance_add: "gz_advance g k (gz_advance g j st) = gz_advance g (j + k) st"
  by (simp add: gz_advance_def algebra_simps)

lemma gzgetc_buffered:
  "have_bytes (gz_files st g) \<noteq> 0 \<Longrightarrow> gzgetc Z g st = (uint (gz_mem st (next_byte (gz_files st g))), gz_advance g 1 st)"
  by (simp add: gzgetc_def gz_advance_def Let_def)

lemma gz_reads_advance:
  "k \<le> unat (have_bytes (gz_files st g)) \<Longrightarrow>
   gz_reads Z g k st = (map (\<lambda>i. uint (gz_mem st (next_byte (gz_files st g) + of_nat i))) [0..<k], gz_advance g k st)"
proof (induction k arbitrary: st)
  case (Suc k)
  let ?h = "have_bytes (gz_files st g)"
  have nz: "?h \<noteq> 0" using Suc.prems by auto
  then have "unat (?h - 1) = unat ?h - 1" by (simp add: unat_minus_one)
  then have "k \<le> unat (have_bytes (gz_files (gz_advance g 1 st) g))" using Suc.prems by simp
  from Suc.IH [OF this] show ?case
    by (simp add: gzgetc_buffered [OF nz] gz_advance_add upt_conv_Cons map_Suc_upt [symmetric] add.assoc del: upt_Suc)
qed simp

text \<open>
  As long as the buffer of a file has bytes, \<open>gzgetc\<close> delivers them one by one in order, without a call of the library and without
  touching anything but the three members of this file; the counters stay exact, and after the last buffered byte the
  next call goes to the library.
\<close>

theorem gzgetc_reads_buffer:
  assumes "k \<le> unat (have_bytes (gz_files st g))"
  shows "gz_reads Z g k st =
    (map (\<lambda>i. uint (gz_mem st (next_byte (gz_files st g) + of_nat i))) [0..<k], gz_advance g k st) \<and>
    (k = unat (have_bytes (gz_files st g)) \<longrightarrow> gzgetc Z g (gz_advance g k st) = gzgetc_fn Z g (gz_advance g k st))"
  using gz_reads_advance [OF assms] by (simp add: gzgetc_def)

definition sample_zlib :: "(gz_state) zlib_api" where
  "sample_zlib = \<lparr>pointer_size = 8, long_size = 8, deflateInit_fn = \<lambda>s l v n st. (0, st), inflateInit_fn = \<lambda>s v n st. (0, st),
     deflateInit2_fn = \<lambda>s l m w e t v n st. (0, st), inflateInit2_fn = \<lambda>s w v n st. (0, st),
     inflateBackInit_fn = \<lambda>s w b v n st. (0, st), gzgetc_fn = \<lambda>g st. (- 1, st)\<rparr>"

definition sample_gz :: gz_state where
  "sample_gz = \<lparr>gz_files = \<lambda>g. \<lparr>have_bytes = 2, next_byte = 100, gz_pos = 7\<rparr>, gz_mem = \<lambda>a. ucast a\<rparr>"

theorem gzgetc_reads_buffer_witness:
  "fst (gz_reads sample_zlib 0 2 sample_gz) = [100, 101] \<and> fst (gzgetc sample_zlib 0 (gz_advance 0 2 sample_gz)) = - 1"
  using gzgetc_reads_buffer [of 2 sample_gz 0 sample_zlib]
  by (simp add: sample_gz_def sample_zlib_def upt_rec)

end
