(* ===== verification/Spec2Isabelle.thy ===== *)
theory Spec2Isabelle
  imports BridgeConc NativeNode NodeSource NodeStart PgpPwd PgpArmor NodeModule NodeEmbed SplayTree RBIter V8Util V8Platform ObjectWrap UvErrno OpensslErr Zlib
begin

text \<open>
  A verification development of FlowCrypt for Android: its native code, the Kotlin code on the other side of the bridge, and the text handling of
  the Kotlin application around OpenPGP.

  \<^bold>\<open>The program.\<close> The application runs its encryption code in an embedded Node.js. Two C++ files
  under \<open>FlowCrypt/src/main/cpp\<close> connect the two worlds. \<open>native-lib.cpp\<close> implements the JNI
  functions of the Kotlin class \<open>NativeNode\<close>: it redirects \<open>stdout\<close> and \<open>stderr\<close> to the Android
  log, lays out the command line in one block of memory, starts Node and passes messages on.
  \<open>rn-bridge.cpp\<close> is the Node module on the other side. A Java thread that sends a message
  (\<open>rn_bridge_notify\<close>) copies it, puts it into a queue under a mutex and wakes the loop thread with
  \<open>uv_async_send\<close>; the loop thread moves the queue into handles of its own (\<open>flushMessageQueue\<close>) and calls
  the registered JavaScript listeners for each (\<open>doRegisteredCallbacks\<close>); messages from JavaScript
  (\<open>Method_SendMessage\<close>) go to the C callback that \<open>native-lib.cpp\<close> installs, and from there to Java.
  The Kotlin side (\<open>node/\<close> under \<open>FlowCrypt/src/main/java/com/flowcrypt/email\<close>) starts Node once on a thread of its own, puts constants in front of
  the script it runs, waits until Node listens, and answers requests that the script sends over the bridge: \<open>NativeNode\<close> takes a
  request apart, \<open>NodeHost\<close> handles it, and the answer goes back over the same bridge. The rest of the application reads and writes mail; of
  it the code without packages or devices is modelled: how a message text is cut into blocks, how armor is repaired, how a clear text
  message is read, how text becomes HTML, and how strong a pass phrase has to be.
  Under \<open>FlowCrypt/libs/libnode/include/node\<close> are the headers of the Node.js build the bridge is compiled
  and linked against. What they contain as code, in macros, templates and inline functions, is part of the
  program: libuv's trees and error codes, V8's handles, tagged values and containers, Node's module
  macros, \<open>AsyncResource\<close> and \<open>ObjectWrap\<close>, OpenSSL's error codes and zlib's macros. What they only declare is in the prebuilt library and not in the repository.

  \<^bold>\<open>Theories and sources.\<close> Each theory names its definitions after the functions, macros and members they translate.
  \<^item> \<open>Prelude\<close>: machine integers, rule collections, generic lemmas. \<open>CString\<close>: the functions of \<open>string.h\<close> and
    \<open>stdlib.h\<close> in use, on blocks of bytes, with \<open>None\<close> for an access out of bounds. \<open>StdMap\<close>: \<open>std::map\<close>.
  \<^item> \<open>Bridge\<close>: every function of \<open>rn-bridge.cpp\<close>, run by one thread, on a state of heap blocks, queue,
    listeners and event loop. The N-API calls and the two libuv calls are records of functions (\<open>napi_api\<close>, \<open>uv_api\<close>).
  \<^item> \<open>BridgeConc\<close>: the same program as a step relation over any number of notifying threads (\<open>notify_step\<close>), the native
    code of the loop thread (\<open>loop_step\<close>) and the JavaScript code it runs (\<open>js_step\<close>), at the granularity of the critical
    sections, the accesses to shared state and the calls of single listeners.
  \<^item> \<open>NativeLib\<close>: every function of \<open>native-lib.cpp\<close>; JNI, system calls and \<open>node::Start\<close> are parameters.
  \<^item> \<open>Utf8\<close>: standard and JNI's modified UTF-8. \<open>EndToEnd\<close>: the two C++ files composed, from the Java string to the JavaScript
    listeners and back.
  \<^item> \<open>KString\<close>: strings, decimal numbers and modular arithmetic of the Kotlin library. \<open>NodeHost\<close>: \<open>NodeHost.kt\<close> and the format of requests and
    answers. \<open>NativeNode\<close>: \<open>receiveNativeMessageFromNode\<close> on the state of \<open>Bridge\<close>, with the contract \<open>kotlin_attached\<close> that the Java callback of
    \<open>NativeLib\<close> is this method. \<open>NodeSource\<close>: \<open>getJsSrc\<close>, \<open>genConst\<close>, \<open>NodeSecret\<close>, \<open>NodeSecretCerts\<close>. \<open>NodeStart\<close>: \<open>Node.kt\<close> and
    \<open>NativeNode.start\<close> as a step relation over the calling threads, the thread of the constructor and the thread that runs Node.
  \<^item> \<open>StringExt\<close>: \<open>StringExt.kt\<close> and \<open>ByteExt.kt\<close>. \<open>MsgBlockParser\<close>: \<open>MsgBlockParser.detectBlocks\<close>, \<open>MsgBlock.Type\<close>, \<open>MsgBlockFactory.fromContent\<close> and
    the headers of \<open>PgpArmor.kt\<close>. \<open>PgpArmor\<close>: \<open>normalize\<close> and \<open>readSignedClearTextMessage\<close>. \<open>PgpPwd\<close>: \<open>PgpPwd.kt\<close>, over exact decimals.
  \<^item> \<open>NodeModule\<close>: the version and module macros of \<open>node_version.h\<close>, \<open>node_api.h\<close> and \<open>node.h\<close>, the registration of
    \<open>rn_bridge\<close> through them, and the bounds check of \<open>node_buffer.h\<close>. \<open>NodeEmbed\<close>: the inline functions of \<open>node.h\<close> that set
    methods and constants, the encodings, and \<open>AsyncResource\<close>.
  \<^item> \<open>OrderedElems\<close>: the interface of an ordered collection of elements, a locale. \<open>SplayTree\<close>: the
    \<open>SPLAY_\<close> macros of \<open>uv/tree.h\<close> on a heap with two pointers per element. \<open>RBTree\<close>: the \<open>RB_\<close> macros, with parent
    pointers and colours; \<open>RBRep\<close>, \<open>RBInv\<close>, \<open>RBInsert\<close>, \<open>RBRemove\<close>, \<open>RBIter\<close>: what they do.
  \<^item> \<open>UvErrno\<close>: \<open>uv/errno.h\<close> and the map of errors in \<open>uv.h\<close>, over any \<open>errno.h\<close>.
  \<^item> \<open>V8Memory\<close>: namespace \<open>internal\<close> of \<open>v8.h\<close> on a memory of bytes. \<open>V8Handles\<close>: the handle classes, at explicit
    addresses. \<open>V8Values\<close>: values, return values, arguments of callbacks, isolate data, script origins. \<open>V8Casts\<close>: the
    casts, with and without checks. \<open>V8Config\<close>: resource limits, statistics and property handlers. \<open>V8Api\<close>: the remaining
    functions with a body in \<open>v8.h\<close>. \<open>V8Platform\<close>: the default implementations and inline classes of \<open>v8-platform.h\<close>,
    \<open>v8-tracing.h\<close>, \<open>v8-inspector.h\<close> and \<open>v8-profiler.h\<close>.
    \<open>V8Util\<close>: \<open>v8-util.h\<close>. \<open>Ownership\<close>: who owns which engine-side cell, shared by handles and containers.
  \<^item> \<open>ObjectWrap\<close>: \<open>node_object_wrap.h\<close>.
  \<^item> \<open>OpensslErr\<close>: the numbers and macros of \<open>openssl/err.h\<close>. \<open>Zlib\<close>: the structures, constants and macros of \<open>zlib.h\<close>.

  \<^bold>\<open>Conventions.\<close> State is passed explicitly, as records. An undefined behaviour, a failed assertion
  and an endless loop are \<open>None\<close>; a theorem that a function returns says that its value is \<open>Some\<close>. Loops
  that end for a reason of their own are \<open>function\<close>s with a measure; loops over pointers, which may not end on
  a damaged structure, are \<open>partial_function (option)\<close>, and the theorems show that they end on the represented
  ones. There is no fuel in the development.
  An exception of Kotlin is the left value of a sum, a Kotlin string is the list of its 16-bit units. Integers have their width where it matters: V8's words are
  words of 32 and 64 bits, the size of the argument buffer is a 32-bit \<open>int\<close> that wraps.

  \<^bold>\<open>What the lemmas show.\<close>
  \<^item> The bridge: the queue is emptied in order, each message is delivered to every listener and its two blocks are
    freed exactly once. Along all interleavings in which no thread signals an uninitialised handle, every listener that was
    registered when a message was queued is called for it exactly once, with its text, by the time the system is at rest; when
    the notifying threads are idle the loop thread comes to rest by itself, whatever the order of its callbacks; and it does not
    run into undefined behaviour. The steps of \<open>flushMessageQueue\<close>, uninterrupted, are the
    sequential function. Two defects are reachable: an \<open>uv_async_send\<close> on a handle not
    initialised yet (what happens after it is left open), and the loss of messages after a registration that failed.
  \<^item> The composition: a message sent from Java arrives, byte for byte, at every registered listener, also when listeners
    register others or send messages themselves (\<open>js_through_bridge\<close>), and a listener that sends it back
    returns it to Java. The bytes are read as standard UTF-8 on the other side, so the text is the same exactly
    when no character is null or outside the basic plane. Loading the library registers a module whose \<open>Init\<close>
    exports the two functions.
  \<^item> The Kotlin host: a request of the script is answered to every listener with the result of its handler; a request that fails is never answered, and no
    answer has the error header. Over all interleavings Node is constructed once and run at most once, and the result of the
    initialisation can still be success exactly while Node listens or has not ended; the constructor's thread can run ahead of the object it
    posts to. JavaScript reads the constants back exactly when they are safe in a template literal.
  \<^item> Text: \<open>detectBlocks\<close> ends, loses nothing and cuts only at the headers of its table; clear text is read line by line whatever its line ends; escaped HTML
    without \<open>&nbsp;\<close> is unescaped to the text but for line breaks; counting ends unless the needle is empty. A pass phrase is accepted from fifteen days of guessing on.
  \<^item> The JNI layer: the argument block holds exactly the arguments, terminated, at the positions in \<open>argv\<close>,
    and the size overflows for arguments of two gigabytes; the log threads stay in their buffers.
  \<^item> The trees: the splay macros compute the functional top-down splay, the red-black macros keep colours,
    black heights, order and parent pointers; lookup, insertion, removal and iteration agree with the
    sorted list of elements; both trees interpret \<open>ordered_elems\<close>.
  \<^item> V8: tagging is a bijection on the representable integers for both pointer sizes; handles and containers own
    each cell once under the contract of the engine (\<open>cells_contract\<close>); arguments out of range are
    undefined; a wrapper's handle is weak exactly when its reference count is zero; an \<open>AsyncResource\<close> obtains one cell and
    one hook context and gives back exactly these. A task posted to a platform runs through the most specific function it overrides.
  \<^item> The other headers: buffer bounds are checked without overflow, error codes are distinct and negative on every sound
    platform, packed OpenSSL errors unpack to their parts, \<open>gzgetc\<close> reads its buffer in order.
  \<^item> Defects that only the text of a header shows: the enumeration of code events in \<open>v8-profiler.h\<close> has lost its constants
    (\<open>code_event_types\<close>), and two reasons of \<open>err.h\<close> have the same number (\<open>ERR_R_clash\<close>).

  \<^bold>\<open>Parameters.\<close> The contracts assumed of code outside the repository are definitions (\<open>cells_contract\<close>,
  \<open>container_contract\<close>, \<open>hooks_contract\<close>, \<open>uv_contract\<close>, \<open>kotlin_attached\<close>, the laws of \<open>napi_api\<close> named in the theorems, \<open>errno_ok\<close>); each property
  that uses one has a witness with a concrete engine, event loop or platform that satisfies it. Of JavaScript code it is assumed that it reaches
  the globals of the bridge only through the exported methods and the messages they cause (\<open>js_through_bridge\<close>, the closure \<open>js_effect\<close> of these
  operations, from which the invariant follows), or, where one delivery is described, that it frees no block of the bridge (\<open>keeps_blocks\<close>). In
  \<open>BridgeConc\<close> the engine's state is changed at will by each listener call, and registrations and messages from listeners are steps of their own.

  \<^bold>\<open>Not modelled.\<close> Of the Kotlin application: the user interface, mail access, the database, the workers and the key store, which are calls
  of Android, Room, JavaMail and the Gmail client; OpenPGP itself, which is the PGPainless and Bouncy Castle packages; the certificates of
  \<open>NodeSecret.kt\<close>; sanitizing HTML and decoding MIME. The
  bodies of functions the headers only declare; the OpenSSL headers other than \<open>err.h\<close>, which are declarations,
  generated tables of constants and wrappers that forward to the prebuilt library and that the two C++ files do
  not use; the layouts of libuv's handles; the abstract classes of the engine, which have no code; weak memory
  effects of the C++ memory model, since all sharing the model interleaves is at statement level; in particular the unsynchronised read of
  \<open>queue_uv_handle\<close>, a data race for that model, reads the last value written; failure of \<open>malloc\<close>, \<open>calloc\<close>, \<open>NewStringUTF\<close> and
  \<open>uv_async_init\<close>, which the code does not test for.
\<close>

end
